(* ===== verification/Prelude.thy ===== *)
theory Prelude
  imports Main "HOL-Library.Word" "HOL-Library.Monad_Syntax" "HOL-Library.Multiset"
begin

text \<open>
  Shared vocabulary of the development. Go values that every component uses:

  \<^item> a byte slice and a Go string are both a list of characters (bytes);
  \<^item> a slice that may be nil is \<open>'a slice\<close>; ranging over a nil slice visits nothing;
  \<^item> a Go map is an association list, \<open>('k, 'v) gomap\<close>: the list order is the order in
    which a \<^verbatim>\<open>range\<close> loop visits it, and Go leaves that order open, so nothing
    may depend on it. \<open>gm_wf\<close> says that no key occurs twice, and every operation keeps it;
  \<^item> a function whose result type is \<open>'a option\<close> returns \<open>None\<close> exactly where
    the Go code panics, unless its text says that \<open>None\<close> is the error return.

  The locales are interfaces with clients in several theories: \<open>go_map\<close> (the laws of get,
  set and delete), \<open>machine\<close> (an invariant that every step keeps holds after every run) and
  \<open>codec\<close> (a decoder that inverts an encoder).
\<close>

named_theorems gomap \<open>equations of the Go map operations\<close>

section \<open>Slices\<close>

type_synonym bytes = string
type_synonym 'a slice = "'a list option"

definition elems :: "'a slice \<Rightarrow> 'a list" where
  "elems s = (case s of None \<Rightarrow> [] | Some xs \<Rightarrow> xs)"

lemma elems_simps [simp]: "elems None = []" "elems (Some xs) = xs"
  by (simp_all add: elems_def)

section \<open>Go maps\<close>

type_synonym ('k, 'v) gomap = "('k \<times> 'v) list"

definition gm_get :: "('k, 'v) gomap \<Rightarrow> 'k \<Rightarrow> 'v option" where
  "gm_get m k = map_of m k"

definition gm_has :: "('k, 'v) gomap \<Rightarrow> 'k \<Rightarrow> bool" where
  "gm_has m k \<longleftrightarrow> gm_get m k \<noteq> None"

definition gm_del :: "'k \<Rightarrow> ('k, 'v) gomap \<Rightarrow> ('k, 'v) gomap" where
  "gm_del k m = filter (\<lambda>(k', v). k' \<noteq> k) m"

definition gm_set :: "'k \<Rightarrow> 'v \<Rightarrow> ('k, 'v) gomap \<Rightarrow> ('k, 'v) gomap" where
  "gm_set k v m = (k, v) # gm_del k m"

definition gm_wf :: "('k, 'v) gomap \<Rightarrow> bool" where
  "gm_wf m \<longleftrightarrow> distinct (map fst m)"

text \<open>The laws a client of a Go map may use.\<close>

locale go_map =
  fixes get :: "'m \<Rightarrow> 'k \<Rightarrow> 'v option"
    and set_key :: "'k \<Rightarrow> 'v \<Rightarrow> 'm \<Rightarrow> 'm"
    and del_key :: "'k \<Rightarrow> 'm \<Rightarrow> 'm"
  assumes get_set: "get (set_key k v m) = (get m)(k \<mapsto> v)"
    and get_del: "get (del_key k m) = (get m)(k := None)"
begin

lemma get_set_same: "get (set_key k v m) k = Some v"
  by (simp add: get_set)

lemma get_set_other: "k' \<noteq> k \<Longrightarrow> get (set_key k v m) k' = get m k'"
  by (simp add: get_set)

text \<open>A loop that stores one binding per record leaves the last binding of every key.\<close>

lemma get_fold_set:
  "get (fold (\<lambda>r. set_key (f r) (g r)) rs m) k =
     (case map_of (rev (map (\<lambda>r. (f r, g r)) rs)) k of None \<Rightarrow> get m k | Some v \<Rightarrow> Some v)"
  by (induction rs rule: rev_induct) (auto simp: get_set)

lemma get_fold_set_const:
  "get (fold (\<lambda>r. set_key (f r) v) rs m) k = (if k \<in> f ` set rs then Some v else get m k)"
  by (induction rs rule: rev_induct) (auto simp: get_set)

text \<open>A loop that deletes one key per record removes exactly those keys.\<close>

lemma get_fold_del:
  "get (fold (\<lambda>r. del_key (f r)) rs m) k = (if k \<in> f ` set rs then None else get m k)"
  by (induction rs rule: rev_induct) (auto simp: get_del)

end

lemma map_of_filter_key: "map_of (filter (\<lambda>(k', v). P k') m) k = (if P k then map_of m k else None)"
  by (induction m) auto

lemma gm_get_del [gomap, simp]: "gm_get (gm_del k m) = (gm_get m)(k := None)"
  by (rule ext) (simp add: gm_get_def gm_del_def map_of_filter_key)

lemma gm_get_set [gomap, simp]: "gm_get (gm_set k v m) = (gm_get m)(k \<mapsto> v)"
  by (rule ext) (simp add: gm_set_def gm_get_def gm_del_def map_of_filter_key)

interpretation gm: go_map gm_get gm_set gm_del
  by unfold_locales simp_all

lemma gm_get_Nil [gomap, simp]: "gm_get [] = Map.empty"
  by (simp add: gm_get_def fun_eq_iff)

lemma gm_has_simps [gomap, simp]:
  "gm_has [] k = False"
  "gm_has (gm_set k' v m) k = (k = k' \<or> gm_has m k)"
  "gm_has (gm_del k' m) k = (k \<noteq> k' \<and> gm_has m k)"
  by (auto simp: gm_has_def)

lemma gm_has_iff: "gm_has m k \<longleftrightarrow> k \<in> fst ` set m"
  by (simp add: gm_has_def gm_get_def map_of_eq_None_iff)

lemma gm_get_SomeD: "gm_get m k = Some v \<Longrightarrow> (k, v) \<in> set m"
  by (simp add: gm_get_def map_of_SomeD)

lemma gm_get_wf: "gm_wf m \<Longrightarrow> gm_get m k = Some v \<longleftrightarrow> (k, v) \<in> set m"
  by (auto simp: gm_wf_def gm_get_def)

lemma gm_wf_Nil [simp]: "gm_wf []"
  by (simp add: gm_wf_def)

lemma gm_wf_del [simp, intro]: "gm_wf m \<Longrightarrow> gm_wf (gm_del k m)"
  by (simp add: gm_wf_def gm_del_def distinct_map_filter)

lemma gm_wf_set [simp, intro]: "gm_wf m \<Longrightarrow> gm_wf (gm_set k v m)"
  using gm_wf_del [of m k] by (auto simp: gm_wf_def gm_set_def gm_del_def)

lemma gm_del_notin: "\<not> gm_has m k \<Longrightarrow> gm_del k m = m"
  by (induction m) (auto simp: gm_del_def gm_has_iff)

lemma gm_wf_fold:
  "(\<And>x m. gm_wf m \<Longrightarrow> gm_wf (f x m)) \<Longrightarrow> gm_wf m \<Longrightarrow> gm_wf (fold f xs m)"
  by (induction xs arbitrary: m) auto

lemma gm_wf_perm: "mset m = mset m' \<Longrightarrow> gm_wf m = gm_wf m'"
  unfolding gm_wf_def by (metis mset_eq_imp_distinct_iff mset_map)

text \<open>The contents of a map do not depend on the order of its list.\<close>

lemma gm_get_perm: "mset m = mset m' \<Longrightarrow> gm_wf m \<Longrightarrow> gm_get m = gm_get m'"
  using gm_wf_perm [of m m'] gm_get_wf [of m] gm_get_wf [of m'] mset_eq_setD [of m m']
  by (metis ext not_None_eq)

section \<open>Sums over a map\<close>

text \<open>The total of a measure over the values of a map, and how set and delete change it.\<close>

definition gm_sum :: "('v \<Rightarrow> int) \<Rightarrow> ('k, 'v) gomap \<Rightarrow> int" where
  "gm_sum f m = (\<Sum>(k, v)\<leftarrow>m. f v)"

lemma gm_sum_Nil [simp]: "gm_sum f [] = 0"
  by (simp add: gm_sum_def)

lemma gm_sum_Cons [simp]: "gm_sum f ((k, v) # m) = f v + gm_sum f m"
  by (simp add: gm_sum_def)

lemma gm_sum_del:
  "gm_wf m \<Longrightarrow> gm_sum f (gm_del k m) = gm_sum f m - (case gm_get m k of None \<Rightarrow> 0 | Some v \<Rightarrow> f v)"
proof (induction m)
  case Nil
  then show ?case by (simp add: gm_del_def)
next
  case (Cons a m)
  obtain k' v where a: "a = (k', v)" by (cases a)
  have wf: "gm_wf m" and k': "\<not> gm_has m k'"
    using Cons.prems a by (auto simp: gm_wf_def gm_has_iff)
  show ?case
  proof (cases "k' = k")
    case True
    with k' have "gm_del k m = m" by (simp add: gm_del_notin)
    with True a show ?thesis by (simp add: gm_del_def gm_get_def)
  next
    case False
    with Cons.IH [OF wf] a show ?thesis by (simp add: gm_del_def gm_get_def)
  qed
qed

lemma gm_sum_set:
  "gm_wf m \<Longrightarrow>
     gm_sum f (gm_set k v m) = f v + gm_sum f m - (case gm_get m k of None \<Rightarrow> 0 | Some w \<Rightarrow> f w)"
  by (simp add: gm_set_def gm_sum_del)

lemma gm_sum_set_le:
  "gm_wf m \<Longrightarrow> (\<And>k w. (k, w) \<in> set m \<Longrightarrow> 0 \<le> f w) \<Longrightarrow> gm_sum f (gm_set k v m) \<le> f v + gm_sum f m"
  by (auto simp: gm_sum_set dest: gm_get_SomeD split: option.splits)

lemma gm_sum_perm: "mset m = mset m' \<Longrightarrow> gm_sum f m = gm_sum f m'"
  unfolding gm_sum_def by (metis mset_map sum_mset_sum_list)

lemma gm_sum_cong: "(\<And>k v. (k, v) \<in> set m \<Longrightarrow> f v = g v) \<Longrightarrow> gm_sum f m = gm_sum g m"
  unfolding gm_sum_def by (rule arg_cong [where f = sum_list], rule map_cong) auto

section \<open>Machines\<close>

text \<open>
  A component as a machine: a step per operation, run over a list of operations. An invariant
  that every enabled step keeps holds after every run of enabled steps.
\<close>

fun run_ops :: "('s \<Rightarrow> 'e \<Rightarrow> 's) \<Rightarrow> 's \<Rightarrow> 'e list \<Rightarrow> 's" where
  "run_ops step s [] = s"
| "run_ops step s (e # es) = run_ops step (step s e) es"

locale machine =
  fixes step :: "'s \<Rightarrow> 'e \<Rightarrow> 's"
    and inv :: "'s \<Rightarrow> bool"
    and init :: 's
  assumes inv_init: "inv init"
    and inv_step: "inv s \<Longrightarrow> inv (step s e)"
begin

lemma inv_run: "inv s \<Longrightarrow> inv (run_ops step s es)"
  by (induction es arbitrary: s) (auto intro: inv_step)

lemma inv_reachable: "inv (run_ops step init es)"
  by (rule inv_run) (rule inv_init)

end

section \<open>Codecs\<close>

text \<open>
  An encoder and a partial decoder that inverts it on the well-formed values. Element-wise
  decoding of a list stops at the first failure, as a decoding loop does.
\<close>

fun mapM :: "('a \<Rightarrow> 'b option) \<Rightarrow> 'a list \<Rightarrow> 'b list option" where
  "mapM f [] = Some []"
| "mapM f (x # xs) = (case f x of None \<Rightarrow> None
     | Some y \<Rightarrow> (case mapM f xs of None \<Rightarrow> None | Some ys \<Rightarrow> Some (y # ys)))"

lemma mapM_Some_iff: "mapM f xs = Some ys \<longleftrightarrow> map f xs = map Some ys"
proof (induction xs arbitrary: ys)
  case Nil
  then show ?case by auto
next
  case (Cons x xs)
  then show ?case by (cases ys; cases "f x"; cases "mapM f xs") auto
qed

lemma length_mapM: "mapM f xs = Some ys \<Longrightarrow> length ys = length xs"
  by (metis length_map mapM_Some_iff)

lemma mapM_map: "mapM f (map g xs) = mapM (f \<circ> g) xs"
  by (induction xs) (auto split: option.splits)

locale codec =
  fixes enc :: "'a \<Rightarrow> 'j"
    and dec :: "'j \<Rightarrow> 'a option"
    and wf :: "'a \<Rightarrow> bool"
  assumes dec_enc: "wf x \<Longrightarrow> dec (enc x) = Some x"
begin

lemma enc_inj: "wf x \<Longrightarrow> wf y \<Longrightarrow> enc x = enc y \<Longrightarrow> x = y"
  by (metis dec_enc option.inject)

lemma dec_list: "list_all wf xs \<Longrightarrow> mapM dec (map enc xs) = Some xs"
  by (induction xs) (auto simp: dec_enc)

end

end
