(* ===== verification/Json.thy ===== *)
theory Json
  imports Prelude
begin

text \<open>
  What the node uses of Go's \<^verbatim>\<open>encoding/json\<close>: JSON values, the compact text that
  \<^verbatim>\<open>json.Marshal\<close> writes (with its HTML escaping), the parser behind
  \<^verbatim>\<open>json.Unmarshal\<close>, and the lookup of a struct field among the members of an object.
  Number literals without fraction and exponent are \<open>JInt\<close>; any other number literal is kept
  as text in \<open>JFrac\<close> (the node's types never marshal to one). Bytes above 0x7F are copied
  unchanged in both directions: strings are taken to be valid UTF-8, and the objects of the
  protocol hold ASCII only.

  Corners left out, none of which the node's own texts reach: \<^verbatim>\<open>json.Unmarshal\<close> stops at 10000 levels
  of nesting, the parser here at none; of several members with the name of one field \<open>jfield\<close> takes
  the last, where Go decodes each in turn and fails if an earlier one is bad; the names are compared
  up to ASCII case, where Go folds Unicode.

  The main result is \<open>parse_print\<close>: parsing the marshalled text of a value gives the value
  back, whatever text follows it.
\<close>

datatype json =
    JNull
  | JBool bool
  | JInt int
  | JFrac string
  | JStr string
  | JArr "json list"
  | JObj "(string \<times> json) list"

section \<open>Decimal numbers\<close>

definition digit_char :: "nat \<Rightarrow> char" where
  "digit_char d = char_of (48 + d)"

definition digit_val :: "char \<Rightarrow> nat" where
  "digit_val c = of_char c - 48"

definition is_digit :: "char \<Rightarrow> bool" where
  "is_digit c \<longleftrightarrow> 48 \<le> (of_char c :: nat) \<and> (of_char c :: nat) \<le> 57"

fun string_of_nat :: "nat \<Rightarrow> string" where
  "string_of_nat n =
     (if n < 10 then [digit_char n] else string_of_nat (n div 10) @ [digit_char (n mod 10)])"

declare string_of_nat.simps [simp del]

definition string_of_int :: "int \<Rightarrow> string" where
  "string_of_int i =
     (if i < 0 then CHR ''-'' # string_of_nat (nat (- i)) else string_of_nat (nat i))"

definition nat_of_string :: "string \<Rightarrow> nat" where
  "nat_of_string s = foldl (\<lambda>n c. 10 * n + digit_val c) 0 s"

text \<open>An unsigned decimal literal, as the JSON grammar has it: no leading zero.\<close>

definition nat_literal :: "string \<Rightarrow> bool" where
  "nat_literal s \<longleftrightarrow> s \<noteq> [] \<and> list_all is_digit s \<and> (length s = 1 \<or> hd s \<noteq> CHR ''0'')"

definition parse_int :: "string \<Rightarrow> int option" where
  "parse_int s = (case s of
     [] \<Rightarrow> None
   | c # cs \<Rightarrow>
       if c = CHR ''-'' then (if nat_literal cs then Some (- int (nat_of_string cs)) else None)
       else if nat_literal s then Some (int (nat_of_string s)) else None)"

lemma of_digit_char: "d < 10 \<Longrightarrow> (of_char (digit_char d) :: nat) = 48 + d"
  by (simp add: digit_char_def)

lemma digit_val_char [simp]: "d < 10 \<Longrightarrow> digit_val (digit_char d) = d"
  by (simp add: digit_val_def of_digit_char)

lemma is_digit_char [simp]: "d < 10 \<Longrightarrow> is_digit (digit_char d)"
  by (simp add: is_digit_def of_digit_char)

lemma is_digit_minus [simp]: "\<not> is_digit CHR ''-''"
  by (simp add: is_digit_def)

lemma digit_char_eq_0: "d < 10 \<Longrightarrow> digit_char d = CHR ''0'' \<longleftrightarrow> d = 0"
proof -
  have "digit_char d = CHR ''0'' \<longleftrightarrow> (of_char (digit_char d) :: nat) = of_char CHR ''0''"
    by (simp only: of_char_eq_iff)
  then show "d < 10 \<Longrightarrow> digit_char d = CHR ''0'' \<longleftrightarrow> d = 0"
    by (simp add: of_digit_char)
qed

lemma string_of_nat_digits: "list_all is_digit (string_of_nat n)"
proof (induction n rule: string_of_nat.induct)
  case (1 n)
  then show ?case by (subst string_of_nat.simps) auto
qed

lemma string_of_nat_nonempty [simp]: "string_of_nat n \<noteq> []"
  by (subst string_of_nat.simps) simp

lemma string_of_nat_first: "0 < n \<Longrightarrow> hd (string_of_nat n) \<noteq> CHR ''0''"
proof (induction n rule: string_of_nat.induct)
  case (1 n)
  then show ?case by (subst string_of_nat.simps) (auto simp: digit_char_eq_0)
qed

lemma nat_of_string_of_nat [simp]: "nat_of_string (string_of_nat n) = n"
proof (induction n rule: string_of_nat.induct)
  case (1 n)
  then show ?case
    by (subst string_of_nat.simps) (auto simp: nat_of_string_def)
qed

lemma nat_literal_string_of_nat [simp]: "nat_literal (string_of_nat n)"
proof (cases "n = 0")
  case True
  then show ?thesis by (simp add: nat_literal_def string_of_nat.simps)
next
  case False
  then show ?thesis by (simp add: nat_literal_def string_of_nat_digits string_of_nat_first)
qed

lemma string_of_nat_Cons:
  obtains c cs where "string_of_nat n = c # cs" "is_digit c"
  using string_of_nat_digits [of n] string_of_nat_nonempty [of n]
  by (cases "string_of_nat n") auto

lemma parse_int_string_of_nat [simp]: "parse_int (string_of_nat n) = Some (int n)"
proof -
  obtain c cs where c: "string_of_nat n = c # cs" "is_digit c" by (rule string_of_nat_Cons)
  then have "c \<noteq> CHR ''-''" by (auto simp: is_digit_def)
  then show ?thesis
    using nat_literal_string_of_nat [of n] nat_of_string_of_nat [of n] c
    by (simp add: parse_int_def)
qed

lemma parse_int_string_of_int [simp]: "parse_int (string_of_int i) = Some i"
  by (cases "i < 0") (simp_all add: string_of_int_def, simp add: parse_int_def)

lemma string_of_int_inj: "string_of_int i = string_of_int j \<Longrightarrow> i = j"
  by (metis option.inject parse_int_string_of_int)

section \<open>Marshalling\<close>

definition hex_digit :: "nat \<Rightarrow> char" where
  "hex_digit n = (if n < 10 then char_of (48 + n) else char_of (87 + n))"

definition escape_char :: "char \<Rightarrow> string" where
  "escape_char c =
     (if c = CHR 0x22 then [CHR 0x5C, CHR 0x22]
      else if c = CHR 0x5C then [CHR 0x5C, CHR 0x5C]
      else if c = CHR 0x08 then [CHR 0x5C, CHR ''b'']
      else if c = CHR 0x0C then [CHR 0x5C, CHR ''f'']
      else if c = CHR 0x0A then [CHR 0x5C, CHR ''n'']
      else if c = CHR 0x0D then [CHR 0x5C, CHR ''r'']
      else if c = CHR 0x09 then [CHR 0x5C, CHR ''t'']
      else if (of_char c :: nat) < 32 \<or> c = CHR ''<'' \<or> c = CHR ''>'' \<or> c = CHR 0x26
      then [CHR 0x5C, CHR ''u'', CHR ''0'', CHR ''0'',
            hex_digit (of_char c div 16), hex_digit (of_char c mod 16)]
      else [c])"

definition quote :: "string \<Rightarrow> string" where
  "quote s = CHR 0x22 # concat (map escape_char s) @ [CHR 0x22]"

fun comma_sep :: "string list \<Rightarrow> string" where
  "comma_sep [] = []"
| "comma_sep [x] = x"
| "comma_sep (x # y # xs) = x @ CHR '','' # comma_sep (y # xs)"

fun print_json :: "json \<Rightarrow> string" where
  "print_json JNull = ''null''"
| "print_json (JBool b) = (if b then ''true'' else ''false'')"
| "print_json (JInt i) = string_of_int i"
| "print_json (JFrac s) = s"
| "print_json (JStr s) = quote s"
| "print_json (JArr xs) = CHR ''['' # comma_sep (map print_json xs) @ '']''"
| "print_json (JObj kvs) =
     CHR ''{'' # comma_sep (map (\<lambda>(k, v). quote k @ CHR '':'' # print_json v) kvs) @ ''}''"

section \<open>Parsing\<close>

definition is_ws :: "char \<Rightarrow> bool" where
  "is_ws c \<longleftrightarrow> c = CHR 0x20 \<or> c = CHR 0x09 \<or> c = CHR 0x0A \<or> c = CHR 0x0D"

definition skip_ws :: "string \<Rightarrow> string" where
  "skip_ws s = dropWhile is_ws s"

definition hex_val :: "char \<Rightarrow> nat option" where
  "hex_val c = (let n = of_char c :: nat in
     if 48 \<le> n \<and> n \<le> 57 then Some (n - 48)
     else if 97 \<le> n \<and> n \<le> 102 then Some (n - 87)
     else if 65 \<le> n \<and> n \<le> 70 then Some (n - 55)
     else None)"

definition hex4 :: "char \<Rightarrow> char \<Rightarrow> char \<Rightarrow> char \<Rightarrow> nat option" where
  "hex4 a b c d = do {
     w \<leftarrow> hex_val a; x \<leftarrow> hex_val b; y \<leftarrow> hex_val c; z \<leftarrow> hex_val d;
     Some (w * 4096 + x * 256 + y * 16 + z) }"

definition utf8_encode :: "nat \<Rightarrow> string" where
  "utf8_encode n =
     (if n < 0x80 then [char_of n]
      else if n < 0x800 then [char_of (0xC0 + n div 64), char_of (0x80 + n mod 64)]
      else if n < 0x10000
      then [char_of (0xE0 + n div 4096), char_of (0x80 + n div 64 mod 64), char_of (0x80 + n mod 64)]
      else [char_of (0xF0 + n div 262144), char_of (0x80 + n div 4096 mod 64),
            char_of (0x80 + n div 64 mod 64), char_of (0x80 + n mod 64)])"

definition unescape :: "char \<Rightarrow> char option" where
  "unescape c =
     (if c = CHR 0x22 \<or> c = CHR 0x5C \<or> c = CHR ''/'' then Some c
      else if c = CHR ''b'' then Some (CHR 0x08)
      else if c = CHR ''f'' then Some (CHR 0x0C)
      else if c = CHR ''n'' then Some (CHR 0x0A)
      else if c = CHR ''r'' then Some (CHR 0x0D)
      else if c = CHR ''t'' then Some (CHR 0x09)
      else None)"

text \<open>
  A \<^verbatim>\<open>\\u\<close> escape: a surrogate half stands for U+FFFD unless the next escape
  completes the pair. \<open>low_half\<close> reads that next escape.
\<close>

definition low_half :: "string \<Rightarrow> (nat \<times> string) option" where
  "low_half s = (case s of
     x # u # a # b # c # d # r \<Rightarrow>
       if x = CHR 0x5C \<and> u = CHR ''u'' then
         (case hex4 a b c d of
            Some n \<Rightarrow> if 0xDC00 \<le> n \<and> n < 0xE000 then Some (n, r) else None
          | None \<Rightarrow> None)
       else None
   | _ \<Rightarrow> None)"

lemma low_half_length: "low_half s = Some (n, r) \<Longrightarrow> length r < length s"
  by (auto simp: low_half_def split: list.splits option.splits if_splits)

function parse_chars :: "string \<Rightarrow> (string \<times> string) option" where
  "parse_chars [] = None"
| "parse_chars (c # cs) =
     (if c = CHR 0x22 then Some ([], cs)
      else if c = CHR 0x5C then
        (case cs of
           [] \<Rightarrow> None
         | e # cs1 \<Rightarrow>
             if e = CHR ''u'' then
               (case cs1 of
                  h1 # h2 # h3 # h4 # cs2 \<Rightarrow>
                    (case hex4 h1 h2 h3 h4 of
                       None \<Rightarrow> None
                     | Some n \<Rightarrow>
                         if n < 0xD800 \<or> 0xE000 \<le> n
                         then map_option (apfst ((@) (utf8_encode n))) (parse_chars cs2)
                         else (case (if n < 0xDC00 then low_half cs2 else None) of
                             Some (m, cs3) \<Rightarrow>
                               map_option (apfst ((@) (utf8_encode
                                 (0x10000 + (n - 0xD800) * 1024 + (m - 0xDC00))))) (parse_chars cs3)
                           | None \<Rightarrow> map_option (apfst ((@) (utf8_encode 0xFFFD))) (parse_chars cs2)))
                | _ \<Rightarrow> None)
             else (case unescape e of
                 None \<Rightarrow> None
               | Some d \<Rightarrow> map_option (apfst ((#) d)) (parse_chars cs1)))
      else if (of_char c :: nat) < 32 then None
      else map_option (apfst ((#) c)) (parse_chars cs))"
  by pat_completeness auto
termination
  by (relation "measure length") (auto dest!: low_half_length split: if_splits)

declare parse_chars.simps(2) [simp del]

text \<open>Number literals, by the JSON grammar: an integer part, a fraction, an exponent.\<close>

definition is_num_char :: "char \<Rightarrow> bool" where
  "is_num_char c \<longleftrightarrow> is_digit c \<or> c \<in> set ''+-.eE''"

definition exp_literal :: "string \<Rightarrow> bool" where
  "exp_literal s = (case s of
     [] \<Rightarrow> True
   | e # t \<Rightarrow> (e = CHR ''e'' \<or> e = CHR ''E'') \<and>
       (let u = (case t of x # y \<Rightarrow> if x = CHR ''+'' \<or> x = CHR ''-'' then y else t | [] \<Rightarrow> [])
        in u \<noteq> [] \<and> list_all is_digit u))"

definition frac_literal :: "string \<Rightarrow> bool" where
  "frac_literal s =
     (let u = (case s of x # y \<Rightarrow> if x = CHR ''-'' then y else s | [] \<Rightarrow> []);
          i = takeWhile is_digit u; r = dropWhile is_digit u
      in nat_literal i \<and>
         (case r of
            [] \<Rightarrow> True
          | x # y \<Rightarrow>
              if x = CHR ''.'' then takeWhile is_digit y \<noteq> [] \<and> exp_literal (dropWhile is_digit y)
              else exp_literal r))"

definition parse_number :: "string \<Rightarrow> (json \<times> string) option" where
  "parse_number s =
     (let lit = takeWhile is_num_char s; r = dropWhile is_num_char s
      in (case parse_int lit of
            Some i \<Rightarrow> Some (JInt i, r)
          | None \<Rightarrow> if frac_literal lit then Some (JFrac lit, r) else None))"

definition parse_word :: "string \<Rightarrow> json \<Rightarrow> string \<Rightarrow> (json \<times> string) option" where
  "parse_word w j s = (if take (length w) s = w then Some (j, drop (length w) s) else None)"

text \<open>
  The value parser. Every call spends one unit of fuel; a call that spends a unit without
  reading a character is followed by one that reads one, so twice the length of the text and
  two more are enough (\<open>parse_print\<close> below).
\<close>

fun parse_value :: "nat \<Rightarrow> string \<Rightarrow> (json \<times> string) option"
  and parse_elems :: "nat \<Rightarrow> string \<Rightarrow> (json list \<times> string) option"
  and parse_members :: "nat \<Rightarrow> string \<Rightarrow> ((string \<times> json) list \<times> string) option"
where
  "parse_value 0 s = None"
| "parse_value (Suc n) s = (case skip_ws s of
     [] \<Rightarrow> None
   | c # cs \<Rightarrow>
       if c = CHR ''{'' then
         (case skip_ws cs of
            [] \<Rightarrow> None
          | d # ds \<Rightarrow> if d = CHR ''}'' then Some (JObj [], ds)
                      else map_option (apfst JObj) (parse_members n (d # ds)))
       else if c = CHR ''['' then
         (case skip_ws cs of
            [] \<Rightarrow> None
          | d # ds \<Rightarrow> if d = CHR '']'' then Some (JArr [], ds)
                      else map_option (apfst JArr) (parse_elems n (d # ds)))
       else if c = CHR 0x22 then map_option (apfst JStr) (parse_chars cs)
       else if c = CHR ''t'' then parse_word ''rue'' (JBool True) cs
       else if c = CHR ''f'' then parse_word ''alse'' (JBool False) cs
       else if c = CHR ''n'' then parse_word ''ull'' JNull cs
       else parse_number (c # cs))"
| "parse_elems 0 s = None"
| "parse_elems (Suc n) s = (case parse_value n s of
     None \<Rightarrow> None
   | Some (j, r) \<Rightarrow> (case skip_ws r of
       [] \<Rightarrow> None
     | c # cs \<Rightarrow> if c = CHR '']'' then Some ([j], cs)
                 else if c = CHR '','' then map_option (apfst ((#) j)) (parse_elems n cs)
                 else None))"
| "parse_members 0 s = None"
| "parse_members (Suc n) s = (case skip_ws s of
     [] \<Rightarrow> None
   | q # qs \<Rightarrow>
       if q \<noteq> CHR 0x22 then None
       else (case parse_chars qs of
           None \<Rightarrow> None
         | Some (k, r) \<Rightarrow> (case skip_ws r of
             [] \<Rightarrow> None
           | d # ds \<Rightarrow>
               if d \<noteq> CHR '':'' then None
               else (case parse_value n ds of
                   None \<Rightarrow> None
                 | Some (j, r1) \<Rightarrow> (case skip_ws r1 of
                     [] \<Rightarrow> None
                   | e # es \<Rightarrow> if e = CHR ''}'' then Some ([(k, j)], es)
                               else if e = CHR '','' then map_option (apfst ((#) (k, j))) (parse_members n es)
                               else None)))))"

definition parse_json :: "string \<Rightarrow> json option" where
  "parse_json s = (case parse_value (2 * length s + 2) s of
     None \<Rightarrow> None
   | Some (j, r) \<Rightarrow> if skip_ws r = [] then Some j else None)"

section \<open>Parsing what was marshalled\<close>

text \<open>Every character's escape is read back as that character, by cases over the 256 bytes.\<close>

lemma parse_chars_quote_end [simp]: "parse_chars (CHR 0x22 # r) = Some ([], r)"
  by (simp add: parse_chars.simps)

lemma parse_chars_plain:
  "c \<noteq> CHR 0x22 \<Longrightarrow> c \<noteq> CHR 0x5C \<Longrightarrow> 32 \<le> (of_char c :: nat) \<Longrightarrow>
   parse_chars (c # r) = map_option (apfst ((#) c)) (parse_chars r)"
  by (simp add: parse_chars.simps)

lemma hex_val_digit: "n < 16 \<Longrightarrow> hex_val (hex_digit n) = Some n"
  by (auto simp: hex_val_def hex_digit_def Let_def)

lemma parse_chars_unicode:
  assumes "n < 128"
  shows "parse_chars (CHR 0x5C # CHR ''u'' # CHR ''0'' # CHR ''0'' #
           hex_digit (n div 16) # hex_digit (n mod 16) # r)
         = map_option (apfst ((#) (char_of n))) (parse_chars r)"
proof -
  have z: "hex_val CHR ''0'' = Some 0" by (simp add: hex_val_def)
  have "hex4 CHR ''0'' CHR ''0'' (hex_digit (n div 16)) (hex_digit (n mod 16)) = Some n"
    using assms by (simp add: hex4_def z hex_val_digit)
  moreover have "(@) [char_of n :: char] = (#) (char_of n)" by (simp add: fun_eq_iff)
  ultimately show ?thesis
    using assms by (simp add: parse_chars.simps utf8_encode_def)
qed

definition named_escape :: "char \<Rightarrow> bool" where
  "named_escape c \<longleftrightarrow>
     c \<in> {CHR 0x22, CHR 0x5C, CHR 0x08, CHR 0x0C, CHR 0x0A, CHR 0x0D, CHR 0x09}"

definition coded_escape :: "char \<Rightarrow> bool" where
  "coded_escape c \<longleftrightarrow> (of_char c :: nat) < 32 \<or> c = CHR ''<'' \<or> c = CHR ''>'' \<or> c = CHR 0x26"

lemma parse_chars_named:
  "named_escape c \<Longrightarrow> parse_chars (escape_char c @ r) = map_option (apfst ((#) c)) (parse_chars r)"
  by (auto simp: named_escape_def escape_char_def parse_chars.simps unescape_def)

lemma escape_char_coded:
  "\<not> named_escape c \<Longrightarrow> coded_escape c \<Longrightarrow>
     escape_char c = [CHR 0x5C, CHR ''u'', CHR ''0'', CHR ''0'',
       hex_digit (of_char c div 16), hex_digit (of_char c mod 16)]"
  by (simp add: named_escape_def coded_escape_def escape_char_def)

lemma escape_char_plain: "\<not> named_escape c \<Longrightarrow> \<not> coded_escape c \<Longrightarrow> escape_char c = [c]"
  by (simp add: named_escape_def coded_escape_def escape_char_def)

lemma parse_chars_escape:
  "parse_chars (escape_char c @ r) = map_option (apfst ((#) c)) (parse_chars r)"
proof (cases "named_escape c")
  case True
  then show ?thesis by (rule parse_chars_named)
next
  case n: False
  show ?thesis
  proof (cases "coded_escape c")
    case True
    then have "(of_char c :: nat) < 128" by (auto simp: coded_escape_def)
    with n True show ?thesis
      using parse_chars_unicode [of "of_char c" r] by (simp add: escape_char_coded)
  next
    case False
    with n have "c \<noteq> CHR 0x22" "c \<noteq> CHR 0x5C" "32 \<le> (of_char c :: nat)"
      by (simp_all add: named_escape_def coded_escape_def)
    with n False show ?thesis by (simp add: escape_char_plain parse_chars_plain)
  qed
qed

lemma parse_chars_quote:
  "parse_chars (concat (map escape_char s) @ CHR 0x22 # r) = Some (s, r)"
  by (induction s) (simp_all add: parse_chars_escape)

lemma not_ws [simp]:
  "\<not> is_ws CHR ''{''" "\<not> is_ws CHR ''}''" "\<not> is_ws CHR ''[''" "\<not> is_ws CHR '']''"
  "\<not> is_ws CHR 0x22" "\<not> is_ws CHR '',''" "\<not> is_ws CHR '':''" "\<not> is_ws CHR ''t''"
  "\<not> is_ws CHR ''f''" "\<not> is_ws CHR ''n''" "\<not> is_ws CHR ''-''"
  by (simp_all add: is_ws_def)

lemma digit_not_ws: "is_digit c \<Longrightarrow> \<not> is_ws c"
  by (auto simp: is_digit_def is_ws_def)

lemma skip_ws_simps [simp]:
  "skip_ws [] = []"
  "\<not> is_ws c \<Longrightarrow> skip_ws (c # s) = c # s"
  by (simp_all add: skip_ws_def)

lemma parse_members_first [simp]:
  "parse_members (Suc n) (CHR 0x22 # qs) =
     (case parse_chars qs of
        None \<Rightarrow> None
      | Some (k, r) \<Rightarrow> (case skip_ws r of
          [] \<Rightarrow> None
        | d # ds \<Rightarrow>
            if d \<noteq> CHR '':'' then None
            else (case parse_value n ds of
                None \<Rightarrow> None
              | Some (j, r1) \<Rightarrow> (case skip_ws r1 of
                  [] \<Rightarrow> None
                | e # es \<Rightarrow> if e = CHR ''}'' then Some ([(k, j)], es)
                            else if e = CHR '','' then map_option (apfst ((#) (k, j))) (parse_members n es)
                            else None))))"
  by simp

text \<open>A number literal ends where the text goes on with anything but a number character.\<close>

definition stops :: "string \<Rightarrow> bool" where
  "stops r \<longleftrightarrow> (case r of [] \<Rightarrow> True | c # _ \<Rightarrow> \<not> is_num_char c)"

lemma stops_simps [simp]: "stops []" "stops (CHR '','' # r)" "stops (CHR '']'' # r)" "stops (CHR ''}'' # r)"
  by (simp_all add: stops_def is_num_char_def is_digit_def)

lemma takeWhile_stop: "list_all P s \<Longrightarrow> (case r of [] \<Rightarrow> True | c # _ \<Rightarrow> \<not> P c) \<Longrightarrow>
    takeWhile P (s @ r) = s \<and> dropWhile P (s @ r) = r"
  by (induction s) (auto split: list.splits)

lemma string_of_int_num_chars: "list_all is_num_char (string_of_int i)"
proof -
  have "list_all is_num_char (string_of_nat n)" for n
    using string_of_nat_digits [of n] by (auto simp: list_all_iff is_num_char_def)
  then show ?thesis by (simp add: string_of_int_def is_num_char_def)
qed

lemma parse_number_int: "stops r \<Longrightarrow> parse_number (string_of_int i @ r) = Some (JInt i, r)"
  using takeWhile_stop [OF string_of_int_num_chars [of i], of r]
  by (simp add: parse_number_def stops_def)

lemma string_of_int_first:
  obtains c cs where "string_of_int i = c # cs" "is_digit c \<or> c = CHR ''-''"
proof (cases "i < 0")
  case True
  then show ?thesis using that by (simp add: string_of_int_def)
next
  case False
  obtain c cs where "string_of_nat (nat i) = c # cs" "is_digit c" by (rule string_of_nat_Cons)
  with False that show ?thesis by (simp add: string_of_int_def)
qed

lemma parse_value_int:
  assumes "stops r"
  shows "parse_value (Suc n) (string_of_int i @ r) = Some (JInt i, r)"
proof -
  obtain c cs where c: "string_of_int i = c # cs" "is_digit c \<or> c = CHR ''-''"
    by (rule string_of_int_first)
  then have "\<not> is_ws c" "c \<notin> {CHR ''{'', CHR ''['', CHR 0x22, CHR ''t'', CHR ''f'', CHR ''n''}"
    by (auto simp: digit_not_ws is_digit_def)
  then have "parse_value (Suc n) (string_of_int i @ r) = parse_number (string_of_int i @ r)"
    using c by simp
  then show ?thesis by (simp add: parse_number_int assms)
qed

text \<open>The values that \<^verbatim>\<open>json.Marshal\<close> produces for the node's types.\<close>

fun no_frac :: "json \<Rightarrow> bool" where
  "no_frac (JFrac s) = False"
| "no_frac (JArr xs) = list_all no_frac xs"
| "no_frac (JObj kvs) = list_all (\<lambda>(k, v). no_frac v) kvs"
| "no_frac j = True"

definition reads_back :: "json \<Rightarrow> bool" where
  "reads_back j \<longleftrightarrow> (\<forall>fuel r. 2 * length (print_json j) \<le> fuel \<longrightarrow> stops r \<longrightarrow>
     parse_value fuel (print_json j @ r) = Some (j, r))"

lemma reads_backD:
  "reads_back j \<Longrightarrow> 2 * length (print_json j) \<le> fuel \<Longrightarrow> stops r \<Longrightarrow>
     parse_value fuel (print_json j @ r) = Some (j, r)"
  by (simp add: reads_back_def)

lemma reads_backI:
  assumes "print_json j \<noteq> []"
    and "\<And>n r. 2 * length (print_json j) \<le> Suc n \<Longrightarrow> stops r \<Longrightarrow>
           parse_value (Suc n) (print_json j @ r) = Some (j, r)"
  shows "reads_back j"
  unfolding reads_back_def
proof (intro allI impI)
  fix fuel r
  assume "2 * length (print_json j) \<le> fuel" "stops r"
  then show "parse_value fuel (print_json j @ r) = Some (j, r)"
    using assms by (cases fuel) auto
qed

lemma print_json_first:
  assumes "no_frac j"
  obtains c cs where "print_json j = c # cs" "\<not> is_ws c" "c \<noteq> CHR '']''"
proof (cases j)
  case (JInt i)
  obtain c cs where "string_of_int i = c # cs" "is_digit c \<or> c = CHR ''-''"
    by (rule string_of_int_first)
  moreover from this have "c \<noteq> CHR '']''" by (auto simp: is_digit_def)
  ultimately show ?thesis using JInt that by (auto simp: digit_not_ws)
next
  case (JBool b)
  then show ?thesis using that by (cases b) auto
qed (use assms that in \<open>auto simp: quote_def split: if_splits\<close>)

lemma comma_sep_Cons: "xs \<noteq> [] \<Longrightarrow> comma_sep (x # xs) = x @ CHR '','' # comma_sep xs"
  by (cases xs) simp_all

lemma parse_elems_print:
  assumes "\<forall>x \<in> set xs. reads_back x" "xs \<noteq> []"
    and "2 * length (comma_sep (map print_json xs)) + 1 \<le> fuel"
  shows "parse_elems fuel (comma_sep (map print_json xs) @ CHR '']'' # r) = Some (xs, r)"
  using assms
proof (induction xs arbitrary: fuel)
  case Nil
  then show ?case by simp
next
  case (Cons x xs)
  then obtain n where fuel: "fuel = Suc n" by (cases fuel) auto
  have x: "reads_back x" using Cons.prems by simp
  show ?case
  proof (cases "xs = []")
    case True
    then show ?thesis
      using Cons.prems fuel reads_backD [OF x, of n "CHR '']'' # r"] by simp
  next
    case False
    let ?rest = "comma_sep (map print_json xs)"
    have "2 * length ?rest + 1 \<le> n" "2 * length (print_json x) \<le> n"
      using Cons.prems(3) False fuel by (simp_all add: comma_sep_Cons)
    with Cons False x show ?thesis
      using reads_backD [OF x, of n "CHR '','' # ?rest @ CHR '']'' # r"] fuel
      by (simp add: comma_sep_Cons)
  qed
qed

abbreviation print_member :: "string \<times> json \<Rightarrow> string" where
  "print_member \<equiv> \<lambda>(k, v). quote k @ CHR '':'' # print_json v"

lemma parse_members_step:
  assumes "reads_back v" "2 * length (print_member (k, v)) \<le> n" "stops (e # es)"
    "\<not> is_ws e"
  shows "parse_members (Suc n) (print_member (k, v) @ e # es) =
     (if e = CHR ''}'' then Some ([(k, v)], es)
      else if e = CHR '','' then map_option (apfst ((#) (k, v))) (parse_members n es)
      else None)"
  using assms reads_backD [OF assms(1), of n "e # es"]
  by (simp add: quote_def parse_chars_quote)

lemma parse_members_print:
  assumes "\<forall>(k, v) \<in> set kvs. reads_back v" "kvs \<noteq> []"
    and "2 * length (comma_sep (map print_member kvs)) + 1 \<le> fuel"
  shows "parse_members fuel (comma_sep (map print_member kvs) @ CHR ''}'' # r) = Some (kvs, r)"
  using assms
proof (induction kvs arbitrary: fuel)
  case Nil
  then show ?case by simp
next
  case (Cons kv kvs)
  obtain k v where kv: "kv = (k, v)" by (cases kv)
  from Cons.prems obtain n where fuel: "fuel = Suc n" by (cases fuel) auto
  have v: "reads_back v" using Cons.prems kv by simp
  show ?case
  proof (cases "kvs = []")
    case True
    then show ?thesis
      using Cons.prems fuel kv parse_members_step [OF v, of k n "CHR ''}''" r]
      by simp
  next
    case False
    let ?rest = "comma_sep (map print_member kvs)"
    have "2 * length ?rest + 1 \<le> n" "2 * length (print_member kv) \<le> n"
      using Cons.prems(3) False fuel by (simp_all add: comma_sep_Cons)
    with Cons False kv show ?thesis
      using parse_members_step [OF v, of k n "CHR '',''" "?rest @ CHR ''}'' # r"] fuel
      by (simp add: comma_sep_Cons)
  qed
qed

lemma parse_print: "no_frac j \<Longrightarrow> reads_back j"
proof (induction j)
  case JNull
  show ?case by (rule reads_backI) (simp_all add: parse_word_def)
next
  case (JBool b)
  show ?case by (rule reads_backI) (simp_all add: parse_word_def)
next
  case (JInt i)
  have "string_of_int i \<noteq> []" by (rule string_of_int_first [of i]) simp
  then show ?case by (intro reads_backI) (simp_all add: parse_value_int del: parse_value.simps)
next
  case (JFrac s)
  then show ?case by simp
next
  case (JStr s)
  show ?case by (rule reads_backI) (simp_all add: quote_def parse_chars_quote)
next
  case (JArr xs)
  then have xs: "\<forall>x \<in> set xs. reads_back x" and nf: "list_all no_frac xs"
    by (auto simp: list_all_iff)
  show ?case
  proof (rule reads_backI)
    fix n r
    assume f: "2 * length (print_json (JArr xs)) \<le> Suc n"
    show "parse_value (Suc n) (print_json (JArr xs) @ r) = Some (JArr xs, r)"
    proof (cases xs)
      case (Cons x ys)
      obtain c cs where c: "print_json x = c # cs" "\<not> is_ws c" "c \<noteq> CHR '']''"
        using nf Cons print_json_first [of x] by auto
      then have "\<exists>ds. comma_sep (map print_json xs) = c # ds" using Cons by (cases ys) auto
      with f c show ?thesis using parse_elems_print [OF xs, of n r] Cons by auto
    qed simp
  qed simp
next
  case (JObj kvs)
  then have kvs: "\<forall>(k, v) \<in> set kvs. reads_back v"
    by (fastforce simp: list_all_iff)
  show ?case
  proof (rule reads_backI)
    fix n r
    assume f: "2 * length (print_json (JObj kvs)) \<le> Suc n"
    show "parse_value (Suc n) (print_json (JObj kvs) @ r) = Some (JObj kvs, r)"
    proof (cases kvs)
      case (Cons kv ys)
      then have "\<exists>ds. comma_sep (map print_member kvs) = CHR 0x22 # ds"
        by (cases ys; cases kv) (auto simp: quote_def)
      with f show ?thesis using parse_members_print [OF kvs, of n r] Cons by auto
    qed simp
  qed simp
qed

lemma parse_json_print: "no_frac j \<Longrightarrow> parse_json (print_json j) = Some j"
  using reads_backD [OF parse_print, of j "2 * length (print_json j) + 2" "[]"]
  by (simp add: parse_json_def)

interpretation json_text: codec print_json parse_json no_frac
  by unfold_locales (rule parse_json_print)

section \<open>Struct fields\<close>

text \<open>
  \<^verbatim>\<open>json.Unmarshal\<close> into a struct: a member goes to the field whose name it equals, or else
  to the first field whose name it equals up to case; unknown members are skipped; of two
  members for the same field the later one counts. \<^verbatim>\<open>null\<close> leaves a struct as it is.
\<close>

definition lower :: "char \<Rightarrow> char" where
  "lower c = (if 65 \<le> (of_char c :: nat) \<and> (of_char c :: nat) \<le> 90 then char_of (of_char c + 32 :: nat) else c)"

definition eq_fold :: "string \<Rightarrow> string \<Rightarrow> bool" where
  "eq_fold s t \<longleftrightarrow> map lower s = map lower t"

definition match_field :: "string list \<Rightarrow> string \<Rightarrow> string option" where
  "match_field names k = (if List.member names k then Some k else find (\<lambda>n. eq_fold n k) names)"

definition jfield :: "string list \<Rightarrow> string \<Rightarrow> (string \<times> json) list \<Rightarrow> json option" where
  "jfield names n kvs =
     fold (\<lambda>(k, v) found. if match_field names k = Some n then Some v else found) kvs None"

definition members :: "json \<Rightarrow> (string \<times> json) list option" where
  "members j = (case j of JObj kvs \<Rightarrow> Some kvs | JNull \<Rightarrow> Some [] | _ \<Rightarrow> None)"

text \<open>A value field keeps its zero value when absent; a pointer field is nil when absent or null.\<close>

definition val_field :: "'a \<Rightarrow> (json \<Rightarrow> 'a option) \<Rightarrow> json option \<Rightarrow> 'a option" where
  "val_field zero dec f = (case f of None \<Rightarrow> Some zero | Some j \<Rightarrow> dec j)"

definition ptr_field :: "(json \<Rightarrow> 'a option) \<Rightarrow> json option \<Rightarrow> 'a option option" where
  "ptr_field dec f = (case f of
     None \<Rightarrow> Some None
   | Some j \<Rightarrow> if j = JNull then Some None else map_option Some (dec j))"

text \<open>Marshalling a pointer: null for nil.\<close>

definition ptr_json :: "('a \<Rightarrow> json) \<Rightarrow> 'a option \<Rightarrow> json" where
  "ptr_json enc p = (case p of None \<Rightarrow> JNull | Some x \<Rightarrow> enc x)"

definition slice_json :: "('a \<Rightarrow> json) \<Rightarrow> 'a slice \<Rightarrow> json" where
  "slice_json enc s = (case s of None \<Rightarrow> JNull | Some xs \<Rightarrow> JArr (map enc xs))"

text \<open>A pointer field with \<^verbatim>\<open>omitempty\<close> is left out when nil.\<close>

definition omit_nil :: "string \<Rightarrow> ('a \<Rightarrow> json) \<Rightarrow> 'a option \<Rightarrow> (string \<times> json) list" where
  "omit_nil n enc p = (case p of None \<Rightarrow> [] | Some x \<Rightarrow> [(n, enc x)])"

text \<open>\<^verbatim>\<open>json.Unmarshal\<close> into a Go string, an int and a uint64; null leaves the zero value.\<close>

definition dec_string :: "json \<Rightarrow> string option" where
  "dec_string j = (case j of JStr s \<Rightarrow> Some s | JNull \<Rightarrow> Some [] | _ \<Rightarrow> None)"

definition dec_int64 :: "json \<Rightarrow> int option" where
  "dec_int64 j = (case j of
     JInt i \<Rightarrow> if - (2 ^ 63) \<le> i \<and> i < 2 ^ 63 then Some i else None
   | JNull \<Rightarrow> Some 0
   | _ \<Rightarrow> None)"

definition dec_uint64 :: "json \<Rightarrow> 64 word option" where
  "dec_uint64 j = (case j of
     JInt i \<Rightarrow> if 0 \<le> i \<and> i < 2 ^ 64 then Some (of_int i) else None
   | JNull \<Rightarrow> Some 0
   | _ \<Rightarrow> None)"

definition uint64_json :: "64 word \<Rightarrow> json" where
  "uint64_json w = JInt (uint w)"

lemma dec_uint64_json [simp]: "dec_uint64 (uint64_json w) = Some w"
  using uint_lt2p [of w] by (simp add: dec_uint64_def uint64_json_def)

lemma dec_string_JStr [simp]: "dec_string (JStr s) = Some s"
  by (simp add: dec_string_def)

lemma dec_int64_JInt [simp]: "- (2 ^ 63) \<le> i \<Longrightarrow> i < 2 ^ 63 \<Longrightarrow> dec_int64 (JInt i) = Some i"
  by (simp add: dec_int64_def)

lemma val_field_Some [simp]: "val_field z dec (Some j) = dec j"
  by (simp add: val_field_def)

lemma val_field_None [simp]: "val_field z dec None = Some z"
  by (simp add: val_field_def)

lemma ptr_field_simps [simp]:
  "ptr_field dec None = Some None"
  "ptr_field dec (Some JNull) = Some None"
  "j \<noteq> JNull \<Longrightarrow> ptr_field dec (Some j) = map_option Some (dec j)"
  by (simp_all add: ptr_field_def)

lemma ptr_field_json:
  "(\<And>x. p = Some x \<Longrightarrow> dec (enc x) = Some x \<and> enc x \<noteq> JNull) \<Longrightarrow>
     ptr_field dec (Some (ptr_json enc p)) = Some p"
  by (cases p) (simp_all add: ptr_json_def)

lemma no_frac_ptr_json: "(\<And>x. no_frac (enc x)) \<Longrightarrow> no_frac (ptr_json enc p)"
  by (simp add: ptr_json_def split: option.splits)

lemma no_frac_slice_json: "(\<And>x. no_frac (enc x)) \<Longrightarrow> no_frac (slice_json enc s)"
  by (simp add: slice_json_def list_all_iff split: option.splits)

lemma members_simps [simp]: "members (JObj kvs) = Some kvs" "members JNull = Some []"
  by (simp_all add: members_def)

lemma jfield_Nil [simp]: "jfield names n [] = None"
  by (simp add: jfield_def)

lemma jfield_snoc:
  "jfield names n (kvs @ [(k, v)]) =
     (if match_field names k = Some n then Some v else jfield names n kvs)"
  by (simp add: jfield_def)

text \<open>For the members a marshaller wrote, whose keys are field names, each once: plain lookup.\<close>

lemma jfield_exact:
  assumes "distinct (map fst kvs)" "fst ` set kvs \<subseteq> set names"
  shows "jfield names n kvs = map_of kvs n"
  using assms
proof (induction kvs rule: rev_induct)
  case Nil
  then show ?case by simp
next
  case (snoc kv kvs)
  obtain k v where kv: "kv = (k, v)" by (cases kv)
  with snoc.prems have "match_field names k = Some k" by (auto simp: match_field_def)
  moreover have "map_of kvs k = None"
    using snoc.prems kv by (auto simp: map_of_eq_None_iff)
  ultimately show ?case
    using snoc kv by (auto simp: jfield_snoc map_add_def split: option.splits)
qed

end
