(* ===== verification/Types.thy ===== *)
theory Types
  imports Json
begin

text \<open>
  \<^verbatim>\<open>internal/types\<close>: the constants of \<^verbatim>\<open>messages.go\<close> and \<^verbatim>\<open>network.go\<close>, the value types
  and the Picabu arithmetic of \<^verbatim>\<open>types.go\<close>, the protocol objects and their constructors of
  \<^verbatim>\<open>objects.go\<close>. String types stay strings; the enumerated ones are datatypes with their
  wire names. A pointer field that can be nil in some reachable object is an option. The
  pointers that never are nil (an output's value, a coinbase's height: the decoders refuse an
  object without them and the constructors set them) are modelled by the value they point to.
\<close>

section \<open>Messages, error codes, directions\<close>

datatype MessageType =
    MSG_NONE | MSG_HELLO | MSG_ERROR | MSG_GETPEERS | MSG_PEERS | MSG_GETOBJECT | MSG_IHAVEOBJECT
  | MSG_OBJECT | MSG_GETMEMPOOL | MSG_MEMPOOL | MSG_GETCHAINTIP | MSG_CHAINTIP

fun MessageType_str :: "MessageType \<Rightarrow> string" where
  "MessageType_str MSG_NONE = ''''"
| "MessageType_str MSG_HELLO = ''hello''"
| "MessageType_str MSG_ERROR = ''error''"
| "MessageType_str MSG_GETPEERS = ''getpeers''"
| "MessageType_str MSG_PEERS = ''peers''"
| "MessageType_str MSG_GETOBJECT = ''getobject''"
| "MessageType_str MSG_IHAVEOBJECT = ''ihaveobject''"
| "MessageType_str MSG_OBJECT = ''object''"
| "MessageType_str MSG_GETMEMPOOL = ''getmempool''"
| "MessageType_str MSG_MEMPOOL = ''mempool''"
| "MessageType_str MSG_GETCHAINTIP = ''getchaintip''"
| "MessageType_str MSG_CHAINTIP = ''chaintip''"

datatype ErrorCode =
    E_NONE | E_INTERNAL_ERROR | E_INVALID_FORMAT | E_UNKNOWN_OBJECT | E_UNFINDABLE_OBJECT
  | E_INVALID_HANDSHAKE | E_INVALID_TX_OUTPOINT | E_INVALID_TX_SIGNATURE
  | E_INVALID_TX_CONSERVATION | E_INVALID_BLOCK_COINBASE | E_INVALID_BLOCK_TIMESTAMP
  | E_INVALID_BLOCK_POW | E_INVALID_GENESIS

fun ErrorCode_str :: "ErrorCode \<Rightarrow> string" where
  "ErrorCode_str E_NONE = ''''"
| "ErrorCode_str E_INTERNAL_ERROR = ''INTERNAL_ERROR''"
| "ErrorCode_str E_INVALID_FORMAT = ''INVALID_FORMAT''"
| "ErrorCode_str E_UNKNOWN_OBJECT = ''UNKNOWN_OBJECT''"
| "ErrorCode_str E_UNFINDABLE_OBJECT = ''UNFINDABLE_OBJECT''"
| "ErrorCode_str E_INVALID_HANDSHAKE = ''INVALID_HANDSHAKE''"
| "ErrorCode_str E_INVALID_TX_OUTPOINT = ''INVALID_TX_OUTPOINT''"
| "ErrorCode_str E_INVALID_TX_SIGNATURE = ''INVALID_TX_SIGNATURE''"
| "ErrorCode_str E_INVALID_TX_CONSERVATION = ''INVALID_TX_CONSERVATION''"
| "ErrorCode_str E_INVALID_BLOCK_COINBASE = ''INVALID_BLOCK_COINBASE''"
| "ErrorCode_str E_INVALID_BLOCK_TIMESTAMP = ''INVALID_BLOCK_TIMESTAMP''"
| "ErrorCode_str E_INVALID_BLOCK_POW = ''INVALID_BLOCK_POW''"
| "ErrorCode_str E_INVALID_GENESIS = ''INVALID_GENESIS''"

datatype Origin = Inbound | Outbound

datatype Direction = Sent | Recv

section \<open>Value types\<close>

type_synonym Version = string
type_synonym Peer = string
type_synonym HashID = string
type_synonym Nonce = string
type_synonym Signature = string
type_synonym BuString = string

text \<open>\<open>Picabu\<close> wraps \<^verbatim>\<open>big.Int\<close>: unbounded. \<open>BuInt\<close> is a Go int, 64 bits wide.\<close>

type_synonym Picabu = int
type_synonym BuInt = int
type_synonym uint64 = "64 word"

definition BuInt_range :: "int \<Rightarrow> bool" where
  "BuInt_range i \<longleftrightarrow> - (2 ^ 63) \<le> i \<and> i < 2 ^ 63"

text \<open>The Go conversions \<^verbatim>\<open>uint64(i)\<close> of an int and \<^verbatim>\<open>BuInt(w)\<close> of a uint64.\<close>

definition uint64_of_int :: "int \<Rightarrow> uint64" where
  "uint64_of_int i = of_int i"

definition BuInt_of_uint64 :: "uint64 \<Rightarrow> BuInt" where
  "BuInt_of_uint64 w = sint w"

text \<open>\<^verbatim>\<open>(*big.Int).SetString(s, 16)\<close>: an optional sign and at least one hexadecimal digit.\<close>

fun hex_digits :: "int \<Rightarrow> string \<Rightarrow> int option" where
  "hex_digits n [] = Some n"
| "hex_digits n (c # cs) = (case hex_val c of None \<Rightarrow> None | Some d \<Rightarrow> hex_digits (16 * n + int d) cs)"

definition big_SetString16 :: "string \<Rightarrow> int option" where
  "big_SetString16 s = (case s of
     [] \<Rightarrow> None
   | c # cs \<Rightarrow>
       if c = CHR ''-'' then (if cs = [] then None else map_option uminus (hex_digits 0 cs))
       else if c = CHR ''+'' then (if cs = [] then None else hex_digits 0 cs)
       else hex_digits 0 s)"

definition PEER_INVALID :: Peer where
  "PEER_INVALID = ''''"

definition TARGET :: HashID where
  "TARGET = ''00000000abc00000000000000000000000000000000000000000000000000000''"

definition TARGET_STRING :: string where
  "TARGET_STRING = ''00000000abc00000000000000000000000000000000000000000000000000000''"

definition DUMMY_HASH :: HashID where
  "DUMMY_HASH = ''CAFEBABECAFEBABECAFEBABECAFEBABECAFEBABECAFEBABECAFEBABECAFEBABE''"

text \<open>A failed \<^verbatim>\<open>SetString\<close> leaves the number undefined; here it succeeds.\<close>

definition TARGET_BIGINT :: int where
  "TARGET_BIGINT = (case big_SetString16 TARGET_STRING of Some n \<Rightarrow> n | None \<Rightarrow> 0)"

definition ZERO_PICABU :: Picabu where
  "ZERO_PICABU = 0"

definition NewPicabu :: "uint64 \<Rightarrow> Picabu" where
  "NewPicabu val = uint val"

definition BLOCK_REWARD_UINT64 :: uint64 where
  "BLOCK_REWARD_UINT64 = 50000000000000"

definition BlockReward :: Picabu where
  "BlockReward = NewPicabu BLOCK_REWARD_UINT64"

definition BlockRewardBigInt :: int where
  "BlockRewardBigInt = uint BLOCK_REWARD_UINT64"

definition Picabu_Add :: "Picabu \<Rightarrow> Picabu \<Rightarrow> Picabu" where
  "Picabu_Add p other = p + other"

definition Picabu_Sub :: "Picabu \<Rightarrow> Picabu \<Rightarrow> Picabu" where
  "Picabu_Sub p other = p - other"

definition Picabu_Cmp :: "Picabu \<Rightarrow> Picabu \<Rightarrow> int" where
  "Picabu_Cmp p other = (if p < other then - 1 else if p = other then 0 else 1)"

definition Picabu_String :: "Picabu \<Rightarrow> string" where
  "Picabu_String p = string_of_int p"

section \<open>Objects\<close>

datatype ObjectType = OBJ_NONE | OBJ_BLOCK | OBJ_TRANSACTION

fun ObjectType_str :: "ObjectType \<Rightarrow> string" where
  "ObjectType_str OBJ_NONE = ''''"
| "ObjectType_str OBJ_BLOCK = ''block''"
| "ObjectType_str OBJ_TRANSACTION = ''transaction''"

record Outpoint =
  op_Txid :: HashID
  op_Index :: "BuInt option"

record TxInput =
  in_Outpoint :: Outpoint
  in_Sig :: "Signature option"

record TxOutput =
  out_Pubkey :: HashID
  out_Value :: Picabu

record Transaction =
  tx_Type :: ObjectType
  tx_Inputs :: "TxInput slice"
  tx_Outputs :: "TxOutput slice"
  tx_CachedID :: "HashID option"

record CoinbaseTransaction =
  cb_Type :: ObjectType
  cb_Height :: BuInt
  cb_Outputs :: "TxOutput slice"
  cb_CachedID :: "HashID option"

record Block =
  blk_Type :: ObjectType
  blk_T :: HashID
  blk_Created :: BuInt
  blk_Miner :: "BuString option"
  blk_Nonce :: Nonce
  blk_Note :: "BuString option"
  blk_Previd :: "HashID option"
  blk_Studentids :: "BuString slice option"
  blk_Txids :: "HashID slice"
  blk_CachedID :: "HashID option"

text \<open>The interface \<^verbatim>\<open>Object\<close> has these three implementations (as pointers).\<close>

datatype Object =
    TxObj Transaction
  | CoinbaseObj CoinbaseTransaction
  | BlockObj Block

fun Object_ObjectType :: "Object \<Rightarrow> ObjectType" where
  "Object_ObjectType (TxObj t) = OBJ_TRANSACTION"
| "Object_ObjectType (CoinbaseObj c) = OBJ_TRANSACTION"
| "Object_ObjectType (BlockObj b) = OBJ_BLOCK"

fun Object_ObjID :: "Object \<Rightarrow> HashID option" where
  "Object_ObjID (TxObj t) = tx_CachedID t"
| "Object_ObjID (CoinbaseObj c) = cb_CachedID c"
| "Object_ObjID (BlockObj b) = blk_CachedID b"

definition MakeTxInput :: "HashID \<Rightarrow> BuInt \<Rightarrow> Signature \<Rightarrow> TxInput" where
  "MakeTxInput txid index sig =
     \<lparr>in_Outpoint = \<lparr>op_Txid = txid, op_Index = Some index\<rparr>, in_Sig = Some sig\<rparr>"

definition MakeTxOutput :: "HashID \<Rightarrow> Picabu \<Rightarrow> TxOutput" where
  "MakeTxOutput pubkey value = \<lparr>out_Pubkey = pubkey, out_Value = value\<rparr>"

definition MakeTransaction :: "TxInput slice \<Rightarrow> TxOutput slice \<Rightarrow> Transaction" where
  "MakeTransaction inputs outputs =
     \<lparr>tx_Type = OBJ_TRANSACTION, tx_Inputs = inputs, tx_Outputs = outputs, tx_CachedID = None\<rparr>"

definition MakeCoinbaseTransaction :: "BuInt \<Rightarrow> TxOutput slice \<Rightarrow> CoinbaseTransaction" where
  "MakeCoinbaseTransaction height outputs =
     \<lparr>cb_Type = OBJ_TRANSACTION, cb_Height = height, cb_Outputs = outputs, cb_CachedID = None\<rparr>"

definition MakeBlock ::
  "HashID \<Rightarrow> BuInt \<Rightarrow> BuString option \<Rightarrow> Nonce \<Rightarrow> BuString option \<Rightarrow> HashID option \<Rightarrow>
     BuString slice option \<Rightarrow> HashID slice \<Rightarrow> Block" where
  "MakeBlock t created miner nonce note previd studentids txids =
     \<lparr>blk_Type = OBJ_BLOCK, blk_T = t, blk_Created = created, blk_Miner = miner, blk_Nonce = nonce,
      blk_Note = note, blk_Previd = previd, blk_Studentids = studentids, blk_Txids = txids,
      blk_CachedID = None\<rparr>"

section \<open>Facts about the constants\<close>

lemma ObjectType_str_inj: "ObjectType_str a = ObjectType_str b \<longleftrightarrow> a = b"
  by (cases a; cases b) simp_all

lemma BlockReward_value: "BlockReward = 50 * 10 ^ 12" "BlockRewardBigInt = 50 * 10 ^ 12"
  by (simp_all add: BlockReward_def BlockRewardBigInt_def NewPicabu_def BLOCK_REWARD_UINT64_def)

lemma uint64_of_int_inj:
  "0 \<le> i \<Longrightarrow> i < 2 ^ 63 \<Longrightarrow> uint (uint64_of_int i) = i"
  by (simp add: uint64_of_int_def uint_word_of_int take_bit_int_eq_self)

end
