(* ===== verification/PeerAddr.thy ===== *)
theory PeerAddr
  imports Types
begin

text \<open>
  \<^verbatim>\<open>sanitizePeer\<close> of \<^verbatim>\<open>internal/types/unmarshal.go\<close>: which peer addresses received from the
  network are kept. It rests on Go's standard library (\<^verbatim>\<open>strings\<close>, \<^verbatim>\<open>net\<close>, \<^verbatim>\<open>net/netip\<close>,
  \<^verbatim>\<open>strconv\<close>, \<^verbatim>\<open>regexp\<close>), of which this theory models what the function calls: trimming,
  \<^verbatim>\<open>SplitHostPort\<close>, \<^verbatim>\<open>ParseIP\<close> with both address families, the classification of addresses, and
  their canonical text. An address is the list of its 16 bytes; IPv4 is the IPv4-in-IPv6 form.

  \<open>AddrText\<close> shows what is kept and that it is kept again.
\<close>

section \<open>Strings\<close>

text \<open>The UTF-8 encodings of the characters \<^verbatim>\<open>unicode.IsSpace\<close> accepts.\<close>

definition space_runes :: "string list" where
  "space_runes =
     map (\<lambda>n. [char_of n]) [9, 10, 11, 12, 13, 32 :: nat] @
     [[CHR 0xC2, CHR 0x85], [CHR 0xC2, CHR 0xA0], [CHR 0xE1, CHR 0x9A, CHR 0x80]] @
     map (\<lambda>n. [CHR 0xE2, CHR 0x80, char_of n]) ([128 ..< 139] @ [168, 169, 175]) @
     [[CHR 0xE2, CHR 0x81, CHR 0x9F], [CHR 0xE3, CHR 0x80, CHR 0x80]]"

function trim_left :: "string \<Rightarrow> string" where
  "trim_left s = (case find (\<lambda>r. take (length r) s = r) space_runes of
     None \<Rightarrow> s
   | Some r \<Rightarrow> if r = [] \<or> s = [] then s else trim_left (drop (length r) s))"
  by pat_completeness auto
termination
  by (relation "measure length") auto

function trim_right :: "string \<Rightarrow> string" where
  "trim_right s = (case find (\<lambda>r. drop (length s - length r) s = r) space_runes of
     None \<Rightarrow> s
   | Some r \<Rightarrow> if r = [] \<or> s = [] then s else trim_right (take (length s - length r) s))"
  by pat_completeness auto
termination
  by (relation "measure length") auto

declare trim_left.simps [simp del] trim_right.simps [simp del]

definition TrimSpace :: "string \<Rightarrow> string" where
  "TrimSpace s = trim_right (trim_left s)"

fun split_on :: "char \<Rightarrow> string \<Rightarrow> string list" where
  "split_on sep [] = [[]]"
| "split_on sep (c # cs) = (if c = sep then [] # split_on sep cs
     else (case split_on sep cs of [] \<Rightarrow> [[c]] | w # ws \<Rightarrow> (c # w) # ws))"

text \<open>\<^verbatim>\<open>strconv.Atoi\<close>.\<close>

definition Atoi :: "string \<Rightarrow> int option" where
  "Atoi s = (case s of
     [] \<Rightarrow> None
   | c # cs \<Rightarrow>
       let ds = (if c = CHR ''-'' \<or> c = CHR ''+'' then cs else s);
           n = int (nat_of_string ds);
           i = (if c = CHR ''-'' then - n else n)
       in if ds = [] \<or> \<not> list_all is_digit ds \<or> \<not> BuInt_range i then None else Some i)"

section \<open>Host and port\<close>

text \<open>The first and the last position of a character.\<close>

definition index_of :: "char \<Rightarrow> string \<Rightarrow> nat option" where
  "index_of c s = (if c \<in> set s then Some (length (takeWhile (\<lambda>d. d \<noteq> c) s)) else None)"

definition last_index_of :: "char \<Rightarrow> string \<Rightarrow> nat option" where
  "last_index_of c s =
     (if c \<in> set s then Some (length s - 1 - length (takeWhile (\<lambda>d. d \<noteq> c) (rev s))) else None)"

definition SplitHostPort :: "string \<Rightarrow> (string \<times> string) option" where
  "SplitHostPort hostport = (case last_index_of CHR '':'' hostport of
     None \<Rightarrow> None
   | Some i \<Rightarrow>
       (case (if hd hostport = CHR ''['' then
                (case index_of CHR '']'' hostport of
                   None \<Rightarrow> None
                 | Some close \<Rightarrow>
                     if close + 1 = length hostport then None
                     else if close + 1 = i then Some (take (close - 1) (drop 1 hostport), 1, close + 1)
                     else None)
              else if CHR '':'' \<in> set (take i hostport) then None
              else Some (take i hostport, 0, 0)) of
          None \<Rightarrow> None
        | Some (host, j, k) \<Rightarrow>
            if CHR ''['' \<in> set (drop j hostport) then None
            else if CHR '']'' \<in> set (drop k hostport) then None
            else Some (host, drop (i + 1) hostport)))"

definition JoinHostPort :: "string \<Rightarrow> string \<Rightarrow> string" where
  "JoinHostPort host port =
     (if CHR '':'' \<in> set host then ''['' @ host @ '']:'' @ port else host @ '':'' @ port)"

section \<open>IP addresses\<close>

type_synonym ip = "nat list"

definition octet :: "string \<Rightarrow> nat option" where
  "octet s = (if nat_literal s \<and> nat_of_string s \<le> 255 then Some (nat_of_string s) else None)"

definition parseIPv4Fields :: "string \<Rightarrow> nat list option" where
  "parseIPv4Fields s = (case mapM octet (split_on CHR ''.'' s) of
     Some [a, b, c, d] \<Rightarrow> Some [a, b, c, d]
   | _ \<Rightarrow> None)"

definition v4_in_6 :: "nat list \<Rightarrow> ip" where
  "v4_in_6 v4 = replicate 10 0 @ [255, 255] @ v4"

text \<open>The value of a group of hexadecimal digits.\<close>

fun hex_group :: "nat \<Rightarrow> string \<Rightarrow> nat" where
  "hex_group n [] = n"
| "hex_group n (c # cs) = hex_group (16 * n + the (hex_val c)) cs"

text \<open>
  The loop of \<^verbatim>\<open>parseIPv6\<close>: the bytes read so far and the position of the ellipsis; the result
  adds the rest of the text. Each round reads two bytes of at most 16.
\<close>

fun ipv6_groups :: "nat \<Rightarrow> string \<Rightarrow> nat list \<Rightarrow> nat option \<Rightarrow> (string \<times> nat list \<times> nat option) option" where
  "ipv6_groups 0 s bytes ellipsis = Some (s, bytes, ellipsis)"
| "ipv6_groups (Suc rounds) s bytes ellipsis =
     (let digits = takeWhile (\<lambda>c. hex_val c \<noteq> None) s;
          rest = dropWhile (\<lambda>c. hex_val c \<noteq> None) s
      in if digits = [] \<or> 4 < length digits then None
      else if rest \<noteq> [] \<and> hd rest = CHR ''.'' then
        (if ellipsis = None \<and> length bytes \<noteq> 12 then None
         else if 16 < length bytes + 4 then None
         else (case parseIPv4Fields s of
             None \<Rightarrow> None
           | Some v4 \<Rightarrow> Some ([], bytes @ v4, ellipsis)))
      else
        let acc = hex_group 0 digits;
            bytes = bytes @ [acc div 256, acc mod 256]
        in (case rest of
              [] \<Rightarrow> Some ([], bytes, ellipsis)
            | c # s' \<Rightarrow>
                if c \<noteq> CHR '':'' \<or> s' = [] then None
                else if hd s' = CHR '':'' then
                  (if ellipsis \<noteq> None then None
                   else if tl s' = [] then Some ([], bytes, Some (length bytes))
                   else ipv6_groups rounds (tl s') bytes (Some (length bytes)))
                else ipv6_groups rounds s' bytes ellipsis))"

definition parseIPv6 :: "string \<Rightarrow> ip option" where
  "parseIPv6 s =
     (let leading = (take 2 s = ''::''); s' = (if leading then drop 2 s else s)
      in if leading \<and> s' = [] then Some (replicate 16 0)
      else (case ipv6_groups 8 s' [] (if leading then Some 0 else None) of
          None \<Rightarrow> None
        | Some (rest, bytes, ellipsis) \<Rightarrow>
            if rest \<noteq> [] then None
            else if length bytes < 16 then
              (case ellipsis of
                 None \<Rightarrow> None
               | Some e \<Rightarrow> Some (take e bytes @ replicate (16 - length bytes) 0 @ drop e bytes))
            else if ellipsis \<noteq> None then None
            else Some bytes))"

text \<open>
  \<^verbatim>\<open>net.ParseIP\<close>: the first of the characters \<^verbatim>\<open>.\<close>, \<^verbatim>\<open>:\<close> and \<^verbatim>\<open>%\<close> decides the family; an address
  with a zone is not one.
\<close>

definition ParseIP :: "string \<Rightarrow> ip option" where
  "ParseIP s = (case find (\<lambda>c. c = CHR ''.'' \<or> c = CHR '':'' \<or> c = CHR ''%'') s of
     None \<Rightarrow> None
   | Some c \<Rightarrow>
       if c = CHR ''.'' then map_option v4_in_6 (parseIPv4Fields s)
       else if c = CHR '':'' then (if CHR ''%'' \<in> set s then None else parseIPv6 s)
       else None)"

definition To4 :: "ip \<Rightarrow> nat list option" where
  "To4 a = (if take 12 a = replicate 10 0 @ [255, 255] then Some (drop 12 a) else None)"

definition IsLoopback :: "ip \<Rightarrow> bool" where
  "IsLoopback a = (case To4 a of Some v4 \<Rightarrow> v4 ! 0 = 127 | None \<Rightarrow> a = replicate 15 0 @ [1])"

definition IsPrivate :: "ip \<Rightarrow> bool" where
  "IsPrivate a = (case To4 a of
     Some v4 \<Rightarrow> v4 ! 0 = 10 \<or> (v4 ! 0 = 172 \<and> v4 ! 1 div 16 = 1) \<or> (v4 ! 0 = 192 \<and> v4 ! 1 = 168)
   | None \<Rightarrow> a ! 0 div 2 = 126)"

definition IsUnspecified :: "ip \<Rightarrow> bool" where
  "IsUnspecified a \<longleftrightarrow> a = v4_in_6 [0, 0, 0, 0] \<or> a = replicate 16 0"

definition IsMulticast :: "ip \<Rightarrow> bool" where
  "IsMulticast a = (case To4 a of Some v4 \<Rightarrow> v4 ! 0 div 16 = 14 | None \<Rightarrow> a ! 0 = 255)"

definition IsLinkLocalUnicast :: "ip \<Rightarrow> bool" where
  "IsLinkLocalUnicast a = (case To4 a of
     Some v4 \<Rightarrow> v4 ! 0 = 169 \<and> v4 ! 1 = 254
   | None \<Rightarrow> a ! 0 = 254 \<and> a ! 1 div 64 = 2)"

definition IsLinkLocalMulticast :: "ip \<Rightarrow> bool" where
  "IsLinkLocalMulticast a = (case To4 a of
     Some v4 \<Rightarrow> v4 ! 0 = 224 \<and> v4 ! 1 = 0 \<and> v4 ! 2 = 0
   | None \<Rightarrow> a ! 0 = 255 \<and> a ! 1 mod 16 = 2)"

text \<open>Lower-case hexadecimal without leading zeros.\<close>

fun hex_text :: "nat \<Rightarrow> string" where
  "hex_text n = (if n < 16 then [hex_digit n] else hex_text (n div 16) @ [hex_digit (n mod 16)])"

declare hex_text.simps [simp del]

fun groups_of :: "nat list \<Rightarrow> nat list" where
  "groups_of (a # b # bs) = (256 * a + b) # groups_of bs"
| "groups_of _ = []"

text \<open>The first of the longest runs of at least two zero groups: where it starts and ends.\<close>

definition zero_run :: "nat list \<Rightarrow> nat \<times> nat" where
  "zero_run gs = fold (\<lambda>i (s, e).
     let j = i + length (takeWhile (\<lambda>g. g = 0) (drop i gs))
     in if 2 \<le> j - i \<and> e - s < j - i then (i, j) else (s, e)) [0 ..< length gs] (255, 255)"

fun ipv6_text :: "nat \<Rightarrow> nat \<Rightarrow> nat \<Rightarrow> nat list \<Rightarrow> string" where
  "ipv6_text i zs ze [] = []"
| "ipv6_text i zs ze (g # gs) =
     (if i = zs then ''::'' @ ipv6_text (Suc i) zs ze gs
      else if zs < i \<and> i < ze then ipv6_text (Suc i) zs ze gs
      else (if 0 < i \<and> i \<noteq> ze then '':'' else []) @ hex_text g @ ipv6_text (Suc i) zs ze gs)"

definition IP_String :: "ip \<Rightarrow> string" where
  "IP_String a = (case To4 a of
     Some [b0, b1, b2, b3] \<Rightarrow>
       string_of_nat b0 @ ''.'' @ string_of_nat b1 @ ''.'' @ string_of_nat b2 @ ''.'' @ string_of_nat b3
   | _ \<Rightarrow> (case zero_run (groups_of a) of (zs, ze) \<Rightarrow> ipv6_text 0 zs ze (groups_of a)))"

section \<open>Domain names\<close>

text \<open>
  Under \<^verbatim>\<open>(?i)\<close> a Go regular expression also takes the long s (U+017F) for an s and the Kelvin
  sign (U+212A) for a k.
\<close>

fun fold_runes :: "string \<Rightarrow> string" where
  "fold_runes [] = []"
| "fold_runes (c # cs) =
     (if c = CHR 0xC5 \<and> cs \<noteq> [] \<and> hd cs = CHR 0xBF then CHR ''s'' # fold_runes (tl cs)
      else if c = CHR 0xE2 \<and> take 2 cs = [CHR 0x84, CHR 0xAA] then CHR ''k'' # fold_runes (drop 2 cs)
      else lower c # fold_runes cs)"

definition is_lower_letter :: "char \<Rightarrow> bool" where
  "is_lower_letter c \<longleftrightarrow> 97 \<le> (of_char c :: nat) \<and> (of_char c :: nat) \<le> 122"

definition label_ok :: "string \<Rightarrow> bool" where
  "label_ok l \<longleftrightarrow> l \<noteq> [] \<and> length l \<le> 63 \<and>
     (is_lower_letter (hd l) \<or> is_digit (hd l)) \<and> (is_lower_letter (last l) \<or> is_digit (last l)) \<and>
     list_all (\<lambda>c. is_lower_letter c \<or> is_digit c \<or> c = CHR ''-'') l"

text \<open>\<^verbatim>\<open>^(?i)([a-z0-9](?:[a-z0-9-]{0,61}[a-z0-9])?\.)+[a-z]{2,}$\<close>\<close>

definition domainRegex :: "string \<Rightarrow> bool" where
  "domainRegex host =
     (let labels = split_on CHR ''.'' (fold_runes host)
      in 2 \<le> length labels \<and> list_all label_ok (butlast labels) \<and>
         2 \<le> length (last labels) \<and> list_all is_lower_letter (last labels))"

section \<open>Sanitizing\<close>

definition public_ip :: "ip \<Rightarrow> bool" where
  "public_ip a \<longleftrightarrow> \<not> (IsLoopback a \<or> IsPrivate a \<or> IsUnspecified a \<or> IsMulticast a \<or>
     IsLinkLocalUnicast a \<or> IsLinkLocalMulticast a)"

definition sanitizePeer :: "string \<Rightarrow> Peer" where
  "sanitizePeer peer = (case SplitHostPort (TrimSpace peer) of
     None \<Rightarrow> PEER_INVALID
   | Some (host, portStr) \<Rightarrow> (case Atoi portStr of
       None \<Rightarrow> PEER_INVALID
     | Some port \<Rightarrow>
         if port \<le> 0 \<or> port > 65535 then PEER_INVALID
         else
           let ipStr = (if host \<noteq> [] \<and> hd host = CHR ''['' \<and> last host = CHR '']'' then
                  take (length host - 2) (drop 1 host) else host)
           in (case ParseIP ipStr of
                 Some a \<Rightarrow> if \<not> public_ip a then PEER_INVALID else JoinHostPort (IP_String a) portStr
               | None \<Rightarrow>
                   if domainRegex host \<and> fold_runes host \<noteq> ''localhost'' then JoinHostPort host portStr
                   else PEER_INVALID)))"

end
