(* ===== verification/AddrText.thy ===== *)
theory AddrText
  imports PeerAddr
begin

text \<open>
  The texts of peer addresses: what \<open>sanitizePeer\<close> keeps, it keeps again unchanged, so that an address
  one node passes on is one its peers keep. For this the text that \<open>IP_String\<close> makes of an address of
  either family is read by \<open>ParseIP\<close> as the address (\<open>ParseIP_String\<close>), and host and port that were
  joined split again (\<open>SplitHostPort_Join\<close>).
\<close>

section \<open>Host and port\<close>

lemma last_index_of_last: "c \<notin> set t \<Longrightarrow> last_index_of c (s @ c # t) = Some (length s)"
proof -
  assume c: "c \<notin> set t"
  have "takeWhile (\<lambda>d. d \<noteq> c) (rev t @ c # rev s) = rev t"
    using c by (subst takeWhile_append2) auto
  then show ?thesis by (simp add: last_index_of_def)
qed

lemma index_of_first: "c \<notin> set s \<Longrightarrow> index_of c (s @ c # t) = Some (length s)"
proof -
  assume c: "c \<notin> set s"
  have "takeWhile (\<lambda>d. d \<noteq> c) (s @ c # t) = s" using c by (subst takeWhile_append2) auto
  then show ?thesis by (simp add: index_of_def)
qed

definition no_delims :: "string \<Rightarrow> bool" where
  "no_delims s \<longleftrightarrow> CHR '':'' \<notin> set s \<and> CHR ''['' \<notin> set s \<and> CHR '']'' \<notin> set s"

lemma SplitHostPort_Join:
  assumes h: "CHR ''['' \<notin> set host" "CHR '']'' \<notin> set host" and p: "no_delims port"
  shows "SplitHostPort (JoinHostPort host port) = Some (host, port)"
proof (cases "CHR '':'' \<in> set host")
  case False
  have l: "last_index_of CHR '':'' (host @ CHR '':'' # port) = Some (length host)"
    using p by (intro last_index_of_last) (simp add: no_delims_def)
  have "hd (host @ CHR '':'' # port) \<noteq> CHR ''[''" using h by (cases host) auto
  then show ?thesis using False h p by (simp add: JoinHostPort_def SplitHostPort_def l no_delims_def)
next
  case True
  let ?s = "CHR ''['' # host @ CHR '']'' # CHR '':'' # port"
  have "last_index_of CHR '':'' ((CHR ''['' # host @ [CHR '']'']) @ CHR '':'' # port) = Some (length host + 2)"
    using p by (subst last_index_of_last) (simp_all add: no_delims_def)
  then have l: "last_index_of CHR '':'' ?s = Some (length host + 2)" by simp
  have "index_of CHR '']'' ((CHR ''['' # host) @ CHR '']'' # CHR '':'' # port) = Some (length host + 1)"
    using h by (subst index_of_first) simp_all
  then have i: "index_of CHR '']'' ?s = Some (length host + 1)" by simp
  show ?thesis using True h p by (simp add: JoinHostPort_def SplitHostPort_def l i no_delims_def)
qed

section \<open>IPv4\<close>

definition ip_ok :: "ip \<Rightarrow> bool" where
  "ip_ok a \<longleftrightarrow> length a = 16 \<and> (\<forall>b \<in> set a. b < 256)"

lemma split_on_append: "sep \<notin> set w \<Longrightarrow> split_on sep (w @ sep # s) = w # split_on sep s"
  by (induction w) auto

lemma split_on_single: "sep \<notin> set w \<Longrightarrow> split_on sep w = [w]"
  by (induction w) auto

lemma digit_text_chars: "c \<in> set (string_of_nat n) \<Longrightarrow> is_digit c"
  using string_of_nat_digits by (simp add: list_all_iff)

lemma octet_text: "b < 256 \<Longrightarrow> octet (string_of_nat b) = Some b"
  by (simp add: octet_def)

lemma IPv4_text:
  assumes "b0 < 256" "b1 < 256" "b2 < 256" "b3 < 256"
  shows "parseIPv4Fields (string_of_nat b0 @ ''.'' @ string_of_nat b1 @ ''.'' @ string_of_nat b2 @ ''.'' @ string_of_nat b3)
    = Some [b0, b1, b2, b3]"
proof -
  have d: "CHR ''.'' \<notin> set (string_of_nat n)" for n
    using digit_text_chars [of "CHR ''.''" n] by (auto simp: is_digit_def)
  show ?thesis using assms by (simp add: parseIPv4Fields_def split_on_append split_on_single d octet_text)
qed

lemma octet_bound: "octet s = Some b \<Longrightarrow> b < 256"
  by (auto simp: octet_def split: if_splits)

lemma parseIPv4_bytes:
  assumes "parseIPv4Fields s = Some v"
  shows "length v = 4 \<and> (\<forall>b \<in> set v. b < 256)"
proof -
  obtain a b c d where v: "v = [a, b, c, d]" "mapM octet (split_on CHR ''.'' s) = Some [a, b, c, d]"
    using assms by (auto simp: parseIPv4Fields_def split: option.splits list.splits)
  have "map octet (split_on CHR ''.'' s) = map Some v" using v by (simp add: mapM_Some_iff)
  then have "\<exists>x. octet x = Some y" if "y \<in> set v" for y using that by (metis (no_types, lifting) imageE image_eqI list.set_map)
  then show ?thesis using v(1) octet_bound by auto
qed

section \<open>IPv6\<close>

lemma hex_text_props:
  "n < 16 ^ k \<Longrightarrow> 0 < k \<Longrightarrow> hex_text n \<noteq> [] \<and> length (hex_text n) \<le> k \<and> (\<forall>c \<in> set (hex_text n). hex_val c \<noteq> None)"
proof (induction k arbitrary: n)
  case (Suc k)
  show ?case
  proof (cases "n < 16")
    case True
    then show ?thesis by (simp add: hex_text.simps [of n] hex_val_digit)
  next
    case False
    then have k: "0 < k" using Suc.prems by (cases k) auto
    have "n div 16 < 16 ^ k" using Suc.prems by (simp add: less_mult_imp_div_less mult.commute)
    from Suc.IH [OF this k] show ?thesis using False by (auto simp: hex_text.simps [of n] hex_val_digit)
  qed
qed simp

lemma hex_group_append: "hex_group n (s @ t) = hex_group (hex_group n s) t"
  by (induction s arbitrary: n) simp_all

lemma hex_group_text: "hex_group 0 (hex_text n) = n"
proof (induction n rule: hex_text.induct)
  case (1 n)
  then show ?case by (cases "n < 16") (simp_all add: hex_text.simps [of n] hex_group_append hex_val_digit)
qed

lemma group_text:
  assumes "g < 65536"
  shows "hex_text g \<noteq> []" "length (hex_text g) \<le> 4" "\<forall>c \<in> set (hex_text g). hex_val c \<noteq> None"
  using hex_text_props [of g 4] assms by simp_all

lemma hex_val_delims [simp]: "hex_val CHR '':'' = None" "hex_val CHR ''.'' = None" "hex_val CHR ''%'' = None"
    "hex_val CHR ''['' = None" "hex_val CHR '']'' = None"
  by (simp_all add: hex_val_def Let_def)

text \<open>Groups joined with colons, and the bytes of groups.\<close>

fun hex_join :: "nat list \<Rightarrow> string" where
  "hex_join [] = []"
| "hex_join [g] = hex_text g"
| "hex_join (g # h # gs) = hex_text g @ CHR '':'' # hex_join (h # gs)"

definition split_groups :: "nat list \<Rightarrow> nat list" where
  "split_groups gs = concat (map (\<lambda>g. [g div 256, g mod 256]) gs)"

lemma split_groups_simps [simp]: "split_groups [] = []" "split_groups (g # gs) = g div 256 # g mod 256 # split_groups gs"
    "split_groups (gs @ hs) = split_groups gs @ split_groups hs" "length (split_groups gs) = 2 * length gs"
  by (induction gs) (simp_all add: split_groups_def)

lemma hex_join_Cons: "hex_join (g # gs) = hex_text g @ (if gs = [] then [] else CHR '':'' # hex_join gs)"
  by (cases gs) simp_all

lemma hex_join_hd:
  assumes "\<forall>g \<in> set gs. g < 65536" "gs \<noteq> []"
  obtains c t where "hex_join gs = c # t" "hex_val c \<noteq> None"
  using assms group_text by (cases gs; cases "hex_text (hd gs)") (auto simp: hex_join_Cons)

declare ipv6_groups.simps(2) [simp del]

text \<open>One round of the loop on a group.\<close>

lemma ipv6_group:
  assumes "g < 65536" "rest = [] \<or> (\<exists>t. rest = CHR '':'' # t)"
  shows "ipv6_groups (Suc rounds) (hex_text g @ rest) bytes ell =
    (let bytes = bytes @ [g div 256, g mod 256] in case rest of
        [] \<Rightarrow> Some ([], bytes, ell)
      | c # s \<Rightarrow> if s = [] then None
         else if hd s = CHR '':'' then (if ell \<noteq> None then None
           else if tl s = [] then Some ([], bytes, Some (length bytes))
           else ipv6_groups rounds (tl s) bytes (Some (length bytes)))
         else ipv6_groups rounds s bytes ell)"
proof -
  have t: "takeWhile (\<lambda>c. hex_val c \<noteq> None) (hex_text g @ rest) = hex_text g"
    "dropWhile (\<lambda>c. hex_val c \<noteq> None) (hex_text g @ rest) = rest"
    using group_text(3) [OF assms(1)] assms(2) by (auto simp: takeWhile_append dropWhile_append)
  have r: "\<not> (rest \<noteq> [] \<and> hd rest = CHR ''.'')" using assms(2) by auto
  have n: "hex_text g \<noteq> []" "\<not> 4 < length (hex_text g)" using group_text [OF assms(1)] by auto
  show ?thesis
    unfolding ipv6_groups.simps(2) t hex_group_text Let_def using n r assms(2) by (cases rest) simp_all
qed

lemma ipv6_groups_join:
  assumes "gs \<noteq> []" "\<forall>g \<in> set gs. g < 65536" "length gs \<le> rounds"
  shows "ipv6_groups rounds (hex_join gs) bytes ell = Some ([], bytes @ split_groups gs, ell)"
  using assms
proof (induction gs arbitrary: rounds bytes)
  case (Cons g gs)
  then obtain k where k: "rounds = Suc k" by (cases rounds) auto
  show ?case
  proof (cases "gs = []")
    case True
    then show ?thesis using Cons.prems ipv6_group [of g "[]" k] by (simp add: k hex_join_Cons)
  next
    case False
    have gs: "\<forall>g \<in> set gs. g < 65536" using Cons.prems(2) by simp
    obtain c t where j: "hex_join gs = c # t" "hex_val c \<noteq> None" using hex_join_hd [OF gs False] .
    then have c: "c \<noteq> CHR '':''" by auto
    have "ipv6_groups k (hex_join gs) (bytes @ [g div 256, g mod 256]) ell =
        Some ([], (bytes @ [g div 256, g mod 256]) @ split_groups gs, ell)"
      by (rule Cons.IH [OF False gs]) (use Cons.prems(3) k in simp)
    moreover have "ipv6_groups (Suc k) (hex_text g @ CHR '':'' # hex_join gs) bytes ell =
        ipv6_groups k (hex_join gs) (bytes @ [g div 256, g mod 256]) ell"
      using ipv6_group [of g "CHR '':'' # hex_join gs" k bytes ell] Cons.prems(2) j c by (simp add: Let_def)
    ultimately show ?thesis using False by (simp add: k hex_join_Cons)
  qed
qed simp

lemma ipv6_groups_ellipsis:
  assumes "gs \<noteq> []" "\<forall>g \<in> set gs. g < 65536" "\<forall>h \<in> set hs. h < 65536" "length gs + length hs \<le> rounds"
  shows "ipv6_groups rounds (hex_join gs @ ''::'' @ hex_join hs) bytes None =
    Some ([], bytes @ split_groups gs @ split_groups hs, Some (length bytes + 2 * length gs))"
  using assms(1,2,4)
proof (induction gs arbitrary: rounds bytes)
  case (Cons g gs)
  then obtain k where k: "rounds = Suc k" by (cases rounds) auto
  let ?b = "bytes @ [g div 256, g mod 256]"
  show ?case
  proof (cases "gs = []")
    case True
    have e: "ipv6_groups (Suc k) (hex_text g @ CHR '':'' # CHR '':'' # hex_join hs) bytes None =
        (if hex_join hs = [] then Some ([], ?b, Some (length ?b)) else ipv6_groups k (hex_join hs) ?b (Some (length ?b)))"
      using ipv6_group [of g "CHR '':'' # CHR '':'' # hex_join hs" k bytes None] Cons.prems(2) by (simp add: Let_def)
    show ?thesis
    proof (cases "hs = []")
      case True
      then show ?thesis using e \<open>gs = []\<close> k by simp
    next
      case False
      obtain c t where "hex_join hs = c # t" using hex_join_hd [OF assms(3) False] .
      moreover have "ipv6_groups k (hex_join hs) ?b (Some (length ?b)) = Some ([], ?b @ split_groups hs, Some (length ?b))"
        by (rule ipv6_groups_join [OF False assms(3)]) (use Cons.prems(3) k in simp)
      ultimately show ?thesis using e True k by simp
    qed
  next
    case False
    have gs: "\<forall>g \<in> set gs. g < 65536" using Cons.prems(2) by simp
    obtain c t where j: "hex_join gs = c # t" "hex_val c \<noteq> None" using hex_join_hd [OF gs False] .
    then have c: "c \<noteq> CHR '':''" by auto
    have "ipv6_groups k (hex_join gs @ ''::'' @ hex_join hs) ?b None =
        Some ([], ?b @ split_groups gs @ split_groups hs, Some (length ?b + 2 * length gs))"
      by (rule Cons.IH [OF False gs]) (use Cons.prems(3) k in simp)
    moreover have "ipv6_groups (Suc k) (hex_text g @ CHR '':'' # hex_join gs @ ''::'' @ hex_join hs) bytes None =
        ipv6_groups k (hex_join gs @ ''::'' @ hex_join hs) ?b None"
      using ipv6_group [of g "CHR '':'' # hex_join gs @ ''::'' @ hex_join hs" k bytes None] Cons.prems(2) j c
      by (simp add: Let_def)
    ultimately show ?thesis using False by (simp add: k hex_join_Cons)
  qed
qed simp

text \<open>The printed text: the groups before and after the run that the ellipsis stands for.\<close>

lemma ipv6_text_plain:
  "i + length gs \<le> zs \<Longrightarrow> zs \<le> ze \<Longrightarrow>
     ipv6_text i zs ze gs = (if gs = [] then [] else (if 0 < i then '':'' else []) @ hex_join gs)"
  by (induction gs arbitrary: i) (simp_all add: hex_join_Cons)

lemma ipv6_text_after:
  "zs < ze \<Longrightarrow> ze \<le> i \<Longrightarrow> ipv6_text i zs ze gs = (if gs = [] then [] else (if i \<noteq> ze then '':'' else []) @ hex_join gs)"
  by (induction gs arbitrary: i) (simp_all add: hex_join_Cons)

lemma ipv6_text_within:
  "zs < i \<Longrightarrow> i \<le> ze \<Longrightarrow> ipv6_text i zs ze gs = hex_join (drop (ze - i) gs)"
proof (induction gs arbitrary: i)
  case (Cons g gs)
  show ?case
  proof (cases "i = ze")
    case True
    then show ?thesis using Cons.prems ipv6_text_after [of zs ze i "g # gs"] by simp
  next
    case False
    then have d: "ze - i = Suc (ze - Suc i)" using Cons.prems by simp
    show ?thesis using False Cons.prems Cons.IH [of "Suc i"] by (simp add: d)
  qed
qed simp

lemma ipv6_text_run:
  assumes "zs < ze" "i \<le> zs" "ze \<le> i + length gs"
  shows "ipv6_text i zs ze gs =
    (if 0 < i \<and> i < zs then '':'' else []) @ hex_join (take (zs - i) gs) @ ''::'' @ hex_join (drop (ze - i) gs)"
  using assms(2,3)
proof (induction gs arbitrary: i)
  case (Cons g gs)
  show ?case
  proof (cases "i = zs")
    case True
    have d: "ze - zs = Suc (ze - Suc zs)" using assms(1) by simp
    show ?thesis using True assms(1) ipv6_text_within [of zs "Suc i" ze gs] by (simp add: d)
  next
    case False
    then have d: "ze - i = Suc (ze - Suc i)" "zs - i = Suc (zs - Suc i)" using Cons.prems assms(1) by simp_all
    have "ipv6_text (Suc i) zs ze gs = (if Suc i < zs then '':'' else []) @ hex_join (take (zs - Suc i) gs) @ ''::'' @
        hex_join (drop (ze - Suc i) gs)"
      using Cons.IH [of "Suc i"] Cons.prems False by simp
    moreover have "take (zs - Suc i) gs = [] \<longleftrightarrow> \<not> Suc i < zs" using Cons.prems assms(1) False by auto
    ultimately show ?thesis using False Cons.prems assms(1) by (simp add: d hex_join_Cons)
  qed
qed (use assms(1) in simp)

lemma fold_keeps: "(\<And>i p. i \<in> set is \<Longrightarrow> Q p \<Longrightarrow> Q (f i p)) \<Longrightarrow> Q p \<Longrightarrow> Q (fold f is p)"
  by (induction "is" arbitrary: p) simp_all

lemma zero_run_is_run:
  assumes "zero_run gs = (zs, ze)"
  shows "(zs = 255 \<and> ze = 255) \<or> (zs < ze \<and> ze \<le> length gs \<and> (\<forall>g \<in> set (drop zs (take ze gs)). g = 0))"
proof -
  let ?step = "\<lambda>i (s :: nat, e :: nat).
     let j = i + length (takeWhile (\<lambda>g. g = 0) (drop i gs)) in if 2 \<le> j - i \<and> e - s < j - i then (i, j) else (s, e)"
  let ?ok = "\<lambda>(s :: nat, e). (s = 255 \<and> e = 255) \<or> (s < e \<and> e \<le> length gs \<and> (\<forall>g \<in> set (drop s (take e gs)). g = 0))"
  have step: "?ok (?step i p)" if ok: "?ok p" and i: "i < length gs" for i p
  proof -
    obtain s e where p: "p = (s, e)" by fastforce
    define w where "w = takeWhile (\<lambda>g. g = 0) (drop i gs)"
    have w: "length w \<le> length gs - i" using length_takeWhile_le [of "\<lambda>g. g = 0" "drop i gs"] by (simp add: w_def)
    have "take (length w) (drop i gs) = w" unfolding w_def by (rule takeWhile_eq_take [symmetric])
    then have "drop i (take (i + length w) gs) = w" by (simp add: drop_take)
    moreover have "\<forall>g \<in> set w. g = 0" unfolding w_def by (blast dest: set_takeWhileD)
    ultimately have new: "?ok (i, i + length w)" if "2 \<le> length w" using that w i by auto
    have "?step i p = (if 2 \<le> length w \<and> e - s < length w then (i, i + length w) else p)"
      by (simp add: p Let_def w_def)
    then have "?step i p = p \<or> (?step i p = (i, i + length w) \<and> 2 \<le> length w)" by presburger
    then show ?thesis
    proof (elim disjE conjE)
      assume "?step i p = p"
      then show ?thesis using ok by (simp only:)
    next
      assume "?step i p = (i, i + length w)" "2 \<le> length w"
      then show ?thesis using new by (simp only:)
    qed
  qed
  have "?ok (fold ?step [0 ..< length gs] (255, 255))" by (rule fold_keeps) (use step in auto)
  then show ?thesis using assms by (simp add: zero_run_def)
qed

lemma groups_split:
  assumes "length a = 2 * n" "\<forall>b \<in> set a. b < 256"
  shows "length (groups_of a) = n" "\<forall>g \<in> set (groups_of a). g < 65536" "split_groups (groups_of a) = a"
proof -
  have "length (groups_of a) = n \<and> (\<forall>g \<in> set (groups_of a). g < 65536) \<and> split_groups (groups_of a) = a"
    using assms
  proof (induction n arbitrary: a)
    case (Suc n)
    obtain x y as where a: "a = x # y # as" using Suc.prems(1) by (cases a; cases "tl a") auto
    have "length as = 2 * n" "\<forall>b \<in> set as. b < 256" "x < 256" "y < 256" using Suc.prems a by auto
    then show ?case using Suc.IH [of as] a by simp
  qed simp
  then show "length (groups_of a) = n" "\<forall>g \<in> set (groups_of a). g < 65536" "split_groups (groups_of a) = a" by blast+
qed

section \<open>The text of an address\<close>

lemma To4_v4: "ip_ok a \<Longrightarrow> To4 a = Some v \<Longrightarrow> a = v4_in_6 v \<and> length v = 4 \<and> (\<forall>b \<in> set v. b < 256)"
proof -
  assume a: "ip_ok a" "To4 a = Some v"
  then have t: "take 12 a = replicate 10 0 @ [255, 255]" "v = drop 12 a" by (auto simp: To4_def split: if_splits)
  have "a = take 12 a @ drop 12 a" by simp
  then have "a = v4_in_6 v" unfolding v4_in_6_def using t by simp
  then show ?thesis using a(1) t(2) by (auto simp: ip_ok_def dest: in_set_dropD)
qed

lemma To4_v4_in_6: "length v = 4 \<Longrightarrow> To4 (v4_in_6 v) = Some v"
  by (simp add: To4_def v4_in_6_def)

lemma length_4: "length v = 4 \<Longrightarrow> \<exists>a b c d. v = [a, b, c, d]"
  by (auto simp: length_Suc_conv numeral_eq_Suc)

lemma hex_join_chars: "\<forall>g \<in> set gs. g < 65536 \<Longrightarrow> c \<in> set (hex_join gs) \<Longrightarrow> hex_val c \<noteq> None \<or> c = CHR '':''"
  by (induction gs) (auto simp: hex_join_Cons dest: group_text(3) split: if_splits)

lemma first_colon:
  assumes "\<forall>c \<in> set s. hex_val c \<noteq> None \<or> c = CHR '':''" "CHR '':'' \<in> set s"
  shows "find (\<lambda>c. c = CHR ''.'' \<or> c = CHR '':'' \<or> c = CHR ''%'') s = Some CHR '':''"
  using assms
proof (induction s)
  case (Cons c s)
  then have "c \<noteq> CHR ''.'' \<and> c \<noteq> CHR ''%''" by auto
  then show ?case using Cons by auto
qed simp

lemma hex_join_colon: "2 \<le> length gs \<Longrightarrow> CHR '':'' \<in> set (hex_join gs)"
  by (cases gs; cases "tl gs") (auto simp: hex_join_Cons)

lemma all_zero: "\<forall>x \<in> set xs. x = (0 :: nat) \<Longrightarrow> xs = replicate (length xs) 0"
  by (simp add: replicate_length_same)

lemma split_zero: "split_groups (replicate n 0) = replicate (2 * n) 0"
  by (induction n) simp_all

lemma parseIPv6_text:
  assumes len: "length gs = 8" and g: "\<forall>g \<in> set gs. g < 65536" and z: "zero_run gs = (zs, ze)"
  shows "parseIPv6 (ipv6_text 0 zs ze gs) = Some (split_groups gs) \<and>
    (\<forall>c \<in> set (ipv6_text 0 zs ze gs). hex_val c \<noteq> None \<or> c = CHR '':'') \<and> CHR '':'' \<in> set (ipv6_text 0 zs ze gs)"
proof (cases "zs = 255 \<and> ze = 255")
  case True
  have ne: "gs \<noteq> []" using len by auto
  have shown: "ipv6_text 0 zs ze gs = hex_join gs" using ipv6_text_plain [of 0 gs zs ze] True len ne by simp
  obtain c t where j: "hex_join gs = c # t" "hex_val c \<noteq> None" using hex_join_hd [OF g ne] .
  have "c \<noteq> CHR '':''" using j(2) by auto
  then have "take 2 (hex_join gs) \<noteq> ''::''" using j(1) by simp
  then have "parseIPv6 (hex_join gs) = Some (split_groups gs)"
    using ipv6_groups_join [OF ne g, of 8 "[]" None] len by (simp add: parseIPv6_def)
  then show ?thesis using shown hex_join_chars [OF g] hex_join_colon [of gs] len by auto
next
  case False
  then have r: "zs < ze" "ze \<le> 8" "\<forall>g \<in> set (drop zs (take ze gs)). g = 0"
    using zero_run_is_run [OF z] len by auto
  define xs ys where "xs = take zs gs" and "ys = drop ze gs"
  have shown: "ipv6_text 0 zs ze gs = hex_join xs @ ''::'' @ hex_join ys"
    using ipv6_text_run [OF r(1), of 0 gs] r(2) len by (simp add: xs_def ys_def)
  have gx: "\<forall>g \<in> set xs. g < 65536" "\<forall>g \<in> set ys. g < 65536"
    using g by (auto simp: xs_def ys_def dest: in_set_takeD in_set_dropD)
  have l: "length xs = zs" "length ys = 8 - ze" using r len by (simp_all add: xs_def ys_def)
  have "drop zs (take ze gs) = replicate (ze - zs) 0" using all_zero [OF r(3)] r len by simp
  moreover have "gs = take zs gs @ drop zs (take ze gs) @ drop ze gs"
    using r(1) by (metis append_assoc append_take_drop_id less_imp_le min.absorb1 take_take)
  ultimately have gs: "gs = xs @ replicate (ze - zs) 0 @ ys" by (simp add: xs_def ys_def)
  have whole: "split_groups gs = split_groups xs @ replicate (2 * (ze - zs)) 0 @ split_groups ys"
    by (subst gs) (simp add: split_zero)
  have n: "16 - 2 * (zs + (8 - ze)) = 2 * (ze - zs)" "2 * (zs + (8 - ze)) < 16" using r(1,2) by auto
  have "parseIPv6 (hex_join xs @ ''::'' @ hex_join ys) = Some (split_groups gs)"
  proof (cases "xs = []")
    case True
    then have zs: "zs = 0" using l by simp
    show ?thesis
    proof (cases "ys = []")
      case True
      then have "ze = 8" using l r by simp
      then show ?thesis using True \<open>xs = []\<close> whole zs by (simp add: parseIPv6_def)
    next
      case False
      then obtain c t where "hex_join ys = c # t" using hex_join_hd [OF gx(2)] by metis
      moreover have "ipv6_groups 8 (hex_join ys) [] (Some 0) = Some ([], [] @ split_groups ys, Some 0)"
        by (rule ipv6_groups_join [OF False gx(2)]) (simp add: l)
      ultimately show ?thesis using True n whole zs l by (simp add: parseIPv6_def)
    qed
  next
    case False
    obtain c t where j: "hex_join xs = c # t" "hex_val c \<noteq> None" using hex_join_hd [OF gx(1) False] .
    have "c \<noteq> CHR '':''" using j(2) by auto
    then have "take 2 (hex_join xs @ ''::'' @ hex_join ys) \<noteq> ''::''" using j(1) by simp
    moreover have "ipv6_groups 8 (hex_join xs @ ''::'' @ hex_join ys) [] None =
        Some ([], split_groups xs @ split_groups ys, Some (2 * length xs))"
      using ipv6_groups_ellipsis [OF False gx, of 8 "[]"] l r by simp
    ultimately show ?thesis using n whole l by (simp add: parseIPv6_def)
  qed
  then show ?thesis using shown hex_join_chars gx by auto
qed

lemma ParseIP_String:
  assumes a: "ip_ok a"
  shows "ParseIP (IP_String a) = Some a \<and>
    (\<forall>c \<in> set (IP_String a). hex_val c \<noteq> None \<or> c = CHR '':'' \<or> c = CHR ''.'')"
proof (cases "To4 a")
  case None
  obtain zs ze where z: "zero_run (groups_of a) = (zs, ze)" by fastforce
  have g: "length (groups_of a) = 8" "\<forall>g \<in> set (groups_of a). g < 65536" "split_groups (groups_of a) = a"
    using groups_split [of a 8] a by (simp_all add: ip_ok_def)
  have s: "IP_String a = ipv6_text 0 zs ze (groups_of a)" by (simp add: IP_String_def None z)
  note t = parseIPv6_text [OF g(1,2) z, folded s]
  have "find (\<lambda>c. c = CHR ''.'' \<or> c = CHR '':'' \<or> c = CHR ''%'') (IP_String a) = Some CHR '':''"
    by (rule first_colon) (use t in blast)+
  moreover have "CHR ''%'' \<notin> set (IP_String a)" using t by force
  ultimately show ?thesis using t g(3) by (auto simp: ParseIP_def)
next
  case (Some v)
  have v: "a = v4_in_6 v" "length v = 4" "\<forall>b \<in> set v. b < 256" using To4_v4 [OF a Some] by blast+
  obtain b0 b1 b2 b3 where b: "v = [b0, b1, b2, b3]" using length_4 [OF v(2)] by blast
  have s: "IP_String a = string_of_nat b0 @ ''.'' @ string_of_nat b1 @ ''.'' @ string_of_nat b2 @ ''.'' @ string_of_nat b3"
    by (simp add: IP_String_def Some b)
  have d: "hex_val c \<noteq> None \<and> c \<noteq> CHR ''.'' \<and> c \<noteq> CHR '':'' \<and> c \<noteq> CHR ''%''" if "c \<in> set (string_of_nat n)" for c n
    using digit_text_chars [OF that] by (auto simp: is_digit_def hex_val_def Let_def)
  have f: "find P (string_of_nat n @ t) = find P t" if "\<And>c. c \<in> set (string_of_nat n) \<Longrightarrow> \<not> P c" for P n t
  proof -
    have "find P (s @ t) = find P t" if "\<And>c. c \<in> set s \<Longrightarrow> \<not> P c" for s using that by (induction s) auto
    then show ?thesis using that by blast
  qed
  have "find (\<lambda>c. c = CHR ''.'' \<or> c = CHR '':'' \<or> c = CHR ''%'') (IP_String a) = Some CHR ''.''"
    unfolding s by (subst f) (use d in auto)
  moreover have "parseIPv4Fields (IP_String a) = Some v" unfolding s b by (rule IPv4_text) (use v(3) b in auto)
  ultimately have "ParseIP (IP_String a) = Some a" using v(1) by (simp add: ParseIP_def)
  moreover have "\<forall>c \<in> set (IP_String a). hex_val c \<noteq> None \<or> c = CHR '':'' \<or> c = CHR ''.''"
    unfolding s using d by auto
  ultimately show ?thesis by blast
qed

text \<open>What \<open>ParseIP\<close> reads is an address of 16 bytes.\<close>

lemma hex_group_bound: "\<forall>c \<in> set s. hex_val c \<noteq> None \<Longrightarrow> hex_group n s < (n + 1) * 16 ^ length s"
proof (induction s arbitrary: n)
  case (Cons c s)
  then obtain d where d: "hex_val c = Some d" by auto
  then have "d < 16" by (auto simp: hex_val_def Let_def split: if_splits)
  have "hex_group (16 * n + d) s < (16 * n + d + 1) * 16 ^ length s" by (rule Cons.IH) (use Cons.prems in simp)
  also have "\<dots> \<le> (16 * n + 16) * 16 ^ length s" using \<open>d < 16\<close> by (intro mult_right_mono) simp_all
  finally show ?case using d by (simp add: algebra_simps)
qed simp

lemma hex_group_4: "\<forall>c \<in> set s. hex_val c \<noteq> None \<Longrightarrow> length s \<le> 4 \<Longrightarrow> hex_group 0 s < 65536"
  using hex_group_bound [of s 0] power_increasing [of "length s" 4 "16 :: nat"] by simp

lemma ipv6_groups_ok:
  assumes "ipv6_groups rounds s bytes ell = Some (r, bs, e)" "length bytes + 2 * rounds \<le> 16" "\<forall>b \<in> set bytes. b < 256"
  shows "length bs \<le> 16 \<and> (\<forall>b \<in> set bs. b < 256)"
  using assms
proof (induction rounds arbitrary: s bytes ell)
  case (Suc k)
  define w rest where "w = takeWhile (\<lambda>c. hex_val c \<noteq> None) s" and "rest = dropWhile (\<lambda>c. hex_val c \<noteq> None) s"
  define b where "b = bytes @ [hex_group 0 w div 256, hex_group 0 w mod 256]"
  have w: "\<forall>c \<in> set w. hex_val c \<noteq> None" unfolding w_def by (blast dest: set_takeWhileD)
  note r = Suc.prems(1) [unfolded ipv6_groups.simps(2) Let_def, folded w_def rest_def, folded b_def]
  have l: "w \<noteq> []" "length w \<le> 4"
    using r by (auto split: if_splits)
  have b: "length b + 2 * k \<le> 16" "\<forall>x \<in> set b. x < 256"
    using Suc.prems(2,3) hex_group_4 [OF w l(2)] by (auto simp: b_def)
  have more: "length bs \<le> 16 \<and> (\<forall>b \<in> set bs. b < 256)" if "ipv6_groups k t b x = Some (r, bs, e)" for t x
    by (rule Suc.IH [OF that b])
  have stop: "length b \<le> 16 \<and> (\<forall>b \<in> set b. b < 256)" using b by auto
  show ?case
  proof (cases "rest \<noteq> [] \<and> hd rest = CHR ''.''")
    case True
    then obtain v where "parseIPv4Fields s = Some v" "bs = bytes @ v" "length bytes + 4 \<le> 16"
      using r l by (auto split: if_splits option.splits)
    then show ?thesis using parseIPv4_bytes Suc.prems(3) by auto
  next
    case False
    then have "bs = b \<or> (\<exists>t x. ipv6_groups k t b x = Some (r, bs, e))"
      using r l by (auto split: if_splits list.splits)
    then show ?thesis using more stop by blast
  qed
qed simp

lemma parseIPv6_ok:
  assumes "parseIPv6 s = Some a"
  shows "ip_ok a"
proof (cases "s = ''::''")
  case True
  then show ?thesis using assms by (auto simp: parseIPv6_def ip_ok_def)
next
  case False
  define l where "l = (take 2 s = ''::'')"
  define t where "t = (if l then drop 2 s else s)"
  have "\<not> (l \<and> t = [])" using False unfolding l_def t_def by (metis append_Nil2 append_take_drop_id)
  then obtain x where x: "ipv6_groups 8 t [] (if l then Some 0 else None) = Some x"
    using assms unfolding parseIPv6_def Let_def l_def [symmetric] t_def [symmetric] by (auto split: if_splits option.splits)
  obtain r bs e where g: "ipv6_groups 8 t [] (if l then Some 0 else None) = Some (r, bs, e)" using x by (cases x) auto
  have "length bs \<le> 16 \<and> (\<forall>b \<in> set bs. b < 256)" by (rule ipv6_groups_ok [OF g]) simp_all
  then show ?thesis
    using assms \<open>\<not> (l \<and> t = [])\<close> unfolding parseIPv6_def Let_def l_def [symmetric] t_def [symmetric] g ip_ok_def
    by (auto simp: min_def dest!: in_set_takeD in_set_dropD split: if_splits option.splits)
qed

lemma ParseIP_ok: "ParseIP s = Some a \<Longrightarrow> ip_ok a"
proof -
  assume p: "ParseIP s = Some a"
  then have "parseIPv6 s = Some a \<or> (\<exists>v. parseIPv4Fields s = Some v \<and> a = v4_in_6 v)"
    by (auto simp: ParseIP_def split: option.splits if_splits)
  then show ?thesis using parseIPv6_ok parseIPv4_bytes by (auto simp: ip_ok_def v4_in_6_def)
qed

section \<open>Names\<close>

lemma split_on_chars: "c \<in> set s \<Longrightarrow> c = sep \<or> (\<exists>w \<in> set (split_on sep s). c \<in> set w)"
  by (induction s) (auto split: list.splits)

lemma split_on_hd: "split_on sep s = w # ws \<Longrightarrow> w \<noteq> [] \<Longrightarrow> s \<noteq> [] \<and> hd s = hd w"
  by (cases s) (auto split: if_splits list.splits)

lemma fold_runes_chars: "c \<in> set s \<Longrightarrow> c \<in> set '':[]'' \<Longrightarrow> c \<in> set (fold_runes s)"
proof (induction s rule: fold_runes.induct)
  case (2 x cs)
  have l: "lower c = c" using 2 by (auto simp: lower_def)
  consider "x = CHR 0xC5 \<and> cs \<noteq> [] \<and> hd cs = CHR 0xBF" | "x = CHR 0xE2 \<and> take 2 cs = [CHR 0x84, CHR 0xAA]"
    | "\<not> (x = CHR 0xC5 \<and> cs \<noteq> [] \<and> hd cs = CHR 0xBF)" "\<not> (x = CHR 0xE2 \<and> take 2 cs = [CHR 0x84, CHR 0xAA])" by blast
  then show ?case
  proof cases
    case 1
    then have "c \<in> set (tl cs)" using 2 by (cases cs) auto
    then show ?thesis using 2 1 by simp
  next
    case e: 2
    have "c \<in> set (x # take 2 cs @ drop 2 cs)" using 2(4) by (simp only: append_take_drop_id)
    then have "c \<in> set (drop 2 cs)" using 2 e by auto
    then show ?thesis using 2 e by simp
  next
    case 3
    then show ?thesis using 2 l by auto
  qed
qed simp

lemma domain_chars:
  assumes d: "domainRegex host"
  shows "no_delims host" "host \<noteq> []"
    "is_lower_letter (hd (fold_runes host)) \<or> is_digit (hd (fold_runes host))"
proof -
  define ls where "ls = split_on CHR ''.'' (fold_runes host)"
  have ls: "2 \<le> length ls" "list_all label_ok (butlast ls)" "list_all is_lower_letter (last ls)"
    using d by (auto simp: domainRegex_def Let_def ls_def)
  then obtain w ws where w: "ls = w # ws" "label_ok w" by (cases ls; cases "tl ls") auto
  have hd: "fold_runes host \<noteq> []" "hd (fold_runes host) = hd w"
    using split_on_hd [of "CHR ''.''" "fold_runes host" w ws] w by (simp_all add: ls_def label_ok_def)
  then show "host \<noteq> []" "is_lower_letter (hd (fold_runes host)) \<or> is_digit (hd (fold_runes host))"
    using w(2) by (auto simp: label_ok_def)
  have "ls = butlast ls @ [last ls]" using w(1) by simp
  then have "v \<in> set (butlast ls) \<or> v = last ls" if "v \<in> set ls" for v using that by (metis UnE list.set(1,2) set_append singletonD insertE empty_iff)
  then have good: "is_lower_letter c \<or> is_digit c \<or> c = CHR ''-''" if "v \<in> set ls" "c \<in> set v" for v c
    using that ls(2,3) by (fastforce simp: list_all_iff label_ok_def)
  have "c \<notin> set host" if "c \<in> set '':[]''" for c
  proof
    assume "c \<in> set host"
    then have "c \<in> set (fold_runes host)" using that by (rule fold_runes_chars)
    then have "c = CHR ''.'' \<or> is_lower_letter c \<or> is_digit c \<or> c = CHR ''-''"
      using split_on_chars good unfolding ls_def by metis
    then show False using that by (auto simp: is_lower_letter_def is_digit_def)
  qed
  then show "no_delims host" by (simp add: no_delims_def)
qed

section \<open>Trimming\<close>

text \<open>A space is neither a printable ASCII character nor the start of a letter that folds to one.\<close>

definition space_shape :: "string \<Rightarrow> bool" where
  "space_shape r \<longleftrightarrow> (case r of [] \<Rightarrow> False | c # t \<Rightarrow> \<not> is_digit (last r) \<and>
     ((of_char c :: nat) < 33 \<or> 193 < (of_char c :: nat)) \<and> c \<noteq> CHR 0xC5 \<and>
     (c \<noteq> CHR 0xE2 \<or> (t \<noteq> [] \<and> hd t \<noteq> CHR 0x84)))"

lemma space_rune: "r \<in> set space_runes \<Longrightarrow> space_shape r"
proof -
  have "list_all space_shape space_runes" by code_simp
  then show "r \<in> set space_runes \<Longrightarrow> space_shape r" by (simp only: list_all_iff)
qed

definition trimmed_start :: "string \<Rightarrow> bool" where
  "trimmed_start s \<longleftrightarrow> (case s of [] \<Rightarrow> False | c # t \<Rightarrow>
     (33 \<le> (of_char c :: nat) \<and> (of_char c :: nat) \<le> 193) \<or> c = CHR 0xC5 \<or> (c = CHR 0xE2 \<and> take 1 t = [CHR 0x84]))"

lemma trimmed_start_append: "trimmed_start s \<Longrightarrow> trimmed_start (s @ t)"
  by (cases s; cases "tl s") (auto simp: trimmed_start_def)

lemma TrimSpace_id:
  assumes "trimmed_start s" "is_digit (last s)"
  shows "TrimSpace s = s"
proof -
  have ne: "s \<noteq> []" using assms(1) by (auto simp: trimmed_start_def)
  have "take (length r) s \<noteq> r" if mem: "r \<in> set space_runes" for r
  proof
    assume t: "take (length r) s = r"
    obtain c u where r: "r = c # u" using space_rune [OF mem] by (cases r) (simp_all add: space_shape_def)
    then obtain v where v: "s = c # v" "take (length u) v = u" using t by (cases s) auto
    have "c = CHR 0xE2" "take 1 v = [CHR 0x84]" "u \<noteq> []" "hd u \<noteq> CHR 0x84"
      using assms(1) space_rune [OF mem] r v by (auto simp: trimmed_start_def space_shape_def)
    then show False using v(2) by (cases u; cases v) auto
  qed
  then have "find (\<lambda>r. take (length r) s = r) space_runes = None" by (simp add: find_None_iff)
  then have left: "trim_left s = s" by (simp add: trim_left.simps [of s])
  have "drop (length s - length r) s \<noteq> r" if mem: "r \<in> set space_runes" for r
  proof
    assume d: "drop (length s - length r) s = r"
    have r: "r \<noteq> []" "\<not> is_digit (last r)" using space_rune [OF mem] by (cases r; simp add: space_shape_def)+
    have "last r = last s" using d r(1) by (metis drop_eq_Nil last_drop not_le)
    then show False using r(2) assms(2) by simp
  qed
  then have "find (\<lambda>r. drop (length s - length r) s = r) space_runes = None" by (simp add: find_None_iff)
  then have "trim_right s = s" by (simp add: trim_right.simps [of s])
  then show ?thesis by (simp add: TrimSpace_def left)
qed

section \<open>Sanitized addresses\<close>

lemma Atoi_text:
  assumes "Atoi s = Some n"
  shows "s \<noteq> [] \<and> is_digit (last s) \<and> no_delims s"
proof -
  obtain c cs where s: "s = c # cs" using assms by (cases s) (auto simp: Atoi_def)
  define ds where "ds = (if c = CHR ''-'' \<or> c = CHR ''+'' then cs else s)"
  have ds: "ds \<noteq> []" "list_all is_digit ds"
    using assms unfolding Atoi_def Let_def s list.case ds_def by (auto split: if_splits)
  have "last s = last ds" using ds(1) s by (auto simp: ds_def split: if_splits)
  moreover have "is_digit x \<or> x = CHR ''-'' \<or> x = CHR ''+''" if "x \<in> set s" for x
    using that ds(2) s by (auto simp: ds_def list_all_iff split: if_splits)
  then have "x \<notin> set s" if "\<not> is_digit x" "x \<noteq> CHR ''-''" "x \<noteq> CHR ''+''" for x using that by blast
  then have "no_delims s" by (simp add: no_delims_def is_digit_def)
  ultimately show ?thesis using ds s by (auto simp: list_all_iff)
qed

definition kept_host :: "string \<Rightarrow> bool" where
  "kept_host host \<longleftrightarrow> (\<exists>a. ip_ok a \<and> public_ip a \<and> host = IP_String a) \<or>
     (domainRegex host \<and> fold_runes host \<noteq> ''localhost'' \<and> ParseIP host = None)"

lemma kept_host_text:
  assumes "kept_host host"
  shows "CHR ''['' \<notin> set host \<and> CHR '']'' \<notin> set host \<and> host \<noteq> [] \<and> trimmed_start (JoinHostPort host port)"
proof -
  consider a where "ip_ok a" "host = IP_String a" | "domainRegex host" using assms by (auto simp: kept_host_def)
  then show ?thesis
  proof cases
    case 1
    have c: "\<forall>c \<in> set host. hex_val c \<noteq> None \<or> c = CHR '':'' \<or> c = CHR ''.''" and p: "ParseIP host = Some a"
      using ParseIP_String [OF 1(1)] 1(2) by auto
    have "host \<noteq> []" using p by (auto simp: ParseIP_def)
    moreover from this have "33 \<le> (of_char (hd host) :: nat) \<and> (of_char (hd host) :: nat) \<le> 193"
      using c by (cases host) (auto simp: hex_val_def Let_def split: if_splits)
    moreover have "CHR ''['' \<notin> set host" "CHR '']'' \<notin> set host" using c by auto
    ultimately show ?thesis by (cases host) (auto simp: JoinHostPort_def trimmed_start_def)
  next
    case 2
    note d = domain_chars [OF 2]
    obtain c t where h: "host = c # t" using d(2) by (cases host) auto
    have "trimmed_start host"
    proof (cases "(c = CHR 0xC5 \<and> t \<noteq> [] \<and> hd t = CHR 0xBF) \<or> (c = CHR 0xE2 \<and> take 2 t = [CHR 0x84, CHR 0xAA])")
      case True
      then show ?thesis by (cases t) (auto simp: trimmed_start_def h)
    next
      case False
      then have "is_lower_letter (lower c) \<or> is_digit (lower c)" using d(3) h by auto
      then show ?thesis by (auto simp: trimmed_start_def h lower_def is_lower_letter_def is_digit_def split: if_splits)
    qed
    then show ?thesis using d(1) h by (simp add: no_delims_def JoinHostPort_def trimmed_start_append [of "c # t", simplified])
  qed
qed

lemma sanitizePeer_kept:
  assumes "sanitizePeer p \<noteq> PEER_INVALID"
  obtains host port n where "sanitizePeer p = JoinHostPort host port" "kept_host host" "Atoi port = Some n" "0 < n" "n \<le> 65535"
proof -
  obtain host port n where s: "SplitHostPort (TrimSpace p) = Some (host, port)" "Atoi port = Some n" "0 < n" "n \<le> 65535"
    using assms by (auto simp: sanitizePeer_def split: option.splits if_splits)
  define h where "h = (if host \<noteq> [] \<and> hd host = CHR ''['' \<and> last host = CHR '']'' then take (length host - 2) (drop 1 host) else host)"
  have r: "sanitizePeer p = (case ParseIP h of
        Some a \<Rightarrow> if \<not> public_ip a then PEER_INVALID else JoinHostPort (IP_String a) port
      | None \<Rightarrow> if domainRegex host \<and> fold_runes host \<noteq> ''localhost'' then JoinHostPort host port else PEER_INVALID)"
    using s by (simp add: sanitizePeer_def h_def)
  show thesis
  proof (cases "ParseIP h")
    case None
    then have d: "domainRegex host" "fold_runes host \<noteq> ''localhost''" using r assms by (auto split: if_splits)
    have "h = host" using domain_chars(1) [OF d(1)] by (cases host) (auto simp: h_def no_delims_def)
    then show thesis using that [of host port n] r None d s by (auto simp: kept_host_def)
  next
    case (Some a)
    then have "public_ip a" using r assms by (auto split: if_splits)
    then show thesis using that [of "IP_String a" port n] r Some ParseIP_ok [OF Some] s by (auto simp: kept_host_def)
  qed
qed

lemma sanitizePeer_again:
  assumes "kept_host host" "Atoi port = Some n" "0 < n" "n \<le> 65535"
  shows "sanitizePeer (JoinHostPort host port) = JoinHostPort host port"
proof -
  note k = kept_host_text [OF assms(1), of port] and p = Atoi_text [OF assms(2)]
  have "last (JoinHostPort host port) = last port" using p by (simp add: JoinHostPort_def)
  then have t: "TrimSpace (JoinHostPort host port) = JoinHostPort host port" using k p by (intro TrimSpace_id) simp_all
  have s: "SplitHostPort (JoinHostPort host port) = Some (host, port)" using k p by (intro SplitHostPort_Join) simp_all
  have "hd host \<noteq> CHR ''[''" using k by (cases host) auto
  then show ?thesis
    using assms ParseIP_String by (auto simp: sanitizePeer_def t s kept_host_def)
qed

lemma sanitizePeer_idem: "sanitizePeer (sanitizePeer p) = sanitizePeer p"
proof (cases "sanitizePeer p = PEER_INVALID")
  case True
  have "sanitizePeer PEER_INVALID = PEER_INVALID" by code_simp
  then show ?thesis using True by simp
next
  case False
  then show ?thesis by (metis sanitizePeer_kept sanitizePeer_again)
qed

end
