(* ===== verification/Unmarshal.thy ===== *)
theory Unmarshal
  imports Types
begin

text \<open>
  \<^verbatim>\<open>internal/types/unmarshal.go\<close>: the custom \<^verbatim>\<open>UnmarshalJSON\<close> methods, and the JSON that
  the struct tags of \<^verbatim>\<open>objects.go\<close> and \<^verbatim>\<open>types.go\<close> make of the objects. A decoder returns
  \<open>None\<close> where the Go method returns an error (the error's text is not modelled). Each decoder
  inverts its encoder on the values the protocol allows: one \<open>codec\<close> interpretation per type.
  The wire form of \<^verbatim>\<open>Peer\<close> (\<^verbatim>\<open>sanitizePeer\<close>) is not in this theory.
\<close>

named_theorems dec_defs \<open>definitions of the decoders and encoders\<close>

section \<open>Limits\<close>

definition maxArrLen :: nat where [dec_defs]: "maxArrLen = 1000"
definition maxBuStringLen :: nat where [dec_defs]: "maxBuStringLen = 1024"
definition maxBuStringsLen :: nat where [dec_defs]: "maxBuStringsLen = 10"

section \<open>Enumerations\<close>

fun enum_of :: "('e \<Rightarrow> string) \<Rightarrow> 'e list \<Rightarrow> string \<Rightarrow> 'e option" where
  "enum_of str es s = find (\<lambda>e. str e = s) es"

definition MessageType_Unmarshal :: "json \<Rightarrow> MessageType option" where
  "MessageType_Unmarshal j = do {
     s \<leftarrow> dec_string j;
     enum_of MessageType_str [MSG_HELLO, MSG_ERROR, MSG_GETPEERS, MSG_PEERS, MSG_GETOBJECT,
       MSG_IHAVEOBJECT, MSG_OBJECT, MSG_GETMEMPOOL, MSG_MEMPOOL, MSG_GETCHAINTIP, MSG_CHAINTIP] s }"

definition ErrorCode_Unmarshal :: "json \<Rightarrow> ErrorCode option" where
  "ErrorCode_Unmarshal j = do {
     s \<leftarrow> dec_string j;
     enum_of ErrorCode_str [E_INTERNAL_ERROR, E_INVALID_FORMAT, E_UNKNOWN_OBJECT,
       E_UNFINDABLE_OBJECT, E_INVALID_HANDSHAKE, E_INVALID_TX_OUTPOINT, E_INVALID_TX_SIGNATURE,
       E_INVALID_TX_CONSERVATION, E_INVALID_BLOCK_COINBASE, E_INVALID_BLOCK_TIMESTAMP,
       E_INVALID_BLOCK_POW, E_INVALID_GENESIS] s }"

definition ObjectType_Unmarshal :: "json \<Rightarrow> ObjectType option" where
  "ObjectType_Unmarshal j = do {
     s \<leftarrow> dec_string j; enum_of ObjectType_str [OBJ_BLOCK, OBJ_TRANSACTION] s }"

text \<open>The regular expression \<^verbatim>\<open>^0\.10\.[0-9]+$\<close>.\<close>

definition version_ok :: "string \<Rightarrow> bool" where
  "version_ok s \<longleftrightarrow> take 5 s = ''0.10.'' \<and> drop 5 s \<noteq> [] \<and> list_all is_digit (drop 5 s)"

definition Version_Unmarshal :: "json \<Rightarrow> Version option" where
  "Version_Unmarshal j = do { s \<leftarrow> dec_string j; if version_ok s then Some s else None }"

section \<open>Strings and numbers\<close>

definition is_hex :: "char \<Rightarrow> bool" where
  "is_hex c \<longleftrightarrow> (let n = of_char c :: nat in
     (48 \<le> n \<and> n \<le> 57) \<or> (97 \<le> n \<and> n \<le> 102) \<or> (65 \<le> n \<and> n \<le> 70))"

definition is_lower_hex :: "char \<Rightarrow> bool" where
  "is_lower_hex c \<longleftrightarrow> (let n = of_char c :: nat in (48 \<le> n \<and> n \<le> 57) \<or> (97 \<le> n \<and> n \<le> 102))"

definition HashID_ok :: "HashID \<Rightarrow> bool" where
  "HashID_ok s \<longleftrightarrow> length s = 64 \<and> list_all is_hex s"

definition HashID_Unmarshal :: "json \<Rightarrow> HashID option" where
  "HashID_Unmarshal j = do {
     s \<leftarrow> dec_string j;
     if length s \<noteq> 64 then None else if \<not> list_all is_hex s then None else Some s }"

definition Signature_Unmarshal :: "json \<Rightarrow> Signature option" where
  "Signature_Unmarshal j = do {
     s \<leftarrow> dec_string j;
     if length s \<noteq> 128 then None else if \<not> list_all is_hex s then None else Some s }"

definition Nonce_Unmarshal :: "json \<Rightarrow> Nonce option" where
  "Nonce_Unmarshal j = do {
     s \<leftarrow> dec_string j;
     if length s > 64 then None else if \<not> list_all is_lower_hex s then None else Some s }"

definition Picabu_Marshal :: "Picabu \<Rightarrow> json" where
  "Picabu_Marshal b = JInt b"

text \<open>
  \<^verbatim>\<open>big.Int\<close> reads an integer literal of any size; null leaves 0; every other value, a quoted
  number or an object among them, is an error.
\<close>

definition Picabu_Unmarshal :: "json \<Rightarrow> Picabu option" where
  "Picabu_Unmarshal j = do {
     i \<leftarrow> (case j of JInt i \<Rightarrow> Some i | JNull \<Rightarrow> Some 0 | _ \<Rightarrow> None);
     if i < 0 then None else Some i }"

definition BuInt_Unmarshal :: "json \<Rightarrow> BuInt option" where
  "BuInt_Unmarshal j = do { i \<leftarrow> dec_int64 j; if i < 0 then None else Some i }"

definition BuString_char :: "char \<Rightarrow> bool" where
  "BuString_char c \<longleftrightarrow> (let n = of_char c :: nat in \<not> ((n < 32 \<or> 126 < n) \<and> n \<noteq> 10 \<and> n \<noteq> 13 \<and> n \<noteq> 9))"

definition BuString_Unmarshal :: "json \<Rightarrow> BuString option" where
  "BuString_Unmarshal j = do {
     s \<leftarrow> dec_string j;
     if \<not> list_all BuString_char s then None
     else if length s > maxBuStringLen then None else Some s }"

section \<open>Arrays\<close>

definition UnmarshalArray ::
  "(json \<Rightarrow> 'a option) \<Rightarrow> nat \<Rightarrow> nat \<Rightarrow> json \<Rightarrow> 'a slice option" where
  "UnmarshalArray dec minLen maxLen j = do {
     arr \<leftarrow> (case j of JArr js \<Rightarrow> map_option Some (mapM dec js) | JNull \<Rightarrow> Some None | _ \<Rightarrow> None);
     if length (elems arr) < minLen then None
     else if length (elems arr) > maxLen then None
     else Some arr }"

definition BuInts_Unmarshal :: "json \<Rightarrow> BuInt slice option" where
  "BuInts_Unmarshal j = UnmarshalArray BuInt_Unmarshal 0 maxArrLen j"

definition BuStrings_Unmarshal :: "json \<Rightarrow> BuString slice option" where
  "BuStrings_Unmarshal j = UnmarshalArray BuString_Unmarshal 0 maxBuStringsLen j"

definition HashIDs_Unmarshal :: "json \<Rightarrow> HashID slice option" where
  "HashIDs_Unmarshal j = UnmarshalArray HashID_Unmarshal 0 maxArrLen j"

section \<open>Structs\<close>

definition Outpoint_json :: "Outpoint \<Rightarrow> json" where
  "Outpoint_json p = JObj [(''txid'', JStr (op_Txid p)), (''index'', ptr_json JInt (op_Index p))]"

definition Outpoint_Unmarshal :: "json \<Rightarrow> Outpoint option" where
  "Outpoint_Unmarshal j = do {
     kvs \<leftarrow> members j;
     let f = (\<lambda>n. jfield [''txid'', ''index''] n kvs);
     txid \<leftarrow> val_field [] HashID_Unmarshal (f ''txid'');
     index \<leftarrow> ptr_field BuInt_Unmarshal (f ''index'');
     if index = None then None else Some \<lparr>op_Txid = txid, op_Index = index\<rparr> }"

definition TxInput_json :: "TxInput \<Rightarrow> json" where
  "TxInput_json i =
     JObj [(''outpoint'', Outpoint_json (in_Outpoint i)), (''sig'', ptr_json JStr (in_Sig i))]"

text \<open>
  No custom method: an absent outpoint leaves the zero \<^verbatim>\<open>Outpoint\<close>, whose index is nil.
\<close>

definition TxInput_Unmarshal :: "json \<Rightarrow> TxInput option" where
  "TxInput_Unmarshal j = do {
     kvs \<leftarrow> members j;
     let f = (\<lambda>n. jfield [''outpoint'', ''sig''] n kvs);
     outpoint \<leftarrow> val_field \<lparr>op_Txid = [], op_Index = None\<rparr> Outpoint_Unmarshal (f ''outpoint'');
     sig \<leftarrow> ptr_field Signature_Unmarshal (f ''sig'');
     Some \<lparr>in_Outpoint = outpoint, in_Sig = sig\<rparr> }"

definition TxOutput_json :: "TxOutput \<Rightarrow> json" where
  "TxOutput_json o' =
     JObj [(''pubkey'', JStr (out_Pubkey o')), (''value'', Picabu_Marshal (out_Value o'))]"

definition TxOutput_Unmarshal :: "json \<Rightarrow> TxOutput option" where
  "TxOutput_Unmarshal j = do {
     kvs \<leftarrow> members j;
     let f = (\<lambda>n. jfield [''pubkey'', ''value''] n kvs);
     pubkey \<leftarrow> val_field [] HashID_Unmarshal (f ''pubkey'');
     value \<leftarrow> ptr_field Picabu_Unmarshal (f ''value'');
     case value of None \<Rightarrow> None | Some v \<Rightarrow> Some \<lparr>out_Pubkey = pubkey, out_Value = v\<rparr> }"

definition TxInputs_Unmarshal :: "json \<Rightarrow> TxInput slice option" where
  "TxInputs_Unmarshal j = UnmarshalArray TxInput_Unmarshal 1 maxArrLen j"

definition TxOutputs_Unmarshal :: "json \<Rightarrow> TxOutput slice option" where
  "TxOutputs_Unmarshal j = UnmarshalArray TxOutput_Unmarshal 0 maxArrLen j"

definition Transaction_json :: "Transaction \<Rightarrow> json" where
  "Transaction_json t =
     JObj [(''type'', JStr (ObjectType_str (tx_Type t))),
           (''inputs'', slice_json TxInput_json (tx_Inputs t)),
           (''outputs'', slice_json TxOutput_json (tx_Outputs t))]"

text \<open>No custom method: an absent \<^verbatim>\<open>inputs\<close> member leaves nil, whatever \<open>TxInputs_Unmarshal\<close> asks.\<close>

definition Transaction_Unmarshal :: "json \<Rightarrow> Transaction option" where
  "Transaction_Unmarshal j = do {
     kvs \<leftarrow> members j;
     let f = (\<lambda>n. jfield [''type'', ''inputs'', ''outputs''] n kvs);
     type \<leftarrow> val_field OBJ_NONE ObjectType_Unmarshal (f ''type'');
     inputs \<leftarrow> val_field None TxInputs_Unmarshal (f ''inputs'');
     outputs \<leftarrow> val_field None TxOutputs_Unmarshal (f ''outputs'');
     Some \<lparr>tx_Type = type, tx_Inputs = inputs, tx_Outputs = outputs, tx_CachedID = None\<rparr> }"

definition CoinbaseTransaction_json :: "CoinbaseTransaction \<Rightarrow> json" where
  "CoinbaseTransaction_json c =
     JObj [(''type'', JStr (ObjectType_str (cb_Type c))),
           (''height'', JInt (cb_Height c)),
           (''outputs'', slice_json TxOutput_json (cb_Outputs c))]"

definition CoinbaseTransaction_Unmarshal :: "json \<Rightarrow> CoinbaseTransaction option" where
  "CoinbaseTransaction_Unmarshal j = do {
     kvs \<leftarrow> members j;
     let f = (\<lambda>n. jfield [''type'', ''height'', ''outputs''] n kvs);
     type \<leftarrow> val_field OBJ_NONE ObjectType_Unmarshal (f ''type'');
     height \<leftarrow> ptr_field BuInt_Unmarshal (f ''height'');
     outputs \<leftarrow> val_field None TxOutputs_Unmarshal (f ''outputs'');
     if length (elems outputs) \<noteq> 1 then None
     else (case height of None \<Rightarrow> None
       | Some h \<Rightarrow> Some \<lparr>cb_Type = type, cb_Height = h, cb_Outputs = outputs, cb_CachedID = None\<rparr>) }"

definition Block_json :: "Block \<Rightarrow> json" where
  "Block_json b = JObj (
     [(''type'', JStr (ObjectType_str (blk_Type b))),
      (''T'', JStr (blk_T b)),
      (''created'', JInt (blk_Created b))] @
     omit_nil ''miner'' JStr (blk_Miner b) @
     [(''nonce'', JStr (blk_Nonce b))] @
     omit_nil ''note'' JStr (blk_Note b) @
     [(''previd'', ptr_json JStr (blk_Previd b))] @
     omit_nil ''studentids'' (slice_json JStr) (blk_Studentids b) @
     [(''txids'', slice_json JStr (blk_Txids b))])"

definition Block_fields :: "string list" where
  "Block_fields = [''type'', ''T'', ''created'', ''miner'', ''nonce'', ''note'', ''previd'',
     ''studentids'', ''txids'']"

definition Block_Unmarshal :: "json \<Rightarrow> Block option" where
  "Block_Unmarshal j = do {
     kvs \<leftarrow> members j;
     let f = (\<lambda>n. jfield Block_fields n kvs);
     type \<leftarrow> val_field OBJ_NONE ObjectType_Unmarshal (f ''type'');
     t \<leftarrow> val_field [] HashID_Unmarshal (f ''T'');
     created \<leftarrow> val_field 0 BuInt_Unmarshal (f ''created'');
     miner \<leftarrow> ptr_field BuString_Unmarshal (f ''miner'');
     nonce \<leftarrow> val_field [] Nonce_Unmarshal (f ''nonce'');
     note \<leftarrow> ptr_field BuString_Unmarshal (f ''note'');
     previd \<leftarrow> ptr_field HashID_Unmarshal (f ''previd'');
     studentids \<leftarrow> ptr_field BuStrings_Unmarshal (f ''studentids'');
     txids \<leftarrow> val_field None HashIDs_Unmarshal (f ''txids'');
     Some \<lparr>blk_Type = type, blk_T = t, blk_Created = created, blk_Miner = miner, blk_Nonce = nonce,
       blk_Note = note, blk_Previd = previd, blk_Studentids = studentids, blk_Txids = txids,
       blk_CachedID = None\<rparr> }"

text \<open>\<^verbatim>\<open>json.Marshal\<close> of an object, and its text.\<close>

fun Object_json :: "Object \<Rightarrow> json" where
  "Object_json (TxObj t) = Transaction_json t"
| "Object_json (CoinbaseObj c) = CoinbaseTransaction_json c"
| "Object_json (BlockObj b) = Block_json b"

section \<open>Well-formed values\<close>

definition Signature_ok :: "Signature \<Rightarrow> bool" where
  "Signature_ok s \<longleftrightarrow> length s = 128 \<and> list_all is_hex s"

definition Nonce_ok :: "Nonce \<Rightarrow> bool" where
  "Nonce_ok s \<longleftrightarrow> length s \<le> 64 \<and> list_all is_lower_hex s"

definition BuString_ok :: "BuString \<Rightarrow> bool" where
  "BuString_ok s \<longleftrightarrow> list_all BuString_char s \<and> length s \<le> 1024"

definition BuInt_ok :: "BuInt \<Rightarrow> bool" where
  "BuInt_ok i \<longleftrightarrow> 0 \<le> i \<and> i < 2 ^ 63"

definition Outpoint_ok :: "Outpoint \<Rightarrow> bool" where
  "Outpoint_ok p \<longleftrightarrow> HashID_ok (op_Txid p) \<and> (case op_Index p of None \<Rightarrow> False | Some i \<Rightarrow> BuInt_ok i)"

definition TxInput_ok :: "TxInput \<Rightarrow> bool" where
  "TxInput_ok i \<longleftrightarrow> Outpoint_ok (in_Outpoint i) \<and> pred_option Signature_ok (in_Sig i)"

definition TxOutput_ok :: "TxOutput \<Rightarrow> bool" where
  "TxOutput_ok o' \<longleftrightarrow> HashID_ok (out_Pubkey o') \<and> 0 \<le> out_Value o'"

definition TxOutputs_ok :: "TxOutput slice \<Rightarrow> bool" where
  "TxOutputs_ok outs \<longleftrightarrow> list_all TxOutput_ok (elems outs) \<and> length (elems outs) \<le> 1000"

definition Transaction_ok :: "Transaction \<Rightarrow> bool" where
  "Transaction_ok t \<longleftrightarrow> tx_Type t = OBJ_TRANSACTION \<and> tx_CachedID t = None \<and>
     (case tx_Inputs t of None \<Rightarrow> False
      | Some ins \<Rightarrow> list_all TxInput_ok ins \<and> 1 \<le> length ins \<and> length ins \<le> 1000) \<and>
     TxOutputs_ok (tx_Outputs t)"

definition CoinbaseTransaction_ok :: "CoinbaseTransaction \<Rightarrow> bool" where
  "CoinbaseTransaction_ok c \<longleftrightarrow> cb_Type c = OBJ_TRANSACTION \<and> cb_CachedID c = None \<and>
     BuInt_ok (cb_Height c) \<and> TxOutputs_ok (cb_Outputs c) \<and> length (elems (cb_Outputs c)) = 1"

definition Block_ok :: "Block \<Rightarrow> bool" where
  "Block_ok b \<longleftrightarrow> blk_Type b = OBJ_BLOCK \<and> blk_CachedID b = None \<and>
     HashID_ok (blk_T b) \<and> BuInt_ok (blk_Created b) \<and> pred_option BuString_ok (blk_Miner b) \<and>
     Nonce_ok (blk_Nonce b) \<and> pred_option BuString_ok (blk_Note b) \<and>
     pred_option HashID_ok (blk_Previd b) \<and>
     pred_option (\<lambda>s. s \<noteq> None \<and> list_all BuString_ok (elems s) \<and> length (elems s) \<le> 10)
       (blk_Studentids b) \<and>
     list_all HashID_ok (elems (blk_Txids b)) \<and> length (elems (blk_Txids b)) \<le> 1000"

lemmas ok_defs = HashID_ok_def Signature_ok_def Nonce_ok_def BuString_ok_def BuInt_ok_def

section \<open>Decoding what was encoded\<close>

lemma HashID_Unmarshal_JStr [simp]:
  "HashID_Unmarshal (JStr s) = (if HashID_ok s then Some s else None)"
  by (simp add: HashID_Unmarshal_def HashID_ok_def)

lemma Signature_Unmarshal_JStr [simp]:
  "Signature_Unmarshal (JStr s) = (if Signature_ok s then Some s else None)"
  by (simp add: Signature_Unmarshal_def Signature_ok_def)

lemma Nonce_Unmarshal_JStr [simp]: "Nonce_Unmarshal (JStr s) = (if Nonce_ok s then Some s else None)"
  by (auto simp: Nonce_Unmarshal_def Nonce_ok_def)

lemma BuString_Unmarshal_JStr [simp]:
  "BuString_Unmarshal (JStr s) = (if BuString_ok s then Some s else None)"
  by (auto simp: BuString_Unmarshal_def BuString_ok_def maxBuStringLen_def)

lemma BuInt_Unmarshal_JInt [simp]: "BuInt_Unmarshal (JInt i) = (if BuInt_ok i then Some i else None)"
  by (auto simp: BuInt_Unmarshal_def BuInt_ok_def dec_int64_def)

lemma Picabu_Unmarshal_JInt [simp]: "Picabu_Unmarshal (JInt i) = (if 0 \<le> i then Some i else None)"
  by (auto simp: Picabu_Unmarshal_def)

lemma Picabu_Unmarshal_Marshal [simp]: "0 \<le> i \<Longrightarrow> Picabu_Unmarshal (Picabu_Marshal i) = Some i"
  by (simp add: Picabu_Marshal_def)

lemma ObjectType_Unmarshal_str [simp]:
  "ObjectType_Unmarshal (JStr (ObjectType_str t)) = (if t = OBJ_NONE then None else Some t)"
  by (cases t) (simp_all add: ObjectType_Unmarshal_def)

lemma ObjectType_Unmarshal_names [simp]:
  "ObjectType_Unmarshal (JStr ''transaction'') = Some OBJ_TRANSACTION"
  "ObjectType_Unmarshal (JStr ''block'') = Some OBJ_BLOCK"
  using ObjectType_Unmarshal_str [of OBJ_TRANSACTION] ObjectType_Unmarshal_str [of OBJ_BLOCK]
  by simp_all

lemma slice_json_JNull [simp]: "slice_json enc s = JNull \<longleftrightarrow> s = None"
  by (simp add: slice_json_def split: option.splits)

lemma ptr_field_ptr_json [simp]:
  "(\<And>x. enc x \<noteq> JNull) \<Longrightarrow>
     ptr_field dec (Some (ptr_json enc p)) = (case p of None \<Rightarrow> Some None | Some x \<Rightarrow> map_option Some (dec (enc x)))"
  by (simp add: ptr_json_def split: option.splits)

lemma UnmarshalArray_slice_json:
  assumes "\<And>x. x \<in> set (elems s) \<Longrightarrow> dec (enc x) = Some x"
    and "lo \<le> length (elems s)" "length (elems s) \<le> hi"
  shows "UnmarshalArray dec lo hi (slice_json enc s) = Some s"
proof (cases s)
  case (Some xs)
  then have "mapM dec (map enc xs) = Some xs"
    using assms(1) by (simp add: mapM_Some_iff)
  then show ?thesis
    using assms(2,3) Some by (simp add: UnmarshalArray_def slice_json_def)
qed (use assms in \<open>simp add: UnmarshalArray_def slice_json_def\<close>)

lemma Outpoint_dec_enc: "Outpoint_ok p \<Longrightarrow> Outpoint_Unmarshal (Outpoint_json p) = Some p"
  by (auto simp: Outpoint_Unmarshal_def Outpoint_json_def Outpoint_ok_def jfield_exact
      split: option.splits)

interpretation outpoint_codec: codec Outpoint_json Outpoint_Unmarshal Outpoint_ok
  by unfold_locales (rule Outpoint_dec_enc)

lemma TxInput_dec_enc: "TxInput_ok i \<Longrightarrow> TxInput_Unmarshal (TxInput_json i) = Some i"
  by (auto simp: TxInput_Unmarshal_def TxInput_json_def TxInput_ok_def jfield_exact
      outpoint_codec.dec_enc split: option.splits)

interpretation tx_input_codec: codec TxInput_json TxInput_Unmarshal TxInput_ok
  by unfold_locales (rule TxInput_dec_enc)

lemma Picabu_Marshal_not_null [simp]: "Picabu_Marshal v \<noteq> JNull"
  by (simp add: Picabu_Marshal_def)

lemma TxOutput_dec_enc: "TxOutput_ok o' \<Longrightarrow> TxOutput_Unmarshal (TxOutput_json o') = Some o'"
  by (auto simp: TxOutput_Unmarshal_def TxOutput_json_def TxOutput_ok_def jfield_exact)

interpretation tx_output_codec: codec TxOutput_json TxOutput_Unmarshal TxOutput_ok
  by unfold_locales (rule TxOutput_dec_enc)

lemma TxOutputs_dec_enc:
  "TxOutputs_ok outs \<Longrightarrow> TxOutputs_Unmarshal (slice_json TxOutput_json outs) = Some outs"
  unfolding TxOutputs_Unmarshal_def TxOutputs_ok_def maxArrLen_def
  by (rule UnmarshalArray_slice_json) (auto simp: list_all_iff tx_output_codec.dec_enc)

lemma TxInputs_dec_enc:
  "list_all TxInput_ok ins \<Longrightarrow> 1 \<le> length ins \<Longrightarrow> length ins \<le> 1000 \<Longrightarrow>
     TxInputs_Unmarshal (slice_json TxInput_json (Some ins)) = Some (Some ins)"
  unfolding TxInputs_Unmarshal_def maxArrLen_def
  by (rule UnmarshalArray_slice_json) (auto simp: list_all_iff tx_input_codec.dec_enc)

lemma Transaction_dec_enc:
  "Transaction_ok t \<Longrightarrow> Transaction_Unmarshal (Transaction_json t) = Some t"
  by (auto simp: Transaction_Unmarshal_def Transaction_json_def Transaction_ok_def jfield_exact
      TxOutputs_dec_enc TxInputs_dec_enc split: option.splits)

interpretation transaction_codec: codec Transaction_json Transaction_Unmarshal Transaction_ok
  by unfold_locales (rule Transaction_dec_enc)

lemma CoinbaseTransaction_dec_enc:
  "CoinbaseTransaction_ok c \<Longrightarrow> CoinbaseTransaction_Unmarshal (CoinbaseTransaction_json c) = Some c"
  by (auto simp: CoinbaseTransaction_Unmarshal_def CoinbaseTransaction_json_def
      CoinbaseTransaction_ok_def jfield_exact TxOutputs_dec_enc)

interpretation coinbase_codec:
  codec CoinbaseTransaction_json CoinbaseTransaction_Unmarshal CoinbaseTransaction_ok
  by unfold_locales (rule CoinbaseTransaction_dec_enc)

lemma HashIDs_dec_enc:
  "list_all HashID_ok (elems s) \<Longrightarrow> length (elems s) \<le> 1000 \<Longrightarrow>
     HashIDs_Unmarshal (slice_json JStr s) = Some s"
  unfolding HashIDs_Unmarshal_def maxArrLen_def
  by (rule UnmarshalArray_slice_json) (auto simp: list_all_iff)

lemma BuStrings_dec_enc:
  "list_all BuString_ok (elems s) \<Longrightarrow> length (elems s) \<le> 10 \<Longrightarrow>
     BuStrings_Unmarshal (slice_json JStr s) = Some s"
  unfolding BuStrings_Unmarshal_def maxBuStringsLen_def
  by (rule UnmarshalArray_slice_json) (auto simp: list_all_iff)

lemma jfield_append:
  "jfield names n (xs @ ys) = (case jfield names n ys of None \<Rightarrow> jfield names n xs | Some v \<Rightarrow> Some v)"
proof (induction ys rule: rev_induct)
  case Nil
  then show ?case by simp
next
  case (snoc y ys)
  then show ?case
    by (cases y) (simp flip: append_assoc add: jfield_snoc split: option.splits)
qed

lemma jfield_Cons:
  "List.member names k \<Longrightarrow> jfield names n ((k, v) # kvs) =
     (case jfield names n kvs of None \<Rightarrow> if n = k then Some v else None | Some w \<Rightarrow> Some w)"
  using jfield_append [of names n "[(k, v)]" kvs]
  by (simp add: jfield_def match_field_def split: option.splits)

lemma jfield_omit_nil:
  "List.member names k \<Longrightarrow> jfield names n (omit_nil k enc p) =
     (if n = k then map_option enc p else None)"
  by (cases p) (simp_all add: omit_nil_def jfield_def match_field_def)

lemma Block_members:
  obtains kvs where "Block_json b = JObj kvs"
    "jfield Block_fields ''type'' kvs = Some (JStr (ObjectType_str (blk_Type b)))"
    "jfield Block_fields ''T'' kvs = Some (JStr (blk_T b))"
    "jfield Block_fields ''created'' kvs = Some (JInt (blk_Created b))"
    "jfield Block_fields ''miner'' kvs = map_option JStr (blk_Miner b)"
    "jfield Block_fields ''nonce'' kvs = Some (JStr (blk_Nonce b))"
    "jfield Block_fields ''note'' kvs = map_option JStr (blk_Note b)"
    "jfield Block_fields ''previd'' kvs = Some (ptr_json JStr (blk_Previd b))"
    "jfield Block_fields ''studentids'' kvs = map_option (slice_json JStr) (blk_Studentids b)"
    "jfield Block_fields ''txids'' kvs = Some (slice_json JStr (blk_Txids b))"
  by (simp add: Block_json_def Block_fields_def jfield_append jfield_Cons jfield_omit_nil
      split: option.splits)

lemma ptr_field_omit_nil:
  "(\<And>x. p = Some x \<Longrightarrow> dec (enc x) = Some x \<and> enc x \<noteq> JNull) \<Longrightarrow>
     ptr_field dec (map_option enc p) = Some p"
  by (cases p) simp_all

lemma Block_dec_enc:
  assumes ok: "Block_ok b"
  shows "Block_Unmarshal (Block_json b) = Some b"
proof -
  obtain kvs where kvs: "Block_json b = JObj kvs"
    "jfield Block_fields ''type'' kvs = Some (JStr (ObjectType_str (blk_Type b)))"
    "jfield Block_fields ''T'' kvs = Some (JStr (blk_T b))"
    "jfield Block_fields ''created'' kvs = Some (JInt (blk_Created b))"
    "jfield Block_fields ''miner'' kvs = map_option JStr (blk_Miner b)"
    "jfield Block_fields ''nonce'' kvs = Some (JStr (blk_Nonce b))"
    "jfield Block_fields ''note'' kvs = map_option JStr (blk_Note b)"
    "jfield Block_fields ''previd'' kvs = Some (ptr_json JStr (blk_Previd b))"
    "jfield Block_fields ''studentids'' kvs = map_option (slice_json JStr) (blk_Studentids b)"
    "jfield Block_fields ''txids'' kvs = Some (slice_json JStr (blk_Txids b))"
    by (rule Block_members)
  have "ptr_field BuString_Unmarshal (map_option JStr (blk_Miner b)) = Some (blk_Miner b)"
    "ptr_field BuString_Unmarshal (map_option JStr (blk_Note b)) = Some (blk_Note b)"
    "ptr_field HashID_Unmarshal (Some (ptr_json JStr (blk_Previd b))) = Some (blk_Previd b)"
    using ok by (auto simp: Block_ok_def intro!: ptr_field_omit_nil split: option.splits)
  moreover have "ptr_field BuStrings_Unmarshal (map_option (slice_json JStr) (blk_Studentids b))
      = Some (blk_Studentids b)"
    using ok by (auto simp: Block_ok_def BuStrings_dec_enc intro!: ptr_field_omit_nil)
  moreover have "HashIDs_Unmarshal (slice_json JStr (blk_Txids b)) = Some (blk_Txids b)"
    using ok by (auto simp: Block_ok_def HashIDs_dec_enc)
  ultimately show ?thesis
    using ok by (simp add: Block_Unmarshal_def kvs Block_ok_def del: ptr_field_ptr_json)
qed

interpretation block_codec: codec Block_json Block_Unmarshal Block_ok
  by unfold_locales (rule Block_dec_enc)

section \<open>Marshalled objects hold integers only\<close>

lemma no_frac_TxOutputs [simp]: "no_frac (slice_json TxOutput_json s)"
  by (rule no_frac_slice_json) (simp add: TxOutput_json_def Picabu_Marshal_def)

lemma no_frac_TxInput [simp]: "no_frac (TxInput_json i)"
  by (simp add: TxInput_json_def Outpoint_json_def no_frac_ptr_json)

lemma no_frac_TxInputs [simp]: "no_frac (slice_json TxInput_json s)"
  by (rule no_frac_slice_json) simp

lemma no_frac_strings [simp]: "no_frac (slice_json JStr s)"
  by (rule no_frac_slice_json) simp

lemma no_frac_omit_nil [simp]:
  "(\<And>x. no_frac (enc x)) \<Longrightarrow> list_all (\<lambda>(k, v). no_frac v) (omit_nil n enc p)"
  by (simp add: omit_nil_def split: option.splits)

lemma no_frac_Object [simp]: "no_frac (Object_json o')"
  by (cases o') (simp_all add: Transaction_json_def CoinbaseTransaction_json_def Block_json_def
      no_frac_ptr_json)

section \<open>What a decoded object satisfies\<close>

text \<open>
  The decoders establish bounds on every element they read; the zero values of absent members
  are not checked.
\<close>

lemma bind_SomeE:
  assumes "Option.bind x f = Some y"
  obtains z where "x = Some z" "f z = Some y"
  using assms by (cases x) auto

lemma val_field_SomeE:
  assumes "val_field z dec f = Some x"
  obtains "x = z" | j where "dec j = Some x"
  using assms by (cases f) auto

lemma ptr_field_SomeE:
  assumes "ptr_field dec f = Some p"
  obtains "p = None" | j x where "p = Some x" "dec j = Some x"
  using assms by (auto simp: ptr_field_def split: option.splits if_splits)

lemma Picabu_Unmarshal_nonneg: "Picabu_Unmarshal j = Some v \<Longrightarrow> 0 \<le> v"
  by (auto simp: Picabu_Unmarshal_def split: if_splits elim!: bind_SomeE)

lemma BuInt_Unmarshal_ok: "BuInt_Unmarshal j = Some i \<Longrightarrow> BuInt_ok i"
  by (cases j) (auto simp: BuInt_Unmarshal_def BuInt_ok_def dec_int64_def split: if_splits)

lemma TxOutput_Unmarshal_value:
  assumes "TxOutput_Unmarshal j = Some o'"
  shows "0 \<le> out_Value o'"
proof -
  obtain f where "ptr_field Picabu_Unmarshal f = Some (Some (out_Value o'))"
    using assms
    by (auto simp: TxOutput_Unmarshal_def Let_def split: option.splits elim!: bind_SomeE)
  then show ?thesis by (rule ptr_field_SomeE) (auto simp: Picabu_Unmarshal_nonneg)
qed

lemma UnmarshalArray_elems:
  assumes "UnmarshalArray dec lo hi j = Some s"
  shows "(\<forall>x \<in> set (elems s). \<exists>j'. dec j' = Some x)" "lo \<le> length (elems s)" "length (elems s) \<le> hi"
proof -
  have "map dec js = map Some xs \<Longrightarrow> \<forall>x \<in> set xs. \<exists>j'. dec j' = Some x" for js xs
    by (metis (no_types, lifting) image_iff list.set_map)
  then show "(\<forall>x \<in> set (elems s). \<exists>j'. dec j' = Some x)"
    using assms
    by (auto simp: UnmarshalArray_def mapM_Some_iff split: json.splits if_splits elim!: bind_SomeE)
  show "lo \<le> length (elems s)" "length (elems s) \<le> hi"
    using assms by (auto simp: UnmarshalArray_def split: if_splits elim!: bind_SomeE)
qed

lemma TxOutputs_Unmarshal_values:
  "TxOutputs_Unmarshal j = Some s \<Longrightarrow> list_all (\<lambda>o'. 0 \<le> out_Value o') (elems s)"
  using UnmarshalArray_elems(1) [of TxOutput_Unmarshal 0 maxArrLen j s]
  by (auto simp: TxOutputs_Unmarshal_def list_all_iff dest: TxOutput_Unmarshal_value)

lemma Transaction_Unmarshal_values:
  assumes "Transaction_Unmarshal j = Some t"
  shows "list_all (\<lambda>o'. 0 \<le> out_Value o') (elems (tx_Outputs t))"
proof -
  obtain f where "val_field None TxOutputs_Unmarshal f = Some (tx_Outputs t)"
    using assms by (auto simp: Transaction_Unmarshal_def Let_def elim!: bind_SomeE)
  then show ?thesis by (auto elim: val_field_SomeE dest: TxOutputs_Unmarshal_values)
qed

lemma CoinbaseTransaction_Unmarshal_outputs:
  assumes "CoinbaseTransaction_Unmarshal j = Some c"
  obtains o' where "elems (cb_Outputs c) = [o']" "0 \<le> out_Value o'"
proof -
  obtain f where "val_field None TxOutputs_Unmarshal f = Some (cb_Outputs c)"
    "length (elems (cb_Outputs c)) = 1"
    using assms
    by (auto simp: CoinbaseTransaction_Unmarshal_def Let_def split: if_splits option.splits
        elim!: bind_SomeE)
  then show ?thesis
    using that by (auto simp: length_Suc_conv elim: val_field_SomeE dest!: TxOutputs_Unmarshal_values)
qed

lemma CoinbaseTransaction_Unmarshal_height:
  assumes "CoinbaseTransaction_Unmarshal j = Some c"
  shows "BuInt_ok (cb_Height c)"
proof -
  obtain f where "ptr_field BuInt_Unmarshal f = Some (Some (cb_Height c))"
    using assms
    by (auto simp: CoinbaseTransaction_Unmarshal_def Let_def split: if_splits option.splits
        elim!: bind_SomeE)
  then show ?thesis by (auto elim: ptr_field_SomeE dest: BuInt_Unmarshal_ok)
qed

lemma Block_Unmarshal_created:
  assumes "Block_Unmarshal j = Some b"
  shows "BuInt_ok (blk_Created b)"
proof -
  obtain f where "val_field 0 BuInt_Unmarshal f = Some (blk_Created b)"
    using assms by (auto simp: Block_Unmarshal_def Let_def elim!: bind_SomeE)
  then show ?thesis
    by (rule val_field_SomeE) (simp add: BuInt_ok_def, rule BuInt_Unmarshal_ok)
qed

end
