(* ===== verification/Serialization.thy ===== *)
theory Serialization
  imports Unmarshal "HOL-Library.Char_ord" "HOL-Library.List_Lexorder"
begin

text \<open>
  \<^verbatim>\<open>internal/serialization/canonicalize.go\<close>. \<^verbatim>\<open>Canonicalize\<close> marshals a value, parses the
  text into a Go \<^verbatim>\<open>interface{}\<close>, in which every number is a float64, and prints that with
  sorted keys. So a number goes through float64 on its way into every hash and signature:
  \<open>f64_round\<close> is the rounding of an integer to the nearest float64 (53 bits, ties to even) and
  \<open>f64_text\<close> the text that \<^verbatim>\<open>json.Marshal\<close> writes for one (shortest digits that read back,
  with an exponent from 1e21 on).

  Results: on numbers below 2^53 two values have the same canonical text exactly when they
  agree up to the order of object members (\<open>canonical_iff\<close>), and the text reads back; from
  2^53 on an odd number shares its text with an even one, its float64 (\<open>f64_of_int_odd\<close>).
\<close>

section \<open>Integers as float64\<close>

fun bitlen :: "nat \<Rightarrow> nat" where
  "bitlen n = (if n = 0 then 0 else Suc (bitlen (n div 2)))"

declare bitlen.simps [simp del]

definition f64_round :: "nat \<Rightarrow> nat option" where
  "f64_round n =
     (let b = bitlen n in
      if b \<le> 53 then Some n
      else let s = b - 53; q = n div 2 ^ s; r = n mod 2 ^ s; h = 2 ^ (s - 1);
               m = (if h < r \<or> (r = h \<and> odd q) then Suc q else q) * 2 ^ s
           in if m < 2 ^ 1024 then Some m else None)"

definition f64_of_int :: "int \<Rightarrow> int option" where
  "f64_of_int i = (if i < 0 then map_option (\<lambda>n. - int n) (f64_round (nat (- i)))
     else map_option int (f64_round (nat i)))"

text \<open>
  The shortest decimal that rounds to \<open>m\<close>: the multiple of the largest power of ten that
  does, the nearer one of two.
\<close>

definition decimal_at :: "nat \<Rightarrow> nat \<Rightarrow> nat option" where
  "decimal_at p m =
     (let lo = m div p * p; hi = lo + p;
          l = f64_round lo = Some m; h = f64_round hi = Some m
      in if l \<and> h then Some (if 2 * (m - lo) < p \<or> (2 * (m - lo) = p \<and> even (m div p)) then lo else hi)
         else if l then Some lo else if h then Some hi else None)"

fun shortest_from :: "nat \<Rightarrow> nat \<Rightarrow> nat" where
  "shortest_from 0 m = m"
| "shortest_from (Suc k) m = (case decimal_at (10 ^ Suc k) m of Some c \<Rightarrow> c | None \<Rightarrow> shortest_from k m)"

definition shortest :: "nat \<Rightarrow> nat" where
  "shortest m = (if m < 2 ^ 53 then m else shortest_from (length (string_of_nat m)) m)"

definition strip_zeros :: "string \<Rightarrow> string" where
  "strip_zeros s = rev (dropWhile (\<lambda>c. c = CHR ''0'') (rev s))"

definition f64_text_nat :: "nat \<Rightarrow> string" where
  "f64_text_nat m =
     (if m < 10 ^ 21 then string_of_nat (shortest m)
      else let ds = string_of_nat (shortest m); e = length ds - 1; u = strip_zeros ds
           in hd u # (if tl u = [] then [] else CHR ''.'' # tl u) @ ''e+'' @ string_of_nat e)"

definition f64_text :: "int \<Rightarrow> string" where
  "f64_text i = (if i < 0 then CHR ''-'' # f64_text_nat (nat (- i)) else f64_text_nat (nat i))"

section \<open>The canonical form\<close>

text \<open>
  \<^verbatim>\<open>json.Unmarshal\<close> into an \<^verbatim>\<open>interface{}\<close>: a number too large for a float64 is an error;
  of two members with one key the later one stays. A literal with fraction or exponent stands
  for its float64; it only occurs as the text this code wrote for one.
\<close>

fun as_interface :: "json \<Rightarrow> json option"
  and as_interface_list :: "json list \<Rightarrow> json list option"
  and as_interface_members :: "(string \<times> json) list \<Rightarrow> (string \<times> json) list option"
where
  "as_interface (JInt i) = map_option JInt (f64_of_int i)"
| "as_interface (JArr xs) = map_option JArr (as_interface_list xs)"
| "as_interface (JObj kvs) = map_option JObj (as_interface_members kvs)"
| "as_interface j = Some j"
| "as_interface_list [] = Some []"
| "as_interface_list (x # xs) = do { y \<leftarrow> as_interface x; ys \<leftarrow> as_interface_list xs; Some (y # ys) }"
| "as_interface_members [] = Some []"
| "as_interface_members ((k, v) # kvs) = do {
     w \<leftarrow> as_interface v;
     kws \<leftarrow> as_interface_members kvs;
     Some (if gm_has kws k then kws else (k, w) # kws) }"

lemma size_snd_mem: "(k, v) \<in> set kvs \<Longrightarrow> size v < Suc (size_list (size_prod (\<lambda>_. 0) size) kvs)"
  by (induction kvs) auto

function canonicalizeJSON :: "json \<Rightarrow> string" where
  "canonicalizeJSON (JObj val) =
     (let keys = sort_key fst val
      in CHR ''{'' #
         comma_sep (map (\<lambda>(k, v). quote k @ CHR '':'' # canonicalizeJSON v) keys) @ ''}'')"
| "canonicalizeJSON (JArr val) = CHR ''['' # comma_sep (map canonicalizeJSON val) @ '']''"
| "canonicalizeJSON (JInt i) = f64_text i"
| "canonicalizeJSON JNull = print_json JNull"
| "canonicalizeJSON (JBool b) = print_json (JBool b)"
| "canonicalizeJSON (JFrac s) = print_json (JFrac s)"
| "canonicalizeJSON (JStr s) = print_json (JStr s)"
  by pat_completeness auto

termination
  by (relation "measure size") (auto dest: size_snd_mem size_list_estimation' intro: le_imp_less_Suc)

text \<open>The argument is the JSON that \<^verbatim>\<open>json.Marshal\<close> makes of the value.\<close>

definition Canonicalize :: "json \<Rightarrow> string option" where
  "Canonicalize v = do {
     let b = print_json v;
     parsed \<leftarrow> parse_json b;
     obj \<leftarrow> as_interface parsed;
     Some (canonicalizeJSON obj) }"

definition CanonicalizeMessage :: "json \<Rightarrow> string option" where
  "CanonicalizeMessage msg = map_option (\<lambda>canon. canon @ [CHR 0x0A]) (Canonicalize msg)"

text \<open>The copy has a fresh, non-nil input slice; an error leaves the empty string.\<close>

definition TxMessageForSignature :: "Transaction \<Rightarrow> bytes" where
  "TxMessageForSignature tx =
     (let txCopy = tx\<lparr>tx_Inputs := Some (map (\<lambda>i. i\<lparr>in_Sig := None\<rparr>) (elems (tx_Inputs tx)))\<rparr>
      in case Canonicalize (Transaction_json txCopy) of Some m \<Rightarrow> m | None \<Rightarrow> [])"

section \<open>Numbers below 2^53 are exact\<close>

lemma bitlen_le: "n < 2 ^ k \<Longrightarrow> bitlen n \<le> k"
proof (induction k arbitrary: n)
  case 0
  then show ?case by (simp add: bitlen.simps)
next
  case (Suc k)
  then have "bitlen (n div 2) \<le> k" by auto
  then show ?case by (subst bitlen.simps) simp
qed

lemma bitlen_gt: "n < 2 ^ bitlen n"
proof (induction n rule: bitlen.induct)
  case (1 n)
  show ?case
  proof (cases "n = 0")
    case False
    then have "n div 2 < 2 ^ bitlen (n div 2)" by (rule 1)
    then show ?thesis using False by (subst bitlen.simps) simp
  qed (simp add: bitlen.simps)
qed

lemma bitlen_ge: "n \<noteq> 0 \<Longrightarrow> 2 ^ (bitlen n - 1) \<le> n \<and> bitlen n \<noteq> 0"
proof (induction n rule: bitlen.induct)
  case (1 n)
  show ?case
  proof (cases "n = 1")
    case True
    then show ?thesis by (simp add: bitlen.simps)
  next
    case False
    then have d: "n div 2 \<noteq> 0" using 1(2) by auto
    then have "2 ^ (bitlen (n div 2) - 1) \<le> n div 2 \<and> bitlen (n div 2) \<noteq> 0" by (rule 1(1) [OF 1(2)])
    moreover obtain k where "bitlen (n div 2) = Suc k" using calculation by (cases "bitlen (n div 2)") auto
    ultimately show ?thesis using 1(2) by (subst (1 2) bitlen.simps) auto
  qed
qed

lemma f64_round_exact: "n < 2 ^ 53 \<Longrightarrow> f64_round n = Some n"
  using bitlen_le [of n 53] by (simp add: f64_round_def Let_def)

definition exact_int :: "int \<Rightarrow> bool" where
  "exact_int i \<longleftrightarrow> - (2 ^ 53) < i \<and> i < 2 ^ 53"

lemma f64_of_int_exact: "exact_int i \<Longrightarrow> f64_of_int i = Some i"
  by (auto simp: f64_of_int_def exact_int_def f64_round_exact)

lemma f64_text_nat_exact: "n < 2 ^ 53 \<Longrightarrow> f64_text_nat n = string_of_nat n"
  by (simp add: f64_text_nat_def shortest_def)

lemma f64_text_exact: "exact_int i \<Longrightarrow> f64_text i = string_of_int i"
  by (auto simp: f64_text_def f64_text_nat_exact exact_int_def string_of_int_def)

section \<open>The canonical text of exact values\<close>

text \<open>JSON whose numbers are exact and whose objects have no key twice.\<close>

fun exact_json :: "json \<Rightarrow> bool" where
  "exact_json (JInt i) = exact_int i"
| "exact_json (JFrac s) = False"
| "exact_json (JArr xs) = list_all exact_json xs"
| "exact_json (JObj kvs) = (distinct (map fst kvs) \<and> list_all (\<lambda>(k, v). exact_json v) kvs)"
| "exact_json j = True"

text \<open>The value with the members of every object in the order of their keys.\<close>

fun sort_members :: "json \<Rightarrow> json" where
  "sort_members (JObj kvs) = JObj (sort_key fst (map (\<lambda>(k, v). (k, sort_members v)) kvs))"
| "sort_members (JArr xs) = JArr (map sort_members xs)"
| "sort_members j = j"

lemma exact_no_frac: "exact_json j \<Longrightarrow> no_frac j"
  by (induction j) (auto simp: list_all_iff)

lemma as_interface_exact:
  "exact_json j \<Longrightarrow> as_interface j = Some j"
  "list_all exact_json xs \<Longrightarrow> as_interface_list xs = Some xs"
  "distinct (map fst kvs) \<Longrightarrow> list_all (\<lambda>(k, v). exact_json v) kvs \<Longrightarrow> as_interface_members kvs = Some kvs"
  by (induction j and xs and kvs rule: as_interface_as_interface_list_as_interface_members.induct)
     (auto simp: f64_of_int_exact gm_has_iff)

lemma insort_key_map_fst:
  "(\<And>x. g (f x) = g x) \<Longrightarrow> insort_key g (f x) (map f xs) = map f (insort_key g x xs)"
  by (induction xs) auto

lemma sort_key_map_fst: "(\<And>x. g (f x) = g x) \<Longrightarrow> sort_key g (map f xs) = map f (sort_key g xs)"
  by (induction xs) (auto simp: insort_key_map_fst)

lemma canonicalizeJSON_print: "exact_json j \<Longrightarrow> canonicalizeJSON j = print_json (sort_members j)"
proof (induction j)
  case (JObj kvs)
  let ?n = "\<lambda>(k, v). (k, sort_members v)"
  have IH: "canonicalizeJSON v = print_json (sort_members v)" if "(k, v) \<in> set kvs" for k v
    using JObj that by (fastforce simp: list_all_iff)
  have "sort_key fst (map ?n kvs) = map ?n (sort_key fst kvs)"
    by (rule sort_key_map_fst) auto
  then show ?case by (auto simp: IH intro!: arg_cong [where f = comma_sep])
next
  case (JArr xs)
  then show ?case by (auto simp: list_all_iff intro!: arg_cong [where f = comma_sep])
qed (auto simp: f64_text_exact)

lemma no_frac_sort_members [simp]: "no_frac (sort_members j) = no_frac j"
  by (induction j) (auto simp: list_all_iff split: prod.splits, (fastforce+)?)

lemma Canonicalize_exact:
  assumes "exact_json j"
  shows "Canonicalize j = Some (print_json (sort_members j))"
  using assms by (simp add: Canonicalize_def parse_json_print exact_no_frac as_interface_exact
      canonicalizeJSON_print)

lemma canonical_reads_back:
  "exact_json j \<Longrightarrow> Canonicalize j = Some c \<Longrightarrow> parse_json c = Some (sort_members j)"
  using exact_no_frac [of j] by (auto simp: Canonicalize_exact parse_json_print)

lemma canonical_iff:
  "exact_json a \<Longrightarrow> exact_json b \<Longrightarrow>
     Canonicalize a = Canonicalize b \<longleftrightarrow> sort_members a = sort_members b"
  by (auto simp: Canonicalize_exact exact_no_frac dest: json_text.enc_inj [rotated 2])

text \<open>The order in which a Go map yields the members of an object does not matter.\<close>

lemma filter_key_single:
  "distinct (map f zs) \<Longrightarrow> k \<in> set zs \<Longrightarrow> filter (\<lambda>x. f k = f x) zs = [k]"
  by (induction zs) (auto simp: filter_empty_conv image_iff)

lemma sort_key_perm:
  assumes "mset xs = mset ys" "distinct (map f xs)"
  shows "sort_key f xs = sort_key f ys"
proof (rule properties_for_sort_key)
  have d: "distinct (map f (sort_key f ys))"
    using assms by (metis mset_eq_imp_distinct_iff mset_map mset_sort)
  show "mset (sort_key f ys) = mset xs" using assms by simp
  fix k assume "k \<in> set (sort_key f ys)"
  with assms d show "filter (\<lambda>x. f k = f x) (sort_key f ys) = filter (\<lambda>x. f k = f x) xs"
    by (metis filter_key_single mset_eq_setD mset_sort)
qed simp

lemma canonicalizeJSON_perm:
  assumes "mset kvs = mset kvs'" "distinct (map fst kvs)"
  shows "canonicalizeJSON (JObj kvs) = canonicalizeJSON (JObj kvs')"
  by (simp add: sort_key_perm [OF assms])

section \<open>Canonical objects read back\<close>

text \<open>Decoders look members up by name, so sorting the members changes nothing.\<close>

lemma string_less_simps [simp]:
  "((c :: char) # s < d # t) = (c < d \<or> c = d \<and> s < t)"
  "(c # s \<le> d # t) = (c < d \<or> c = d \<and> s \<le> t)"
  by (auto simp: list_less_def list_le_def)

definition exact_output :: "TxOutput \<Rightarrow> bool" where
  "exact_output o' \<longleftrightarrow> exact_int (out_Value o')"

definition exact_tx :: "Transaction \<Rightarrow> bool" where
  "exact_tx t \<longleftrightarrow> list_all exact_output (elems (tx_Outputs t)) \<and>
     list_all (\<lambda>i. pred_option exact_int (op_Index (in_Outpoint i))) (elems (tx_Inputs t))"

lemma exact_ptr_json: "(\<And>x. p = Some x \<Longrightarrow> exact_json (enc x)) \<Longrightarrow> exact_json (ptr_json enc p)"
  by (simp add: ptr_json_def split: option.splits)

lemma exact_slice_json:
  "(\<And>x. x \<in> set (elems s) \<Longrightarrow> exact_json (enc x)) \<Longrightarrow> exact_json (slice_json enc s)"
  by (simp add: slice_json_def list_all_iff split: option.splits)

lemma exact_TxOutputs:
  "list_all exact_output (elems s) \<Longrightarrow> exact_json (slice_json TxOutput_json s)"
  by (rule exact_slice_json) (auto simp: TxOutput_json_def Picabu_Marshal_def list_all_iff exact_output_def)

lemma exact_Transaction_json: "exact_tx t \<Longrightarrow> exact_json (Transaction_json t)"
  by (auto simp: Transaction_json_def exact_tx_def exact_TxOutputs list_all_iff TxInput_json_def
      Outpoint_json_def intro!: exact_slice_json exact_ptr_json dest!: bspec)

definition exact_object :: "Object \<Rightarrow> bool" where
  "exact_object obj = (case obj of
     TxObj t \<Rightarrow> exact_tx t
   | CoinbaseObj c \<Rightarrow> exact_int (cb_Height c) \<and> list_all exact_output (elems (cb_Outputs c))
   | BlockObj b \<Rightarrow> exact_int (blk_Created b))"

lemma exact_strings [simp]: "exact_json (slice_json JStr s)"
  by (rule exact_slice_json) simp

lemma exact_omit_nil:
  "(\<And>x. exact_json (enc x)) \<Longrightarrow> list_all (\<lambda>(k, v). exact_json v) (omit_nil n enc p)"
  by (simp add: omit_nil_def split: option.splits)

lemma omit_nil_fst: "set (map fst (omit_nil n enc p)) \<subseteq> {n}" "distinct (map fst (omit_nil n enc p))"
  by (auto simp: omit_nil_def split: option.splits)

lemma exact_Object_json:
  assumes "exact_object obj"
  shows "exact_json (Object_json obj)"
proof (cases obj)
  case (BlockObj b)
  have "list_all (\<lambda>(k, v). exact_json v) (omit_nil n JStr p)" for n p
    by (rule exact_omit_nil) simp
  moreover have "list_all (\<lambda>(k, v). exact_json v) (omit_nil n (slice_json JStr) p)" for n p
    by (rule exact_omit_nil) simp
  moreover have "exact_json (ptr_json JStr p)" for p by (rule exact_ptr_json) simp
  ultimately show ?thesis
    using assms BlockObj
    by (auto simp: exact_object_def Block_json_def omit_nil_def split: option.splits)
qed (use assms in \<open>auto simp: exact_object_def exact_Transaction_json CoinbaseTransaction_json_def
       exact_TxOutputs\<close>)

section \<open>The canonical text determines the object\<close>

lemma sort_key_fst_map_of: "distinct (map fst kvs) \<Longrightarrow> map_of (sort_key fst kvs) = map_of kvs"
  using gm_get_perm [of kvs "sort_key fst kvs"] by (simp add: gm_wf_def gm_get_def fun_eq_iff)

lemma sort_members_field:
  assumes "sort_members (JObj a) = sort_members (JObj b)" "distinct (map fst a)" "distinct (map fst b)"
  shows "map_option sort_members (map_of a k) = map_option sort_members (map_of b k)"
proof -
  have *: "map_of (sort_key fst (map (\<lambda>(k, v). (k, sort_members v)) c)) k =
      map_option sort_members (map_of c k)" if "distinct (map fst c)" for c
    using that by (subst sort_key_fst_map_of) (auto simp: map_of_map comp_def case_prod_beta)
  show ?thesis using assms(1) * [OF assms(2)] * [OF assms(3)] by simp
qed

text \<open>An encoder whose values stay apart after sorting: every field of an object is one.\<close>

definition sorted_inj :: "('a \<Rightarrow> json) \<Rightarrow> bool" where
  "sorted_inj enc \<longleftrightarrow> (\<forall>x y. sort_members (enc x) = sort_members (enc y) \<longrightarrow> x = y)"

lemma sorted_injD: "sorted_inj enc \<Longrightarrow> sort_members (enc x) = sort_members (enc y) \<Longrightarrow> x = y"
  by (simp add: sorted_inj_def)

lemma sorted_inj_base [simp]: "sorted_inj JStr" "sorted_inj JInt"
  by (simp_all add: sorted_inj_def)

lemma sorted_inj_list:
  "sorted_inj enc \<Longrightarrow> map (sort_members \<circ> enc) xs = map (sort_members \<circ> enc) ys \<Longrightarrow> xs = ys"
  by (rule map_injective [of "sort_members \<circ> enc"]) (auto intro!: injI dest: sorted_injD)

lemma sorted_inj_slice [simp]: "sorted_inj enc \<Longrightarrow> sorted_inj (slice_json enc)"
  unfolding sorted_inj_def [of "slice_json enc"]
  by (auto simp: slice_json_def dest: sorted_inj_list split: option.splits)

lemma sorted_ptr:
  "sorted_inj enc \<Longrightarrow> (\<And>x. sort_members (enc x) \<noteq> JNull) \<Longrightarrow> sorted_inj (ptr_json enc)"
  unfolding sorted_inj_def [of "ptr_json enc"]
  by (auto simp: ptr_json_def dest: sorted_injD split: option.splits) (metis sort_members.simps(3))+

lemma sorted_inj_ptr [simp]: "sorted_inj (ptr_json JStr)" "sorted_inj (ptr_json JInt)"
  by (auto intro!: sorted_ptr)

lemma object_field_inj:
  assumes "sort_members (JObj a) = sort_members (JObj b)" "distinct (map fst a)" "distinct (map fst b)"
    and "map_of a k = Some (enc x)" "map_of b k = Some (enc y)" "sorted_inj enc"
  shows "x = y"
  using sort_members_field [OF assms(1-3), of k] assms(4-6) by (auto dest: sorted_injD)

lemma sorted_inj_Outpoint [simp]: "sorted_inj Outpoint_json"
  unfolding sorted_inj_def
proof (intro allI impI)
  fix x y assume "sort_members (Outpoint_json x) = sort_members (Outpoint_json y)"
  note f = object_field_inj [OF this [unfolded Outpoint_json_def]]
  have "op_Txid x = op_Txid y" by (rule f [where k = "''txid''" and enc = JStr]) auto
  moreover have "op_Index x = op_Index y"
    by (rule f [where k = "''index''" and enc = "ptr_json JInt"]) auto
  ultimately show "x = y" by simp
qed

lemma sorted_inj_TxInput [simp]: "sorted_inj TxInput_json"
  unfolding sorted_inj_def
proof (intro allI impI)
  fix x y assume "sort_members (TxInput_json x) = sort_members (TxInput_json y)"
  note f = object_field_inj [OF this [unfolded TxInput_json_def]]
  have "in_Outpoint x = in_Outpoint y"
    by (rule f [where k = "''outpoint''" and enc = Outpoint_json]) auto
  moreover have "in_Sig x = in_Sig y" by (rule f [where k = "''sig''" and enc = "ptr_json JStr"]) auto
  ultimately show "x = y" by simp
qed

lemma sorted_inj_TxOutput [simp]: "sorted_inj TxOutput_json"
  unfolding sorted_inj_def
proof (intro allI impI)
  fix x y assume "sort_members (TxOutput_json x) = sort_members (TxOutput_json y)"
  note f = object_field_inj [OF this [unfolded TxOutput_json_def Picabu_Marshal_def]]
  have "out_Pubkey x = out_Pubkey y" by (rule f [where k = "''pubkey''" and enc = JStr]) auto
  moreover have "out_Value x = out_Value y" by (rule f [where k = "''value''" and enc = JInt]) auto
  ultimately show "x = y" by simp
qed

lemma Transaction_sorted:
  assumes "sort_members (Transaction_json x) = sort_members (Transaction_json y)"
  shows "tx_Type x = tx_Type y \<and> tx_Inputs x = tx_Inputs y \<and> tx_Outputs x = tx_Outputs y"
proof -
  note f = object_field_inj [OF assms [unfolded Transaction_json_def]]
  have "ObjectType_str (tx_Type x) = ObjectType_str (tx_Type y)"
    by (rule f [where k = "''type''" and enc = JStr]) auto
  moreover have "tx_Inputs x = tx_Inputs y"
    by (rule f [where k = "''inputs''" and enc = "slice_json TxInput_json"]) auto
  moreover have "tx_Outputs x = tx_Outputs y"
    by (rule f [where k = "''outputs''" and enc = "slice_json TxOutput_json"]) auto
  ultimately show ?thesis by (simp add: ObjectType_str_inj)
qed

lemma Coinbase_sorted:
  assumes "sort_members (CoinbaseTransaction_json x) = sort_members (CoinbaseTransaction_json y)"
  shows "cb_Type x = cb_Type y \<and> cb_Height x = cb_Height y \<and> cb_Outputs x = cb_Outputs y"
proof -
  note f = object_field_inj [OF assms [unfolded CoinbaseTransaction_json_def]]
  have "ObjectType_str (cb_Type x) = ObjectType_str (cb_Type y)"
    by (rule f [where k = "''type''" and enc = JStr]) auto
  moreover have "cb_Height x = cb_Height y"
    by (rule f [where k = "''height''" and enc = JInt]) auto
  moreover have "cb_Outputs x = cb_Outputs y"
    by (rule f [where k = "''outputs''" and enc = "slice_json TxOutput_json"]) auto
  ultimately show ?thesis by (simp add: ObjectType_str_inj)
qed

lemma Block_sorted:
  assumes "sort_members (Block_json x) = sort_members (Block_json y)"
  shows "blk_Type x = blk_Type y \<and> blk_T x = blk_T y \<and> blk_Created x = blk_Created y \<and>
     blk_Miner x = blk_Miner y \<and> blk_Nonce x = blk_Nonce y \<and> blk_Note x = blk_Note y \<and>
     blk_Previd x = blk_Previd y \<and> blk_Studentids x = blk_Studentids y \<and> blk_Txids x = blk_Txids y"
proof -
  have omit: "map_of (omit_nil n enc p) k = (if k = n then map_option enc p else None)"
    for n k and enc :: "'a \<Rightarrow> json" and p
    by (simp add: omit_nil_def split: option.splits)
  have "distinct (map fst kvs)" if "Block_json b = JObj kvs" for b kvs
    using that by (auto simp: Block_json_def omit_nil_def split: option.splits)
  note f = sort_members_field [OF assms [unfolded Block_json_def]
      this [OF Block_json_def] this [OF Block_json_def]]
  note field = f [unfolded map_add_def map_of_append omit]
  have opt: "p = q" if "map_option sort_members (map_option enc p) = map_option sort_members (map_option enc q)"
    "sorted_inj enc" for p q :: "'a option" and enc
    using that by (cases p; cases q) (auto dest: sorted_injD)
  have "ObjectType_str (blk_Type x) = ObjectType_str (blk_Type y)"
    using field [of "''type''"] by (simp add: map_add_def omit)
  moreover have "blk_T x = blk_T y" using field [of "''T''"] by (simp add: map_add_def omit)
  moreover have "blk_Created x = blk_Created y"
    using field [of "''created''"] by (simp add: map_add_def omit)
  moreover have "blk_Nonce x = blk_Nonce y"
    using field [of "''nonce''"] by (simp add: map_add_def omit split: option.splits)
  moreover have "blk_Miner x = blk_Miner y"
    by (rule opt [of JStr]) (use field [of "''miner''"] in \<open>simp_all add: map_add_def omit split: option.splits\<close>)
  moreover have "blk_Note x = blk_Note y"
    by (rule opt [of JStr]) (use field [of "''note''"] in \<open>simp_all add: map_add_def omit split: option.splits\<close>)
  moreover have "blk_Previd x = blk_Previd y"
    by (rule sorted_injD [of "ptr_json JStr"]) (use field [of "''previd''"] in \<open>simp_all add: map_add_def omit\<close>)
  moreover have "blk_Studentids x = blk_Studentids y"
    by (rule opt [of "slice_json JStr"])
       (use field [of "''studentids''"] in \<open>simp_all add: map_add_def omit split: option.splits\<close>)
  moreover have "blk_Txids x = blk_Txids y"
    by (rule sorted_injD [of "slice_json JStr"]) (use field [of "''txids''"] in \<open>simp_all add: map_add_def omit\<close>)
  ultimately show ?thesis by (simp add: ObjectType_str_inj)
qed

text \<open>An object without its cached ID: what the canonical text stands for.\<close>

fun uncached :: "Object \<Rightarrow> Object" where
  "uncached (TxObj t) = TxObj (t\<lparr>tx_CachedID := None\<rparr>)"
| "uncached (CoinbaseObj c) = CoinbaseObj (c\<lparr>cb_CachedID := None\<rparr>)"
| "uncached (BlockObj b) = BlockObj (b\<lparr>blk_CachedID := None\<rparr>)"

lemma Object_json_uncached [simp]: "Object_json (uncached x) = Object_json x"
  by (cases x) (simp_all add: Transaction_json_def CoinbaseTransaction_json_def Block_json_def)

lemma Object_json_members:
  obtains kvs where "Object_json x = JObj kvs" "distinct (map fst kvs)"
    "(map_of kvs ''inputs'' \<noteq> None) = (\<exists>t. x = TxObj t)"
    "(map_of kvs ''height'' \<noteq> None) = (\<exists>c. x = CoinbaseObj c)"
  by (cases x) (auto simp: Transaction_json_def CoinbaseTransaction_json_def Block_json_def
      omit_nil_def map_add_def split: option.splits)

lemma Object_sorted:
  assumes "sort_members (Object_json x) = sort_members (Object_json y)"
  shows "uncached x = uncached y"
proof -
  obtain kvs where x: "Object_json x = JObj kvs" "distinct (map fst kvs)"
      "(map_of kvs ''inputs'' \<noteq> None) = (\<exists>t. x = TxObj t)"
      "(map_of kvs ''height'' \<noteq> None) = (\<exists>c. x = CoinbaseObj c)"
    by (rule Object_json_members)
  obtain kws where y: "Object_json y = JObj kws" "distinct (map fst kws)"
      "(map_of kws ''inputs'' \<noteq> None) = (\<exists>t. y = TxObj t)"
      "(map_of kws ''height'' \<noteq> None) = (\<exists>c. y = CoinbaseObj c)"
    by (rule Object_json_members)
  have f: "(map_of kvs k = None) = (map_of kws k = None)" for k
    using sort_members_field [OF assms [unfolded x(1) y(1)] x(2) y(2), of k]
    by (cases "map_of kvs k"; cases "map_of kws k") simp_all
  have "(\<exists>t. x = TxObj t) = (\<exists>t. y = TxObj t)" "(\<exists>c. x = CoinbaseObj c) = (\<exists>c. y = CoinbaseObj c)"
    unfolding x(3,4) [symmetric] y(3,4) [symmetric] f by (rule refl)+
  then show ?thesis
    using assms by (cases x; cases y) (auto dest!: Transaction_sorted Coinbase_sorted Block_sorted)
qed

section \<open>The canonical texts of objects\<close>

lemma Canonicalize_via:
  "no_frac j \<Longrightarrow> Canonicalize j = map_option canonicalizeJSON (as_interface j)"
  by (cases "as_interface j") (simp_all add: Canonicalize_def parse_json_print)

lemma Canonicalize_object_iff:
  assumes "exact_object a" "exact_object b"
  shows "Canonicalize (Object_json a) = Canonicalize (Object_json b) \<longleftrightarrow> uncached a = uncached b"
  using canonical_iff [OF exact_Object_json exact_Object_json, OF assms]
    Object_sorted [of a b] Object_json_uncached [of a] Object_json_uncached [of b]
  by metis

text \<open>What a signature covers.\<close>

definition unsigned :: "Transaction \<Rightarrow> Transaction" where
  "unsigned t = t\<lparr>tx_Inputs := Some (map (\<lambda>i. i\<lparr>in_Sig := None\<rparr>) (elems (tx_Inputs t))),
     tx_CachedID := None\<rparr>"

lemma TxMessage_unsigned:
  "TxMessageForSignature t = (case Canonicalize (Transaction_json (unsigned t)) of Some m \<Rightarrow> m | None \<Rightarrow> [])"
  by (simp add: TxMessageForSignature_def unsigned_def Transaction_json_def)

lemma TxMessage_iff:
  assumes "exact_tx a" "exact_tx b"
  shows "TxMessageForSignature a = TxMessageForSignature b \<longleftrightarrow> unsigned a = unsigned b"
proof -
  have ex: "exact_object (TxObj (unsigned t))" if "exact_tx t" for t
    using that by (simp add: exact_object_def exact_tx_def unsigned_def list_all_iff)
  have "uncached (TxObj (unsigned t)) = TxObj (unsigned t)" for t by (simp add: unsigned_def)
  then show ?thesis
    using Canonicalize_object_iff [OF ex ex, OF assms] exact_Object_json [OF ex [OF assms(1)]]
      exact_Object_json [OF ex [OF assms(2)]]
    by (auto simp: TxMessage_unsigned Canonicalize_exact)
qed

section \<open>Integers without a float64 of their own\<close>

lemma f64_round_small:
  assumes "n < 2 ^ 1023"
  shows "f64_round n \<noteq> None"
proof -
  let ?b = "bitlen n"
  let ?s = "?b - 53"
  have "n < 2 ^ ?b" by (rule bitlen_gt)
  show ?thesis
  proof (cases "?b \<le> 53")
    case False
    have b: "?b \<le> 1023" by (rule bitlen_le [OF assms])
    have pow: "2 ^ 53 * 2 ^ ?s = (2 :: nat) ^ ?b" using False unfolding power_add [symmetric] by simp
    then have "n < 2 ^ 53 * 2 ^ ?s" using \<open>n < 2 ^ ?b\<close> by argo
    then have q: "n div 2 ^ ?s < 2 ^ 53" by (simp add: less_mult_imp_div_less)
    have "Suc (n div 2 ^ ?s) * 2 ^ ?s \<le> 2 ^ 53 * 2 ^ ?s"
      using q by (intro mult_right_mono) simp_all
    also have "\<dots> < (2 :: nat) ^ 1024"
      unfolding pow using b by (intro power_strict_increasing) simp_all
    finally have up: "Suc (n div 2 ^ ?s) * 2 ^ ?s < 2 ^ 1024" .
    moreover have "n div 2 ^ ?s * 2 ^ ?s < 2 ^ 1024"
      by (rule le_less_trans [OF _ up]) simp
    ultimately show ?thesis using False by (simp add: f64_round_def Let_def del: mult_Suc)
  qed (simp add: f64_round_def Let_def)
qed

text \<open>A multiple of a power of two with 53 further bits is a float64; so is what rounding gives.\<close>

lemma f64_round_multiple:
  assumes "m < 2 ^ (t + 53)" "2 ^ t dvd m" "m < 2 ^ 1024"
  shows "f64_round m = Some m"
proof -
  have "bitlen m - 53 \<le> t" using bitlen_le [OF assms(1)] by simp
  then have "2 ^ (bitlen m - 53) dvd m" using assms(2) le_imp_power_dvd dvd_trans by blast
  then have "m mod 2 ^ (bitlen m - 53) = 0" "m div 2 ^ (bitlen m - 53) * 2 ^ (bitlen m - 53) = m" by simp_all
  then show ?thesis using assms(3) by (simp add: f64_round_def Let_def del: power_numeral)
qed

lemma f64_round_float:
  assumes "f64_round n = Some m" "2 ^ 53 \<le> n"
  shows "f64_round m = Some m" "even m"
proof -
  have b: "53 < bitlen n"
  proof (rule ccontr)
    assume "\<not> 53 < bitlen n"
    then have "(2 :: nat) ^ bitlen n \<le> 2 ^ 53" by (intro power_increasing) simp_all
    then show False using bitlen_gt [of n] assms(2) by linarith
  qed
  define s where "s = bitlen n - 53"
  have s: "0 < s" "53 + s = bitlen n" using b by (simp_all add: s_def)
  define q where "q = n div 2 ^ s"
  obtain k where m: "m = k * 2 ^ s" "k = q \<or> k = Suc q" "m < 2 ^ 1024"
    using assms(1) b by (auto simp: f64_round_def Let_def s_def q_def simp del: mult_Suc power_numeral split: if_splits)
  show "even m" using m(1) s(1) by simp
  have "2 ^ 53 * 2 ^ s = (2 :: nat) ^ bitlen n" unfolding power_add [symmetric] s(2) ..
  then have "n < 2 ^ 53 * 2 ^ s" using bitlen_gt [of n] by argo
  then have "q < 2 ^ 53" unfolding q_def by (simp add: less_mult_imp_div_less)
  then consider "k < 2 ^ 53" | "k = 2 ^ 53" using m(2) by linarith
  then show "f64_round m = Some m"
  proof cases
    case 1
    then have "m < 2 ^ (s + 53)" unfolding m(1) power_add by (simp add: mult.commute)
    then show ?thesis using m by (intro f64_round_multiple [of m s]) simp_all
  next
    case 2
    then have "m = 2 ^ 52 * 2 ^ Suc s" unfolding m(1) by simp
    moreover have "(2 :: nat) ^ 52 * 2 ^ Suc s < 2 ^ (Suc s + 53)" unfolding power_add by simp
    ultimately show ?thesis using m(3) by (intro f64_round_multiple [of m "Suc s"]) simp_all
  qed
qed

text \<open>An odd integer from 2^53 on shares its float64 with an even one.\<close>

lemma f64_of_int_odd:
  assumes "odd v" "2 ^ 53 < v" "v < 2 ^ 1023"
  obtains w where "even w" "f64_of_int v = Some w" "f64_of_int w = Some w"
proof -
  have "nat v < 2 ^ 1023" using assms(3) by (simp add: nat_less_iff del: power_numeral)
  then obtain m where m: "f64_round (nat v) = Some m" using f64_round_small by blast
  have "2 ^ 53 \<le> nat v" using assms(2) by (simp add: le_nat_iff)
  from f64_round_float [OF m this] show thesis
    using m assms(2) by (intro that [of "int m"]) (simp_all add: f64_of_int_def)
qed

text \<open>An output enters the canonical text only through the float64 nearest to its value.\<close>

lemma as_interface_list_at:
  "as_interface a = as_interface b \<Longrightarrow> as_interface_list (js @ a # ks) = as_interface_list (js @ b # ks)"
  by (induction js) simp_all

lemma Canonicalize_value_cong:
  assumes "f64_of_int v = f64_of_int w"
  shows "Canonicalize (Transaction_json (MakeTransaction ins (Some (xs @ MakeTxOutput pk v # ys)))) =
    Canonicalize (Transaction_json (MakeTransaction ins (Some (xs @ MakeTxOutput pk w # ys))))"
proof -
  let ?t = "\<lambda>v. MakeTransaction ins (Some (xs @ MakeTxOutput pk v # ys))"
  have nf: "no_frac (Transaction_json (?t x))" for x using no_frac_Object [of "TxObj (?t x)"] by simp
  have "as_interface (TxOutput_json (MakeTxOutput pk v)) = as_interface (TxOutput_json (MakeTxOutput pk w))"
    using assms by (simp add: MakeTxOutput_def TxOutput_json_def Picabu_Marshal_def)
  from as_interface_list_at [OF this]
  have "as_interface (Transaction_json (?t v)) = as_interface (Transaction_json (?t w))"
    by (simp add: Transaction_json_def MakeTransaction_def slice_json_def)
  then show ?thesis by (simp only: Canonicalize_via [OF nf])
qed

lemma TxMessage_value_cong:
  assumes "f64_of_int v = f64_of_int w"
  shows "TxMessageForSignature (MakeTransaction ins (Some (xs @ MakeTxOutput pk v # ys))) =
    TxMessageForSignature (MakeTransaction ins (Some (xs @ MakeTxOutput pk w # ys)))"
proof -
  have "unsigned (MakeTransaction ins outs) = MakeTransaction (Some (map (\<lambda>i. i\<lparr>in_Sig := None\<rparr>) (elems ins))) outs" for outs
    by (simp add: unsigned_def MakeTransaction_def)
  then show ?thesis by (simp only: TxMessage_unsigned Canonicalize_value_cong [OF assms])
qed

end
