(* ===== verification/Crypto.thy ===== *)
theory Crypto
  imports Serialization
begin

text \<open>
  \<^verbatim>\<open>internal/crypto\<close>: object IDs (\<^verbatim>\<open>blake2s.go\<close>) and signatures (\<^verbatim>\<open>ed25519.go\<close>). What the code
  takes from outside the repository is the record \<open>env\<close>, an argument of every definition that
  uses it: the BLAKE2s hash of \<^verbatim>\<open>golang.org/x/crypto\<close>, the Ed25519 primitives, the text of a time
  in the time zone of the host, and the operations of a goleveldb handle on a store state \<open>'d\<close>.
  Their documented behaviour is stated by the predicates \<open>hash_ok\<close>, \<open>sign_ok\<close> and (in
  \<^verbatim>\<open>Database\<close>) \<open>ldb_ok\<close>, the hypotheses of the theorems that rely on it.

  Go's pair of a value and an error is a sum: \<open>Inl\<close> the error, \<open>Inr\<close> the value. A panic is
  \<open>None\<close>. The text of an error is its format string; interpolated values are left out.
\<close>

section \<open>Errors\<close>

datatype error =
    ErrNotFound
  | LdbNotFound
  | LdbError
  | JsonError
  | HashError
  | HexError
  | FileError
  | Errorf string

type_synonym 'a result = "error + 'a"

definition is_error :: "'a result \<Rightarrow> bool" where
  "is_error r = (case r of Inl _ \<Rightarrow> True | Inr _ \<Rightarrow> False)"

lemma is_error_simps [simp]: "is_error (Inl e)" "\<not> is_error (Inr x)"
  by (simp_all add: is_error_def)

section \<open>The environment\<close>

record 'd env =
  blake2s :: "bytes \<Rightarrow> bytes option"
  ed_verify :: "bytes \<Rightarrow> bytes \<Rightarrow> bytes \<Rightarrow> bool"
  ed_sign :: "bytes \<Rightarrow> bytes \<Rightarrow> bytes"
  time_text :: "int \<Rightarrow> string"
  time_parse :: "string \<Rightarrow> int option"
  ldb_has :: "'d \<Rightarrow> bytes \<Rightarrow> bool result"
  ldb_get :: "'d \<Rightarrow> bytes \<Rightarrow> bytes result"
  ldb_put :: "'d \<Rightarrow> bytes \<Rightarrow> bytes \<Rightarrow> 'd \<times> error option"
  ldb_delete :: "'d \<Rightarrow> bytes \<Rightarrow> 'd \<times> error option"
  ldb_iter :: "'d \<Rightarrow> (bytes \<times> bytes) list \<times> error option"

text \<open>
  \<^verbatim>\<open>blake2s.New256\<close> only fails for a key longer than 32 bytes, and the code passes none; the
  sum has 32 bytes.
\<close>

definition hash_ok :: "'d env \<Rightarrow> bool" where
  "hash_ok env \<longleftrightarrow> (\<forall>m. \<exists>h. blake2s env m = Some h \<and> length h = 32)"

section \<open>Hexadecimal text\<close>

definition hex_EncodeToString :: "bytes \<Rightarrow> string" where
  "hex_EncodeToString bs = concat (map (\<lambda>b. [hex_digit (of_char b div 16), hex_digit (of_char b mod 16)]) bs)"

fun hex_DecodeString :: "string \<Rightarrow> bytes result" where
  "hex_DecodeString [] = Inr []"
| "hex_DecodeString [c] = Inl HexError"
| "hex_DecodeString (c # d # s) = (case (hex_val c, hex_val d) of
     (Some x, Some y) \<Rightarrow>
       (case hex_DecodeString s of Inl e \<Rightarrow> Inl e | Inr bs \<Rightarrow> Inr (char_of (16 * x + y) # bs))
   | _ \<Rightarrow> Inl HexError)"

section \<open>Object IDs\<close>

definition Hash :: "'d env \<Rightarrow> bytes \<Rightarrow> HashID result" where
  "Hash env data = (case blake2s env data of
     None \<Rightarrow> Inl HashError
   | Some digest \<Rightarrow> Inr (hex_EncodeToString digest))"

definition HashString :: "'d env \<Rightarrow> string \<Rightarrow> HashID result" where
  "HashString env s = Hash env s"

definition HashBytes :: "'d env \<Rightarrow> bytes \<Rightarrow> HashID result" where
  "HashBytes env b = Hash env b"

definition HashObject :: "'d env \<Rightarrow> Object \<Rightarrow> HashID result" where
  "HashObject env obj = (case Canonicalize (Object_json obj) of
     None \<Rightarrow> Inl JsonError
   | Some raw \<Rightarrow> HashString env raw)"

definition HashObjectBigInt :: "'d env \<Rightarrow> Object \<Rightarrow> int result" where
  "HashObjectBigInt env obj = (case HashObject env obj of
     Inl e \<Rightarrow> Inl e
   | Inr hashID \<Rightarrow> (case big_SetString16 hashID of
       None \<Rightarrow> Inl (Errorf ''Error parsing hash as hex'')
     | Some hashInt \<Rightarrow> Inr hashInt))"

fun set_CachedID :: "HashID \<Rightarrow> Object \<Rightarrow> Object" where
  "set_CachedID h (TxObj t) = TxObj (t\<lparr>tx_CachedID := Some h\<rparr>)"
| "set_CachedID h (CoinbaseObj c) = CoinbaseObj (c\<lparr>cb_CachedID := Some h\<rparr>)"
| "set_CachedID h (BlockObj b) = BlockObj (b\<lparr>blk_CachedID := Some h\<rparr>)"

text \<open>The object is a pointer: the first component is the object with the ID cached in it.\<close>

definition GetObjectID :: "'d env \<Rightarrow> Object \<Rightarrow> Object \<times> HashID result" where
  "GetObjectID env obj = (case Object_ObjID obj of
     Some cached \<Rightarrow> (obj, Inr cached)
   | None \<Rightarrow> (case HashObject env obj of
       Inl e \<Rightarrow> (obj, Inl e)
     | Inr hashID \<Rightarrow> (set_CachedID hashID obj, Inr hashID)))"

text \<open>The value a caller sees that ignores the error.\<close>

definition id_value :: "HashID result \<Rightarrow> HashID" where
  "id_value r = (case r of Inl _ \<Rightarrow> DUMMY_HASH | Inr h \<Rightarrow> h)"

definition VerifyPoW :: "HashID \<Rightarrow> bool result" where
  "VerifyPoW blockid = (case big_SetString16 blockid of
     None \<Rightarrow> Inl (Errorf ''Error parsing block ID as hex'')
   | Some hashInt \<Rightarrow> Inr (hashInt \<le> TARGET_BIGINT))"

section \<open>Signatures\<close>

definition DecodeString :: "string \<Rightarrow> bytes result" where
  "DecodeString hexStr = hex_DecodeString hexStr"

definition StringToPubkey :: "string \<Rightarrow> bytes result" where
  "StringToPubkey hexStr = (case DecodeString hexStr of
     Inl e \<Rightarrow> Inl e
   | Inr pubkeyBytes \<Rightarrow> Inr pubkeyBytes)"

text \<open>
  \<^verbatim>\<open>ed25519.Verify\<close> panics on a public key that is not 32 bytes long, and \<^verbatim>\<open>ed25519.Sign\<close> on a
  private key that is not 64 bytes long.
\<close>

definition Verify :: "'d env \<Rightarrow> string \<Rightarrow> bytes \<Rightarrow> string \<Rightarrow> bool option" where
  "Verify env publicKey message signature = (case StringToPubkey publicKey of
     Inl _ \<Rightarrow> Some False
   | Inr pubkey \<Rightarrow> (case hex_DecodeString signature of
       Inl _ \<Rightarrow> Some False
     | Inr sigBytes \<Rightarrow>
         if length pubkey \<noteq> 32 then None else Some (ed_verify env pubkey message sigBytes)))"

definition Sign :: "'d env \<Rightarrow> bytes \<Rightarrow> bytes \<Rightarrow> string result option" where
  "Sign env message privateKey =
     (if length privateKey \<noteq> 64 then None
      else Some (Inr (hex_EncodeToString (ed_sign env privateKey message))))"

text \<open>
  \<open>file\<close> is what reading the key file gives, \<open>fresh\<close> a newly generated key, \<open>write\<close> the outcome
  of writing the file; the second component is the text written.
\<close>

definition LoadOrGenerateKey ::
  "bytes result \<Rightarrow> bytes result \<Rightarrow> error option \<Rightarrow> bytes result \<times> string option" where
  "LoadOrGenerateKey file fresh write = (case file of
     Inr data \<Rightarrow> (case hex_DecodeString data of
         Inl e \<Rightarrow> (Inl e, None)
       | Inr privBytes \<Rightarrow> (Inr privBytes, None))
   | Inl _ \<Rightarrow> (case fresh of
       Inl e \<Rightarrow> (Inl e, None)
     | Inr priv \<Rightarrow>
         let hexPriv = hex_EncodeToString priv
         in (case write of
             Some e \<Rightarrow> (Inl e, Some hexPriv)
           | None \<Rightarrow> (Inr priv, Some hexPriv))))"

text \<open>A signature verifies under the public half of the private key that made it.\<close>

definition sign_ok :: "'d env \<Rightarrow> (bytes \<Rightarrow> bytes) \<Rightarrow> bool" where
  "sign_ok env pub \<longleftrightarrow> (\<forall>priv m. length priv = 64 \<longrightarrow>
     length (pub priv) = 32 \<and> ed_verify env (pub priv) m (ed_sign env priv m))"

section \<open>Facts about hexadecimal text\<close>

lemma hex_val_hex_digit [simp]: "n < 16 \<Longrightarrow> hex_val (hex_digit n) = Some n"
  by (rule hex_val_digit)

lemma nibble [simp]: "(of_char (c :: char) :: nat) div 16 < 16"
  using nat_of_char_less_256 [of c] by linarith

lemma hex_decode_encode [simp]: "hex_DecodeString (hex_EncodeToString bs) = Inr bs"
proof (induction bs)
  case Nil
  then show ?case by (simp add: hex_EncodeToString_def)
next
  case (Cons b bs)
  then show ?case by (simp add: hex_EncodeToString_def)
qed

lemma length_hex_encode [simp]: "length (hex_EncodeToString bs) = 2 * length bs"
  by (induction bs) (simp_all add: hex_EncodeToString_def)

lemma hex_digit_is_lower: "n < 16 \<Longrightarrow> is_lower_hex (hex_digit n)"
  by (auto simp: is_lower_hex_def hex_digit_def Let_def)

lemma hex_encode_lower: "list_all is_lower_hex (hex_EncodeToString bs)"
  by (induction bs) (simp_all add: hex_EncodeToString_def hex_digit_is_lower)

lemma lower_is_hex: "is_lower_hex c \<Longrightarrow> is_hex c"
  by (auto simp: is_lower_hex_def is_hex_def Let_def)

lemma Hash_ok:
  assumes "hash_ok env"
  obtains h where "Hash env m = Inr h" "HashID_ok h" "list_all is_lower_hex h"
proof -
  obtain s where s: "blake2s env m = Some s" "length s = 32" using assms by (auto simp: hash_ok_def)
  show ?thesis
    by (rule that [of "hex_EncodeToString s"])
       (use s hex_encode_lower [of s] lower_is_hex in \<open>auto simp: Hash_def HashID_ok_def list_all_iff\<close>)
qed

lemma Hash_Inr: "hash_ok env \<Longrightarrow> Hash env m = Inr h \<Longrightarrow> HashID_ok h \<and> list_all is_lower_hex h"
  by (metis Hash_ok sum.inject(2))

lemma HashObject_ok: "hash_ok env \<Longrightarrow> HashObject env obj = Inr h \<Longrightarrow> HashID_ok h \<and> list_all is_lower_hex h"
  by (auto simp: HashObject_def HashString_def split: option.splits dest: Hash_Inr)

lemma is_hex_val: "is_hex c \<longleftrightarrow> (\<exists>n. hex_val c = Some n)"
  by (auto simp: is_hex_def hex_val_def Let_def)

lemma hex_decode_ok:
  "list_all is_hex s \<Longrightarrow> even (length s) \<Longrightarrow>
     \<exists>bs. hex_DecodeString s = Inr bs \<and> 2 * length bs = length s"
  by (induction s rule: hex_DecodeString.induct) (fastforce simp: is_hex_val)+

text \<open>Public keys and signatures that a decoder let through have the right sizes.\<close>

lemma Verify_total: "HashID_ok pk \<Longrightarrow> Verify env pk m s \<noteq> None"
  using hex_decode_ok [of pk]
  by (auto simp: Verify_def StringToPubkey_def DecodeString_def HashID_ok_def split: sum.splits)

lemma Verify_Sign:
  assumes "sign_ok env pub" "length priv = 64" "Sign env m priv = Some (Inr s)"
  shows "Verify env (hex_EncodeToString (pub priv)) m s = Some True"
  using assms by (auto simp: Verify_def Sign_def StringToPubkey_def DecodeString_def sign_ok_def)

section \<open>Facts about object IDs\<close>

lemma GetObjectID_uncached:
  "Object_ObjID obj = None \<Longrightarrow> GetObjectID env obj =
     (case HashObject env obj of Inl e \<Rightarrow> (obj, Inl e) | Inr h \<Rightarrow> (set_CachedID h obj, Inr h))"
  by (simp add: GetObjectID_def)

text \<open>The cache is sound when it holds what hashing would give.\<close>

definition cache_ok :: "'d env \<Rightarrow> Object \<Rightarrow> bool" where
  "cache_ok env obj \<longleftrightarrow> (case Object_ObjID obj of None \<Rightarrow> True | Some h \<Rightarrow> HashObject env obj = Inr h)"

lemma set_CachedID_simps [simp]:
  "Object_ObjID (set_CachedID h obj) = Some h"
  "Object_json (set_CachedID h obj) = Object_json obj"
  "uncached (set_CachedID h obj) = uncached obj"
  by (cases obj; simp add: Transaction_json_def CoinbaseTransaction_json_def Block_json_def)+

lemma HashObject_cached [simp]: "HashObject env (set_CachedID h obj) = HashObject env obj"
  by (simp add: HashObject_def)

lemma GetObjectID_cache:
  assumes "cache_ok env obj"
  shows "snd (GetObjectID env obj) = HashObject env obj"
    and "cache_ok env (fst (GetObjectID env obj))"
    and "uncached (fst (GetObjectID env obj)) = uncached obj"
  using assms
  by (auto simp: GetObjectID_def cache_ok_def split: option.splits sum.splits)

section \<open>Proof of work as a comparison of texts\<close>

lemma hex_val_less: "hex_val c = Some x \<Longrightarrow> x < 16"
  by (auto simp: hex_val_def Let_def split: if_splits)

lemma hex_digits_split:
  "hex_digits n s = map_option (\<lambda>m. n * 16 ^ length s + m) (hex_digits 0 s)"
proof (induction s arbitrary: n)
  case Nil
  then show ?case by simp
next
  case (Cons c s)
  show ?case
  proof (cases "hex_val c")
    case (Some d)
    then show ?thesis
      using Cons [of "16 * n + int d"] Cons [of "int d"]
      by (cases "hex_digits 0 s") (simp_all add: algebra_simps)
  qed simp
qed

lemma hex_digits_bounds:
  "hex_digits 0 s = Some m \<Longrightarrow> 0 \<le> m \<and> m < 16 ^ length s"
proof (induction s arbitrary: m)
  case Nil
  then show ?case by simp
next
  case (Cons c s)
  then obtain d k where d: "hex_val c = Some d" and k: "hex_digits 0 s = Some k"
    and m: "m = int d * 16 ^ length s + k"
    using hex_digits_split [of "int _" s] by (auto split: option.splits)
  have "0 \<le> k" "k < 16 ^ length s" using Cons.IH [OF k] by auto
  moreover have "(int d + 1) * 16 ^ length s \<le> 16 * 16 ^ length s"
    using hex_val_less [OF d] by (intro mult_right_mono) auto
  moreover have "0 \<le> int d * 16 ^ length s" by simp
  ultimately show ?case unfolding m distrib_right length_Cons power_Suc by (intro conjI; linarith)
qed

lemma lower_hex_less:
  assumes "is_lower_hex c" "is_lower_hex d" "hex_val c = Some x" "hex_val d = Some y"
  shows "x < y \<longleftrightarrow> c < d" and "x = y \<longleftrightarrow> c = d"
proof -
  have n: "x < y \<longleftrightarrow> (of_char c :: nat) < of_char d" "x = y \<longleftrightarrow> (of_char c :: nat) = of_char d"
    using assms by (auto simp: is_lower_hex_def hex_val_def Let_def simp del: of_char_eq_iff split: if_splits)
  show "x < y \<longleftrightarrow> c < d" using n by (simp add: less_char_def)
  show "x = y \<longleftrightarrow> c = d" using n by simp
qed

text \<open>For texts of one length in lower case, the numbers compare as the texts do.\<close>

lemma hex_digits_le:
  assumes "length s = length t" "list_all is_lower_hex s" "list_all is_lower_hex t"
    "hex_digits 0 s = Some a" "hex_digits 0 t = Some b"
  shows "a \<le> b \<longleftrightarrow> s \<le> t"
  using assms
proof (induction s t arbitrary: a b rule: list_induct2)
  case Nil
  then show ?case by simp
next
  case (Cons c s d t)
  obtain x k where x: "hex_val c = Some x" "hex_digits 0 s = Some k" "a = int x * 16 ^ length s + k"
    using Cons.prems hex_digits_split [of "int _" s] by (auto split: option.splits)
  obtain y l where y: "hex_val d = Some y" "hex_digits 0 t = Some l" "b = int y * 16 ^ length s + l"
    using Cons.prems Cons.hyps hex_digits_split [of "int _" t] by (auto split: option.splits)
  have kl: "0 \<le> k" "k < 16 ^ length s" "0 \<le> l" "l < 16 ^ length s"
    using hex_digits_bounds [OF x(2)] hex_digits_bounds [OF y(2)] Cons.hyps by auto
  have IH: "k \<le> l \<longleftrightarrow> s \<le> t" using Cons x y by simp
  note cd = lower_hex_less [OF _ _ x(1) y(1)]
  have step: "int p * 16 ^ length s + m < int q * 16 ^ length s + n"
    if "p < q" "m < 16 ^ length s" "0 \<le> n" for p q m n
  proof -
    have "(int p + 1) * 16 ^ length s \<le> int q * 16 ^ length s"
      using that by (intro mult_right_mono) auto
    then show ?thesis using that by (simp add: algebra_simps)
  qed
  consider "x < y" | "x = y" | "y < x" by linarith
  then show ?case
  proof cases
    case 1
    then show ?thesis using step [of x y k l] kl x(3) y(3) cd Cons.prems by simp
  next
    case 2
    then show ?thesis using IH x(3) y(3) cd Cons.prems by auto
  next
    case 3
    then show ?thesis using step [of y x l k] kl x(3) y(3) cd Cons.prems
      by (auto simp: not_less_iff_gr_or_eq)
  qed
qed

lemma lower_hex_val: "is_lower_hex c \<Longrightarrow> \<exists>n. hex_val c = Some n"
  by (simp add: lower_is_hex flip: is_hex_val)

lemma hex_digits_total: "list_all is_lower_hex s \<Longrightarrow> \<exists>n. hex_digits m s = Some n"
  by (induction s arbitrary: m) (auto dest!: lower_hex_val)

lemma big_SetString16_hex:
  "list_all is_lower_hex s \<Longrightarrow> s \<noteq> [] \<Longrightarrow> big_SetString16 s = hex_digits 0 s"
  by (cases s) (auto simp: big_SetString16_def is_lower_hex_def)

lemma TARGET_lower: "list_all is_lower_hex TARGET" "length TARGET = 64"
  by code_simp+

lemma TARGET_BIGINT_digits: "hex_digits 0 TARGET = Some TARGET_BIGINT"
proof -
  have "big_SetString16 TARGET = hex_digits 0 TARGET"
    by (rule big_SetString16_hex) (use TARGET_lower in auto)
  then show ?thesis
    using hex_digits_total [OF TARGET_lower(1), of 0]
    by (auto simp: TARGET_BIGINT_def TARGET_STRING_def TARGET_def)
qed

lemma VerifyPoW_text:
  assumes "list_all is_lower_hex h" "length h = 64"
  shows "VerifyPoW h = Inr (h \<le> TARGET)"
proof -
  obtain n where n: "hex_digits 0 h = Some n" using hex_digits_total [OF assms(1)] by auto
  moreover have "n \<le> TARGET_BIGINT \<longleftrightarrow> h \<le> TARGET"
    by (rule hex_digits_le [OF _ assms(1) TARGET_lower(1) n TARGET_BIGINT_digits])
      (simp add: TARGET_lower assms)
  moreover have "h \<noteq> []" using assms by auto
  ultimately show ?thesis using assms by (simp add: VerifyPoW_def big_SetString16_hex)
qed

end
