(* ===== verification/Database.thy ===== *)
theory Database
  imports Crypto
begin

text \<open>
  \<^verbatim>\<open>internal/core/db.go\<close>: what the node stores. Objects, UTXO sets, fees, mempool entries and the
  chain tip are JSON texts in one goleveldb store (the state \<open>'d\<close> and the \<open>ldb_\<close> operations of
  \<open>env\<close>), under keys with a prefix per kind; the mempool, its spent outpoints and the blocks that
  wait for an object are Go maps. Reads return an error or a value; an operation that writes
  returns the new state with the error, if any. \<open>ldb_ok\<close> states what the store documents: a
  key reads back what was last put under it, and a write touches no other key.

  Results: what is put reads back (objects, UTXO sets, fees, the tip), the kinds do not disturb
  each other, and the expiry sweep partitions the waiting blocks.
\<close>

named_theorems db_defs \<open>definitions of the database operations\<close>

section \<open>Data\<close>

record OutpointKey =
  key_Txid :: HashID
  key_Index :: int

record UTXOSet =
  us_BlockID :: HashID
  us_UTXOs :: "(OutpointKey, TxOutput) gomap"
  us_Height :: uint64

record UTXORecord =
  ur_Key :: OutpointKey
  ur_Value :: TxOutput

record UTXOStorageData =
  sd_BlockID :: HashID
  sd_Height :: uint64
  sd_Records :: "UTXORecord slice"

text \<open>Times are nanoseconds since 1970.\<close>

record MempoolEntry =
  me_TxID :: HashID
  me_Tx :: "Transaction option"
  me_Fee :: Picabu
  me_Timestamp :: int

record Chaintip =
  ct_BlockID :: HashID
  ct_Height :: uint64

record PendingBlock =
  pb_Block :: Block
  pb_Timestamp :: int
  pb_Peer :: string

text \<open>A channel of capacity 1, by what it holds and whether it is closed; channels have numbers.\<close>

record chan =
  ch_buffer :: "Object list"
  ch_closed :: bool

record 'd database =
  db_db :: 'd
  db_chans :: "chan list"
  db_pendingFinds :: "(HashID, nat list) gomap"
  db_pendingBlocks :: "(HashID, PendingBlock list) gomap"
  db_mempool :: "(HashID, MempoolEntry) gomap"
  db_mempoolSpentInputs :: "(OutpointKey, HashID) gomap"

definition newDatabase :: "'d \<Rightarrow> 'd database" where
  "newDatabase d = \<lparr>db_db = d, db_chans = [], db_pendingFinds = [], db_pendingBlocks = [],
     db_mempool = [], db_mempoolSpentInputs = []\<rparr>"

text \<open>
  The key \<^verbatim>\<open>OutpointKey{Txid: input.Outpoint.Txid, Index: int(*input.Outpoint.Index)}\<close> of an
  input, as the loops over inputs build it; they panic when the index is nil.
\<close>

definition input_key :: "TxInput \<Rightarrow> OutpointKey option" where
  "input_key input = map_option (\<lambda>i. \<lparr>key_Txid = op_Txid (in_Outpoint input), key_Index = i\<rparr>)
     (op_Index (in_Outpoint input))"

section \<open>Texts of the stored records\<close>

definition OutpointKey_json :: "OutpointKey \<Rightarrow> json" where
  "OutpointKey_json k = JObj [(''Txid'', JStr (key_Txid k)), (''Index'', JInt (key_Index k))]"

definition OutpointKey_Unmarshal :: "json \<Rightarrow> OutpointKey option" where
  "OutpointKey_Unmarshal j = do {
     kvs \<leftarrow> members j;
     let f = (\<lambda>n. jfield [''Txid'', ''Index''] n kvs);
     txid \<leftarrow> val_field [] HashID_Unmarshal (f ''Txid'');
     index \<leftarrow> val_field 0 dec_int64 (f ''Index'');
     Some \<lparr>key_Txid = txid, key_Index = index\<rparr> }"

definition UTXORecord_json :: "UTXORecord \<Rightarrow> json" where
  "UTXORecord_json r =
     JObj [(''key'', OutpointKey_json (ur_Key r)), (''value'', TxOutput_json (ur_Value r))]"

text \<open>
  An absent value would leave an output whose value is nil; the records of this program have
  the member, so the model refuses a record without it.
\<close>

definition UTXORecord_Unmarshal :: "json \<Rightarrow> UTXORecord option" where
  "UTXORecord_Unmarshal j = do {
     kvs \<leftarrow> members j;
     let f = (\<lambda>n. jfield [''key'', ''value''] n kvs);
     key \<leftarrow> val_field \<lparr>key_Txid = [], key_Index = 0\<rparr> OutpointKey_Unmarshal (f ''key'');
     value \<leftarrow> (case f ''value'' of None \<Rightarrow> None | Some v \<Rightarrow> TxOutput_Unmarshal v);
     Some \<lparr>ur_Key = key, ur_Value = value\<rparr> }"

definition UTXOStorageData_json :: "UTXOStorageData \<Rightarrow> json" where
  "UTXOStorageData_json d =
     JObj [(''blockid'', JStr (sd_BlockID d)), (''height'', uint64_json (sd_Height d)),
           (''records'', slice_json UTXORecord_json (sd_Records d))]"

definition UTXOStorageData_Unmarshal :: "json \<Rightarrow> UTXOStorageData option" where
  "UTXOStorageData_Unmarshal j = do {
     kvs \<leftarrow> members j;
     let f = (\<lambda>n. jfield [''blockid'', ''height'', ''records''] n kvs);
     blockid \<leftarrow> val_field [] HashID_Unmarshal (f ''blockid'');
     height \<leftarrow> val_field 0 dec_uint64 (f ''height'');
     records \<leftarrow> val_field None
       (\<lambda>r. case r of JNull \<Rightarrow> Some None | JArr rs \<Rightarrow> map_option Some (mapM UTXORecord_Unmarshal rs)
          | _ \<Rightarrow> None) (f ''records'');
     Some \<lparr>sd_BlockID = blockid, sd_Height = height, sd_Records = records\<rparr> }"

definition Chaintip_json :: "Chaintip \<Rightarrow> json" where
  "Chaintip_json c =
     JObj [(''blockid'', JStr (ct_BlockID c)), (''height'', uint64_json (ct_Height c))]"

definition Chaintip_Unmarshal :: "json \<Rightarrow> Chaintip option" where
  "Chaintip_Unmarshal j = do {
     kvs \<leftarrow> members j;
     let f = (\<lambda>n. jfield [''blockid'', ''height''] n kvs);
     blockid \<leftarrow> val_field [] HashID_Unmarshal (f ''blockid'');
     height \<leftarrow> val_field 0 dec_uint64 (f ''height'');
     Some \<lparr>ct_BlockID = blockid, ct_Height = height\<rparr> }"

text \<open>
  \<^verbatim>\<open>json.Marshal(entry)\<close> gets the entry by value, so its \<^verbatim>\<open>Fee\<close> is not addressable and the
  pointer method \<^verbatim>\<open>(*Picabu).MarshalJSON\<close> does not apply: what is written is the struct
  \<^verbatim>\<open>big.Int\<close>, which has no exported field.
\<close>

definition MempoolEntry_json :: "'d env \<Rightarrow> MempoolEntry \<Rightarrow> json" where
  "MempoolEntry_json env e =
     JObj [(''txid'', JStr (me_TxID e)), (''tx'', ptr_json Transaction_json (me_Tx e)),
           (''fee'', JObj []), (''timestamp'', JStr (time_text env (me_Timestamp e)))]"

text \<open>The zero \<^verbatim>\<open>time.Time\<close> is the start of year 1.\<close>

definition time_zero :: int where
  "time_zero = - 62135596800 * 10 ^ 9"

definition time_Unmarshal :: "'d env \<Rightarrow> json \<Rightarrow> int option" where
  "time_Unmarshal env j = (case j of
     JNull \<Rightarrow> Some time_zero | JStr s \<Rightarrow> time_parse env s | _ \<Rightarrow> None)"

definition MempoolEntry_Unmarshal :: "'d env \<Rightarrow> json \<Rightarrow> MempoolEntry option" where
  "MempoolEntry_Unmarshal env j = do {
     kvs \<leftarrow> members j;
     let f = (\<lambda>n. jfield [''txid'', ''tx'', ''fee'', ''timestamp''] n kvs);
     txid \<leftarrow> val_field [] HashID_Unmarshal (f ''txid'');
     tx \<leftarrow> ptr_field Transaction_Unmarshal (f ''tx'');
     fee \<leftarrow> val_field 0 Picabu_Unmarshal (f ''fee'');
     timestamp \<leftarrow> val_field time_zero (time_Unmarshal env) (f ''timestamp'');
     Some \<lparr>me_TxID = txid, me_Tx = tx, me_Fee = fee, me_Timestamp = timestamp\<rparr> }"

section \<open>Objects\<close>

definition chaintipKey :: bytes where [db_defs]: "chaintipKey = ''chaintip''"
definition utxoKey :: "HashID \<Rightarrow> bytes" where [db_defs]: "utxoKey blockid = ''utxo-'' @ blockid"
definition feeKey :: "HashID \<Rightarrow> bytes" where [db_defs]: "feeKey oid = ''fee-'' @ oid"
definition mempoolKey :: "HashID \<Rightarrow> bytes" where [db_defs]: "mempoolKey txid = ''mempool-'' @ txid"

definition put_key :: "'d env \<Rightarrow> 'd database \<Rightarrow> bytes \<Rightarrow> bytes \<Rightarrow> 'd database \<times> error option" where
  "put_key env d key data = (case ldb_put env (db_db d) key data of (s, e) \<Rightarrow> (d\<lparr>db_db := s\<rparr>, e))"

definition delete_key :: "'d env \<Rightarrow> 'd database \<Rightarrow> bytes \<Rightarrow> 'd database \<times> error option" where
  "delete_key env d key = (case ldb_delete env (db_db d) key of (s, e) \<Rightarrow> (d\<lparr>db_db := s\<rparr>, e))"

definition existsObject :: "'d env \<Rightarrow> 'd database \<Rightarrow> HashID \<Rightarrow> bool result" where
  "existsObject env d oid = ldb_has env (db_db d) oid"

definition probe_type :: "json \<Rightarrow> string option" where
  "probe_type j = do {
     kvs \<leftarrow> members j;
     val_field [] dec_string (jfield [''type''] ''type'' kvs) }"

definition probe_height :: "json \<Rightarrow> int option option" where
  "probe_height j = do {
     kvs \<leftarrow> members j;
     ptr_field dec_int64 (jfield [''height''] ''height'' kvs) }"

definition or_JsonError :: "'a option \<Rightarrow> 'a result" where
  "or_JsonError r = (case r of None \<Rightarrow> Inl JsonError | Some x \<Rightarrow> Inr x)"

definition decodeObject :: "bytes \<Rightarrow> Object result" where
  "decodeObject data = (case parse_json data of
     None \<Rightarrow> Inl JsonError
   | Some j \<Rightarrow> (case probe_type j of
       None \<Rightarrow> Inl JsonError
     | Some type \<Rightarrow>
         if type = ''transaction'' then
           (case probe_height j of
              None \<Rightarrow> Inl JsonError
            | Some (Some height) \<Rightarrow> or_JsonError (map_option CoinbaseObj (CoinbaseTransaction_Unmarshal j))
            | Some None \<Rightarrow> or_JsonError (map_option TxObj (Transaction_Unmarshal j)))
         else if type = ''block'' then or_JsonError (map_option BlockObj (Block_Unmarshal j))
         else Inl (Errorf ''retrieved object of unknown type'')))"

definition getObject :: "'d env \<Rightarrow> 'd database \<Rightarrow> HashID \<Rightarrow> Object result" where
  "getObject env d oid = (case ldb_get env (db_db d) oid of
     Inl e \<Rightarrow> Inl e
   | Inr data \<Rightarrow> decodeObject data)"

definition putObject :: "'d env \<Rightarrow> 'd database \<Rightarrow> Object \<Rightarrow> 'd database \<times> HashID result" where
  "putObject env d object = (case Canonicalize (Object_json object) of
     None \<Rightarrow> (d, Inl JsonError)
   | Some canon \<Rightarrow> (case HashString env canon of
       Inl e \<Rightarrow> (d, Inl e)
     | Inr oid \<Rightarrow>
         let data = print_json (Object_json object)
         in (case put_key env d oid data of
               (d', Some e) \<Rightarrow> (d', Inl e)
             | (d', None) \<Rightarrow> (d', Inr oid))))"

definition internal_key :: "bytes \<Rightarrow> bool" where
  "internal_key keyStr \<longleftrightarrow> keyStr = ''chaintip'' \<or> take 5 keyStr = ''utxo-'' \<or>
     take 4 keyStr = ''fee-'' \<or> take 8 keyStr = ''mempool-''"

definition getAllObjectIDs :: "'d env \<Rightarrow> 'd database \<Rightarrow> HashID list \<times> error option" where
  "getAllObjectIDs env d = (case ldb_iter env (db_db d) of
     (kvs, e) \<Rightarrow> (filter (\<lambda>k. \<not> internal_key k) (map fst kvs), e))"

text \<open>
  \<^verbatim>\<open>findObject\<close> blocks on a new channel unless the object is there: the result is the object,
  or the channel it then waits on. \<open>findObject_recv\<close> is what the wait returns once the channel
  holds a value or is closed.
\<close>

definition findObject :: "'d env \<Rightarrow> 'd database \<Rightarrow> HashID \<Rightarrow> 'd database \<times> (nat + Object)" where
  "findObject env d oid = (case getObject env d oid of
     Inr obj \<Rightarrow> (d, Inr obj)
   | Inl _ \<Rightarrow>
       let ch = length (db_chans d);
           waiting = (case gm_get (db_pendingFinds d) oid of None \<Rightarrow> [] | Some w \<Rightarrow> w)
       in (d\<lparr>db_chans := db_chans d @ [\<lparr>ch_buffer = [], ch_closed = False\<rparr>],
             db_pendingFinds := gm_set oid (waiting @ [ch]) (db_pendingFinds d)\<rparr>, Inl ch))"

definition findObject_recv :: "'d database \<Rightarrow> nat \<Rightarrow> Object result option" where
  "findObject_recv d ch = (case ch_buffer (db_chans d ! ch) of
     obj # _ \<Rightarrow> Some (Inr obj)
   | [] \<Rightarrow> if ch_closed (db_chans d ! ch) then Some (Inl (Errorf ''find for object was cancelled'')) else None)"

definition notifyWaiters :: "'d database \<Rightarrow> HashID \<Rightarrow> Object \<Rightarrow> 'd database" where
  "notifyWaiters d oid obj =
     (let waiting = (case gm_get (db_pendingFinds d) oid of None \<Rightarrow> [] | Some w \<Rightarrow> w)
      in d\<lparr>db_chans := fold (\<lambda>ch cs. cs[ch := \<lparr>ch_buffer = ch_buffer (cs ! ch) @ [obj], ch_closed = True\<rparr>])
             waiting (db_chans d),
           db_pendingFinds := gm_del oid (db_pendingFinds d)\<rparr>)"

section \<open>Fees, UTXO sets, the chain tip\<close>

text \<open>A slice that nothing was appended to is nil.\<close>

definition appended :: "'a list \<Rightarrow> 'a slice" where
  "appended xs = (if xs = [] then None else Some xs)"

text \<open>\<^verbatim>\<open>(*big.Int).SetString(s, 10)\<close>.\<close>

definition big_SetString10 :: "string \<Rightarrow> int option" where
  "big_SetString10 s = (case s of
     [] \<Rightarrow> None
   | c # cs \<Rightarrow>
       let ds = (if c = CHR ''-'' \<or> c = CHR ''+'' then cs else s)
       in if ds = [] \<or> \<not> list_all is_digit ds then None
          else Some (if c = CHR ''-'' then - int (nat_of_string ds) else int (nat_of_string ds)))"

definition putFee :: "'d env \<Rightarrow> 'd database \<Rightarrow> HashID \<Rightarrow> Picabu \<Rightarrow> 'd database \<times> error option" where
  "putFee env d oid fee = put_key env d (feeKey oid) (string_of_int fee)"

definition getFee :: "'d env \<Rightarrow> 'd database \<Rightarrow> HashID \<Rightarrow> Picabu result" where
  "getFee env d oid = (case ldb_get env (db_db d) (feeKey oid) of
     Inl _ \<Rightarrow> Inl (Errorf ''fee not found for tx'')
   | Inr data \<Rightarrow> (case big_SetString10 data of
       None \<Rightarrow> Inl (Errorf ''invalid fee format for tx'')
     | Some fee \<Rightarrow> Inr fee))"

definition getUTXO :: "'d env \<Rightarrow> 'd database \<Rightarrow> HashID \<Rightarrow> UTXOSet result" where
  "getUTXO env d blockid = (case ldb_get env (db_db d) (utxoKey blockid) of
     Inl e \<Rightarrow> Inl e
   | Inr utxoRaw \<Rightarrow> (case parse_json utxoRaw \<bind> UTXOStorageData_Unmarshal of
       None \<Rightarrow> Inl JsonError
     | Some data \<Rightarrow>
         Inr \<lparr>us_BlockID = sd_BlockID data,
              us_UTXOs = fold (\<lambda>r. gm_set (ur_Key r) (ur_Value r)) (elems (sd_Records data)) [],
              us_Height = sd_Height data\<rparr>))"

definition utxo_data :: "UTXOSet \<Rightarrow> UTXOStorageData" where
  "utxo_data utxos =
     (let records = map (\<lambda>(k, v). \<lparr>ur_Key = k, ur_Value = v\<rparr>) (us_UTXOs utxos)
      in \<lparr>sd_BlockID = us_BlockID utxos, sd_Height = us_Height utxos, sd_Records = appended records\<rparr>)"

definition putUTXO :: "'d env \<Rightarrow> 'd database \<Rightarrow> HashID \<Rightarrow> UTXOSet \<Rightarrow> 'd database \<times> error option" where
  "putUTXO env d blockid utxos =
     put_key env d (utxoKey blockid) (print_json (UTXOStorageData_json (utxo_data utxos)))"

definition existsChaintip :: "'d env \<Rightarrow> 'd database \<Rightarrow> bool result" where
  "existsChaintip env d = ldb_has env (db_db d) chaintipKey"

definition getChaintip :: "'d env \<Rightarrow> 'd database \<Rightarrow> (HashID \<times> uint64) result" where
  "getChaintip env d = (case ldb_get env (db_db d) chaintipKey of
     Inl e \<Rightarrow> Inl e
   | Inr chaintipRaw \<Rightarrow> (case parse_json chaintipRaw \<bind> Chaintip_Unmarshal of
       None \<Rightarrow> Inl JsonError
     | Some chaintip \<Rightarrow> Inr (ct_BlockID chaintip, ct_Height chaintip)))"

definition putChaintip :: "'d env \<Rightarrow> 'd database \<Rightarrow> HashID \<Rightarrow> uint64 \<Rightarrow> 'd database \<times> error option" where
  "putChaintip env d blkid height =
     put_key env d chaintipKey (print_json (Chaintip_json \<lparr>ct_BlockID = blkid, ct_Height = height\<rparr>))"

section \<open>The mempool\<close>

text \<open>The loop that records the outpoints a transaction spends.\<close>

fun spend_inputs ::
  "HashID \<Rightarrow> TxInput list \<Rightarrow> (OutpointKey, HashID) gomap \<Rightarrow> (OutpointKey, HashID) gomap option" where
  "spend_inputs txid [] m = Some m"
| "spend_inputs txid (input # inputs) m = (case input_key input of
     None \<Rightarrow> None
   | Some key \<Rightarrow> spend_inputs txid inputs (gm_set key txid m))"

text \<open>The loop that forgets them.\<close>

fun unspend_inputs ::
  "TxInput list \<Rightarrow> (OutpointKey, HashID) gomap \<Rightarrow> (OutpointKey, HashID) gomap option" where
  "unspend_inputs [] m = Some m"
| "unspend_inputs (input # inputs) m = (case input_key input of
     None \<Rightarrow> None
   | Some key \<Rightarrow> unspend_inputs inputs (gm_del key m))"

definition addMempoolEntry ::
  "'d env \<Rightarrow> int \<Rightarrow> 'd database \<Rightarrow> Transaction \<Rightarrow> Picabu \<Rightarrow> ('d database \<times> error option) option" where
  "addMempoolEntry env now d tx fee = (case GetObjectID env (TxObj tx) of
     (_, Inl _) \<Rightarrow> Some (d, Some (Errorf ''error hashing transaction''))
   | (obj, Inr txid) \<Rightarrow>
       let tx' = (case obj of TxObj t \<Rightarrow> t | _ \<Rightarrow> tx);
           entry = \<lparr>me_TxID = txid, me_Tx = Some tx', me_Fee = fee, me_Timestamp = now\<rparr>;
           data = print_json (MempoolEntry_json env entry)
       in (case put_key env d (mempoolKey (me_TxID entry)) data of
             (d1, Some _) \<Rightarrow> Some (d1, Some (Errorf ''error storing mempool entry''))
           | (d1, None) \<Rightarrow> (case putFee env d1 (me_TxID entry) fee of
               (d2, Some _) \<Rightarrow> Some (d2, Some (Errorf ''error storing fee for mempool entry''))
             | (d2, None) \<Rightarrow>
                 (case spend_inputs txid (elems (tx_Inputs tx)) (db_mempoolSpentInputs d2) of
                    None \<Rightarrow> None
                  | Some spent \<Rightarrow>
                      Some (d2\<lparr>db_mempool := gm_set (me_TxID entry) entry (db_mempool d2),
                               db_mempoolSpentInputs := spent\<rparr>, None)))))"

text \<open>The entry is deleted first, and looked up afterwards.\<close>

definition removeMempoolEntry ::
  "'d env \<Rightarrow> 'd database \<Rightarrow> HashID \<Rightarrow> ('d database \<times> error option) option" where
  "removeMempoolEntry env d txid = (case delete_key env d (mempoolKey txid) of
     (d1, Some _) \<Rightarrow> Some (d1, Some (Errorf ''error removing mempool entry''))
   | (d1, None) \<Rightarrow> (case delete_key env d1 (feeKey txid) of
       (d2, Some _) \<Rightarrow> Some (d2, Some (Errorf ''error removing fee for mempool entry''))
     | (d2, None) \<Rightarrow>
         let d3 = d2\<lparr>db_mempool := gm_del txid (db_mempool d2)\<rparr>
         in (case gm_get (db_mempool d3) txid of
               None \<Rightarrow> Some (d3, None)
             | Some entry \<Rightarrow> (case me_Tx entry of
                 None \<Rightarrow> None
               | Some tx \<Rightarrow>
                   (case unspend_inputs (elems (tx_Inputs tx)) (db_mempoolSpentInputs d3) of
                      None \<Rightarrow> None
                    | Some spent \<Rightarrow> Some (d3\<lparr>db_mempoolSpentInputs := spent\<rparr>, None))))))"

definition existsInMempool :: "'d database \<Rightarrow> HashID \<Rightarrow> bool" where
  "existsInMempool d txid = gm_has (db_mempool d) txid"

definition getMempoolEntries :: "'d database \<Rightarrow> MempoolEntry slice" where
  "getMempoolEntries d = appended (map snd (db_mempool d))"

definition getMempoolTxids :: "'d database \<Rightarrow> HashID slice" where
  "getMempoolTxids d = appended (map fst (db_mempool d))"

definition loadMempool :: "'d env \<Rightarrow> 'd database \<Rightarrow> MempoolEntry slice \<times> error option" where
  "loadMempool env d = (case ldb_iter env (db_db d) of
     (kvs, e) \<Rightarrow>
       (appended (List.map_filter (\<lambda>(k, v).
          if take 8 k = ''mempool-'' then parse_json v \<bind> MempoolEntry_Unmarshal env else None) kvs), e))"

section \<open>Blocks that wait for an object\<close>

definition addPendingBlock :: "int \<Rightarrow> 'd database \<Rightarrow> string \<Rightarrow> HashID \<Rightarrow> Block \<Rightarrow> 'd database" where
  "addPendingBlock now d peer missingID block =
     (let waiting = (case gm_get (db_pendingBlocks d) missingID of None \<Rightarrow> [] | Some w \<Rightarrow> w)
      in d\<lparr>db_pendingBlocks := gm_set missingID
             (waiting @ [\<lparr>pb_Block = block, pb_Timestamp = now, pb_Peer = peer\<rparr>]) (db_pendingBlocks d)\<rparr>)"

definition getPendingBlocksCount :: "'d database \<Rightarrow> nat" where
  "getPendingBlocksCount d = length (db_pendingBlocks d)"

definition isNeededForPendingBlock :: "'d database \<Rightarrow> HashID \<Rightarrow> bool" where
  "isNeededForPendingBlock d oid = gm_has (db_pendingBlocks d) oid"

definition fetchAndClearPendingBlocks ::
  "'d database \<Rightarrow> HashID \<Rightarrow> 'd database \<times> PendingBlock list" where
  "fetchAndClearPendingBlocks d resolvedObjID =
     (let blocks = (case gm_get (db_pendingBlocks d) resolvedObjID of None \<Rightarrow> [] | Some b \<Rightarrow> b)
      in (d\<lparr>db_pendingBlocks := gm_del resolvedObjID (db_pendingBlocks d)\<rparr>, blocks))"

definition pending_timeout :: int where
  "pending_timeout = 5 * 60 * 10 ^ 9"

definition expired_at :: "int \<Rightarrow> PendingBlock \<Rightarrow> bool" where
  "expired_at now blk \<longleftrightarrow> now - pb_Timestamp blk > pending_timeout"

text \<open>One turn of the loop over the waiting blocks: a Go map may change while it is ranged over.\<close>

fun sweep_pending ::
  "int \<Rightarrow> HashID \<times> PendingBlock list \<Rightarrow>
     (HashID, PendingBlock list) gomap \<times> (string \<times> Block \<times> HashID) list \<Rightarrow>
     (HashID, PendingBlock list) gomap \<times> (string \<times> Block \<times> HashID) list" where
  "sweep_pending now (txid, blocks) (pending, expired) =
     (let old = filter (expired_at now) blocks;
          stillPending = filter (\<lambda>blk. \<not> expired_at now blk) blocks
      in (if stillPending = [] then gm_del txid pending else gm_set txid stillPending pending,
          expired @ map (\<lambda>blk. (pb_Peer blk, pb_Block blk, txid)) old))"

definition checkPendingBlocks ::
  "int \<Rightarrow> 'd database \<Rightarrow> 'd database \<times> (string \<times> Block \<times> HashID) list" where
  "checkPendingBlocks now d =
     (let (pending, expired) = fold (sweep_pending now) (db_pendingBlocks d) (db_pendingBlocks d, [])
      in (d\<lparr>db_pendingBlocks := pending\<rparr>, expired))"

section \<open>The store\<close>

text \<open>
  What goleveldb documents: a write that succeeded is read back, a write that failed took effect
  or did not, either way under its key only; \<^verbatim>\<open>Has\<close> agrees with \<^verbatim>\<open>Get\<close>.
\<close>

definition ldb_ok :: "'d env \<Rightarrow> bool" where
  "ldb_ok env \<longleftrightarrow>
     (\<forall>d k v d' e. ldb_put env d k v = (d', e) \<longrightarrow>
        ldb_get env d' = (ldb_get env d)(k := Inr v) \<or> e \<noteq> None \<and> ldb_get env d' = ldb_get env d) \<and>
     (\<forall>d k d' e. ldb_delete env d k = (d', e) \<longrightarrow>
        ldb_get env d' = (ldb_get env d)(k := Inl LdbNotFound) \<or> e \<noteq> None \<and> ldb_get env d' = ldb_get env d) \<and>
     (\<forall>d k. ldb_has env d k = (case ldb_get env d k of
        Inr _ \<Rightarrow> Inr True | Inl e \<Rightarrow> if e = LdbNotFound then Inr False else Inl e))"

text \<open>No write fails.\<close>

definition ldb_total :: "'d env \<Rightarrow> bool" where
  "ldb_total env \<longleftrightarrow> (\<forall>d k v. snd (ldb_put env d k v) = None) \<and> (\<forall>d k. snd (ldb_delete env d k) = None)"

lemma put_key_get:
  "ldb_ok env \<Longrightarrow> put_key env d k v = (d', None) \<Longrightarrow>
     ldb_get env (db_db d') = (ldb_get env (db_db d))(k := Inr v)"
  by (fastforce simp: ldb_ok_def put_key_def split: prod.splits)

lemma put_key_either:
  "ldb_ok env \<Longrightarrow> put_key env d k v = (d', e) \<Longrightarrow>
     ldb_get env (db_db d') = (ldb_get env (db_db d))(k := Inr v) \<or>
     e \<noteq> None \<and> ldb_get env (db_db d') = ldb_get env (db_db d)"
  by (fastforce simp: ldb_ok_def put_key_def split: prod.splits)

lemma delete_key_either:
  "ldb_ok env \<Longrightarrow> delete_key env d k = (d', e) \<Longrightarrow>
     ldb_get env (db_db d') = (ldb_get env (db_db d))(k := Inl LdbNotFound) \<or>
     e \<noteq> None \<and> ldb_get env (db_db d') = ldb_get env (db_db d)"
  by (fastforce simp: ldb_ok_def delete_key_def split: prod.splits)

text \<open>A write to the store leaves the maps in memory alone.\<close>

lemma put_key_memory:
  "put_key env d k v = (d', e) \<Longrightarrow> d' = d\<lparr>db_db := db_db d'\<rparr>"
  by (auto simp: put_key_def split: prod.splits)

lemma delete_key_memory:
  "delete_key env d k = (d', e) \<Longrightarrow> d' = d\<lparr>db_db := db_db d'\<rparr>"
  by (auto simp: delete_key_def split: prod.splits)

lemma put_key_other:
  assumes "ldb_ok env" "put_key env d k v = (d', e)"
  shows "k' \<noteq> k \<Longrightarrow> ldb_get env (db_db d') k' = ldb_get env (db_db d) k'"
    and "db_mempool d' = db_mempool d" "db_mempoolSpentInputs d' = db_mempoolSpentInputs d"
  using put_key_either [OF assms] put_key_memory [OF assms(2)] by (auto dest: fun_cong) (metis database.select_convs database.surjective database.update_convs(1))+

lemma existsObject_iff:
  "ldb_ok env \<Longrightarrow> existsObject env d oid = Inr b \<Longrightarrow>
     b \<longleftrightarrow> ldb_get env (db_db d) oid \<noteq> Inl LdbNotFound"
  by (auto simp: ldb_ok_def existsObject_def split: sum.splits if_splits)

text \<open>Keys of different kinds differ.\<close>

lemma not_hex_key: "k = ''chaintip'' \<or> k = ''utxo-'' @ x \<or> k = ''fee-'' @ x \<or> k = ''mempool-'' @ x \<Longrightarrow> \<not> HashID_ok k"
  by (auto simp: HashID_ok_def is_hex_def)

lemma keys_differ [simp]:
  "utxoKey a \<noteq> feeKey b" "utxoKey a \<noteq> chaintipKey" "utxoKey a \<noteq> mempoolKey b"
  "feeKey a \<noteq> utxoKey b" "feeKey a \<noteq> chaintipKey" "feeKey a \<noteq> mempoolKey b"
  "mempoolKey a \<noteq> utxoKey b" "mempoolKey a \<noteq> feeKey b" "mempoolKey a \<noteq> chaintipKey"
  "chaintipKey \<noteq> utxoKey b" "chaintipKey \<noteq> feeKey b" "chaintipKey \<noteq> mempoolKey b"
  "utxoKey a = utxoKey c \<longleftrightarrow> a = c" "feeKey a = feeKey c \<longleftrightarrow> a = c" "mempoolKey a = mempoolKey c \<longleftrightarrow> a = c"
  by (auto simp: db_defs)

lemma HashID_keys [simp]:
  "HashID_ok h \<Longrightarrow> h \<noteq> utxoKey x" "HashID_ok h \<Longrightarrow> h \<noteq> feeKey x"
  "HashID_ok h \<Longrightarrow> h \<noteq> mempoolKey x" "HashID_ok h \<Longrightarrow> h \<noteq> chaintipKey"
  using not_hex_key by (auto simp: db_defs)

section \<open>Objects read back\<close>

fun Object_ok :: "Object \<Rightarrow> bool" where
  "Object_ok (TxObj t) = Transaction_ok t"
| "Object_ok (CoinbaseObj c) = CoinbaseTransaction_ok c"
| "Object_ok (BlockObj b) = Block_ok b"

lemma jfield_ci:
  "jfield [n] n ((k, v) # kvs) =
     (case jfield [n] n kvs of None \<Rightarrow> if k = n \<or> eq_fold n k then Some v else None | Some w \<Rightarrow> Some w)"
proof -
  have m: "match_field [n] k = Some n \<longleftrightarrow> k = n \<or> eq_fold n k"
    by (auto simp: match_field_def)
  have "jfield [n] n [(k, v)] = (if k = n \<or> eq_fold n k then Some v else None)"
    by (simp add: jfield_def m)
  then show ?thesis
    using jfield_append [of "[n]" n "[(k, v)]" kvs] by (auto split: option.splits)
qed

lemma jfield_ci_append:
  "jfield [n] n (xs @ ys) = (case jfield [n] n ys of None \<Rightarrow> jfield [n] n xs | Some w \<Rightarrow> Some w)"
  by (rule jfield_append)

lemma probe_Transaction:
  "probe_type (Transaction_json t) = Some (ObjectType_str (tx_Type t))"
  "probe_height (Transaction_json t) = Some None"
  by (simp_all add: probe_type_def probe_height_def Transaction_json_def jfield_ci eq_fold_def lower_def)

lemma probe_Coinbase:
  "probe_type (CoinbaseTransaction_json c) = Some (ObjectType_str (cb_Type c))"
  "BuInt_ok (cb_Height c) \<Longrightarrow> probe_height (CoinbaseTransaction_json c) = Some (Some (cb_Height c))"
  by (simp_all add: probe_type_def probe_height_def CoinbaseTransaction_json_def jfield_ci eq_fold_def
      lower_def BuInt_ok_def)

lemma probe_omit:
  "k \<in> {''miner'', ''note'', ''studentids''} \<Longrightarrow> jfield [''type''] ''type'' (omit_nil k enc p) = None"
  by (auto simp: omit_nil_def jfield_ci eq_fold_def lower_def split: option.splits)

lemma probe_Block: "probe_type (Block_json b) = Some (ObjectType_str (blk_Type b))"
  by (simp add: probe_type_def Block_json_def jfield_ci_append jfield_ci eq_fold_def lower_def probe_omit)

lemma Object_ok_uncached: "Object_ok obj \<Longrightarrow> uncached obj = obj"
  by (cases obj) (simp_all add: Transaction_ok_def CoinbaseTransaction_ok_def Block_ok_def)

lemma decodeObject_ok:
  assumes "Object_ok obj"
  shows "decodeObject (print_json (Object_json obj)) = Inr obj"
proof (cases obj)
  case (TxObj t)
  moreover have "no_frac (Transaction_json t)" using no_frac_Object [of "TxObj t"] by simp
  ultimately show ?thesis
    using assms transaction_codec.dec_enc [of t]
    by (simp add: decodeObject_def parse_json_print probe_Transaction or_JsonError_def Transaction_ok_def)
next
  case (CoinbaseObj c)
  moreover have "no_frac (CoinbaseTransaction_json c)" using no_frac_Object [of "CoinbaseObj c"] by simp
  ultimately show ?thesis
    using assms coinbase_codec.dec_enc [of c]
    by (simp add: decodeObject_def parse_json_print probe_Coinbase or_JsonError_def CoinbaseTransaction_ok_def)
next
  case (BlockObj b)
  moreover have "no_frac (Block_json b)" using no_frac_Object [of "BlockObj b"] by simp
  ultimately show ?thesis
    using assms block_codec.dec_enc [of b]
    by (simp add: decodeObject_def parse_json_print probe_Block or_JsonError_def Block_ok_def)
qed

lemma decodeObject_json:
  "Object_ok (uncached obj) \<Longrightarrow> decodeObject (print_json (Object_json obj)) = Inr (uncached obj)"
  using decodeObject_ok [of "uncached obj"] by simp

lemma putObject_get:
  assumes "ldb_ok env" "putObject env d obj = (d', Inr oid)" "Object_ok (uncached obj)"
  shows "HashObject env obj = Inr oid" "getObject env d' oid = Inr (uncached obj)"
    "\<And>k. k \<noteq> oid \<Longrightarrow> ldb_get env (db_db d') k = ldb_get env (db_db d) k"
    "d' = d\<lparr>db_db := db_db d'\<rparr>"
proof -
  obtain canon where c: "Canonicalize (Object_json obj) = Some canon" "HashString env canon = Inr oid"
    and p: "put_key env d oid (print_json (Object_json obj)) = (d', None)"
    using assms(2) by (auto simp: putObject_def split: option.splits sum.splits prod.splits)
  show "HashObject env obj = Inr oid" using c by (simp add: HashObject_def)
  note g = put_key_get [OF assms(1) p]
  show "getObject env d' oid = Inr (uncached obj)"
    using g decodeObject_json [OF assms(3)] by (simp add: getObject_def)
  show "\<And>k. k \<noteq> oid \<Longrightarrow> ldb_get env (db_db d') k = ldb_get env (db_db d) k" using g by simp
  show "d' = d\<lparr>db_db := db_db d'\<rparr>" by (rule put_key_memory [OF p])
qed

section \<open>UTXO sets, fees and the tip read back\<close>

definition OutpointKey_ok :: "OutpointKey \<Rightarrow> bool" where
  "OutpointKey_ok k \<longleftrightarrow> HashID_ok (key_Txid k) \<and> BuInt_range (key_Index k)"

definition UTXORecord_ok :: "UTXORecord \<Rightarrow> bool" where
  "UTXORecord_ok r \<longleftrightarrow> OutpointKey_ok (ur_Key r) \<and> TxOutput_ok (ur_Value r)"

definition UTXOStorageData_ok :: "UTXOStorageData \<Rightarrow> bool" where
  "UTXOStorageData_ok d \<longleftrightarrow> HashID_ok (sd_BlockID d) \<and> list_all UTXORecord_ok (elems (sd_Records d))"

definition UTXOSet_ok :: "UTXOSet \<Rightarrow> bool" where
  "UTXOSet_ok u \<longleftrightarrow> HashID_ok (us_BlockID u) \<and> gm_wf (us_UTXOs u) \<and>
     list_all (\<lambda>(k, v). OutpointKey_ok k \<and> TxOutput_ok v) (us_UTXOs u)"

lemma OutpointKey_dec_enc: "OutpointKey_ok k \<Longrightarrow> OutpointKey_Unmarshal (OutpointKey_json k) = Some k"
  by (simp add: OutpointKey_Unmarshal_def OutpointKey_json_def OutpointKey_ok_def jfield_exact BuInt_range_def)

interpretation outpoint_key_codec: codec OutpointKey_json OutpointKey_Unmarshal OutpointKey_ok
  by unfold_locales (rule OutpointKey_dec_enc)

lemma UTXORecord_dec_enc: "UTXORecord_ok r \<Longrightarrow> UTXORecord_Unmarshal (UTXORecord_json r) = Some r"
  by (simp add: UTXORecord_Unmarshal_def UTXORecord_json_def UTXORecord_ok_def jfield_exact
      outpoint_key_codec.dec_enc tx_output_codec.dec_enc)

interpretation utxo_record_codec: codec UTXORecord_json UTXORecord_Unmarshal UTXORecord_ok
  by unfold_locales (rule UTXORecord_dec_enc)

lemma UTXOStorageData_dec_enc:
  "UTXOStorageData_ok d \<Longrightarrow> UTXOStorageData_Unmarshal (UTXOStorageData_json d) = Some d"
  by (cases "sd_Records d")
     (simp_all add: UTXOStorageData_Unmarshal_def UTXOStorageData_json_def UTXOStorageData_ok_def
       jfield_exact slice_json_def utxo_record_codec.dec_list)

interpretation utxo_storage_codec:
  codec UTXOStorageData_json UTXOStorageData_Unmarshal UTXOStorageData_ok
  by unfold_locales (rule UTXOStorageData_dec_enc)

lemma Chaintip_dec_enc:
  "HashID_ok (ct_BlockID c) \<Longrightarrow> Chaintip_Unmarshal (Chaintip_json c) = Some c"
  by (simp add: Chaintip_Unmarshal_def Chaintip_json_def jfield_exact)

interpretation chaintip_codec: codec Chaintip_json Chaintip_Unmarshal "\<lambda>c. HashID_ok (ct_BlockID c)"
  by unfold_locales (rule Chaintip_dec_enc)

lemma no_frac_stored [simp]:
  "no_frac (UTXOStorageData_json d)" "no_frac (Chaintip_json c)"
  by (simp_all add: UTXOStorageData_json_def Chaintip_json_def UTXORecord_json_def OutpointKey_json_def
      TxOutput_json_def Picabu_Marshal_def uint64_json_def no_frac_slice_json)

lemma fold_gm_set_fresh:
  "distinct (map f rs) \<Longrightarrow> (\<forall>r \<in> set rs. \<not> gm_has m (f r)) \<Longrightarrow>
     fold (\<lambda>r. gm_set (f r) (g r)) rs m = rev (map (\<lambda>r. (f r, g r)) rs) @ m"
proof (induction rs arbitrary: m)
  case Nil
  then show ?case by simp
next
  case (Cons r rs)
  then have "gm_set (f r) (g r) m = (f r, g r) # m" by (simp add: gm_set_def gm_del_notin)
  moreover have "\<forall>r' \<in> set rs. \<not> gm_has ((f r, g r) # m) (f r')"
    using Cons.prems by (auto simp: gm_has_iff image_iff)
  ultimately show ?case using Cons by simp
qed

lemma elems_appended [simp]: "elems (appended xs) = xs"
  by (simp add: appended_def)

text \<open>The text of a UTXO set reads back as the same map; its records come back in reverse order.\<close>

lemma getUTXO_text:
  assumes "ldb_get env (db_db d) (utxoKey b) = Inr (print_json (UTXOStorageData_json (utxo_data u)))"
    and "UTXOSet_ok u"
  shows "getUTXO env d b = Inr (u\<lparr>us_UTXOs := rev (us_UTXOs u)\<rparr>)"
proof -
  define rs where "rs = map (\<lambda>(k, v). \<lparr>ur_Key = k, ur_Value = v\<rparr>) (us_UTXOs u)"
  have data: "sd_BlockID (utxo_data u) = us_BlockID u" "sd_Height (utxo_data u) = us_Height u"
    "elems (sd_Records (utxo_data u)) = rs"
    by (simp_all add: utxo_data_def rs_def Let_def)
  have "list_all UTXORecord_ok rs"
    using assms(2) by (auto simp: rs_def UTXOSet_ok_def UTXORecord_ok_def list_all_iff)
  then have "UTXOStorageData_ok (utxo_data u)"
    using assms(2) data by (simp add: UTXOStorageData_ok_def UTXOSet_ok_def)
  moreover have "map ur_Key rs = map fst (us_UTXOs u)"
    "map (\<lambda>r. (ur_Key r, ur_Value r)) rs = us_UTXOs u"
    by (auto simp: rs_def comp_def case_prod_beta)
  then have "fold (\<lambda>r. gm_set (ur_Key r) (ur_Value r)) rs [] = rev (us_UTXOs u)"
    using fold_gm_set_fresh [of ur_Key rs "[]" ur_Value] assms(2) by (simp add: UTXOSet_ok_def gm_wf_def)
  ultimately show ?thesis
    using assms(1) data by (simp add: getUTXO_def parse_json_print utxo_storage_codec.dec_enc)
qed

lemma putUTXO_effect:
  assumes "ldb_ok env" "putUTXO env d b u = (d', e)" "UTXOSet_ok u"
  shows "getUTXO env d' b = Inr (u\<lparr>us_UTXOs := rev (us_UTXOs u)\<rparr>) \<or>
      e \<noteq> None \<and> ldb_get env (db_db d') = ldb_get env (db_db d)"
    and "\<And>k. k \<noteq> utxoKey b \<Longrightarrow> ldb_get env (db_db d') k = ldb_get env (db_db d) k"
    and "d' = d\<lparr>db_db := db_db d'\<rparr>"
proof -
  have p: "put_key env d (utxoKey b) (print_json (UTXOStorageData_json (utxo_data u))) = (d', e)"
    using assms(2) by (simp add: putUTXO_def)
  note eff = put_key_either [OF assms(1) p]
  show "\<And>k. k \<noteq> utxoKey b \<Longrightarrow> ldb_get env (db_db d') k = ldb_get env (db_db d) k" using eff by auto
  show "d' = d\<lparr>db_db := db_db d'\<rparr>" by (rule put_key_memory [OF p])
  show "getUTXO env d' b = Inr (u\<lparr>us_UTXOs := rev (us_UTXOs u)\<rparr>) \<or>
      e \<noteq> None \<and> ldb_get env (db_db d') = ldb_get env (db_db d)"
    using eff getUTXO_text [OF _ assms(3), of env d' b] by auto
qed

lemma putUTXO_get:
  assumes "ldb_ok env" "putUTXO env d b u = (d', None)" "UTXOSet_ok u"
  shows "getUTXO env d' b = Inr (u\<lparr>us_UTXOs := rev (us_UTXOs u)\<rparr>)"
  using putUTXO_effect(1) [OF assms] by simp

lemma putChaintip_get:
  assumes "ldb_ok env" "putChaintip env d b h = (d', None)" "HashID_ok b"
  shows "getChaintip env d' = Inr (b, h)"
    "\<And>k. k \<noteq> chaintipKey \<Longrightarrow> ldb_get env (db_db d') k = ldb_get env (db_db d) k"
    "d' = d\<lparr>db_db := db_db d'\<rparr>"
proof -
  have p: "put_key env d chaintipKey (print_json (Chaintip_json \<lparr>ct_BlockID = b, ct_Height = h\<rparr>)) = (d', None)"
    using assms(2) by (simp add: putChaintip_def)
  note g = put_key_get [OF assms(1) p]
  show "getChaintip env d' = Inr (b, h)"
    using g assms(3) by (simp add: getChaintip_def parse_json_print chaintip_codec.dec_enc)
  show "\<And>k. k \<noteq> chaintipKey \<Longrightarrow> ldb_get env (db_db d') k = ldb_get env (db_db d) k" using g by simp
  show "d' = d\<lparr>db_db := db_db d'\<rparr>" by (rule put_key_memory [OF p])
qed

lemma big_SetString10_of_int: "big_SetString10 (string_of_int i) = Some i"
proof (cases "i < 0")
  case True
  then show ?thesis
    by (simp add: string_of_int_def big_SetString10_def string_of_nat_digits)
next
  case False
  obtain c cs where c: "string_of_nat (nat i) = c # cs" "is_digit c" "list_all is_digit cs"
    using string_of_nat_digits [of "nat i"] by (cases "string_of_nat (nat i)") auto
  then have "c \<noteq> CHR ''-''" "c \<noteq> CHR ''+''" by (auto simp: is_digit_def)
  with c False show ?thesis
    using nat_of_string_of_nat [of "nat i"] by (simp add: string_of_int_def big_SetString10_def)
qed

lemma putFee_get:
  assumes "ldb_ok env" "putFee env d h fee = (d', None)"
  shows "getFee env d' h = Inr fee"
    "\<And>k. k \<noteq> feeKey h \<Longrightarrow> ldb_get env (db_db d') k = ldb_get env (db_db d) k"
    "d' = d\<lparr>db_db := db_db d'\<rparr>"
proof -
  have p: "put_key env d (feeKey h) (string_of_int fee) = (d', None)" using assms(2) by (simp add: putFee_def)
  note g = put_key_get [OF assms(1) p]
  show "getFee env d' h = Inr fee" using g by (simp add: getFee_def big_SetString10_of_int)
  show "\<And>k. k \<noteq> feeKey h \<Longrightarrow> ldb_get env (db_db d') k = ldb_get env (db_db d) k" using g by simp
  show "d' = d\<lparr>db_db := db_db d'\<rparr>" by (rule put_key_memory [OF p])
qed

text \<open>What reads depend on: the store under one key.\<close>

lemma getObject_cong: "ldb_get env (db_db d') k = ldb_get env (db_db d) k \<Longrightarrow> getObject env d' k = getObject env d k"
  by (simp add: getObject_def)

lemma getUTXO_cong:
  "ldb_get env (db_db d') (utxoKey b) = ldb_get env (db_db d) (utxoKey b) \<Longrightarrow> getUTXO env d' b = getUTXO env d b"
  by (simp add: getUTXO_def)

lemma getChaintip_cong:
  "ldb_get env (db_db d') chaintipKey = ldb_get env (db_db d) chaintipKey \<Longrightarrow> getChaintip env d' = getChaintip env d"
  by (simp add: getChaintip_def)

section \<open>The expiry sweep\<close>

lemma sweep_fold:
  "distinct (map fst ps) \<Longrightarrow> gm_wf m \<Longrightarrow> fold (sweep_pending now) ps (m, out) = (m', out') \<Longrightarrow>
     gm_wf m' \<and>
     out' = out @ concat (map (\<lambda>(t, bs). map (\<lambda>b. (pb_Peer b, pb_Block b, t)) (filter (expired_at now) bs)) ps) \<and>
     (\<forall>t. gm_get m' t = (case map_of ps t of None \<Rightarrow> gm_get m t
        | Some bs \<Rightarrow> (let keep = filter (\<lambda>b. \<not> expired_at now b) bs in if keep = [] then None else Some keep)))"
proof (induction ps arbitrary: m out)
  case Nil
  then show ?case by simp
next
  case (Cons p ps)
  obtain t bs where p: "p = (t, bs)" by (cases p)
  define keep where "keep = filter (\<lambda>b. \<not> expired_at now b) bs"
  define m1 where "m1 = (if keep = [] then gm_del t m else gm_set t keep m)"
  define out1 where "out1 = out @ map (\<lambda>b. (pb_Peer b, pb_Block b, t)) (filter (expired_at now) bs)"
  have t: "map_of ps t = None" using Cons.prems p by (simp add: map_of_eq_None_iff)
  have "gm_wf m1" using Cons.prems by (simp add: m1_def)
  moreover have "sweep_pending now (t, bs) (m, out) = (m1, out1)"
    by (simp add: keep_def m1_def out1_def Let_def)
  then have "fold (sweep_pending now) ps (m1, out1) = (m', out')"
    using Cons.prems(3) by (simp add: p del: sweep_pending.simps)
  ultimately have IH: "gm_wf m' \<and>
     out' = out1 @ concat (map (\<lambda>(t, bs). map (\<lambda>b. (pb_Peer b, pb_Block b, t)) (filter (expired_at now) bs)) ps) \<and>
     (\<forall>t. gm_get m' t = (case map_of ps t of None \<Rightarrow> gm_get m1 t
        | Some bs \<Rightarrow> (let keep = filter (\<lambda>b. \<not> expired_at now b) bs in if keep = [] then None else Some keep)))"
    using Cons.IH [of m1 out1] Cons.prems(1) by simp
  have "gm_get m1 = (gm_get m)(t := if keep = [] then None else Some keep)"
    by (simp add: m1_def)
  with IH t show ?case by (auto simp: p out1_def keep_def Let_def split: option.splits)
qed

lemma checkPendingBlocks_get:
  assumes "gm_wf (db_pendingBlocks d)" "checkPendingBlocks now d = (d', expired)"
  shows "gm_wf (db_pendingBlocks d')"
    and "expired = concat (map (\<lambda>(t, bs). map (\<lambda>b. (pb_Peer b, pb_Block b, t)) (filter (expired_at now) bs))
           (db_pendingBlocks d))"
    and "gm_get (db_pendingBlocks d') t = (case gm_get (db_pendingBlocks d) t of None \<Rightarrow> None
       | Some bs \<Rightarrow> (let keep = filter (\<lambda>b. \<not> expired_at now b) bs in if keep = [] then None else Some keep))"
    and "d' = d\<lparr>db_pendingBlocks := db_pendingBlocks d'\<rparr>"
proof -
  have f: "fold (sweep_pending now) (db_pendingBlocks d) (db_pendingBlocks d, []) = (db_pendingBlocks d', expired)"
    and d': "d' = d\<lparr>db_pendingBlocks := db_pendingBlocks d'\<rparr>"
    using assms(2) by (auto simp: checkPendingBlocks_def Let_def split: prod.splits)
  note s = sweep_fold [OF assms(1) [unfolded gm_wf_def] assms(1) f]
  show "gm_wf (db_pendingBlocks d')" using s by blast
  show "expired = concat (map (\<lambda>(t, bs). map (\<lambda>b. (pb_Peer b, pb_Block b, t)) (filter (expired_at now) bs))
           (db_pendingBlocks d))" using s by simp
  show "gm_get (db_pendingBlocks d') t = (case gm_get (db_pendingBlocks d) t of None \<Rightarrow> None
       | Some bs \<Rightarrow> (let keep = filter (\<lambda>b. \<not> expired_at now b) bs in if keep = [] then None else Some keep))"
    using s by (simp add: gm_get_def split: option.splits)
  show "d' = d\<lparr>db_pendingBlocks := db_pendingBlocks d'\<rparr>" by (rule d')
qed

section \<open>Waiters\<close>

lemma notify_fold:
  "distinct ws \<Longrightarrow> (\<forall>w \<in> set ws. w < length cs) \<Longrightarrow> c < length cs \<Longrightarrow>
     fold (\<lambda>ch cs. cs[ch := \<lparr>ch_buffer = ch_buffer (cs ! ch) @ [obj], ch_closed = True\<rparr>]) ws cs ! c =
       (if c \<in> set ws then \<lparr>ch_buffer = ch_buffer (cs ! c) @ [obj], ch_closed = True\<rparr> else cs ! c)"
  by (induction ws arbitrary: cs) (auto simp: nth_list_update)

section \<open>Spent outpoints\<close>

text \<open>The keys of the inputs, when no index is nil.\<close>

definition spent_keys :: "TxInput list \<Rightarrow> OutpointKey list option" where
  "spent_keys inputs = mapM input_key inputs"

lemma spent_keys_Cons [simp]:
  "spent_keys [] = Some []"
  "spent_keys (i # is) = (case input_key i of None \<Rightarrow> None
     | Some k \<Rightarrow> (case spent_keys is of None \<Rightarrow> None | Some ks \<Rightarrow> Some (k # ks)))"
  by (simp_all add: spent_keys_def split: option.splits)

lemma spend_inputs_keys:
  "spend_inputs h inputs m = map_option (\<lambda>ks. fold (\<lambda>k. gm_set k h) ks m) (spent_keys inputs)"
  by (induction inputs arbitrary: m) (auto split: option.splits)

lemma unspend_inputs_keys:
  "unspend_inputs inputs m = map_option (\<lambda>ks. fold gm_del ks m) (spent_keys inputs)"
  by (induction inputs arbitrary: m) (auto split: option.splits)

lemma has_fold_set: "gm_has (fold (\<lambda>k. gm_set k h) ks m) k \<longleftrightarrow> k \<in> set ks \<or> gm_has m k"
  using gm.get_fold_set_const [of "\<lambda>k. k" h ks m k] by (auto simp: gm_has_def)

lemma has_fold_del: "gm_has (fold gm_del ks m) k \<longleftrightarrow> k \<notin> set ks \<and> gm_has m k"
  using gm.get_fold_del [of "\<lambda>k. k" ks m k] by (auto simp: gm_has_def)

text \<open>
  \<^verbatim>\<open>json.Marshal(entry)\<close> writes the fee as an empty object, which does not decode: what
  \<open>addMempoolEntry\<close> stores is skipped when the mempool is loaded.
\<close>

lemma no_frac_saved [simp]: "no_frac (MempoolEntry_json env e)"
proof -
  have "no_frac (Transaction_json t)" for t using no_frac_Object [of "TxObj t"] by simp
  then show ?thesis by (simp add: MempoolEntry_json_def no_frac_ptr_json)
qed

lemma saved_entry_unreadable_text:
  "parse_json (print_json (MempoolEntry_json env e)) \<bind> MempoolEntry_Unmarshal env = None"
proof -
  have "val_field 0 Picabu_Unmarshal (Some (JObj [])) = None"
    by (simp add: val_field_def Picabu_Unmarshal_def)
  then have "MempoolEntry_Unmarshal env (MempoolEntry_json env e) = None"
    by (auto simp: MempoolEntry_Unmarshal_def MempoolEntry_json_def jfield_exact Let_def Option.bind_eq_None_conv)
  then show ?thesis by (simp only: parse_json_print no_frac_saved Option.bind.bind_lunit)
qed

lemma loadMempool_saved:
  assumes "\<And>k v. (k, v) \<in> set (fst (ldb_iter env (db_db d))) \<Longrightarrow> take 8 k = ''mempool-'' \<Longrightarrow>
    \<exists>e. v = print_json (MempoolEntry_json env e)"
  shows "elems (fst (loadMempool env d)) = []"
proof -
  obtain kvs err where it: "ldb_iter env (db_db d) = (kvs, err)" by fastforce
  have "List.map_filter (\<lambda>(k, v). if take 8 k = ''mempool-'' then parse_json v \<bind> MempoolEntry_Unmarshal env else None) kvs = []"
    using assms saved_entry_unreadable_text it by (fastforce simp: List.map_filter_def filter_empty_conv)
  then show ?thesis by (simp add: loadMempool_def it)
qed

end
