(* ===== verification/NodeState.thy ===== *)
theory NodeState
  imports Database
begin

text \<open>
  \<^verbatim>\<open>internal/core/manager.go\<close>, first part: the state of the \<^verbatim>\<open>Manager\<close> and the operations that
  read or update it directly. Validation, commits, the mempool sweep, reorganisations and the
  history walk are in the theories \<^verbatim>\<open>Validation\<close>, \<^verbatim>\<open>Commit\<close> and \<^verbatim>\<open>Chain\<close>. Mutexes are left out:
  every operation here is one critical section, or one store access. The clock is an
  argument \<open>now\<close>, in nanoseconds since 1970; log output is left out.
\<close>

section \<open>State\<close>

record NodeConfig =
  cfg_DBPath :: string
  cfg_ServerPort :: int
  cfg_AgentName :: BuString
  cfg_Note :: BuString
  cfg_StudentIDs :: "BuString slice"
  cfg_MiningCores :: int
  cfg_PubKey :: HashID

record MinedBlockStat =
  mb_Hash :: HashID
  mb_Height :: uint64
  mb_Reward :: Picabu
  mb_Timestamp :: int

text \<open>
  A cancel function is known by the number of the mining context it cancels; \<open>m_cancelled\<close>
  holds the contexts cancelled so far.
\<close>

record 'd Manager =
  m_db :: "'d database"
  m_isSynced :: bool
  m_chaintipsReceived :: "32 word"
  m_lastSyncProgress :: int
  m_minerCancel :: "nat option"
  m_cancelled :: "nat list"
  m_miningActive :: bool
  m_miningStart :: int
  m_miningHashes :: uint64
  m_sessionBlocks :: "MinedBlockStat list"
  m_config :: NodeConfig

text \<open>The argument is the handle that opening the store at \<^verbatim>\<open>config.DBPath\<close> gave; \<open>None\<close> is the panic.\<close>

definition NewManager :: "'d option \<Rightarrow> NodeConfig \<Rightarrow> 'd Manager option" where
  "NewManager store config = (case store of
     None \<Rightarrow> None
   | Some d \<Rightarrow>
       let config' = (if cfg_Note config = '''' then config\<lparr>cfg_Note := ''a noteworthy note''\<rparr> else config)
       in Some \<lparr>m_db = newDatabase d, m_isSynced = False, m_chaintipsReceived = 0,
            m_lastSyncProgress = 0, m_minerCancel = None, m_cancelled = [], m_miningActive = False,
            m_miningStart = 0, m_miningHashes = 0, m_sessionBlocks = [], m_config = config'\<rparr>)"

definition upd_db :: "'d database \<Rightarrow> 'd Manager \<Rightarrow> 'd Manager" where
  "upd_db d m = m\<lparr>m_db := d\<rparr>"

lemma m_db_upd_db [simp]: "m_db (upd_db d m) = d"
  by (simp add: upd_db_def)

definition SetNote :: "BuString \<Rightarrow> 'd Manager \<Rightarrow> 'd Manager" where
  "SetNote note m = m\<lparr>m_config := (m_config m)\<lparr>cfg_Note := note\<rparr>\<rparr>"

definition Config :: "'d Manager \<Rightarrow> NodeConfig" where
  "Config m = m_config m"

definition IsSynced :: "'d Manager \<Rightarrow> bool" where
  "IsSynced m = m_isSynced m"

definition IncrementChaintipsReceived :: "'d Manager \<Rightarrow> 'd Manager" where
  "IncrementChaintipsReceived m = m\<lparr>m_chaintipsReceived := m_chaintipsReceived m + 1\<rparr>"

definition SetMiningCancel :: "nat \<Rightarrow> 'd Manager \<Rightarrow> 'd Manager" where
  "SetMiningCancel cancelFunc m = m\<lparr>m_minerCancel := Some cancelFunc\<rparr>"

text \<open>\<^verbatim>\<open>if m.minerCancel != nil { m.minerCancel() }\<close>\<close>

definition call_minerCancel :: "'d Manager \<Rightarrow> 'd Manager" where
  "call_minerCancel m = (case m_minerCancel m of
     None \<Rightarrow> m
   | Some c \<Rightarrow> m\<lparr>m_cancelled := c # m_cancelled m\<rparr>)"

section \<open>Objects, UTXO sets, the tip\<close>

definition ExistsObject :: "'d env \<Rightarrow> 'd Manager \<Rightarrow> HashID \<Rightarrow> bool result" where
  "ExistsObject env m oid = existsObject env (m_db m) oid"

definition StoreObject :: "'d env \<Rightarrow> 'd Manager \<Rightarrow> Object \<Rightarrow> 'd Manager \<times> error option" where
  "StoreObject env m object = (case putObject env (m_db m) object of
     (d, Inl e) \<Rightarrow> (upd_db d m, Some e)
   | (d, Inr _) \<Rightarrow> (upd_db d m, None))"

definition ExistsChaintip :: "'d env \<Rightarrow> 'd Manager \<Rightarrow> bool result" where
  "ExistsChaintip env m = existsChaintip env (m_db m)"

definition GetObject :: "'d env \<Rightarrow> 'd Manager \<Rightarrow> HashID \<Rightarrow> Object result" where
  "GetObject env m oid = (case getObject env (m_db m) oid of
     Inl e \<Rightarrow> if e = LdbNotFound then Inl ErrNotFound else Inl e
   | Inr obj \<Rightarrow> Inr obj)"

definition GetAllObjectIDs :: "'d env \<Rightarrow> 'd Manager \<Rightarrow> HashID list \<times> error option" where
  "GetAllObjectIDs env m = getAllObjectIDs env (m_db m)"

definition GetUTXO :: "'d env \<Rightarrow> 'd Manager \<Rightarrow> HashID \<Rightarrow> UTXOSet result" where
  "GetUTXO env m oid = (case getUTXO env (m_db m) oid of
     Inl e \<Rightarrow> if e = LdbNotFound then Inl ErrNotFound
              else Inl (Errorf ''DB error while fetching UTXO'')
   | Inr utxo \<Rightarrow> Inr utxo)"

definition GetChaintip :: "'d env \<Rightarrow> 'd Manager \<Rightarrow> (HashID \<times> uint64) result" where
  "GetChaintip env m = (case getChaintip env (m_db m) of
     Inl e \<Rightarrow> if e = LdbNotFound then Inl ErrNotFound
              else Inl (Errorf ''DB error while fetching chaintip'')
   | Inr tip \<Rightarrow> Inr tip)"

text \<open>The loop over the inputs that stops at the first one outside the UTXO set.\<close>

fun all_inputs_in :: "TxInput list \<Rightarrow> (OutpointKey, TxOutput) gomap \<Rightarrow> bool option" where
  "all_inputs_in [] utxos = Some True"
| "all_inputs_in (input # inputs) utxos = (case input_key input of
     None \<Rightarrow> None
   | Some key \<Rightarrow> if \<not> gm_has utxos key then Some False else all_inputs_in inputs utxos)"

definition IsInputInUTXO :: "'d env \<Rightarrow> 'd Manager \<Rightarrow> Transaction \<Rightarrow> bool option" where
  "IsInputInUTXO env m tx = (case GetChaintip env m of
     Inl _ \<Rightarrow> Some False
   | Inr (tip, _) \<Rightarrow> (case GetUTXO env m tip of
       Inl _ \<Rightarrow> Some False
     | Inr activeUTXOs \<Rightarrow> all_inputs_in (elems (tx_Inputs tx)) (us_UTXOs activeUTXOs)))"

section \<open>The mempool\<close>

definition AddToMempool ::
  "'d env \<Rightarrow> int \<Rightarrow> 'd Manager \<Rightarrow> Transaction \<Rightarrow> Picabu \<Rightarrow> ('d Manager \<times> error option) option" where
  "AddToMempool env now m tx fee = (case addMempoolEntry env now (m_db m) tx fee of
     None \<Rightarrow> None
   | Some (d, Some _) \<Rightarrow> Some (upd_db d m, Some (Errorf ''failed to add transaction to mempool''))
   | Some (d, None) \<Rightarrow> Some (upd_db d m, None))"

definition RemoveFromMempool ::
  "'d env \<Rightarrow> 'd Manager \<Rightarrow> HashID \<Rightarrow> ('d Manager \<times> error option) option" where
  "RemoveFromMempool env m txid = (case removeMempoolEntry env (m_db m) txid of
     None \<Rightarrow> None
   | Some (d, Some _) \<Rightarrow> Some (upd_db d m, Some (Errorf ''failed to remove transaction from mempool''))
   | Some (d, None) \<Rightarrow> Some (upd_db d m, None))"

definition ExistsInMempool :: "'d Manager \<Rightarrow> HashID \<Rightarrow> bool" where
  "ExistsInMempool m txid = existsInMempool (m_db m) txid"

definition GetMempoolEntries :: "'d Manager \<Rightarrow> MempoolEntry slice" where
  "GetMempoolEntries m = getMempoolEntries (m_db m)"

definition GetMempoolTxids :: "'d Manager \<Rightarrow> HashID slice" where
  "GetMempoolTxids m = getMempoolTxids (m_db m)"

definition IsInputSpent :: "'d Manager \<Rightarrow> OutpointKey \<Rightarrow> bool" where
  "IsInputSpent m outpoint = gm_has (db_mempoolSpentInputs (m_db m)) outpoint"

section \<open>Waiting blocks and synchronisation\<close>

definition AddPendingBlock :: "int \<Rightarrow> 'd Manager \<Rightarrow> string \<Rightarrow> HashID \<Rightarrow> Block \<Rightarrow> 'd Manager" where
  "AddPendingBlock now m peer missingID block =
     upd_db (addPendingBlock now (m_db m) peer missingID block) m"

definition IsNeededForPendingBlock :: "'d Manager \<Rightarrow> HashID \<Rightarrow> bool" where
  "IsNeededForPendingBlock m oid = isNeededForPendingBlock (m_db m) oid"

definition FetchPendingBlocks :: "'d Manager \<Rightarrow> HashID \<Rightarrow> 'd Manager \<times> PendingBlock list" where
  "FetchPendingBlocks m resolvedObjID =
     (case fetchAndClearPendingBlocks (m_db m) resolvedObjID of (d, blocks) \<Rightarrow> (upd_db d m, blocks))"

definition ResetSyncTimer :: "int \<Rightarrow> 'd Manager \<Rightarrow> 'd Manager" where
  "ResetSyncTimer now m = m\<lparr>m_lastSyncProgress := now div 10 ^ 9\<rparr>"

definition TimeSinceLastProgress :: "int \<Rightarrow> 'd Manager \<Rightarrow> int" where
  "TimeSinceLastProgress now m =
     (let last = m_lastSyncProgress m
      in if last = 0 then 5 * 60 * 10 ^ 9 else now - last * 10 ^ 9)"

text \<open>One tick of \<^verbatim>\<open>CleanupPendingBlocks\<close>: the second component are the calls of \<^verbatim>\<open>notifyPeer\<close>.\<close>

definition CleanupPendingBlocks :: "int \<Rightarrow> 'd Manager \<Rightarrow> 'd Manager \<times> (string \<times> HashID) list" where
  "CleanupPendingBlocks now m =
     (if TimeSinceLastProgress now m < 2 * 60 * 10 ^ 9 then (m, [])
      else (case checkPendingBlocks now (m_db m) of
        (d, expiredBlocks) \<Rightarrow> (upd_db d m, map (\<lambda>(peer, blk, txid). (peer, txid)) expiredBlocks)))"

definition GetMissingDependencies :: "'d Manager \<Rightarrow> HashID slice" where
  "GetMissingDependencies m = appended (map fst (db_pendingBlocks (m_db m)))"

text \<open>
  \<^verbatim>\<open>SyncNodeState\<close> as the event it selects: a tick of its ticker, or the timeout, which fires
  once. \<open>requestMempool\<close> is called, and the loop ends, when the result is \<open>True\<close>.
\<close>

datatype sync_event = SyncTick | SyncTimeout

fun SyncNodeState :: "sync_event \<Rightarrow> 'd Manager \<Rightarrow> 'd Manager \<times> bool" where
  "SyncNodeState SyncTick m =
     (let hasTips = 3 < sint (m_chaintipsReceived m);
          isDoneDownloading = getPendingBlocksCount (m_db m) = 0
      in if hasTips \<and> isDoneDownloading then (m\<lparr>m_isSynced := True\<rparr>, True) else (m, False))"
| "SyncNodeState SyncTimeout m =
     (if getPendingBlocksCount (m_db m) = 0 then (m\<lparr>m_isSynced := True\<rparr>, True) else (m, False))"

section \<open>Mining\<close>

definition SetMiningState :: "int \<Rightarrow> bool \<Rightarrow> 'd Manager \<Rightarrow> 'd Manager" where
  "SetMiningState now active m =
     (let m = m\<lparr>m_miningActive := active\<rparr>
      in if active then m\<lparr>m_miningStart := now, m_miningHashes := 0\<rparr> else m)"

definition SetMiningCores :: "int \<Rightarrow> 'd Manager \<Rightarrow> 'd Manager" where
  "SetMiningCores cores m =
     call_minerCancel (m\<lparr>m_config := (m_config m)\<lparr>cfg_MiningCores := cores\<rparr>\<rparr>)"

definition GetMiningCores :: "'d Manager \<Rightarrow> int" where
  "GetMiningCores m = cfg_MiningCores (m_config m)"

definition AddMiningHashes :: "uint64 \<Rightarrow> 'd Manager \<Rightarrow> 'd Manager" where
  "AddMiningHashes hashes m = m\<lparr>m_miningHashes := m_miningHashes m + hashes\<rparr>"

definition AddMinedBlock :: "MinedBlockStat \<Rightarrow> 'd Manager \<Rightarrow> 'd Manager" where
  "AddMinedBlock stat m = m\<lparr>m_sessionBlocks := m_sessionBlocks m @ [stat]\<rparr>"

definition GetSessionBlocks :: "'d Manager \<Rightarrow> MinedBlockStat list" where
  "GetSessionBlocks m = m_sessionBlocks m"

section \<open>Facts\<close>

lemma GetObject_Inr: "GetObject env m oid = Inr obj \<longleftrightarrow> getObject env (m_db m) oid = Inr obj"
  by (auto simp: GetObject_def split: sum.splits)

lemma GetUTXO_Inr: "GetUTXO env m oid = Inr u \<longleftrightarrow> getUTXO env (m_db m) oid = Inr u"
  by (auto simp: GetUTXO_def split: sum.splits)

lemma GetChaintip_Inr: "GetChaintip env m = Inr tip \<longleftrightarrow> getChaintip env (m_db m) = Inr tip"
  by (auto simp: GetChaintip_def split: sum.splits)

lemma all_inputs_in_keys:
  "spent_keys inputs = Some ks \<Longrightarrow> all_inputs_in inputs utxos = Some (\<forall>k \<in> set ks. gm_has utxos k)"
  by (induction inputs arbitrary: ks) (auto split: option.splits if_splits)

lemma all_inputs_in_True:
  "all_inputs_in inputs utxos = Some True \<Longrightarrow>
     \<exists>ks. spent_keys inputs = Some ks \<and> (\<forall>k \<in> set ks. gm_has utxos k)"
  by (induction inputs) (auto split: option.splits if_splits)

end
