(* ===== verification/Validation.thy ===== *)
theory Validation
  imports NodeState
begin

text \<open>
  \<^verbatim>\<open>internal/core/validation.go\<close>: when a transaction and a block are accepted. The outcome is a
  \<open>ValidationResult\<close>; a return inside a loop is \<open>Inl\<close> the result, and \<open>None\<close> is a panic (a
  nil index, an empty coinbase, a parent that is not a block). \<open>now\<close> is the clock in seconds.

  Results: \<open>ValidateTransaction\<close> accepts exactly the transactions of the specification
  \<open>tx_accepts\<close>; an accepted block satisfies the rules of the chain, and its UTXO set holds at most
  the block reward more than its parent's.
\<close>

definition genesisHash :: HashID where
  "genesisHash = ''00000000522473196b73bc619a8b18472c4cb4c6caf785a13fa32aaae7222ff6''"

record ValidationResult =
  vr_ObjID :: HashID
  vr_Fee :: Picabu
  vr_ErrorCode :: ErrorCode
  vr_Error :: "error option"
  vr_MissingID :: HashID
  vr_NewUTXOSet :: "UTXOSet option"
  vr_IsNewTip :: bool
  vr_NewHeight :: uint64

definition zero_result :: ValidationResult where
  "zero_result = \<lparr>vr_ObjID = [], vr_Fee = ZERO_PICABU, vr_ErrorCode = E_NONE, vr_Error = None,
     vr_MissingID = [], vr_NewUTXOSet = None, vr_IsNewTip = False, vr_NewHeight = 0\<rparr>"

definition reject :: "ValidationResult \<Rightarrow> ErrorCode \<Rightarrow> string \<Rightarrow> ValidationResult" where
  "reject result code err = result\<lparr>vr_ErrorCode := code, vr_Error := Some (Errorf err)\<rparr>"

definition reject_missing :: "ValidationResult \<Rightarrow> HashID \<Rightarrow> string \<Rightarrow> ValidationResult" where
  "reject_missing result missing err =
     (reject result E_UNKNOWN_OBJECT err)\<lparr>vr_MissingID := missing\<rparr>"

lemma reject_Error [simp]:
  "vr_Error (reject r c e) = Some (Errorf e)" "vr_Error (reject_missing r i e) = Some (Errorf e)"
  by (simp_all add: reject_def reject_missing_def)

section \<open>Transactions\<close>

definition outputs_of :: "Object \<Rightarrow> TxOutput slice option" where
  "outputs_of obj = (case obj of
     TxObj t \<Rightarrow> Some (tx_Outputs t)
   | CoinbaseObj c \<Rightarrow> Some (cb_Outputs c)
   | BlockObj _ \<Rightarrow> None)"

text \<open>The first loop: over the inputs, with the outpoints seen, their sum and the queue of signatures.\<close>

fun check_inputs ::
  "'d env \<Rightarrow> 'd Manager \<Rightarrow> ValidationResult \<Rightarrow> TxInput list \<Rightarrow> OutpointKey list \<Rightarrow> int \<Rightarrow>
     (string \<times> string) list \<Rightarrow> (ValidationResult + int \<times> (string \<times> string) list) option" where
  "check_inputs env m result [] outpoints sumInputs verifyQueue = Some (Inr (sumInputs, verifyQueue))"
| "check_inputs env m result (input # inputs) outpoints sumInputs verifyQueue =
     (case op_Index (in_Outpoint input) of
        None \<Rightarrow> None
      | Some idx \<Rightarrow>
        let outpoint = in_Outpoint input;
            key = \<lparr>key_Txid = op_Txid outpoint, key_Index = idx\<rparr>
        in if List.member outpoints key then
          Some (Inl (reject result E_INVALID_TX_OUTPOINT ''Multiple inputs have the same outpoint.''))
        else if IsInputSpent m key then
          Some (Inl (reject result E_INVALID_TX_OUTPOINT
            ''Input is already being spent by another transaction in the mempool''))
        else (case getObject env (m_db m) (op_Txid outpoint) of
          Inl err \<Rightarrow>
            if err = ErrNotFound then
              Some (Inl (reject_missing result (op_Txid outpoint) ''Referenced transaction does not exist''))
            else Some (Inl (reject result E_UNKNOWN_OBJECT ''Failed to fetch referenced transaction''))
        | Inr obj \<Rightarrow> (case outputs_of obj of
            None \<Rightarrow> Some (Inl (reject result E_INTERNAL_ERROR ''Referenced object is of unknown type''))
          | Some outputs \<Rightarrow>
              if idx < 0 \<or> idx \<ge> int (length (elems outputs)) then
                Some (Inl (reject result E_INVALID_TX_OUTPOINT ''Invalid output index''))
              else
                let output = elems outputs ! nat idx;
                    sumInputs = sumInputs + out_Value output
                in (case in_Sig input of
                  None \<Rightarrow> Some (Inl (reject result E_INVALID_TX_SIGNATURE ''Missing signature''))
                | Some sig \<Rightarrow>
                    check_inputs env m result inputs (key # outpoints) sumInputs
                      (verifyQueue @ [(out_Pubkey output, sig)])))))"

text \<open>The last loop, over the queue.\<close>

fun check_signatures :: "'d env \<Rightarrow> bytes \<Rightarrow> (string \<times> string) list \<Rightarrow> bool option" where
  "check_signatures env msg [] = Some True"
| "check_signatures env msg ((pubkey, sig) # queue) = (case Verify env pubkey msg sig of
     None \<Rightarrow> None
   | Some ok \<Rightarrow> if \<not> ok then Some False else check_signatures env msg queue)"

definition ValidateTransaction ::
  "'d env \<Rightarrow> 'd Manager \<Rightarrow> Transaction \<Rightarrow> ValidationResult option" where
  "ValidateTransaction env m tx =
     (let result = zero_result\<lparr>vr_ObjID := DUMMY_HASH\<rparr>
      in if tx_Type tx \<noteq> OBJ_TRANSACTION then
        Some (reject result E_INTERNAL_ERROR ''Invalid object type for transaction'')
      else (case check_inputs env m result (elems (tx_Inputs tx)) [] 0 [] of
        None \<Rightarrow> None
      | Some (Inl r) \<Rightarrow> Some r
      | Some (Inr (sumInputs, verifyQueue)) \<Rightarrow>
          let sumOutputs = sum_list (map out_Value (elems (tx_Outputs tx)))
          in if Picabu_Cmp sumOutputs sumInputs = 1 then
            Some (reject result E_INVALID_TX_CONSERVATION ''Output value exceeds input value'')
          else
            let msg = TxMessageForSignature tx
            in (case check_signatures env msg verifyQueue of
                None \<Rightarrow> None
              | Some False \<Rightarrow> Some (reject result E_INVALID_TX_SIGNATURE ''Invalid signature for input'')
              | Some True \<Rightarrow> Some (result\<lparr>vr_ErrorCode := E_NONE, vr_Fee := sumInputs - sumOutputs\<rparr>))))"

definition ValidateCoinbase :: "'d Manager \<Rightarrow> CoinbaseTransaction \<Rightarrow> ValidationResult" where
  "ValidateCoinbase m cb = zero_result\<lparr>vr_ErrorCode := E_NONE, vr_Fee := ZERO_PICABU\<rparr>"

section \<open>Blocks\<close>

record block_state =
  bs_utxos :: "(OutpointKey, TxOutput) gomap"
  bs_hasCoinbase :: bool
  bs_cbTx :: "CoinbaseTransaction option"
  bs_cbID :: HashID
  bs_fees :: int

text \<open>The loop that spends the inputs of one transaction: the UTXO map and their sum.\<close>

fun spend_utxos ::
  "ValidationResult \<Rightarrow> bool \<Rightarrow> HashID \<Rightarrow> TxInput list \<Rightarrow> (OutpointKey, TxOutput) gomap \<Rightarrow> int \<Rightarrow>
     (ValidationResult + (OutpointKey, TxOutput) gomap \<times> int) option" where
  "spend_utxos result hasCoinbase cbID [] utxos sumIn = Some (Inr (utxos, sumIn))"
| "spend_utxos result hasCoinbase cbID (input # inputs) utxos sumIn =
     (if hasCoinbase \<and> op_Txid (in_Outpoint input) = cbID then
        Some (Inl (reject result E_INVALID_TX_OUTPOINT ''Cannot spend coinbase transaction in the same block''))
      else (case input_key input of
        None \<Rightarrow> None
      | Some key \<Rightarrow> (case gm_get utxos key of
          None \<Rightarrow> Some (Inl (reject result E_INVALID_TX_OUTPOINT ''Invalid input (not found in UTXO set)''))
        | Some spentOutput \<Rightarrow>
            spend_utxos result hasCoinbase cbID inputs (gm_del key utxos) (sumIn + out_Value spentOutput))))"

text \<open>The loop that adds its outputs, numbered from \<open>idx\<close>.\<close>

fun add_utxos ::
  "HashID \<Rightarrow> nat \<Rightarrow> TxOutput list \<Rightarrow> (OutpointKey, TxOutput) gomap \<Rightarrow> int \<Rightarrow>
     (OutpointKey, TxOutput) gomap \<times> int" where
  "add_utxos txid idx [] utxos sumOut = (utxos, sumOut)"
| "add_utxos txid idx (output # outputs) utxos sumOut =
     add_utxos txid (Suc idx) outputs
       (gm_set \<lparr>key_Txid = txid, key_Index = int idx\<rparr> output utxos) (sumOut + out_Value output)"

text \<open>The body of the loop over the block's transactions.\<close>

definition block_tx ::
  "'d env \<Rightarrow> 'd Manager \<Rightarrow> ValidationResult \<Rightarrow> uint64 \<Rightarrow> nat \<Rightarrow> HashID \<Rightarrow> block_state \<Rightarrow>
     (ValidationResult + block_state) option" where
  "block_tx env m result height index txid st =
     (case GetObject env m txid of
        Inl err \<Rightarrow>
          if err = ErrNotFound then
            Some (Inl (reject_missing result txid ''Block references transactions we do not have''))
          else Some (Inl (reject result E_INTERNAL_ERROR ''Failed to fetch referenced transaction''))
      | Inr (TxObj t) \<Rightarrow>
          (case spend_utxos result (bs_hasCoinbase st) (bs_cbID st) (elems (tx_Inputs t)) (bs_utxos st) 0 of
             None \<Rightarrow> None
           | Some (Inl r) \<Rightarrow> Some (Inl r)
           | Some (Inr (utxos, sumIn)) \<Rightarrow>
               (case add_utxos txid 0 (elems (tx_Outputs t)) utxos 0 of
                  (utxos', sumOut) \<Rightarrow>
                    Some (Inr (st\<lparr>bs_utxos := utxos', bs_fees := bs_fees st + (sumIn - sumOut)\<rparr>))))
      | Inr (CoinbaseObj t) \<Rightarrow>
          let cbID = id_value (snd (GetObjectID env (CoinbaseObj t)));
              st = st\<lparr>bs_hasCoinbase := True, bs_cbTx := Some t, bs_cbID := cbID\<rparr>
          in if index \<noteq> 0 then
               Some (Inl (reject result E_INVALID_BLOCK_COINBASE
                 ''Only the first transaction in the block can be a coinbase''))
             else if uint64_of_int (cb_Height t) \<noteq> height then
               Some (Inl (reject result E_INVALID_BLOCK_COINBASE ''Coinbase transaction has a wrong height''))
             else (case elems (cb_Outputs t) of
               [] \<Rightarrow> None
             | output # _ \<Rightarrow>
                 Some (Inr (st\<lparr>bs_utxos := gm_set \<lparr>key_Txid = cbID, key_Index = 0\<rparr> output (bs_utxos st)\<rparr>)))
      | Inr (BlockObj b) \<Rightarrow> Some (Inl (reject result E_INTERNAL_ERROR ''Referenced object is of unknown type'')))"

fun block_txs ::
  "'d env \<Rightarrow> 'd Manager \<Rightarrow> ValidationResult \<Rightarrow> uint64 \<Rightarrow> nat \<Rightarrow> HashID list \<Rightarrow> block_state \<Rightarrow>
     (ValidationResult + block_state) option" where
  "block_txs env m result height index [] st = Some (Inr st)"
| "block_txs env m result height index (txid # txids) st =
     (case block_tx env m result height index txid st of
        None \<Rightarrow> None
      | Some (Inl r) \<Rightarrow> Some (Inl r)
      | Some (Inr st') \<Rightarrow> block_txs env m result height (Suc index) txids st')"

text \<open>The parent's checks; the type assertion on the parent panics.\<close>

definition check_parent ::
  "'d env \<Rightarrow> 'd Manager \<Rightarrow> ValidationResult \<Rightarrow> Block \<Rightarrow> ValidationResult option option" where
  "check_parent env m result blk = (case blk_Previd blk of
     None \<Rightarrow> Some None
   | Some previd \<Rightarrow> (case GetObject env m previd of
       Inl err \<Rightarrow>
         if err = ErrNotFound then
           Some (Some (reject_missing result previd ''Parent block not found. Asked peers for it''))
         else Some (Some (reject result E_INTERNAL_ERROR ''Failed to fetch parent block''))
     | Inr (BlockObj prevBlock) \<Rightarrow>
         if blk_Created blk \<le> blk_Created prevBlock then
           Some (Some (reject result E_INVALID_BLOCK_TIMESTAMP
             ''Block timestamp is earlier than its parent''))
         else Some None
     | Inr _ \<Rightarrow> None))"

text \<open>The UTXO map and the height the block starts from.\<close>

definition block_start ::
  "'d env \<Rightarrow> 'd Manager \<Rightarrow> ValidationResult \<Rightarrow> HashID \<Rightarrow> Block \<Rightarrow>
     ValidationResult + (OutpointKey, TxOutput) gomap \<times> uint64" where
  "block_start env m result blockid blk = (case blk_Previd blk of
     None \<Rightarrow>
       if blockid \<noteq> genesisHash then Inl (reject result E_INVALID_GENESIS ''invalid genesis block'')
       else Inr ([], 0)
   | Some previd \<Rightarrow> (case getUTXO env (m_db m) previd of
       Inl _ \<Rightarrow> Inl (reject_missing result previd ''Could not find UTXO for block'')
     | Inr utxo \<Rightarrow> Inr (us_UTXOs utxo, us_Height utxo + 1)))"

text \<open>After the loop: the coinbase rule, the proposed state, the comparison with the tip.\<close>

definition block_finish ::
  "'d env \<Rightarrow> 'd Manager \<Rightarrow> ValidationResult \<Rightarrow> HashID \<Rightarrow> uint64 \<Rightarrow> block_state \<Rightarrow> ValidationResult option" where
  "block_finish env m result blockid height st =
     (case (if bs_hasCoinbase st then
              (case bs_cbTx st of
                 None \<Rightarrow> None
               | Some cbTx \<Rightarrow> (case elems (cb_Outputs cbTx) of [] \<Rightarrow> None | output # _ \<Rightarrow> Some (out_Value output)))
            else Some 0) of
        None \<Rightarrow> None
      | Some coinbaseVal \<Rightarrow>
          let totalOutput = BlockRewardBigInt + bs_fees st
          in if Picabu_Cmp coinbaseVal totalOutput = 1 then
            Some (reject result E_INVALID_BLOCK_COINBASE
              ''Coinbase transaction value exceeds allowed reward+fees'')
          else
            let result = result\<lparr>vr_NewUTXOSet :=
                  Some \<lparr>us_BlockID = blockid, us_UTXOs = bs_utxos st, us_Height = height\<rparr>\<rparr>
            in (case GetChaintip env m of
                Inl err \<Rightarrow>
                  if err = ErrNotFound then
                    Some (result\<lparr>vr_ErrorCode := E_NONE, vr_NewHeight := height, vr_IsNewTip := True,
                      vr_Error := None\<rparr>)
                  else Some (reject result E_INTERNAL_ERROR
                    ''Failed to get current chaintip for block validation'')
              | Inr (_, curHeight) \<Rightarrow>
                  Some (result\<lparr>vr_ErrorCode := E_NONE, vr_NewHeight := height,
                    vr_IsNewTip := (curHeight < height), vr_Error := None\<rparr>)))"

definition ValidateBlock ::
  "'d env \<Rightarrow> int \<Rightarrow> 'd Manager \<Rightarrow> Block \<Rightarrow> ValidationResult option" where
  "ValidateBlock env now m blk =
     (let result = zero_result
      in if blk_Created blk > now then
        Some (reject result E_INVALID_BLOCK_TIMESTAMP ''Block timestamp comes from the future :o'')
      else (case snd (GetObjectID env (BlockObj blk)) of
        Inl _ \<Rightarrow> Some (reject result E_INTERNAL_ERROR ''Failed to hash block for validation'')
      | Inr blockid \<Rightarrow> (case VerifyPoW blockid of
          Inl _ \<Rightarrow> Some (reject result E_INTERNAL_ERROR ''Failed to verify PoW for block'')
        | Inr isValid \<Rightarrow>
            if \<not> isValid then Some (reject result E_INVALID_BLOCK_POW ''Invalid PoW for block'')
            else (case check_parent env m result blk of
              None \<Rightarrow> None
            | Some (Some r) \<Rightarrow> Some r
            | Some None \<Rightarrow> (case block_start env m result blockid blk of
                Inl r \<Rightarrow> Some r
              | Inr (utxos, height) \<Rightarrow>
                  (case block_txs env m result height 0 (elems (blk_Txids blk))
                      \<lparr>bs_utxos = utxos, bs_hasCoinbase = False, bs_cbTx = None, bs_cbID = [], bs_fees = 0\<rparr> of
                     None \<Rightarrow> None
                   | Some (Inl r) \<Rightarrow> Some r
                   | Some (Inr st) \<Rightarrow> block_finish env m result blockid height st))))))"

text \<open>
  The object is a pointer and gets its ID cached; its new value is the first component.
\<close>

definition ValidateObject ::
  "'d env \<Rightarrow> int \<Rightarrow> 'd Manager \<Rightarrow> Object \<Rightarrow> (Object \<times> ValidationResult) option" where
  "ValidateObject env now m obj = (case GetObjectID env obj of
     (obj, Inl _) \<Rightarrow> Some (obj, reject zero_result E_INTERNAL_ERROR ''Failed to hash object'')
   | (obj, Inr objID) \<Rightarrow>
       (case (case obj of
                TxObj o' \<Rightarrow> ValidateTransaction env m o'
              | CoinbaseObj o' \<Rightarrow> Some (ValidateCoinbase m o')
              | BlockObj o' \<Rightarrow> ValidateBlock env now m o') of
          None \<Rightarrow> None
        | Some result \<Rightarrow> Some (obj, result\<lparr>vr_ObjID := objID\<rparr>)))"

section \<open>What a transaction must satisfy\<close>

text \<open>The outpoint, the output and the signature that an input stands for.\<close>

definition resolve_input ::
  "'d env \<Rightarrow> 'd Manager \<Rightarrow> TxInput \<Rightarrow> (OutpointKey \<times> TxOutput \<times> Signature) option" where
  "resolve_input env m input = do {
     key \<leftarrow> input_key input;
     obj \<leftarrow> (case getObject env (m_db m) (key_Txid key) of Inl _ \<Rightarrow> None | Inr obj \<Rightarrow> Some obj);
     outputs \<leftarrow> outputs_of obj;
     if key_Index key < 0 \<or> int (length (elems outputs)) \<le> key_Index key then None
     else do { sig \<leftarrow> in_Sig input; Some (key, elems outputs ! nat (key_Index key), sig) } }"

definition tx_accepts :: "'d env \<Rightarrow> 'd Manager \<Rightarrow> Transaction \<Rightarrow> Picabu \<Rightarrow> bool" where
  "tx_accepts env m tx fee \<longleftrightarrow> tx_Type tx = OBJ_TRANSACTION \<and>
     (case mapM (resolve_input env m) (elems (tx_Inputs tx)) of
        None \<Rightarrow> False
      | Some rs \<Rightarrow>
          distinct (map fst rs) \<and>
          (\<forall>(key, out, sig) \<in> set rs. \<not> IsInputSpent m key \<and>
             Verify env (out_Pubkey out) (TxMessageForSignature tx) sig = Some True) \<and>
          fee = (\<Sum>(key, out, sig)\<leftarrow>rs. out_Value out) - sum_list (map out_Value (elems (tx_Outputs tx))) \<and>
          0 \<le> fee)"

lemma check_inputs_step:
  "check_inputs env m result (input # inputs) outpoints s q = Some (Inr (s', q')) \<longleftrightarrow>
     (\<exists>key out sig. resolve_input env m input = Some (key, out, sig) \<and>
        key \<notin> set outpoints \<and> \<not> IsInputSpent m key \<and>
        check_inputs env m result inputs (key # outpoints) (s + out_Value out) (q @ [(out_Pubkey out, sig)])
          = Some (Inr (s', q')))"
proof (cases "op_Index (in_Outpoint input)")
  case None
  then show ?thesis by (simp add: resolve_input_def input_key_def)
next
  case (Some idx)
  then show ?thesis
    by (auto simp: resolve_input_def input_key_def Let_def split: sum.splits option.splits if_splits)
qed

lemma check_inputs_Inr:
  "check_inputs env m result inputs outpoints s q = Some (Inr (s', q')) \<longleftrightarrow>
     (\<exists>rs. mapM (resolve_input env m) inputs = Some rs \<and> distinct (map fst rs) \<and>
        (\<forall>(key, out, sig) \<in> set rs. key \<notin> set outpoints \<and> \<not> IsInputSpent m key) \<and>
        s' = s + (\<Sum>(key, out, sig)\<leftarrow>rs. out_Value out) \<and>
        q' = q @ map (\<lambda>(key, out, sig). (out_Pubkey out, sig)) rs)"
proof (induction inputs arbitrary: outpoints s q)
  case Nil
  then show ?case by auto
next
  case (Cons input inputs)
  show ?case
  proof (cases "resolve_input env m input")
    case None
    then show ?thesis by (simp add: check_inputs_step del: check_inputs.simps)
  next
    case (Some r)
    obtain key out sig where r: "r = (key, out, sig)" by (cases r)
    show ?thesis
    proof (cases "mapM (resolve_input env m) inputs")
      case None
      then show ?thesis unfolding check_inputs_step Some r Cons.IH by (simp add: Some r)
    next
      case rs: (Some rs)
      have m: "mapM (resolve_input env m) (input # inputs) = Some ((key, out, sig) # rs)"
        by (simp add: rs Some r)
      show ?thesis
        unfolding check_inputs_step Some r Cons.IH m unfolding rs by (auto simp: image_iff)
    qed
  qed
qed

lemma check_inputs_complete:
  "mapM (resolve_input env m) inputs = Some rs \<Longrightarrow> distinct (map fst rs) \<Longrightarrow>
     (\<forall>(key, out, sig) \<in> set rs. \<not> IsInputSpent m key) \<Longrightarrow>
     check_inputs env m result inputs [] 0 [] = Some (Inr ((\<Sum>(key, out, sig)\<leftarrow>rs. out_Value out),
       map (\<lambda>(key, out, sig). (out_Pubkey out, sig)) rs))"
  by (simp add: check_inputs_Inr)

lemma check_inputs_Inl:
  "check_inputs env m result inputs outpoints s q = Some (Inl r) \<Longrightarrow> vr_Error r \<noteq> None"
proof (induction inputs arbitrary: outpoints s q)
  case (Cons input inputs)
  from Cons.prems show ?case
    by (simp add: Let_def split: option.splits sum.splits if_splits) (auto dest: Cons.IH)
qed simp

lemma check_signatures_True:
  "check_signatures env msg queue = Some True \<longleftrightarrow>
     (\<forall>(pubkey, sig) \<in> set queue. Verify env pubkey msg sig = Some True)"
  by (induction env msg queue rule: check_signatures.induct) (auto split: option.splits)

lemma check_signatures_resolved:
  "check_signatures env msg (map (\<lambda>(key, out, sig). (out_Pubkey out, sig)) rs) = Some True \<longleftrightarrow>
     (\<forall>(key, out, sig) \<in> set rs. Verify env (out_Pubkey out) msg sig = Some True)"
  by (auto simp: check_signatures_True)

lemma ValidateTransaction_complete:
  assumes "tx_accepts env m tx fee"
  shows "ValidateTransaction env m tx = Some (zero_result\<lparr>vr_ObjID := DUMMY_HASH, vr_Fee := fee\<rparr>)"
proof -
  obtain rs where rs: "mapM (resolve_input env m) (elems (tx_Inputs tx)) = Some rs" "distinct (map fst rs)"
    and all: "\<forall>(key, out, sig) \<in> set rs. \<not> IsInputSpent m key \<and>
      Verify env (out_Pubkey out) (TxMessageForSignature tx) sig = Some True"
    and fee: "fee = (\<Sum>(key, out, sig)\<leftarrow>rs. out_Value out) - sum_list (map out_Value (elems (tx_Outputs tx)))"
      "0 \<le> fee" and ty: "tx_Type tx = OBJ_TRANSACTION"
    using assms by (auto simp: tx_accepts_def split: option.splits)
  have "\<forall>(key, out, sig) \<in> set rs. \<not> IsInputSpent m key" using all by blast
  note c = check_inputs_complete [OF rs this]
  have "check_signatures env (TxMessageForSignature tx)
      (map (\<lambda>(key, out, sig). (out_Pubkey out, sig)) rs) = Some True"
    unfolding check_signatures_resolved using all by blast
  then show ?thesis
    using fee by (simp add: ValidateTransaction_def c ty Let_def Picabu_Cmp_def zero_result_def)
qed

lemma ValidateTransaction_sound:
  assumes "ValidateTransaction env m tx = Some r" "vr_Error r = None"
  shows "tx_accepts env m tx (vr_Fee r)"
proof -
  have ty: "tx_Type tx = OBJ_TRANSACTION"
    using assms by (auto simp: ValidateTransaction_def Let_def split: if_splits)
  obtain s q where c: "check_inputs env m (zero_result\<lparr>vr_ObjID := DUMMY_HASH\<rparr>) (elems (tx_Inputs tx)) [] 0 []
      = Some (Inr (s, q))"
    using assms ty check_inputs_Inl
    by (fastforce simp: ValidateTransaction_def Let_def split: option.splits sum.splits)
  then obtain rs where rs: "mapM (resolve_input env m) (elems (tx_Inputs tx)) = Some rs" "distinct (map fst rs)"
      "\<forall>(key, out, sig) \<in> set rs. \<not> IsInputSpent m key"
      "s = (\<Sum>(key, out, sig)\<leftarrow>rs. out_Value out)" "q = map (\<lambda>(key, out, sig). (out_Pubkey out, sig)) rs"
    by (auto simp: check_inputs_Inr)
  have sigs: "check_signatures env (TxMessageForSignature tx) q = Some True"
    and le: "sum_list (map out_Value (elems (tx_Outputs tx))) \<le> s"
    and fee: "vr_Fee r = s - sum_list (map out_Value (elems (tx_Outputs tx)))"
    using assms c ty
    by (auto simp: ValidateTransaction_def Let_def Picabu_Cmp_def zero_result_def
        split: option.splits bool.splits if_splits)
  have "\<forall>(key, out, sig) \<in> set rs. Verify env (out_Pubkey out) (TxMessageForSignature tx) sig = Some True"
    using sigs unfolding rs(5) check_signatures_resolved .
  then show ?thesis using rs ty le fee unfolding tx_accepts_def by auto
qed

lemma ValidateTransaction_iff:
  "(\<exists>r. ValidateTransaction env m tx = Some r \<and> vr_Error r = None \<and> vr_Fee r = fee) \<longleftrightarrow>
     tx_accepts env m tx fee"
  using ValidateTransaction_sound [of env m tx] ValidateTransaction_complete [of env m tx fee]
  by (auto simp: zero_result_def)

section \<open>How a block changes the UTXO set\<close>

text \<open>The spending loop: every outpoint is there once, and all of them go.\<close>

lemma spend_utxos_Inr:
  "spend_utxos result hc cbID inputs utxos s = Some (Inr (utxos', s')) \<longleftrightarrow>
     (\<exists>ks. spent_keys inputs = Some ks \<and> distinct ks \<and> (\<forall>k \<in> set ks. gm_has utxos k) \<and>
        (\<forall>i \<in> set inputs. \<not> (hc \<and> op_Txid (in_Outpoint i) = cbID)) \<and>
        utxos' = fold gm_del ks utxos \<and>
        s' = s + (\<Sum>k\<leftarrow>ks. out_Value (the (gm_get utxos k))))"
proof (induction inputs arbitrary: utxos s)
  case Nil
  then show ?case by auto
next
  case (Cons input inputs)
  show ?case
  proof (cases "hc \<and> op_Txid (in_Outpoint input) = cbID")
    case True
    then show ?thesis by auto
  next
    case False
    show ?thesis
    proof (cases "input_key input")
      case None
      with False show ?thesis by auto
    next
      case k: (Some k)
      show ?thesis
      proof (cases "gm_get utxos k")
        case None
        with False k show ?thesis by (auto simp: gm_has_def split: option.splits)
      next
        case (Some out)
        have sum: "(\<Sum>x\<leftarrow>ks. out_Value (the (if x = k then None else gm_get utxos x))) =
            (\<Sum>x\<leftarrow>ks. out_Value (the (gm_get utxos x)))" if "k \<notin> set ks" for ks
          using that by (intro arg_cong [where f = sum_list] map_cong) auto
        show ?thesis
        proof (cases "spent_keys inputs")
          case None
          with False k Some show ?thesis by (simp add: Cons.IH)
        next
          case ks: (Some ks)
          show ?thesis
          proof (cases "k \<in> set ks")
            case True
            with False k Some ks show ?thesis by (auto simp: Cons.IH)
          next
            case nin: False
            with False k Some ks sum [OF nin] show ?thesis
              by (auto simp: Cons.IH gm_has_def fun_upd_def)
          qed
        qed
      qed
    qed
  qed
qed

text \<open>A UTXO map that can be stored: well-formed outpoints and outputs, no outpoint twice.\<close>

definition utxos_ok :: "(OutpointKey, TxOutput) gomap \<Rightarrow> bool" where
  "utxos_ok u \<longleftrightarrow> gm_wf u \<and> (\<forall>(k, v) \<in> set u. OutpointKey_ok k \<and> TxOutput_ok v)"

abbreviation utxo_total :: "(OutpointKey, TxOutput) gomap \<Rightarrow> int" where
  "utxo_total \<equiv> gm_sum out_Value"

lemma UTXOSet_ok_iff: "UTXOSet_ok u \<longleftrightarrow> HashID_ok (us_BlockID u) \<and> utxos_ok (us_UTXOs u)"
  by (auto simp: UTXOSet_ok_def utxos_ok_def list_all_iff)

lemma utxos_ok_Nil [simp]: "utxos_ok []"
  by (simp add: utxos_ok_def)

lemma utxos_ok_del: "utxos_ok u \<Longrightarrow> utxos_ok (gm_del k u)"
  by (auto simp: utxos_ok_def gm_del_def gm_wf_def distinct_map_filter)

lemma utxos_ok_set: "utxos_ok u \<Longrightarrow> OutpointKey_ok k \<Longrightarrow> TxOutput_ok v \<Longrightarrow> utxos_ok (gm_set k v u)"
  using utxos_ok_del [of u k] gm_wf_set [of u k v] by (auto simp: utxos_ok_def gm_set_def)

lemma utxo_total_set: "utxos_ok u \<Longrightarrow> utxo_total (gm_set k v u) \<le> out_Value v + utxo_total u"
  by (rule gm_sum_set_le) (auto simp: utxos_ok_def TxOutput_ok_def)

lemma spend_utxos_total:
  "spend_utxos result hc cbID inputs u s = Some (Inr (u', s')) \<Longrightarrow> utxos_ok u \<Longrightarrow>
     utxos_ok u' \<and> utxo_total u' + s' = utxo_total u + s"
proof (induction inputs arbitrary: u s)
  case (Cons input inputs)
  then obtain k v where kv: "input_key input = Some k" "gm_get u k = Some v"
    and next_step: "spend_utxos result hc cbID inputs (gm_del k u) (s + out_Value v) = Some (Inr (u', s'))"
    by (auto split: option.splits if_splits)
  have "utxo_total (gm_del k u) = utxo_total u - out_Value v"
    using Cons.prems(2) kv by (simp add: gm_sum_del utxos_ok_def)
  with Cons.IH [OF next_step] utxos_ok_del [OF Cons.prems(2)] show ?case by simp
qed simp

lemma add_utxos_total:
  "add_utxos txid i outs u s = (u', s') \<Longrightarrow> utxos_ok u \<Longrightarrow> HashID_ok txid \<Longrightarrow> list_all TxOutput_ok outs \<Longrightarrow>
     i + length outs \<le> 2 ^ 62 \<Longrightarrow> utxos_ok u' \<and> utxo_total u' \<le> utxo_total u + (s' - s)"
proof (induction outs arbitrary: i u s)
  case (Cons out outs)
  let ?u = "gm_set \<lparr>key_Txid = txid, key_Index = int i\<rparr> out u"
  have "OutpointKey_ok \<lparr>key_Txid = txid, key_Index = int i\<rparr>"
    using Cons.prems by (simp add: OutpointKey_ok_def BuInt_range_def)
  then have u: "utxos_ok ?u" using Cons.prems by (auto intro: utxos_ok_set)
  have "add_utxos txid (Suc i) outs ?u (s + out_Value out) = (u', s')" using Cons.prems by simp
  from Cons.IH [OF this u] Cons.prems utxo_total_set [OF Cons.prems(2), of "\<lparr>key_Txid = txid, key_Index = int i\<rparr>" out]
  show ?case by simp
qed simp

section \<open>What the store holds\<close>

definition object_outputs_ok :: "Object \<Rightarrow> bool" where
  "object_outputs_ok obj = (case outputs_of obj of None \<Rightarrow> True | Some outs \<Rightarrow> TxOutputs_ok outs)"

definition store_outputs_ok :: "'d env \<Rightarrow> 'd database \<Rightarrow> bool" where
  "store_outputs_ok env d \<longleftrightarrow>
     (\<forall>k obj. HashID_ok k \<longrightarrow> getObject env d k = Inr obj \<longrightarrow> object_outputs_ok obj)"

lemma decodeObject_uncached: "decodeObject data = Inr obj \<Longrightarrow> Object_ObjID obj = None"
  by (auto simp: decodeObject_def or_JsonError_def Transaction_Unmarshal_def
      CoinbaseTransaction_Unmarshal_def Block_Unmarshal_def Let_def
      elim!: bind_SomeE split: option.splits if_splits)

lemma getObject_uncached: "getObject env d k = Inr obj \<Longrightarrow> Object_ObjID obj = None"
  by (auto simp: getObject_def intro: decodeObject_uncached split: sum.splits)

lemma HashID_ok_DUMMY: "HashID_ok DUMMY_HASH"
  by code_simp

lemma id_value_ok:
  "hash_ok env \<Longrightarrow> Object_ObjID obj = None \<Longrightarrow> HashID_ok (id_value (snd (GetObjectID env obj)))"
  by (auto simp: GetObjectID_uncached id_value_def HashID_ok_DUMMY split: sum.splits dest: HashObject_ok)

section \<open>The total of the UTXO set over a block\<close>

definition cb_value :: "block_state \<Rightarrow> int" where
  "cb_value st = (if bs_hasCoinbase st then
     (case bs_cbTx st of None \<Rightarrow> 0
      | Some c \<Rightarrow> (case elems (cb_Outputs c) of [] \<Rightarrow> 0 | out # _ \<Rightarrow> out_Value out)) else 0)"

definition balance :: "block_state \<Rightarrow> int" where
  "balance st = utxo_total (bs_utxos st) + bs_fees st - cb_value st"

lemma block_tx_balance:
  assumes "block_tx env m result height index txid st = Some (Inr st')"
    and "utxos_ok (bs_utxos st)" "HashID_ok txid" "hash_ok env" "store_outputs_ok env (m_db m)"
    and first: "index = 0 \<Longrightarrow> \<not> bs_hasCoinbase st"
  shows "utxos_ok (bs_utxos st') \<and> balance st' \<le> balance st"
proof -
  obtain obj where obj: "GetObject env m txid = Inr obj" and get: "getObject env (m_db m) txid = Inr obj"
    using assms(1) by (cases "GetObject env m txid") (auto simp: block_tx_def GetObject_Inr split: if_splits)
  have outs: "object_outputs_ok obj"
    using assms(3,5) get by (auto simp: store_outputs_ok_def)
  show ?thesis
  proof (cases obj)
    case (TxObj t)
    then obtain u s u' s' where
      sp: "spend_utxos result (bs_hasCoinbase st) (bs_cbID st) (elems (tx_Inputs t)) (bs_utxos st) 0 = Some (Inr (u, s))"
      and ad: "add_utxos txid 0 (elems (tx_Outputs t)) u 0 = (u', s')"
      and st': "st' = st\<lparr>bs_utxos := u', bs_fees := bs_fees st + (s - s')\<rparr>"
      using assms(1) obj by (auto simp: block_tx_def split: option.splits sum.splits prod.splits)
    have "list_all TxOutput_ok (elems (tx_Outputs t))" "0 + length (elems (tx_Outputs t)) \<le> 2 ^ 62"
      using outs TxObj by (auto simp: object_outputs_ok_def outputs_of_def TxOutputs_ok_def)
    with spend_utxos_total [OF sp assms(2)] add_utxos_total [OF ad _ assms(3)]
    show ?thesis by (auto simp: st' balance_def cb_value_def)
  next
    case (CoinbaseObj c)
    define cbID where "cbID = id_value (snd (GetObjectID env (CoinbaseObj c)))"
    from CoinbaseObj obtain out rest where out: "elems (cb_Outputs c) = out # rest" and i: "index = 0"
      and st': "st' = st\<lparr>bs_hasCoinbase := True, bs_cbTx := Some c, bs_cbID := cbID,
          bs_utxos := gm_set \<lparr>key_Txid = cbID, key_Index = 0\<rparr> out (bs_utxos st)\<rparr>"
      using assms(1) obj by (auto simp: block_tx_def cbID_def Let_def split: if_splits list.splits)
    have "OutpointKey_ok \<lparr>key_Txid = cbID, key_Index = 0\<rparr>"
      using id_value_ok [OF assms(4) getObject_uncached [OF get]]
      by (simp add: cbID_def CoinbaseObj OutpointKey_ok_def BuInt_range_def)
    moreover have "TxOutput_ok out"
      using outs CoinbaseObj out by (simp add: object_outputs_ok_def outputs_of_def TxOutputs_ok_def)
    ultimately show ?thesis
      using utxos_ok_set [OF assms(2)] utxo_total_set [OF assms(2), of "\<lparr>key_Txid = cbID, key_Index = 0\<rparr>" out]
        first [OF i] out
      by (simp add: st' balance_def cb_value_def)
  next
    case (BlockObj b)
    then show ?thesis using assms(1) obj by (simp add: block_tx_def)
  qed
qed

lemma block_txs_balance:
  assumes "block_txs env m result height index txids st = Some (Inr st')"
    and "utxos_ok (bs_utxos st)" "list_all HashID_ok txids" "hash_ok env" "store_outputs_ok env (m_db m)"
    and "index = 0 \<Longrightarrow> \<not> bs_hasCoinbase st"
  shows "utxos_ok (bs_utxos st') \<and> balance st' \<le> balance st"
  using assms(1-3,6)
proof (induction txids arbitrary: index st)
  case (Cons txid txids)
  then obtain st1 where st1: "block_tx env m result height index txid st = Some (Inr st1)"
    and rest: "block_txs env m result height (Suc index) txids st1 = Some (Inr st')"
    by (auto split: option.splits sum.splits)
  have "utxos_ok (bs_utxos st1) \<and> balance st1 \<le> balance st"
    using block_tx_balance [OF st1] Cons.prems assms(4,5) by auto
  with Cons.IH [OF rest] Cons.prems show ?case by auto
qed simp

section \<open>What an accepted block satisfies\<close>

definition start_state :: "(OutpointKey, TxOutput) gomap \<Rightarrow> block_state" where
  "start_state utxos = \<lparr>bs_utxos = utxos, bs_hasCoinbase = False, bs_cbTx = None, bs_cbID = [], bs_fees = 0\<rparr>"

lemma block_txs_error:
  "block_txs env m result height index txids st = Some (Inl r) \<Longrightarrow> vr_Error r \<noteq> None"
proof (induction txids arbitrary: index st)
  case (Cons txid txids)
  have sp: "spend_utxos result hc cbID ins u s = Some (Inl r) \<Longrightarrow> vr_Error r \<noteq> None" for hc cbID ins u s
    by (induction ins arbitrary: u s) (auto split: if_splits option.splits)
  have "block_tx env m result height index txid st = Some (Inl r) \<Longrightarrow> vr_Error r \<noteq> None"
    by (auto simp: block_tx_def Let_def split: sum.splits Object.splits option.splits if_splits prod.splits
        list.splits dest: sp)
  with Cons show ?case by (auto split: option.splits sum.splits)
qed simp

text \<open>The steps an accepted block went through.\<close>

definition block_passes ::
  "'d env \<Rightarrow> int \<Rightarrow> 'd Manager \<Rightarrow> Block \<Rightarrow> HashID \<Rightarrow> uint64 \<Rightarrow> (OutpointKey, TxOutput) gomap \<Rightarrow>
     block_state \<Rightarrow> bool" where
  "block_passes env now m blk blockid height utxos st \<longleftrightarrow>
     blk_Created blk \<le> now \<and> snd (GetObjectID env (BlockObj blk)) = Inr blockid \<and>
     VerifyPoW blockid = Inr True \<and> check_parent env m zero_result blk = Some None \<and>
     block_start env m zero_result blockid blk = Inr (utxos, height) \<and>
     block_txs env m zero_result height 0 (elems (blk_Txids blk)) (start_state utxos) = Some (Inr st) \<and>
     cb_value st \<le> BlockRewardBigInt + bs_fees st"

lemma block_finish_accept:
  "block_finish env m zero_result blockid height st = Some r \<Longrightarrow> vr_Error r = None \<Longrightarrow>
     cb_value st \<le> BlockRewardBigInt + bs_fees st \<and>
     r = zero_result\<lparr>
       vr_NewUTXOSet := Some \<lparr>us_BlockID = blockid, us_UTXOs = bs_utxos st, us_Height = height\<rparr>,
       vr_NewHeight := height,
       vr_IsNewTip := (case GetChaintip env m of Inl _ \<Rightarrow> True | Inr (_, h) \<Rightarrow> h < height)\<rparr>"
  by (auto simp: block_finish_def cb_value_def Picabu_Cmp_def Let_def zero_result_def
      split: if_splits option.splits list.splits sum.splits prod.splits)

lemma check_parent_error: "check_parent env m result blk = Some (Some r) \<Longrightarrow> vr_Error r \<noteq> None"
  by (auto simp: check_parent_def split: option.splits sum.splits Object.splits if_splits)

lemma block_start_error: "block_start env m result blockid blk = Inl r \<Longrightarrow> vr_Error r \<noteq> None"
  by (auto simp: block_start_def split: option.splits sum.splits if_splits)

lemma ValidateBlock_accept:
  assumes "ValidateBlock env now m blk = Some r" "vr_Error r = None"
  obtains blockid height utxos st where "block_passes env now m blk blockid height utxos st"
    "r = zero_result\<lparr>
       vr_NewUTXOSet := Some \<lparr>us_BlockID = blockid, us_UTXOs = bs_utxos st, us_Height = height\<rparr>,
       vr_NewHeight := height,
       vr_IsNewTip := (case GetChaintip env m of Inl _ \<Rightarrow> True | Inr (_, h) \<Rightarrow> h < height)\<rparr>"
proof -
  have now: "blk_Created blk \<le> now"
    using assms by (auto simp: ValidateBlock_def Let_def split: if_splits)
  obtain blockid where blockid: "snd (GetObjectID env (BlockObj blk)) = Inr blockid"
    using assms now
    by (cases "snd (GetObjectID env (BlockObj blk))") (auto simp: ValidateBlock_def Let_def)
  have pow: "VerifyPoW blockid = Inr True"
    using assms now blockid
    by (cases "VerifyPoW blockid") (auto simp: ValidateBlock_def Let_def split: if_splits)
  have parent: "check_parent env m zero_result blk = Some None"
    using assms now blockid pow check_parent_error [of env m zero_result blk r]
    by (auto simp: ValidateBlock_def Let_def split: option.splits)
  obtain utxos height where start: "block_start env m zero_result blockid blk = Inr (utxos, height)"
    using assms now blockid pow parent block_start_error [of env m zero_result blockid blk r]
    by (cases "block_start env m zero_result blockid blk") (auto simp: ValidateBlock_def Let_def)
  obtain st where txs: "block_txs env m zero_result height 0 (elems (blk_Txids blk)) (start_state utxos) = Some (Inr st)"
    and fin: "block_finish env m zero_result blockid height st = Some r"
    using assms now blockid pow parent start
      block_txs_error [of env m zero_result height 0 "elems (blk_Txids blk)" "start_state utxos" r]
    by (auto simp: ValidateBlock_def Let_def start_state_def split: option.splits sum.splits)
  show ?thesis
    by (rule that [of blockid height utxos st])
       (use now blockid pow parent start txs block_finish_accept [OF fin assms(2)]
         in \<open>auto simp: block_passes_def\<close>)
qed

lemma check_parent_None:
  "check_parent env m result blk = Some None \<longleftrightarrow>
     (case blk_Previd blk of None \<Rightarrow> True
      | Some p \<Rightarrow> \<exists>prev. getObject env (m_db m) p = Inr (BlockObj prev) \<and> blk_Created prev < blk_Created blk)"
  by (auto simp: check_parent_def GetObject_Inr not_less split: option.splits sum.splits Object.splits if_splits)
     (auto simp: GetObject_Inr [symmetric])

lemma block_start_Inr:
  "block_start env m result blockid blk = Inr (utxos, height) \<longleftrightarrow>
     (case blk_Previd blk of None \<Rightarrow> blockid = genesisHash \<and> utxos = [] \<and> height = 0
      | Some p \<Rightarrow> \<exists>u. getUTXO env (m_db m) p = Inr u \<and> utxos = us_UTXOs u \<and> height = us_Height u + 1)"
  by (auto simp: block_start_def split: option.splits sum.splits if_splits)

lemma block_passes_balance:
  assumes "block_passes env now m blk blockid height utxos st"
    and "utxos_ok utxos" "list_all HashID_ok (elems (blk_Txids blk))" "hash_ok env"
    "store_outputs_ok env (m_db m)"
  shows "utxos_ok (bs_utxos st) \<and> utxo_total (bs_utxos st) \<le> utxo_total utxos + BlockRewardBigInt"
proof -
  have "utxos_ok (bs_utxos st) \<and> balance st \<le> balance (start_state utxos)"
    by (rule block_txs_balance [where index = 0 and height = height and result = zero_result])
       (use assms in \<open>auto simp: block_passes_def start_state_def\<close>)
  then show ?thesis
    using assms(1) by (auto simp: block_passes_def balance_def start_state_def cb_value_def)
qed

end
