(* ===== verification/Commit.thy ===== *)
theory Commit
  imports Validation
begin

text \<open>
  \<^verbatim>\<open>internal/core/manager.go\<close>, second part: committing a validated object to the store and the
  mempool, the mempool sweep, the reload of the mempool and the handling of a reorganisation.
  These operations can panic, and the walk to the common ancestor has no bound of its own, so a
  call is an \<open>outcome\<close>: it returns, panics or loops for ever.
\<close>

section \<open>Outcomes\<close>

datatype 'a outcome = Returns 'a | Panics | Loops

fun and_then :: "'a outcome \<Rightarrow> ('a \<Rightarrow> 'b outcome) \<Rightarrow> 'b outcome" where
  "and_then (Returns x) f = f x"
| "and_then Panics f = Panics"
| "and_then Loops f = Loops"

definition of_panic :: "'a option \<Rightarrow> 'a outcome" where
  "of_panic p = (case p of None \<Rightarrow> Panics | Some x \<Rightarrow> Returns x)"

lemma and_then_Returns:
  "and_then p f = Returns y \<longleftrightarrow> (\<exists>x. p = Returns x \<and> f x = Returns y)"
  by (cases p) simp_all

lemma of_panic_Returns [simp]: "of_panic p = Returns x \<longleftrightarrow> p = Some x"
  by (simp add: of_panic_def split: option.splits)

text \<open>A loop whose body can panic.\<close>

fun loop :: "('a \<Rightarrow> 's \<Rightarrow> 's option) \<Rightarrow> 'a list \<Rightarrow> 's \<Rightarrow> 's option" where
  "loop body [] s = Some s"
| "loop body (x # xs) s = (case body x s of None \<Rightarrow> None | Some s' \<Rightarrow> loop body xs s')"

lemma loop_invariant:
  assumes "loop body xs s = Some s'" "P s"
    and "\<And>x s s'. x \<in> set xs \<Longrightarrow> P s \<Longrightarrow> body x s = Some s' \<Longrightarrow> P s'"
  shows "P s'"
  using assms
proof (induction xs arbitrary: s)
  case (Cons x xs)
  then obtain s1 where s1: "body x s = Some s1" "loop body xs s1 = Some s'"
    by (auto split: option.splits)
  have "P s1" using Cons.prems(3) [of x s s1] Cons.prems(2) s1(1) by simp
  show ?case by (rule Cons.IH [OF s1(2) \<open>P s1\<close>]) (rule Cons.prems(3), auto)
qed simp

section \<open>The mempool sweep\<close>

definition clean_entry ::
  "(OutpointKey, TxOutput) gomap \<Rightarrow> HashID \<times> MempoolEntry \<Rightarrow> 'd database \<Rightarrow> 'd database option" where
  "clean_entry utxos e d = (case e of (txid, tx) \<Rightarrow> (case me_Tx tx of
     None \<Rightarrow> None
   | Some t \<Rightarrow> (case all_inputs_in (elems (tx_Inputs t)) utxos of
       None \<Rightarrow> None
     | Some isValid \<Rightarrow>
         if isValid then Some d
         else (case unspend_inputs (elems (tx_Inputs t)) (db_mempoolSpentInputs d) of
             None \<Rightarrow> None
           | Some spent \<Rightarrow>
               Some (d\<lparr>db_mempoolSpentInputs := spent, db_mempool := gm_del txid (db_mempool d)\<rparr>)))))"

definition CleanMempool :: "'d env \<Rightarrow> 'd Manager \<Rightarrow> 'd Manager option" where
  "CleanMempool env m = (case GetChaintip env m of
     Inl _ \<Rightarrow> Some m
   | Inr (tip, _) \<Rightarrow> (case GetUTXO env m tip of
       Inl _ \<Rightarrow> Some m
     | Inr activeUTXOs \<Rightarrow>
         (case loop (clean_entry (us_UTXOs activeUTXOs)) (db_mempool (m_db m)) (m_db m) of
            None \<Rightarrow> None
          | Some d \<Rightarrow> Some (upd_db d m))))"

section \<open>Reloading the mempool\<close>

definition reload_entry :: "'d env \<Rightarrow> MempoolEntry \<Rightarrow> 'd Manager \<Rightarrow> 'd Manager option" where
  "reload_entry env entry m = (case me_Tx entry of
     None \<Rightarrow> None
   | Some tx \<Rightarrow> (case ValidateTransaction env m tx of
       None \<Rightarrow> None
     | Some result \<Rightarrow>
         (case (if vr_Error result \<noteq> None \<or> vr_ErrorCode result \<noteq> E_NONE then Some True
                else map_option Not (IsInputInUTXO env m tx)) of
            None \<Rightarrow> None
          | Some True \<Rightarrow> (case removeMempoolEntry env (m_db m) (me_TxID entry) of
              None \<Rightarrow> None
            | Some (d, _) \<Rightarrow> Some (upd_db d m))
          | Some False \<Rightarrow>
              (case spend_inputs (me_TxID entry) (elems (tx_Inputs tx)) (db_mempoolSpentInputs (m_db m)) of
                 None \<Rightarrow> None
               | Some spent \<Rightarrow>
                   Some (upd_db ((m_db m)\<lparr>
                       db_mempool := gm_set (me_TxID entry) entry (db_mempool (m_db m)),
                       db_mempoolSpentInputs := spent\<rparr>) m)))))"

definition InitializeMempool :: "'d env \<Rightarrow> 'd Manager \<Rightarrow> 'd Manager option" where
  "InitializeMempool env m = (case loadMempool env (m_db m) of
     (savedMempool, err) \<Rightarrow>
       if err \<noteq> None \<or> elems savedMempool = [] then Some m
       else loop (reload_entry env) (elems savedMempool) m)"

section \<open>Reorganisations\<close>

text \<open>\<^verbatim>\<open>*obj.(*types.Block).Previd\<close>, which panics without such a parent.\<close>

definition parent_of :: "'d env \<Rightarrow> 'd Manager \<Rightarrow> HashID \<Rightarrow> HashID option" where
  "parent_of env m blkID = (case GetObject env m blkID of
     Inr (BlockObj b) \<Rightarrow> blk_Previd b
   | _ \<Rightarrow> None)"

text \<open>How the search for the common ancestor ends: a missing UTXO set, a panic, or the two branches.\<close>

datatype walk = WalkMissing | WalkPanics | WalkDone "HashID list" "HashID list"

partial_function (option) reorg_walk ::
  "'d env \<Rightarrow> 'd Manager \<Rightarrow> HashID \<Rightarrow> HashID \<Rightarrow> HashID list \<Rightarrow> HashID list \<Rightarrow> walk option" where
  "reorg_walk env m currOld currNew deadBlocks newBlocks =
     (if currOld = currNew then Some (WalkDone deadBlocks newBlocks)
      else (case GetUTXO env m currOld of
        Inl _ \<Rightarrow> Some WalkMissing
      | Inr utxoOld \<Rightarrow> (case GetUTXO env m currNew of
          Inl _ \<Rightarrow> Some WalkMissing
        | Inr utxoNew \<Rightarrow>
            if us_Height utxoNew < us_Height utxoOld then
              (case parent_of env m currOld of
                 None \<Rightarrow> Some WalkPanics
               | Some p \<Rightarrow> reorg_walk env m p currNew (deadBlocks @ [currOld]) newBlocks)
            else if us_Height utxoOld < us_Height utxoNew then
              (case parent_of env m currNew of
                 None \<Rightarrow> Some WalkPanics
               | Some p \<Rightarrow> reorg_walk env m currOld p deadBlocks (newBlocks @ [currNew]))
            else
              (case parent_of env m currOld of
                 None \<Rightarrow> Some WalkPanics
               | Some p \<Rightarrow> (case parent_of env m currNew of
                   None \<Rightarrow> Some WalkPanics
                 | Some q \<Rightarrow> reorg_walk env m p q (deadBlocks @ [currOld]) (newBlocks @ [currNew]))))))"

text \<open>The transactions of a block, by a type assertion that panics on anything else.\<close>

definition block_txids :: "'d env \<Rightarrow> 'd Manager \<Rightarrow> HashID \<Rightarrow> HashID list option" where
  "block_txids env m blkID = (case GetObject env m blkID of
     Inr (BlockObj b) \<Rightarrow> Some (elems (blk_Txids b))
   | _ \<Rightarrow> None)"

definition readd_tx :: "'d env \<Rightarrow> int \<Rightarrow> HashID \<Rightarrow> 'd Manager \<Rightarrow> 'd Manager option" where
  "readd_tx env now txid m = (case GetObject env m txid of
     Inr (TxObj tx) \<Rightarrow> (case ValidateTransaction env m tx of
         None \<Rightarrow> None
       | Some result \<Rightarrow> map_option fst (AddToMempool env now m tx (vr_Fee result)))
   | _ \<Rightarrow> Some m)"

definition readd_block :: "'d env \<Rightarrow> int \<Rightarrow> HashID \<Rightarrow> 'd Manager \<Rightarrow> 'd Manager option" where
  "readd_block env now blkID m = (case block_txids env m blkID of
     None \<Rightarrow> None
   | Some txids \<Rightarrow> loop (readd_tx env now) txids m)"

definition remove_tx :: "'d env \<Rightarrow> HashID \<Rightarrow> 'd Manager \<Rightarrow> 'd Manager option" where
  "remove_tx env txid m = map_option fst (RemoveFromMempool env m txid)"

definition remove_block :: "'d env \<Rightarrow> HashID \<Rightarrow> 'd Manager \<Rightarrow> 'd Manager option" where
  "remove_block env blkID m = (case block_txids env m blkID of
     None \<Rightarrow> None
   | Some txids \<Rightarrow> loop (remove_tx env) txids m)"

definition HandleReorg :: "'d env \<Rightarrow> int \<Rightarrow> 'd Manager \<Rightarrow> HashID \<Rightarrow> HashID \<Rightarrow> 'd Manager outcome" where
  "HandleReorg env now m oldTip newTip = (case reorg_walk env m oldTip newTip [] [] of
     None \<Rightarrow> Loops
   | Some WalkPanics \<Rightarrow> Panics
   | Some WalkMissing \<Rightarrow> Returns m
   | Some (WalkDone deadBlocks newBlocks) \<Rightarrow>
       of_panic (case loop (readd_block env now) deadBlocks m of
           None \<Rightarrow> None
         | Some m1 \<Rightarrow> (case loop (remove_block env) newBlocks m1 of
             None \<Rightarrow> None
           | Some m2 \<Rightarrow>
               InitializeMempool env
                 (upd_db ((m_db m2)\<lparr>db_mempool := [], db_mempoolSpentInputs := []\<rparr>) m2))))"

section \<open>Commits\<close>

type_synonym 'd commit = "'d Manager \<times> bool \<times> ErrorCode \<times> error option"

text \<open>The loop that looks for an outpoint already spent in the mempool.\<close>

fun mempool_conflict :: "'d Manager \<Rightarrow> TxInput list \<Rightarrow> bool option" where
  "mempool_conflict m [] = Some False"
| "mempool_conflict m (input # inputs) = (case input_key input of
     None \<Rightarrow> None
   | Some outpoint \<Rightarrow> if IsInputSpent m outpoint then Some True else mempool_conflict m inputs)"

definition commitTransaction ::
  "'d env \<Rightarrow> int \<Rightarrow> 'd Manager \<Rightarrow> Transaction \<Rightarrow> ValidationResult \<Rightarrow> 'd commit outcome" where
  "commitTransaction env now m tx result =
     (case putFee env (m_db m) (vr_ObjID result) (vr_Fee result) of
        (d, Some _) \<Rightarrow> Returns (upd_db d m, False, E_INTERNAL_ERROR, Some (Errorf ''error storing fee''))
      | (d, None) \<Rightarrow>
          let m = upd_db d m
          in of_panic (case mempool_conflict m (elems (tx_Inputs tx)) of
               None \<Rightarrow> None
             | Some isMempoolConflict \<Rightarrow>
                 if \<not> isMempoolConflict then
                   (case IsInputInUTXO env m tx of
                      None \<Rightarrow> None
                    | Some True \<Rightarrow>
                        map_option (\<lambda>(m', _). (m', True, E_NONE, None)) (AddToMempool env now m tx (vr_Fee result))
                    | Some False \<Rightarrow> Some (m, False, E_INVALID_TX_OUTPOINT, None))
                 else Some (m, False, E_INVALID_TX_OUTPOINT, None)))"

text \<open>
  Inside \<^verbatim>\<open>if result.IsNewTip\<close>, \<^verbatim>\<open>oldTip, _, err := m.GetChaintip()\<close> declares a new \<^verbatim>\<open>oldTip\<close>: the
  outer one, which \<^verbatim>\<open>HandleReorg\<close> gets, stays empty. The first component tells a reorganisation.
\<close>

definition update_tip ::
  "'d env \<Rightarrow> 'd Manager \<Rightarrow> Block \<Rightarrow> ValidationResult \<Rightarrow> ('d Manager \<times> bool \<times> error option) option" where
  "update_tip env m blk result =
     (case (case GetChaintip env m of
              Inl _ \<Rightarrow> Some False
            | Inr (oldTip, _) \<Rightarrow> (case blk_Previd blk of None \<Rightarrow> None | Some p \<Rightarrow> Some (oldTip \<noteq> p))) of
        None \<Rightarrow> None
      | Some isReorg \<Rightarrow> (case putChaintip env (m_db m) (vr_ObjID result) (vr_NewHeight result) of
          (d, Some _) \<Rightarrow> Some (upd_db d m, isReorg, Some (Errorf ''failed to update chaintip''))
        | (d, None) \<Rightarrow> Some (call_minerCancel (upd_db d m), isReorg, None)))"

definition commitBlock ::
  "'d env \<Rightarrow> int \<Rightarrow> 'd Manager \<Rightarrow> Block \<Rightarrow> ValidationResult \<Rightarrow> 'd commit outcome" where
  "commitBlock env now m blk result =
     (case (case vr_NewUTXOSet result of
              None \<Rightarrow> (m_db m, None)
            | Some utxos \<Rightarrow> putUTXO env (m_db m) (vr_ObjID result) utxos) of
        (d, Some _) \<Rightarrow> Returns (upd_db d m, False, E_INTERNAL_ERROR, Some (Errorf ''failed to save UTXO state''))
      | (d, None) \<Rightarrow>
          let m = upd_db d m; oldTip = ''''
          in (case (if vr_IsNewTip result then update_tip env m blk result else Some (m, False, None)) of
               None \<Rightarrow> Panics
             | Some (m, _, Some e) \<Rightarrow> Returns (m, False, E_INTERNAL_ERROR, Some e)
             | Some (m, isReorg, None) \<Rightarrow>
                 and_then
                   (if isReorg then HandleReorg env now m oldTip (vr_ObjID result)
                    else of_panic (case loop (remove_tx env) (elems (blk_Txids blk)) m of
                        None \<Rightarrow> None
                      | Some m \<Rightarrow> CleanMempool env m))
                   (\<lambda>m. Returns (m, True, E_NONE, None))))"

definition CommitObject ::
  "'d env \<Rightarrow> int \<Rightarrow> 'd Manager \<Rightarrow> Object \<Rightarrow> ValidationResult \<Rightarrow> 'd commit outcome" where
  "CommitObject env now m obj result = (case putObject env (m_db m) obj of
     (d, Inl _) \<Rightarrow> Returns (upd_db d m, False, E_INTERNAL_ERROR, Some (Errorf ''failed to store object''))
   | (d, Inr _) \<Rightarrow>
       let m = upd_db d m
       in (case obj of
             TxObj tx \<Rightarrow> commitTransaction env now m tx result
           | CoinbaseObj cb \<Rightarrow> Returns (m, False, E_NONE, None)
           | BlockObj blk \<Rightarrow> commitBlock env now m blk result))"

section \<open>What the mempool operations leave alone\<close>

text \<open>Two databases that agree on objects, UTXO sets and the tip.\<close>

definition chain_key :: "bytes \<Rightarrow> bool" where
  "chain_key k \<longleftrightarrow> HashID_ok k \<or> k = chaintipKey \<or> (\<exists>b. k = utxoKey b)"

definition chain_eq :: "'d env \<Rightarrow> 'd database \<Rightarrow> 'd database \<Rightarrow> bool" where
  "chain_eq env d d' \<longleftrightarrow> (\<forall>k. chain_key k \<longrightarrow> ldb_get env (db_db d') k = ldb_get env (db_db d) k)"

lemma chain_eq_refl [simp]: "chain_eq env d d"
  by (simp add: chain_eq_def)

lemma chain_eq_trans: "chain_eq env d d' \<Longrightarrow> chain_eq env d' d'' \<Longrightarrow> chain_eq env d d''"
  by (simp add: chain_eq_def)

lemma chain_eq_store: "db_db d' = db_db d \<Longrightarrow> chain_eq env d d'"
  by (simp add: chain_eq_def)

lemma chain_eq_get:
  assumes "chain_eq env d d'"
  shows "HashID_ok k \<Longrightarrow> getObject env d' k = getObject env d k"
    and "getUTXO env d' b = getUTXO env d b" and "getChaintip env d' = getChaintip env d"
  using assms by (auto simp: chain_eq_def chain_key_def getObject_def getUTXO_def getChaintip_def)

lemma not_chain_key [simp]: "\<not> chain_key (mempoolKey h)" "\<not> chain_key (feeKey h)"
  by (auto simp: chain_key_def dest: HashID_keys)

lemma put_key_chain: "ldb_ok env \<Longrightarrow> put_key env d k v = (d', e) \<Longrightarrow> \<not> chain_key k \<Longrightarrow> chain_eq env d d'"
  using put_key_either [of env d k v d' e] by (auto simp: chain_eq_def)

lemma delete_key_chain: "ldb_ok env \<Longrightarrow> delete_key env d k = (d', e) \<Longrightarrow> \<not> chain_key k \<Longrightarrow> chain_eq env d d'"
  using delete_key_either [of env d k d' e] by (auto simp: chain_eq_def)

lemma putFee_chain: "ldb_ok env \<Longrightarrow> putFee env d h fee = (d', e) \<Longrightarrow> chain_eq env d d'"
  by (auto simp: putFee_def intro: put_key_chain)

lemma addMempoolEntry_chain:
  assumes "ldb_ok env" "addMempoolEntry env now d tx fee = Some (d', e)"
  shows "chain_eq env d d'"
proof (cases "GetObjectID env (TxObj tx)")
  case (Pair obj r)
  show ?thesis
  proof (cases r)
    case (Inl err)
    then show ?thesis using assms Pair by (simp add: addMempoolEntry_def)
  next
    case (Inr txid)
    define data where "data = print_json (MempoolEntry_json env
      \<lparr>me_TxID = txid, me_Tx = Some (case obj of TxObj t \<Rightarrow> t | _ \<Rightarrow> tx), me_Fee = fee, me_Timestamp = now\<rparr>)"
    obtain d1 e1 where p: "put_key env d (mempoolKey txid) data = (d1, e1)" by fastforce
    obtain d2 e2 where f: "putFee env d1 txid fee = (d2, e2)" by fastforce
    have c: "chain_eq env d d1" "chain_eq env d1 d2"
      using put_key_chain [OF assms(1) p] putFee_chain [OF assms(1) f] by simp_all
    have "db_db d' = db_db d1 \<or> db_db d' = db_db d2"
      using assms(2) Pair Inr p f
      by (auto simp: addMempoolEntry_def Let_def data_def split: option.splits)
    with c show ?thesis by (auto intro: chain_eq_trans chain_eq_store)
  qed
qed

lemma removeMempoolEntry_chain:
  assumes "ldb_ok env" "removeMempoolEntry env d txid = Some (d', e)"
  shows "chain_eq env d d'"
proof -
  obtain d1 e1 where p: "delete_key env d (mempoolKey txid) = (d1, e1)" by fastforce
  obtain d2 e2 where f: "delete_key env d1 (feeKey txid) = (d2, e2)" by fastforce
  have c: "chain_eq env d d1" "chain_eq env d1 d2"
    using delete_key_chain [OF assms(1) p] delete_key_chain [OF assms(1) f] by simp_all
  have "db_db d' = db_db d1 \<or> db_db d' = db_db d2"
    using assms(2) p f by (auto simp: removeMempoolEntry_def Let_def split: option.splits)
  with c show ?thesis by (auto intro: chain_eq_trans chain_eq_store)
qed

text \<open>The same for managers, with the waiting blocks.\<close>

definition same_chain :: "'d env \<Rightarrow> 'd Manager \<Rightarrow> 'd Manager \<Rightarrow> bool" where
  "same_chain env m m' \<longleftrightarrow> chain_eq env (m_db m) (m_db m') \<and>
     db_pendingBlocks (m_db m') = db_pendingBlocks (m_db m)"

named_theorems same_chain \<open>operations that leave the chain and the waiting blocks alone\<close>

lemma same_chain_refl [simp]: "same_chain env m m"
  by (simp add: same_chain_def)

lemma same_chain_trans: "same_chain env m m' \<Longrightarrow> same_chain env m' m'' \<Longrightarrow> same_chain env m m''"
  by (auto simp: same_chain_def intro: chain_eq_trans)

lemma same_chain_loop:
  assumes "loop body xs m = Some m'"
    and "\<And>x s s'. body x s = Some s' \<Longrightarrow> same_chain env s s'"
  shows "same_chain env m m'"
  by (rule loop_invariant [OF assms(1)]) (auto intro: assms(2) same_chain_trans)

lemma addMempoolEntry_pending:
  "addMempoolEntry env now d tx fee = Some (d', e) \<Longrightarrow> db_pendingBlocks d' = db_pendingBlocks d"
  by (auto simp: addMempoolEntry_def putFee_def put_key_def Let_def
      split: option.splits prod.splits sum.splits)

lemma removeMempoolEntry_pending:
  "removeMempoolEntry env d txid = Some (d', e) \<Longrightarrow> db_pendingBlocks d' = db_pendingBlocks d"
  by (auto simp: removeMempoolEntry_def delete_key_def Let_def split: option.splits prod.splits)

lemma AddToMempool_same [same_chain]:
  "ldb_ok env \<Longrightarrow> AddToMempool env now m tx fee = Some (m', e) \<Longrightarrow> same_chain env m m'"
  by (auto simp: AddToMempool_def same_chain_def dest: addMempoolEntry_chain addMempoolEntry_pending
      split: option.splits prod.splits)

lemma removeMempoolEntry_same:
  "ldb_ok env \<Longrightarrow> removeMempoolEntry env (m_db m) txid = Some (d, e) \<Longrightarrow> same_chain env m (upd_db d m)"
  by (auto simp: same_chain_def dest: removeMempoolEntry_chain removeMempoolEntry_pending)

lemma remove_tx_same [same_chain]: "ldb_ok env \<Longrightarrow> remove_tx env txid m = Some m' \<Longrightarrow> same_chain env m m'"
  by (auto simp: remove_tx_def RemoveFromMempool_def dest: removeMempoolEntry_same
      split: option.splits prod.splits)

lemma clean_entry_memory:
  "clean_entry utxos e d = Some d' \<Longrightarrow> db_db d' = db_db d \<and> db_pendingBlocks d' = db_pendingBlocks d"
  by (auto simp: clean_entry_def split: prod.splits option.splits if_splits)

lemma CleanMempool_same [same_chain]:
  assumes "CleanMempool env m = Some m'"
  shows "same_chain env m m'"
proof -
  have "db_db d' = db_db d \<and> db_pendingBlocks d' = db_pendingBlocks d"
    if "loop (clean_entry utxos) es d = Some d'" for utxos es d d'
    by (rule loop_invariant [OF that]) (auto dest: clean_entry_memory)
  then show ?thesis
    using assms by (fastforce simp: CleanMempool_def same_chain_def
        intro: chain_eq_store split: sum.splits option.splits prod.splits)
qed

lemma reload_entry_same [same_chain]:
  "ldb_ok env \<Longrightarrow> reload_entry env entry m = Some m' \<Longrightarrow> same_chain env m m'"
  by (auto simp: reload_entry_def dest: removeMempoolEntry_same split: option.splits bool.splits prod.splits)
     (auto simp: same_chain_def intro: chain_eq_store)

lemma InitializeMempool_same [same_chain]:
  assumes "ldb_ok env" "InitializeMempool env m = Some m'"
  shows "same_chain env m m'"
  using assms(2) same_chain_loop [of "reload_entry env" _ m m' env] reload_entry_same [OF assms(1)]
  by (auto simp: InitializeMempool_def split: prod.splits if_splits)

lemma readd_tx_same [same_chain]:
  "ldb_ok env \<Longrightarrow> readd_tx env now txid m = Some m' \<Longrightarrow> same_chain env m m'"
  by (auto simp: readd_tx_def dest: AddToMempool_same split: sum.splits Object.splits option.splits)

lemma readd_block_same [same_chain]:
  "ldb_ok env \<Longrightarrow> readd_block env now b m = Some m' \<Longrightarrow> same_chain env m m'"
  by (auto simp: readd_block_def intro: same_chain_loop readd_tx_same split: option.splits)

lemma remove_block_same [same_chain]:
  "ldb_ok env \<Longrightarrow> remove_block env b m = Some m' \<Longrightarrow> same_chain env m m'"
  by (auto simp: remove_block_def intro: same_chain_loop remove_tx_same split: option.splits)

lemma HandleReorg_same [same_chain]:
  assumes "ldb_ok env" "HandleReorg env now m oldTip newTip = Returns m'"
  shows "same_chain env m m'"
proof (cases "reorg_walk env m oldTip newTip [] []")
  case None
  then show ?thesis using assms by (simp add: HandleReorg_def)
next
  case (Some w)
  show ?thesis
  proof (cases w)
    case (WalkDone dead new)
    then obtain m1 m2 where m1: "loop (readd_block env now) dead m = Some m1"
      and m2: "loop (remove_block env) new m1 = Some m2"
      and m3: "InitializeMempool env
        (upd_db ((m_db m2)\<lparr>db_mempool := [], db_mempoolSpentInputs := []\<rparr>) m2) = Some m'"
      using assms Some by (auto simp: HandleReorg_def split: option.splits)
    have "same_chain env m m1" by (rule same_chain_loop [OF m1]) (rule readd_block_same [OF assms(1)])
    moreover have "same_chain env m1 m2" by (rule same_chain_loop [OF m2]) (rule remove_block_same [OF assms(1)])
    moreover have "same_chain env m2 (upd_db ((m_db m2)\<lparr>db_mempool := [], db_mempoolSpentInputs := []\<rparr>) m2)"
      by (simp add: same_chain_def chain_eq_store)
    ultimately show ?thesis using InitializeMempool_same [OF assms(1) m3] by (blast intro: same_chain_trans)
  qed (use assms Some in \<open>auto simp: HandleReorg_def\<close>)
qed

lemma commitTransaction_same [same_chain]:
  assumes "ldb_ok env" "commitTransaction env now m tx result = Returns (m', r)"
  shows "same_chain env m m'"
proof -
  obtain d e where f: "putFee env (m_db m) (vr_ObjID result) (vr_Fee result) = (d, e)" by fastforce
  have "db_pendingBlocks d = db_pendingBlocks (m_db m)"
    using f by (auto simp: putFee_def put_key_def split: prod.splits)
  then have 1: "same_chain env m (upd_db d m)"
    using putFee_chain [OF assms(1) f] by (simp add: same_chain_def)
  have "same_chain env (upd_db d m) m'"
    using assms(2) f AddToMempool_same [OF assms(1)]
    by (auto simp: commitTransaction_def Let_def split: option.splits if_splits bool.splits)
  with 1 show ?thesis by (rule same_chain_trans)
qed

end
