(* ===== verification/Chain.thy ===== *)
theory Chain
  imports Commit
begin

text \<open>
  What the store says of the chain, and that committing an accepted object keeps it: every UTXO
  set belongs to a stored block, its height is one more than its parent's and at most the
  block's timestamp (so the uint64 height never wraps), its outputs total at most the block
  reward per block, and the tip names a block that has a UTXO set. Reads of the history
  (\<^verbatim>\<open>GetMiningHistory\<close> and the walk of \<^verbatim>\<open>HandleReorg\<close>) therefore come to an end, and the walk gives
  the two branches down to the nearest common block (\<open>reorg_walk_branches\<close>).
\<close>

section \<open>The invariant\<close>

definition parent_ok :: "'d env \<Rightarrow> 'd database \<Rightarrow> HashID \<Rightarrow> UTXOSet \<Rightarrow> Block \<Rightarrow> bool" where
  "parent_ok env d b u blk \<longleftrightarrow> (case blk_Previd blk of
     None \<Rightarrow> b = genesisHash \<and> us_Height u = 0
   | Some p \<Rightarrow> HashID_ok p \<and> (\<exists>up. getUTXO env d p = Inr up \<and>
       uint (us_Height u) = uint (us_Height up) + 1 \<and>
       utxo_total (us_UTXOs u) \<le> utxo_total (us_UTXOs up) + BlockRewardBigInt))"

definition entry_ok :: "'d env \<Rightarrow> 'd database \<Rightarrow> HashID \<Rightarrow> UTXOSet \<Rightarrow> bool" where
  "entry_ok env d b u \<longleftrightarrow> us_BlockID u = b \<and> utxos_ok (us_UTXOs u) \<and>
     utxo_total (us_UTXOs u) \<le> (uint (us_Height u) + 1) * BlockRewardBigInt \<and>
     (\<exists>blk. getObject env d b = Inr (BlockObj blk) \<and> blk_Created blk < 2 ^ 63 \<and>
        uint (us_Height u) \<le> blk_Created blk \<and> parent_ok env d b u blk)"

definition chain_inv :: "'d env \<Rightarrow> 'd database \<Rightarrow> bool" where
  "chain_inv env d \<longleftrightarrow> store_outputs_ok env d \<and>
     (\<forall>b u. getUTXO env d b = Inr u \<longrightarrow> HashID_ok b \<and> entry_ok env d b u) \<and>
     (\<forall>t h. getChaintip env d = Inr (t, h) \<longrightarrow>
        HashID_ok t \<and> (\<exists>u. getUTXO env d t = Inr u \<and> us_Height u = h))"

lemma parent_ok_cong:
  "parent_ok env d b u blk \<Longrightarrow>
     (\<And>p up. HashID_ok p \<Longrightarrow> getUTXO env d p = Inr up \<Longrightarrow> getUTXO env d' p = Inr up) \<Longrightarrow>
     parent_ok env d' b u blk"
  by (cases "blk_Previd blk") (auto simp: parent_ok_def)

lemma entry_ok_cong:
  assumes "entry_ok env d b u" "getObject env d' b = getObject env d b"
    and "\<And>p up. HashID_ok p \<Longrightarrow> getUTXO env d p = Inr up \<Longrightarrow> getUTXO env d' p = Inr up"
  shows "entry_ok env d' b u"
proof -
  obtain blk where blk: "getObject env d b = Inr (BlockObj blk)" "blk_Created blk < 2 ^ 63"
      "uint (us_Height u) \<le> blk_Created blk" "parent_ok env d b u blk"
    using assms(1) by (auto simp: entry_ok_def)
  have "parent_ok env d' b u blk" by (rule parent_ok_cong [OF blk(4) assms(3)])
  with blk assms(1,2) show ?thesis by (auto simp: entry_ok_def)
qed

lemma chain_invD:
  assumes "chain_inv env d"
  shows "store_outputs_ok env d"
    and "HashID_ok b \<Longrightarrow> getUTXO env d b = Inr u \<Longrightarrow> entry_ok env d b u"
    and "getChaintip env d = Inr (t, h) \<Longrightarrow> HashID_ok t \<and> (\<exists>u. getUTXO env d t = Inr u \<and> us_Height u = h)"
    and "getUTXO env d b = Inr u \<Longrightarrow> HashID_ok b"
  using assms by (auto simp: chain_inv_def)

lemma chain_inv_eq:
  assumes "chain_eq env d d'" "chain_inv env d"
  shows "chain_inv env d'"
proof -
  note g = chain_eq_get [OF assms(1)]
  have "entry_ok env d' b u" if "HashID_ok b" "getUTXO env d' b = Inr u" for b u
    by (rule entry_ok_cong [OF chain_invD(2) [OF assms(2)]]) (use that g in auto)
  then show ?thesis
    using chain_invD(1,3) [OF assms(2)] chain_invD(4) [OF assms(2)] g
    by (auto simp: chain_inv_def store_outputs_ok_def)
qed

section \<open>Storing an object\<close>

text \<open>The encoder writes the pubkey and the value of every output, so what decodes is well-formed.\<close>

lemma TxOutput_Unmarshal_json: "TxOutput_Unmarshal (TxOutput_json v) = Some w \<Longrightarrow> TxOutput_ok w"
  by (auto simp: TxOutput_Unmarshal_def TxOutput_json_def jfield_exact Picabu_Marshal_def TxOutput_ok_def
      split: if_splits)

lemma TxOutputs_Unmarshal_json:
  assumes "TxOutputs_Unmarshal (slice_json TxOutput_json s) = Some outs"
  shows "TxOutputs_ok outs"
proof (cases s)
  case None
  then show ?thesis
    using assms by (auto simp: TxOutputs_Unmarshal_def UnmarshalArray_def slice_json_def TxOutputs_ok_def
        split: if_splits)
next
  case (Some xs)
  then obtain ys where ys: "mapM TxOutput_Unmarshal (map TxOutput_json xs) = Some ys" "outs = Some ys"
      "length ys \<le> 1000"
    using assms by (cases "mapM TxOutput_Unmarshal (map TxOutput_json xs)")
      (auto simp: TxOutputs_Unmarshal_def UnmarshalArray_def slice_json_def maxArrLen_def split: if_splits)
  have "\<forall>y \<in> set ys. \<exists>x. TxOutput_Unmarshal (TxOutput_json x) = Some y"
  proof
    fix y assume "y \<in> set ys"
    then obtain i where i: "i < length ys" "y = ys ! i" by (auto simp: in_set_conv_nth)
    have "map TxOutput_Unmarshal (map TxOutput_json xs) = map Some ys" "length ys = length xs"
      using ys(1) length_mapM [OF ys(1)] by (auto simp: mapM_Some_iff)
    with i show "\<exists>x. TxOutput_Unmarshal (TxOutput_json x) = Some y"
      by (metis length_map nth_map)
  qed
  with ys show ?thesis by (auto simp: TxOutputs_ok_def list_all_iff dest: TxOutput_Unmarshal_json)
qed

text \<open>The type an object names is its own.\<close>

fun typed :: "Object \<Rightarrow> bool" where
  "typed (TxObj t) = (tx_Type t = OBJ_TRANSACTION)"
| "typed (CoinbaseObj c) = (cb_Type c = OBJ_TRANSACTION)"
| "typed (BlockObj b) = (blk_Type b = OBJ_BLOCK)"

lemma Transaction_Unmarshal_json:
  "Transaction_Unmarshal (Transaction_json t) = Some t' \<Longrightarrow> TxOutputs_ok (tx_Outputs t')"
  by (auto simp: Transaction_Unmarshal_def Transaction_json_def jfield_exact
      dest: TxOutputs_Unmarshal_json elim!: bind_SomeE)

lemma CoinbaseTransaction_Unmarshal_json:
  "CoinbaseTransaction_Unmarshal (CoinbaseTransaction_json c) = Some c' \<Longrightarrow> TxOutputs_ok (cb_Outputs c')"
  by (auto simp: CoinbaseTransaction_Unmarshal_def CoinbaseTransaction_json_def jfield_exact
      elim!: bind_SomeE split: if_splits option.splits) (rule TxOutputs_Unmarshal_json)

lemma decodeObject_outputs:
  assumes "decodeObject (print_json (Object_json obj)) = Inr obj'" "typed obj"
  shows "object_outputs_ok obj'"
proof -
  have p: "parse_json (print_json (Object_json obj)) = Some (Object_json obj)"
    by (simp add: parse_json_print)
  show ?thesis
  proof (cases obj)
    case (TxObj t)
    then show ?thesis
      using assms p by (auto simp: decodeObject_def probe_Transaction or_JsonError_def object_outputs_ok_def
          outputs_of_def dest: Transaction_Unmarshal_json split: option.splits)
  next
    case (CoinbaseObj c)
    have "probe_height (CoinbaseTransaction_json c) \<noteq> Some None"
      by (simp add: probe_height_def CoinbaseTransaction_json_def jfield_ci eq_fold_def lower_def dec_int64_def)
    with CoinbaseObj show ?thesis
      using assms p by (auto simp: decodeObject_def probe_Coinbase or_JsonError_def object_outputs_ok_def
          outputs_of_def dest: CoinbaseTransaction_Unmarshal_json split: option.splits)
  next
    case (BlockObj b)
    then show ?thesis
      using assms p by (auto simp: decodeObject_def probe_Block or_JsonError_def object_outputs_ok_def
          outputs_of_def split: option.splits)
  qed
qed

lemma putObject_effect:
  assumes "ldb_ok env" "putObject env d obj = (d', r)"
  shows "d' = d\<lparr>db_db := db_db d'\<rparr>"
    and "HashObject env obj = Inr oid \<Longrightarrow> k \<noteq> oid \<Longrightarrow> ldb_get env (db_db d') k = ldb_get env (db_db d) k"
    and "HashObject env obj = Inr oid \<Longrightarrow>
      ldb_get env (db_db d') oid = ldb_get env (db_db d) oid \<and> is_error r \<or>
      ldb_get env (db_db d') oid = Inr (print_json (Object_json obj))"
    and "r = Inr oid' \<Longrightarrow> HashObject env obj = Inr oid'"
proof -
  consider (no) e where "d' = d" "r = Inl e" "\<forall>oid. HashObject env obj \<noteq> Inr oid"
    | (put) h e where "HashObject env obj = Inr h" "put_key env d h (print_json (Object_json obj)) = (d', e)"
        "r = (case e of None \<Rightarrow> Inr h | Some e \<Rightarrow> Inl e)"
  proof (cases "HashObject env obj")
    case (Inl e)
    then show ?thesis
      using assms(2) by (intro no [of e]) (auto simp: putObject_def HashObject_def split: option.splits sum.splits)
  next
    case (Inr h)
    obtain e where "put_key env d h (print_json (Object_json obj)) = (d', e)"
        "r = (case e of None \<Rightarrow> Inr h | Some e \<Rightarrow> Inl e)"
      using assms(2) Inr by (auto simp: putObject_def HashObject_def split: option.splits prod.splits)
    then show ?thesis by (rule put [OF Inr])
  qed
  then have "d' = d\<lparr>db_db := db_db d'\<rparr> \<and>
    (\<forall>oid. HashObject env obj = Inr oid \<longrightarrow> (\<forall>k. k \<noteq> oid \<longrightarrow> ldb_get env (db_db d') k = ldb_get env (db_db d) k) \<and>
       (ldb_get env (db_db d') oid = ldb_get env (db_db d) oid \<and> is_error r \<or>
        ldb_get env (db_db d') oid = Inr (print_json (Object_json obj)))) \<and>
    (\<forall>oid'. r = Inr oid' \<longrightarrow> HashObject env obj = Inr oid')"
  proof cases
    case no
    then show ?thesis by auto
  next
    case put
    from put_key_either [OF assms(1) put(2)] put_key_memory [OF put(2)] put(1,3)
    show ?thesis by (auto split: option.splits)
  qed
  then show "d' = d\<lparr>db_db := db_db d'\<rparr>"
    "HashObject env obj = Inr oid \<Longrightarrow> k \<noteq> oid \<Longrightarrow> ldb_get env (db_db d') k = ldb_get env (db_db d) k"
    "HashObject env obj = Inr oid \<Longrightarrow>
      ldb_get env (db_db d') oid = ldb_get env (db_db d) oid \<and> is_error r \<or>
      ldb_get env (db_db d') oid = Inr (print_json (Object_json obj))"
    "r = Inr oid' \<Longrightarrow> HashObject env obj = Inr oid'"
    by blast+
qed

text \<open>Storing an object that the store does not hold keeps the invariant.\<close>

lemma putObject_chain:
  assumes "ldb_ok env" "hash_ok env" "putObject env d obj = (d', r)" "typed obj" "chain_inv env d"
    and oid: "HashObject env obj = Inr oid" and new: "\<And>v. ldb_get env (db_db d) oid \<noteq> Inr v"
  shows "chain_inv env d'"
    and "r = Inr oid' \<Longrightarrow> ldb_get env (db_db d') oid = Inr (print_json (Object_json obj))"
    and "\<And>k. HashID_ok k \<Longrightarrow> k \<noteq> oid \<Longrightarrow> getObject env d' k = getObject env d k"
    and "\<And>b. getUTXO env d' b = getUTXO env d b" "getChaintip env d' = getChaintip env d"
    and "\<And>u. getUTXO env d oid \<noteq> Inr u"
proof -
  note eff = putObject_effect [OF assms(1,3)]
  have ok: "HashID_ok oid" using HashObject_ok [OF assms(2) oid] by simp
  show same: "getObject env d' k = getObject env d k" if "HashID_ok k" "k \<noteq> oid" for k
    using eff(2) [OF oid that(2)] by (rule getObject_cong)
  have "utxoKey b \<noteq> oid" for b using HashID_keys(1) [OF ok] by metis
  then show utxo: "getUTXO env d' b = getUTXO env d b" for b
    using eff(2) [OF oid, of "utxoKey b"] by (intro getUTXO_cong) simp
  have "chaintipKey \<noteq> oid" using HashID_keys(4) [OF ok] by metis
  then show tip: "getChaintip env d' = getChaintip env d"
    using eff(2) [OF oid, of chaintipKey] by (intro getChaintip_cong) simp
  have noobj: "getObject env d oid \<noteq> Inr x" for x
    using new by (auto simp: getObject_def split: sum.splits)
  then show noutxo: "getUTXO env d oid \<noteq> Inr u" for u
    using chain_invD(2) [OF assms(5) ok] by (auto simp: entry_ok_def)
  show "ldb_get env (db_db d') oid = Inr (print_json (Object_json obj))" if "r = Inr oid'"
    using eff(3) [OF oid] that by auto
  have outs: "object_outputs_ok x" if "getObject env d' k = Inr x" "HashID_ok k" for k x
  proof (cases "k = oid")
    case True
    have "ldb_get env (db_db d') oid = ldb_get env (db_db d) oid \<or>
        ldb_get env (db_db d') oid = Inr (print_json (Object_json obj))" using eff(3) [OF oid] by auto
    then have "decodeObject (print_json (Object_json obj)) = Inr x"
      using that(1) True new by (cases "ldb_get env (db_db d) oid") (auto simp: getObject_def)
    then show ?thesis by (rule decodeObject_outputs) (rule assms(4))
  next
    case False
    then show ?thesis
      using that same chain_invD(1) [OF assms(5)] by (auto simp: store_outputs_ok_def)
  qed
  have "entry_ok env d' b u" if "HashID_ok b" "getUTXO env d' b = Inr u" for b u
  proof (rule entry_ok_cong)
    show "entry_ok env d b u" using chain_invD(2) [OF assms(5) that(1)] that(2) utxo by simp
    have "b \<noteq> oid" using that utxo noutxo by metis
    then show "getObject env d' b = getObject env d b" using same that by simp
  qed (simp add: utxo)
  then show "chain_inv env d'"
    using outs chain_invD(3) [OF assms(5)] chain_invD(4) [OF assms(5)]
    by (auto simp: chain_inv_def store_outputs_ok_def utxo tip)
qed

section \<open>Committing an accepted block\<close>

text \<open>
  What the node knows of an object that its decoder has read, and a hypothesis on any other: its type, a
  cached ID that is right, and for a block the decoder's limits (\<open>Block_ok\<close>, at most 1000 transactions).
  The miner does not keep to the last: a longer block is stored and cannot be read back.
\<close>

definition object_in :: "'d env \<Rightarrow> Object \<Rightarrow> bool" where
  "object_in env obj \<longleftrightarrow> cache_ok env obj \<and> typed obj \<and>
     (\<forall>b. obj = BlockObj b \<longrightarrow> Block_ok (b\<lparr>blk_CachedID := None\<rparr>))"

lemma Block_okD:
  assumes "Block_ok b"
  shows "blk_Created b < 2 ^ 63" "0 \<le> blk_Created b" "blk_Previd b = Some p \<Longrightarrow> HashID_ok p"
    "list_all HashID_ok (elems (blk_Txids b))" "Object_ok (BlockObj b)"
  using assms by (auto simp: Block_ok_def BuInt_ok_def)

lemma uint_succ: "uint (w :: uint64) < 2 ^ 64 - 1 \<Longrightarrow> uint (w + 1) = uint w + 1"
  by (simp add: uint_word_ariths(1) take_bit_int_eq_self)

text \<open>The UTXO set an accepted block proposes satisfies the invariant of its entry.\<close>

lemma accepted_entry:
  assumes pass: "block_passes env now m blk blockid height utxos st"
    and inv: "chain_inv env (m_db m)" and ok: "Block_ok (blk\<lparr>blk_CachedID := None\<rparr>)" and h: "hash_ok env"
  defines "u \<equiv> \<lparr>us_BlockID = blockid, us_UTXOs = bs_utxos st, us_Height = height\<rparr>"
  shows "utxos_ok (us_UTXOs u)" "utxo_total (us_UTXOs u) \<le> (uint height + 1) * BlockRewardBigInt"
    "uint height \<le> blk_Created blk" "parent_ok env (m_db m) blockid u blk"
proof -
  have blk: "blk_Created blk < 2 ^ 63" "0 \<le> blk_Created blk" "list_all HashID_ok (elems (blk_Txids blk))"
    using Block_okD [OF ok] by auto
  have parent: "check_parent env m zero_result blk = Some None"
    and start: "block_start env m zero_result blockid blk = Inr (utxos, height)"
    using pass by (auto simp: block_passes_def)
  have "utxos_ok (us_UTXOs u) \<and> utxo_total (us_UTXOs u) \<le> (uint height + 1) * BlockRewardBigInt \<and>
      uint height \<le> blk_Created blk \<and> parent_ok env (m_db m) blockid u blk"
  proof (cases "blk_Previd blk")
    case None
    then have s: "blockid = genesisHash" "utxos = []" "height = 0" using start by (auto simp: block_start_Inr)
    with block_passes_balance [OF pass _ blk(3) h chain_invD(1) [OF inv]] None blk
    show ?thesis by (simp add: u_def parent_ok_def)
  next
    case (Some p)
    then have p: "HashID_ok p" using Block_okD(3) [OF ok] by simp
    obtain prev where prev: "getObject env (m_db m) p = Inr (BlockObj prev)" "blk_Created prev < blk_Created blk"
      using parent Some by (auto simp: check_parent_None)
    obtain up where up: "getUTXO env (m_db m) p = Inr up" "utxos = us_UTXOs up" "height = us_Height up + 1"
      using start Some by (auto simp: block_start_Inr)
    have e: "entry_ok env (m_db m) p up" by (rule chain_invD(2) [OF inv p up(1)])
    then have le: "uint (us_Height up) \<le> blk_Created prev" and uok: "utxos_ok utxos"
      and tot: "utxo_total utxos \<le> (uint (us_Height up) + 1) * BlockRewardBigInt"
      using prev up by (auto simp: entry_ok_def)
    have "uint (us_Height up) < 2 ^ 63" using le prev(2) blk(1) by linarith
    then have hh: "uint height = uint (us_Height up) + 1"
      unfolding up(3) by (intro uint_succ) simp
    have "utxos_ok (bs_utxos st)" "utxo_total (bs_utxos st) \<le> utxo_total utxos + BlockRewardBigInt"
      using block_passes_balance [OF pass uok blk(3) h chain_invD(1) [OF inv]] by auto
    with tot le prev(2) p up(1,2) Some show ?thesis
      by (auto simp: u_def parent_ok_def hh algebra_simps)
  qed
  then show "utxos_ok (us_UTXOs u)" "utxo_total (us_UTXOs u) \<le> (uint height + 1) * BlockRewardBigInt"
    "uint height \<le> blk_Created blk" "parent_ok env (m_db m) blockid u blk"
    by auto
qed

lemma utxos_ok_rev: "utxos_ok u \<Longrightarrow> utxos_ok (rev u) \<and> utxo_total (rev u) = utxo_total u"
  using gm_sum_perm [of "rev u" u out_Value] by (auto simp: utxos_ok_def gm_wf_def rev_map [symmetric])

text \<open>Writing it under the block's ID, whether or not the write reports success.\<close>

lemma putUTXO_chain:
  assumes l: "ldb_ok env" and put: "putUTXO env d b u = (d', e)" and inv: "chain_inv env d"
    and b: "HashID_ok b" "us_BlockID u = b" and u: "utxos_ok (us_UTXOs u)"
      "utxo_total (us_UTXOs u) \<le> (uint (us_Height u) + 1) * BlockRewardBigInt"
    and blk: "getObject env d b = Inr (BlockObj blk)" "blk_Created blk < 2 ^ 63"
      "uint (us_Height u) \<le> blk_Created blk" "parent_ok env d b u blk"
    and new: "\<And>v. getUTXO env d b \<noteq> Inr v"
  shows "chain_inv env d'"
    and "e = None \<Longrightarrow> \<exists>v. getUTXO env d' b = Inr v \<and> us_Height v = us_Height u"
    and "\<And>k. HashID_ok k \<Longrightarrow> getObject env d' k = getObject env d k" "getChaintip env d' = getChaintip env d"
    and "\<And>k. k \<noteq> b \<Longrightarrow> getUTXO env d' k = getUTXO env d k"
    and "getUTXO env d' b = Inr v \<Longrightarrow> us_Height v = us_Height u"
proof -
  have "UTXOSet_ok u" using b u by (simp add: UTXOSet_ok_iff)
  note eff = putUTXO_effect [OF l put this]
  show obj: "getObject env d' k = getObject env d k" if "HashID_ok k" for k
    by (rule getObject_cong, rule eff(2)) (use HashID_keys(1) [OF that] in metis)
  show tip: "getChaintip env d' = getChaintip env d" by (rule getChaintip_cong, rule eff(2)) simp
  show other: "getUTXO env d' k = getUTXO env d k" if "k \<noteq> b" for k
    by (rule getUTXO_cong, rule eff(2)) (use that in simp)
  have at_b: "v = u\<lparr>us_UTXOs := rev (us_UTXOs u)\<rparr>" if "getUTXO env d' b = Inr v" for v
    using eff(1)
  proof
    assume "e \<noteq> None \<and> ldb_get env (db_db d') = ldb_get env (db_db d)"
    then have "getUTXO env d' b = getUTXO env d b" by (intro getUTXO_cong) simp
    then show ?thesis using that new by metis
  qed (use that in simp)
  show "\<exists>v. getUTXO env d' b = Inr v \<and> us_Height v = us_Height u" if "e = None"
    using eff(1) that by auto
  show "getUTXO env d' b = Inr v \<Longrightarrow> us_Height v = us_Height u" using at_b by auto
  have keep: "getUTXO env d' p = Inr up" if "getUTXO env d p = Inr up" for p up
    using that new other [of p] by metis
  have entry: "entry_ok env d' k v" if k: "HashID_ok k" "getUTXO env d' k = Inr v" for k v
  proof (cases "k = b")
    case True
    have "parent_ok env d b v blk" using at_b k(2) True blk(4) by (auto simp: parent_ok_def utxos_ok_rev u split: option.splits)
    then have "parent_ok env d' b v blk" by (rule parent_ok_cong) (rule keep)
    then show ?thesis
      using at_b k True u b blk obj [OF b(1)] utxos_ok_rev [OF u(1)] by (simp add: entry_ok_def)
  next
    case False
    show ?thesis
      by (rule entry_ok_cong [OF chain_invD(2) [OF inv k(1)]]) (use k other [OF False] obj keep in auto)
  qed
  have "HashID_ok t \<and> (\<exists>v. getUTXO env d' t = Inr v \<and> us_Height v = h)" if "getChaintip env d' = Inr (t, h)" for t h
    using chain_invD(3) [OF inv] that tip keep by metis
  moreover have "HashID_ok k" if "getUTXO env d' k = Inr v" for k v
    using that other [of k] b(1) chain_invD(4) [OF inv, of k] by (cases "k = b") auto
  ultimately show "chain_inv env d'"
    using entry obj chain_invD(1) [OF inv] by (auto simp: chain_inv_def store_outputs_ok_def)
qed

lemma putChaintip_effect:
  assumes l: "ldb_ok env" and put: "putChaintip env d b h = (d', e)" and b: "HashID_ok b"
  shows "getChaintip env d' = Inr (b, h) \<or> e \<noteq> None \<and> getChaintip env d' = getChaintip env d"
    and "\<And>k. k \<noteq> chaintipKey \<Longrightarrow> ldb_get env (db_db d') k = ldb_get env (db_db d) k"
    and "d' = d\<lparr>db_db := db_db d'\<rparr>"
proof -
  have p: "put_key env d chaintipKey (print_json (Chaintip_json \<lparr>ct_BlockID = b, ct_Height = h\<rparr>)) = (d', e)"
    using put by (simp add: putChaintip_def)
  note eff = put_key_either [OF l p]
  show "\<And>k. k \<noteq> chaintipKey \<Longrightarrow> ldb_get env (db_db d') k = ldb_get env (db_db d) k" using eff by auto
  show "d' = d\<lparr>db_db := db_db d'\<rparr>" by (rule put_key_memory [OF p])
  show "getChaintip env d' = Inr (b, h) \<or> e \<noteq> None \<and> getChaintip env d' = getChaintip env d"
    using eff b by (auto simp: getChaintip_def parse_json_print chaintip_codec.dec_enc)
qed

lemma putChaintip_chain:
  assumes l: "ldb_ok env" and put: "putChaintip env d b h = (d', e)" and inv: "chain_inv env d"
    and b: "HashID_ok b" "getUTXO env d b = Inr v" "us_Height v = h"
  shows "chain_inv env d'"
    and "\<And>k. HashID_ok k \<Longrightarrow> getObject env d' k = getObject env d k"
    and "\<And>k. getUTXO env d' k = getUTXO env d k"
proof -
  note eff = putChaintip_effect [OF l put b(1)]
  show obj: "getObject env d' k = getObject env d k" if "HashID_ok k" for k
    by (rule getObject_cong, rule eff(2)) (use HashID_keys(4) [OF that] in metis)
  show utxo: "getUTXO env d' k = getUTXO env d k" for k by (rule getUTXO_cong, rule eff(2)) simp
  have "entry_ok env d' k w" if "HashID_ok k" "getUTXO env d' k = Inr w" for k w
    by (rule entry_ok_cong [OF chain_invD(2) [OF inv that(1)]]) (use that obj utxo in auto)
  moreover have "HashID_ok t \<and> (\<exists>w. getUTXO env d' t = Inr w \<and> us_Height w = g)"
    if "getChaintip env d' = Inr (t, g)" for t g
  proof (cases "getChaintip env d' = Inr (b, h)")
    case True
    then show ?thesis using that b utxo by simp
  next
    case False
    then have "getChaintip env d = Inr (t, g)" using eff(1) that by metis
    then show ?thesis using chain_invD(3) [OF inv] utxo by simp
  qed
  ultimately show "chain_inv env d'"
    using obj chain_invD(1) [OF inv] chain_invD(4) [OF inv]
    by (auto simp: chain_inv_def store_outputs_ok_def utxo)
qed

lemma call_minerCancel_db [simp]: "m_db (call_minerCancel m) = m_db m"
  by (simp add: call_minerCancel_def split: option.splits)

lemma put_pending: "put_key env d k v = (d', e) \<Longrightarrow> db_pendingBlocks d' = db_pendingBlocks d"
  by (auto simp: put_key_def split: prod.splits)

lemma putObject_pending: "putObject env d obj = (d', r) \<Longrightarrow> db_pendingBlocks d' = db_pendingBlocks d"
  by (auto simp: putObject_def dest: put_pending split: option.splits sum.splits prod.splits)

lemma update_tip_chain:
  assumes l: "ldb_ok env" and up: "update_tip env m blk result = Some (m', reorg, e)"
    and inv: "chain_inv env (m_db m)" and b: "HashID_ok (vr_ObjID result)"
      "getUTXO env (m_db m) (vr_ObjID result) = Inr v" "us_Height v = vr_NewHeight result"
  shows "chain_inv env (m_db m')" "db_pendingBlocks (m_db m') = db_pendingBlocks (m_db m)"
    "\<And>k. getUTXO env (m_db m') k = getUTXO env (m_db m) k"
    "e = None \<Longrightarrow> getChaintip env (m_db m') = Inr (vr_ObjID result, vr_NewHeight result)"
proof -
  obtain d e' where p: "putChaintip env (m_db m) (vr_ObjID result) (vr_NewHeight result) = (d, e')"
    by fastforce
  have m': "m_db m' = d" "e = None \<longleftrightarrow> e' = None"
    using up p by (auto simp: update_tip_def split: option.splits prod.splits)
  note c = putChaintip_chain [OF l p inv b]
  show "chain_inv env (m_db m')" using c m' by simp
  show "db_pendingBlocks (m_db m') = db_pendingBlocks (m_db m)"
    using p m' by (auto simp: putChaintip_def dest: put_pending)
  show "\<And>k. getUTXO env (m_db m') k = getUTXO env (m_db m) k" using c m' by simp
  show "e = None \<Longrightarrow> getChaintip env (m_db m') = Inr (vr_ObjID result, vr_NewHeight result)"
    using putChaintip_effect(1) [OF l p b(1)] m' by simp
qed

text \<open>
  \<^verbatim>\<open>ValidateObject\<close> followed by \<^verbatim>\<open>CommitObject\<close>, as \<^verbatim>\<open>acceptObject\<close> calls them for an object that the
  store does not hold.
\<close>

lemma ValidateObject_facts:
  assumes "ValidateObject env now m obj = Some (obj', result)" "object_in env obj"
  shows "object_in env obj'" "uncached obj' = uncached obj"
    and "vr_Error result = None \<Longrightarrow> HashObject env obj' = Inr (vr_ObjID result)"
proof -
  have c: "cache_ok env obj" and t: "typed obj" and b: "\<And>b. obj = BlockObj b \<Longrightarrow> Block_ok (b\<lparr>blk_CachedID := None\<rparr>)"
    using assms(2) by (auto simp: object_in_def)
  have o': "obj' = fst (GetObjectID env obj)"
    using assms(1) by (auto simp: ValidateObject_def split: prod.splits sum.splits option.splits)
  show u: "uncached obj' = uncached obj" unfolding o' by (rule GetObjectID_cache(3) [OF c])
  have "typed obj' = typed (uncached obj')" for obj' by (cases obj') auto
  then have "typed obj'" using t u by metis
  moreover have "Block_ok (b'\<lparr>blk_CachedID := None\<rparr>)" if "obj' = BlockObj b'" for b'
    using u b that by (cases obj) auto
  ultimately show "object_in env obj'"
    using GetObjectID_cache(2) [OF c] by (simp add: object_in_def o')
  have h: "HashObject env obj' = HashObject env obj"
    using u by (metis HashObject_def Object_json_uncached)
  show "HashObject env obj' = Inr (vr_ObjID result)" if "vr_Error result = None"
    using assms(1) that GetObjectID_cache(1) [OF c]
    by (auto simp: ValidateObject_def h split: prod.splits sum.splits option.splits)
qed

lemma ValidateObject_block:
  assumes "ValidateObject env now m obj = Some (BlockObj blk, result)" "vr_Error result = None"
  obtains r oid where "ValidateBlock env now m blk = Some r" "vr_Error r = None"
    "result = r\<lparr>vr_ObjID := oid\<rparr>" "snd (GetObjectID env (BlockObj blk)) = Inr oid"
proof -
  obtain oid where g: "GetObjectID env obj = (BlockObj blk, Inr oid)"
    using assms by (auto simp: ValidateObject_def split: prod.splits sum.splits option.splits)
  then obtain r where r: "ValidateBlock env now m blk = Some r" "result = r\<lparr>vr_ObjID := oid\<rparr>"
    using assms(1) by (auto simp: ValidateObject_def split: option.splits)
  have "Object_ObjID (BlockObj blk) = Some oid"
    using g by (cases obj) (auto simp: GetObjectID_def split: option.splits sum.splits)
  then have "snd (GetObjectID env (BlockObj blk)) = Inr oid" by (simp add: GetObjectID_def)
  with r assms(2) show ?thesis by (intro that [of r oid]) auto
qed

text \<open>The steps of \<^verbatim>\<open>commitBlock\<close> after the UTXO set was written.\<close>

lemma commitBlock_steps:
  assumes "commitBlock env now m blk result = Returns (m', gossip, code, err)"
    and u: "vr_NewUTXOSet result = Some u" and put: "putUTXO env (m_db m) (vr_ObjID result) u = (d, e)"
  obtains (utxo_error) e' where "e = Some e'" "m' = upd_db d m" "err \<noteq> None"
  | (tip_error) reorg where "e = None" "vr_IsNewTip result" "err \<noteq> None"
      "\<exists>e'. update_tip env (upd_db d m) blk result = Some (m', reorg, Some e')"
  | (complete) m1 where "e = None" "err = None" "\<not> vr_IsNewTip result \<Longrightarrow> m1 = upd_db d m"
      "vr_IsNewTip result \<Longrightarrow> \<exists>reorg. update_tip env (upd_db d m) blk result = Some (m1, reorg, None)"
      "ldb_ok env \<Longrightarrow> same_chain env m1 m'"
proof (cases e)
  case (Some e')
  then show ?thesis using assms by (intro utxo_error [of e']) (auto simp: commitBlock_def)
next
  case None
  define t where "t = (if vr_IsNewTip result then update_tip env (upd_db d m) blk result
    else Some (upd_db d m, False, None))"
  obtain m1 reorg e1 where t: "t = Some (m1, reorg, e1)"
    using assms(1) None u put by (cases t) (auto simp: commitBlock_def Let_def t_def [symmetric])
  show ?thesis
  proof (cases e1)
    case (Some e')
    then have "m' = m1" "err \<noteq> None"
      using assms(1) None u put t by (auto simp: commitBlock_def Let_def t_def [symmetric])
    then show ?thesis
      using Some None t by (intro tip_error [of reorg]) (auto simp: t_def split: if_splits)
  next
    case e1: None
    have r: "and_then (if reorg then HandleReorg env now m1 '''' (vr_ObjID result)
          else of_panic (case loop (remove_tx env) (elems (blk_Txids blk)) m1 of
              None \<Rightarrow> None | Some m \<Rightarrow> CleanMempool env m))
        (\<lambda>m. Returns (m, True, E_NONE, None)) = Returns (m', gossip, code, err)"
      using assms(1) None u put t e1 by (simp add: commitBlock_def Let_def t_def [symmetric])
    have same: "same_chain env m1 m'" if "ldb_ok env"
    proof (cases reorg)
      case True
      then show ?thesis using r HandleReorg_same [OF that] by (auto simp: and_then_Returns)
    next
      case False
      then obtain m2 where m2: "loop (remove_tx env) (elems (blk_Txids blk)) m1 = Some m2" "CleanMempool env m2 = Some m'"
        using r by (auto simp: and_then_Returns split: option.splits)
      have "same_chain env m1 m2" by (rule same_chain_loop [OF m2(1)]) (rule remove_tx_same [OF that])
      then show ?thesis using CleanMempool_same [OF m2(2)] by (rule same_chain_trans)
    qed
    show ?thesis
      by (rule complete [of m1]) (use None r t e1 same in \<open>auto simp: t_def and_then_Returns split: if_splits\<close>)
  qed
qed

definition tip_max :: "'d env \<Rightarrow> 'd database \<Rightarrow> bool" where
  "tip_max env d \<longleftrightarrow> (\<forall>b u. HashID_ok b \<longrightarrow> getUTXO env d b = Inr u \<longrightarrow>
     (\<exists>t h. getChaintip env d = Inr (t, h) \<and> us_Height u \<le> h))"

lemma tip_max_eq: "chain_eq env d d' \<Longrightarrow> tip_max env d \<Longrightarrow> tip_max env d'"
  using chain_eq_get(2,3) [of env d d'] by (simp add: tip_max_def)

lemma commit_block_chain:
  assumes l: "ldb_ok env" and h: "hash_ok env" and inv: "chain_inv env (m_db m)"
    and pass: "block_passes env now m blk oid height utxos st" and ok: "Block_ok (blk\<lparr>blk_CachedID := None\<rparr>)"
    and res: "vr_ObjID result = oid" "vr_NewHeight result = height"
      "vr_NewUTXOSet result = Some \<lparr>us_BlockID = oid, us_UTXOs = bs_utxos st, us_Height = height\<rparr>"
    and oid: "HashObject env (BlockObj blk) = Inr oid"
    and new: "\<And>v. ldb_get env (db_db (m_db m)) oid \<noteq> Inr v"
    and put: "putObject env (m_db m) (BlockObj blk) = (d1, Inr oid)"
    and com: "commitBlock env now' (upd_db d1 m) blk result = Returns (m', gossip, code, err)"
  shows "chain_inv env (m_db m')" "db_pendingBlocks (m_db m') = db_pendingBlocks (m_db m)"
    and "err = None \<Longrightarrow> tip_max env (m_db m) \<Longrightarrow>
      vr_IsNewTip result = (case GetChaintip env m of Inl _ \<Rightarrow> True | Inr (_, h) \<Rightarrow> h < height) \<Longrightarrow>
      tip_max env (m_db m')"
proof -
  define u where "u = \<lparr>us_BlockID = oid, us_UTXOs = bs_utxos st, us_Height = height\<rparr>"
  have oidok: "HashID_ok oid" using HashObject_ok [OF h oid] by simp
  have "typed (BlockObj blk)" using ok by (simp add: Block_ok_def)
  note po = putObject_chain [OF l h put this inv oid new]
  note acc = accepted_entry [OF pass inv ok h, folded u_def]
  have obj: "getObject env d1 oid = Inr (BlockObj (blk\<lparr>blk_CachedID := None\<rparr>))"
    using po(2) decodeObject_json [of "BlockObj blk"] ok by (simp add: getObject_def)
  have par: "parent_ok env d1 oid u (blk\<lparr>blk_CachedID := None\<rparr>)"
    using parent_ok_cong [OF acc(4), of d1] po(4) by (simp add: parent_ok_def)
  have nou: "getUTXO env d1 oid \<noteq> Inr v" for v using po(4,6) by simp
  have prems: "us_BlockID u = oid" "utxo_total (us_UTXOs u) \<le> (uint (us_Height u) + 1) * BlockRewardBigInt"
    "blk_Created (blk\<lparr>blk_CachedID := None\<rparr>) < 2 ^ 63"
    "uint (us_Height u) \<le> blk_Created (blk\<lparr>blk_CachedID := None\<rparr>)"
    using acc Block_okD(1) [OF ok] by (simp_all add: u_def)
  obtain d2 e where pu: "putUTXO env d1 oid u = (d2, e)" by fastforce
  note pc = putUTXO_chain [OF l pu po(1) oidok prems(1) acc(1) prems(2) obj prems(3,4) par nou]
  have pend: "db_pendingBlocks d2 = db_pendingBlocks (m_db m)"
    using putObject_pending [OF put] put_pending [OF pu [unfolded putUTXO_def]] by simp
  have put': "putUTXO env (m_db (upd_db d1 m)) (vr_ObjID result) u = (d2, e)" using pu res by simp
  have max2: "us_Height w \<le> hh" if "tip_max env (m_db m)" "getChaintip env (m_db m) = Inr (t, hh)"
      "height \<le> hh" "HashID_ok b" "getUTXO env d2 b = Inr w" for b w t hh
  proof (cases "b = oid")
    case True
    then show ?thesis using pc(6) that by (auto simp: u_def)
  next
    case False
    then have "getUTXO env (m_db m) b = Inr w" using that pc(5) po(4) by simp
    then show ?thesis using that unfolding tip_max_def by fastforce
  qed
  show inv': "chain_inv env (m_db m')"
    using com res(3) [folded u_def] put'
  proof (cases rule: commitBlock_steps)
    case (utxo_error e')
    then show ?thesis using pc(1) by simp
  next
    case (tip_error reorg)
    then obtain v e' where "getUTXO env d2 oid = Inr v" "us_Height v = height"
      "update_tip env (upd_db d2 (upd_db d1 m)) blk result = Some (m', reorg, Some e')"
      using pc(2) by (auto simp: u_def)
    then show ?thesis using update_tip_chain(1) [OF l, of "upd_db d2 (upd_db d1 m)"] pc(1) oidok res by simp
  next
    case (complete m1)
    obtain v where v: "getUTXO env d2 oid = Inr v" "us_Height v = height" using pc(2) complete by (auto simp: u_def)
    have "chain_inv env (m_db m1)"
    proof (cases "vr_IsNewTip result")
      case True
      then obtain reorg where "update_tip env (upd_db d2 (upd_db d1 m)) blk result = Some (m1, reorg, None)"
        using complete by auto
      then show ?thesis using update_tip_chain(1) [OF l] pc(1) oidok v res by simp
    next
      case False
      then show ?thesis using complete pc(1) by simp
    qed
    then show ?thesis using complete(5) [OF l] by (auto simp: same_chain_def intro: chain_inv_eq)
  qed
  show "db_pendingBlocks (m_db m') = db_pendingBlocks (m_db m)"
    using com res(3) [folded u_def] put'
  proof (cases rule: commitBlock_steps)
    case (utxo_error e')
    then show ?thesis using pend by simp
  next
    case (tip_error reorg)
    then obtain v e' where "getUTXO env d2 oid = Inr v" "us_Height v = height"
      "update_tip env (upd_db d2 (upd_db d1 m)) blk result = Some (m', reorg, Some e')"
      using pc(2) by (auto simp: u_def)
    then show ?thesis using update_tip_chain(2) [OF l, of "upd_db d2 (upd_db d1 m)"] pc(1) oidok res pend by simp
  next
    case (complete m1)
    obtain v where v: "getUTXO env d2 oid = Inr v" "us_Height v = height" using pc(2) complete by (auto simp: u_def)
    have "db_pendingBlocks (m_db m1) = db_pendingBlocks d2"
    proof (cases "vr_IsNewTip result")
      case True
      then obtain reorg where "update_tip env (upd_db d2 (upd_db d1 m)) blk result = Some (m1, reorg, None)"
        using complete by auto
      then show ?thesis using update_tip_chain(2) [OF l] pc(1) oidok v res by simp
    next
      case False
      then show ?thesis using complete by simp
    qed
    then show ?thesis using complete(5) [OF l] pend by (simp add: same_chain_def)
  qed
  show "tip_max env (m_db m')" if "err = None" "tip_max env (m_db m)"
    "vr_IsNewTip result = (case GetChaintip env m of Inl _ \<Rightarrow> True | Inr (_, h) \<Rightarrow> h < height)"
  proof -
    note hyp = that
    show ?thesis
    using com res(3) [folded u_def] put'
  proof (cases rule: commitBlock_steps)
    case (complete m1)
    obtain v where v: "getUTXO env d2 oid = Inr v" "us_Height v = height" using pc(2) complete by (auto simp: u_def)
    have "tip_max env (m_db m1)"
    proof (cases "vr_IsNewTip result")
      case True
      then obtain reorg where u1: "update_tip env (upd_db d2 (upd_db d1 m)) blk result = Some (m1, reorg, None)"
        using complete by auto
      have g: "getUTXO env (m_db m1) k = getUTXO env d2 k" for k
        using update_tip_chain(3) [OF l u1] pc(1) oidok v res by simp
      have t: "getChaintip env (m_db m1) = Inr (oid, height)"
        using update_tip_chain(4) [OF l u1] pc(1) oidok v res by simp
      have "us_Height w \<le> height" if w: "HashID_ok b" "getUTXO env d2 b = Inr w" for b w
      proof (cases "b = oid")
        case True
        then show ?thesis using v w by simp
      next
        case False
        then have "getUTXO env (m_db m) b = Inr w" using w pc(5) po(4) by simp
        then obtain t hh where "getChaintip env (m_db m) = Inr (t, hh)" "us_Height w \<le> hh"
          using hyp(2) w unfolding tip_max_def by blast
        moreover from this have "GetChaintip env m = Inr (t, hh)" by (simp add: GetChaintip_Inr)
        ultimately show ?thesis using True hyp(3) by simp
      qed
      then show ?thesis using g t by (simp add: tip_max_def)
    next
      case False
      then obtain t hh where t: "GetChaintip env m = Inr (t, hh)" "height \<le> hh"
        using hyp(3) by (auto split: sum.splits)
      then have "getChaintip env (m_db m) = Inr (t, hh)" by (simp add: GetChaintip_Inr)
      moreover from this have "getChaintip env d2 = Inr (t, hh)" using pc(4) po(5) by simp
      ultimately show ?thesis using max2 [OF hyp(2)] t complete False by (auto simp: tip_max_def)
    qed
    then show ?thesis using complete(5) [OF l] by (auto simp: same_chain_def intro: tip_max_eq)
  qed (use hyp in auto)
  qed
qed

lemma CommitObject_chain:
  assumes l: "ldb_ok env" and h: "hash_ok env" and inv: "chain_inv env (m_db m)"
    and obj0: "object_in env obj0" and val: "ValidateObject env now m obj0 = Some (obj, result)"
    and ok: "vr_Error result = None"
    and new: "\<And>v. ldb_get env (db_db (m_db m)) (vr_ObjID result) \<noteq> Inr v"
    and com: "CommitObject env now' m obj result = Returns (m', gossip, code, err)"
  shows "chain_inv env (m_db m')" "db_pendingBlocks (m_db m') = db_pendingBlocks (m_db m)"
    and "err = None \<Longrightarrow> tip_max env (m_db m) \<Longrightarrow> tip_max env (m_db m')"
proof -
  note facts = ValidateObject_facts [OF val obj0]
  have oid: "HashObject env obj = Inr (vr_ObjID result)" using facts(3) ok by simp
  have ty: "typed obj" using facts(1) by (simp add: object_in_def)
  obtain d1 r where put: "putObject env (m_db m) obj = (d1, r)" by fastforce
  note po = putObject_chain [OF l h put ty inv oid new]
  have pend: "db_pendingBlocks d1 = db_pendingBlocks (m_db m)" by (rule putObject_pending [OF put])
  have tip1: "tip_max env d1" if "tip_max env (m_db m)" using that po(4,5) by (simp add: tip_max_def)
  have "chain_inv env (m_db m') \<and> db_pendingBlocks (m_db m') = db_pendingBlocks (m_db m) \<and>
      (err = None \<longrightarrow> tip_max env (m_db m) \<longrightarrow> tip_max env (m_db m'))"
  proof (cases r)
    case (Inl e)
    then have "m' = upd_db d1 m" using com put by (simp add: CommitObject_def)
    then show ?thesis using po(1) pend tip1 by simp
  next
    case (Inr oid')
    then have oid': "oid' = vr_ObjID result" using putObject_effect(4) [OF l put] oid by simp
    show ?thesis
    proof (cases obj)
      case (TxObj tx)
      then have "commitTransaction env now' (upd_db d1 m) tx result = Returns (m', gossip, code, err)"
        using com put Inr by (simp add: CommitObject_def)
      from commitTransaction_same [OF l this]
      have s: "chain_eq env d1 (m_db m')" "db_pendingBlocks (m_db m') = db_pendingBlocks d1"
        by (simp_all add: same_chain_def)
      then show ?thesis using chain_inv_eq po(1) pend tip1 tip_max_eq by metis
    next
      case (CoinbaseObj c)
      then have "m' = upd_db d1 m" using com put Inr by (simp add: CommitObject_def)
      then show ?thesis using po(1) pend tip1 by simp
    next
      case (BlockObj blk)
      have com': "commitBlock env now' (upd_db d1 m) blk result = Returns (m', gossip, code, err)"
        using com put Inr BlockObj by (simp add: CommitObject_def)
      obtain r oid1 where r: "ValidateBlock env now m blk = Some r" "vr_Error r = None"
        "result = r\<lparr>vr_ObjID := oid1\<rparr>" "snd (GetObjectID env (BlockObj blk)) = Inr oid1"
        using val ok unfolding BlockObj by (rule ValidateObject_block)
      obtain blockid height utxos st where pass: "block_passes env now m blk blockid height utxos st"
        and r': "r = zero_result\<lparr>
          vr_NewUTXOSet := Some \<lparr>us_BlockID = blockid, us_UTXOs = bs_utxos st, us_Height = height\<rparr>,
          vr_NewHeight := height,
          vr_IsNewTip := (case GetChaintip env m of Inl _ \<Rightarrow> True | Inr (_, h) \<Rightarrow> h < height)\<rparr>"
        using r(1,2) by (rule ValidateBlock_accept)
      have b: "blockid = vr_ObjID result" using pass r(3,4) by (simp add: block_passes_def)
      have bok: "Block_ok (blk\<lparr>blk_CachedID := None\<rparr>)" using facts(1) BlockObj by (simp add: object_in_def)
      have res: "vr_NewHeight result = height"
        "vr_NewUTXOSet result = Some \<lparr>us_BlockID = vr_ObjID result, us_UTXOs = bs_utxos st, us_Height = height\<rparr>"
        "vr_IsNewTip result = (case GetChaintip env m of Inl _ \<Rightarrow> True | Inr (_, h) \<Rightarrow> h < height)"
        unfolding b [symmetric] by (simp_all add: r(3) r')
      show ?thesis
        using commit_block_chain [OF l h inv pass [unfolded b] bok refl res(1,2) oid [unfolded BlockObj] new
            put [unfolded BlockObj Inr oid'] com'] res(3) by blast
    qed
  qed
  then show "chain_inv env (m_db m')" "db_pendingBlocks (m_db m') = db_pendingBlocks (m_db m)"
    "err = None \<Longrightarrow> tip_max env (m_db m) \<Longrightarrow> tip_max env (m_db m')"
    by blast+
qed

section \<open>Walks over the chain\<close>

record MiningStats =
  ms_BlocksMined :: nat
  ms_TotalReward :: Picabu

text \<open>What one block adds to the statistics of a key.\<close>

definition count_block :: "'d env \<Rightarrow> 'd Manager \<Rightarrow> HashID \<Rightarrow> Block \<Rightarrow> MiningStats \<Rightarrow> MiningStats" where
  "count_block env m targetPubkey blk stats = (case elems (blk_Txids blk) of
     [] \<Rightarrow> stats
   | txid # _ \<Rightarrow> (case GetObject env m txid of
       Inr (CoinbaseObj cbTx) \<Rightarrow> (case elems (cb_Outputs cbTx) of
           [] \<Rightarrow> stats
         | output # _ \<Rightarrow>
             if out_Pubkey output = targetPubkey then
               \<lparr>ms_BlocksMined = ms_BlocksMined stats + 1,
                ms_TotalReward = Picabu_Add (ms_TotalReward stats) (out_Value output)\<rparr>
             else stats)
     | _ \<Rightarrow> stats))"

text \<open>The loop of \<^verbatim>\<open>GetMiningHistory\<close>; \<open>None\<close> when it never ends.\<close>

partial_function (option) history_walk ::
  "'d env \<Rightarrow> 'd Manager \<Rightarrow> HashID \<Rightarrow> HashID \<Rightarrow> MiningStats \<Rightarrow> (MiningStats \<times> error option) option" where
  "history_walk env m targetPubkey currHash stats = (case GetObject env m currHash of
     Inl _ \<Rightarrow> Some (stats, Some (Errorf ''chain broken''))
   | Inr (BlockObj blk) \<Rightarrow>
       (case blk_Previd blk of
          None \<Rightarrow> Some (count_block env m targetPubkey blk stats, None)
        | Some p \<Rightarrow> history_walk env m targetPubkey p (count_block env m targetPubkey blk stats))
   | Inr _ \<Rightarrow> Some (stats, Some (Errorf ''object is not a block'')))"

definition GetMiningHistory :: "'d env \<Rightarrow> 'd Manager \<Rightarrow> HashID \<Rightarrow> (MiningStats \<times> error option) option" where
  "GetMiningHistory env m targetPubkey =
     (let stats = \<lparr>ms_BlocksMined = 0, ms_TotalReward = NewPicabu 0\<rparr>
      in case GetChaintip env m of
        Inl _ \<Rightarrow> Some (stats, Some (Errorf ''could not find chaintip (is the node synced?)''))
      | Inr (tip, _) \<Rightarrow> history_walk env m targetPubkey tip stats)"

lemma entry_block:
  assumes "chain_inv env d" "HashID_ok b" "getUTXO env d b = Inr u"
  obtains blk where "getObject env d b = Inr (BlockObj blk)" "parent_ok env d b u blk"
  using chain_invD(2) [OF assms] by (auto simp: entry_ok_def)

lemma count_block_le: "ms_BlocksMined (count_block env m k blk s) \<le> ms_BlocksMined s + 1"
  by (auto simp: count_block_def split: list.splits sum.splits Object.splits)

lemma unat_succ: "uint (u :: uint64) = uint v + 1 \<Longrightarrow> unat u = Suc (unat v)"
  unfolding uint_nat by linarith

lemma parent_ok_cases:
  assumes "parent_ok env d b u blk"
  obtains (genesis) "blk_Previd blk = None" "b = genesisHash" "us_Height u = 0"
  | (child) p up where "blk_Previd blk = Some p" "HashID_ok p" "getUTXO env d p = Inr up"
      "unat (us_Height u) = Suc (unat (us_Height up))"
  using assms unat_succ by (auto simp: parent_ok_def split: option.splits)

lemma history_walk_ends:
  assumes inv: "chain_inv env (m_db m)"
  shows "HashID_ok b \<Longrightarrow> getUTXO env (m_db m) b = Inr u \<Longrightarrow>
    \<exists>s. history_walk env m k b s0 = Some (s, None) \<and>
      ms_BlocksMined s \<le> ms_BlocksMined s0 + unat (us_Height u) + 1"
proof (induction "unat (us_Height u)" arbitrary: b u s0 rule: less_induct)
  case less
  obtain blk where blk: "getObject env (m_db m) b = Inr (BlockObj blk)" "parent_ok env (m_db m) b u blk"
    using entry_block [OF inv less.prems] by blast
  have get: "GetObject env m b = Inr (BlockObj blk)" using blk by (simp add: GetObject_Inr)
  let ?s = "count_block env m k blk s0"
  have le: "ms_BlocksMined ?s \<le> ms_BlocksMined s0 + 1" by (rule count_block_le)
  from blk(2) show ?case
  proof (cases rule: parent_ok_cases)
    case genesis
    from genesis(1) have "history_walk env m k b s0 = Some (?s, None)"
      by (subst history_walk.simps) (simp add: get)
    then show ?thesis using le by simp
  next
    case (child p up)
    from less.hyps [OF _ child(2,3), of ?s] obtain s where s: "history_walk env m k p ?s = Some (s, None)"
      "ms_BlocksMined s \<le> ms_BlocksMined ?s + unat (us_Height up) + 1" using child(4) by auto
    have "history_walk env m k b s0 = history_walk env m k p ?s"
      by (subst history_walk.simps) (simp add: get child(1))
    with s child(4) le show ?thesis by auto
  qed
qed

text \<open>\<open>branch env m a xs c\<close>: the blocks from \<open>a\<close> down to the last one before \<open>c\<close>, each followed by its parent.\<close>

fun branch :: "'d env \<Rightarrow> 'd Manager \<Rightarrow> HashID \<Rightarrow> HashID list \<Rightarrow> HashID \<Rightarrow> bool" where
  "branch env m a [] c = (a = c)"
| "branch env m a (x # xs) c = (x = a \<and> (case parent_of env m a of None \<Rightarrow> False | Some p \<Rightarrow> branch env m p xs c))"

text \<open>A block with a UTXO set of at most a height.\<close>

definition shallow :: "'d env \<Rightarrow> 'd Manager \<Rightarrow> nat \<Rightarrow> HashID \<Rightarrow> bool" where
  "shallow env m k x \<longleftrightarrow> (\<exists>u. getUTXO env (m_db m) x = Inr u \<and> unat (us_Height u) \<le> k)"

lemma shallow_le: "shallow env m k x \<Longrightarrow> k \<le> k' \<Longrightarrow> shallow env m k' x"
  by (auto simp: shallow_def)

lemma shallow_above: "shallow env m k x \<Longrightarrow> getUTXO env (m_db m) a = Inr u \<Longrightarrow> k < unat (us_Height u) \<Longrightarrow> x \<noteq> a"
  by (auto simp: shallow_def)

text \<open>
  What the walk adds to its lists: the two branches down to the first common block \<open>c\<close>. No block is on
  both, and \<open>c\<close> is on neither.
\<close>

lemma reorg_walk_branches:
  assumes inv: "chain_inv env (m_db m)"
  shows "HashID_ok a \<Longrightarrow> HashID_ok b \<Longrightarrow> getUTXO env (m_db m) a = Inr u \<Longrightarrow> getUTXO env (m_db m) b = Inr v \<Longrightarrow>
    \<exists>xs ys c. reorg_walk env m a b dead new = Some (WalkDone (dead @ xs) (new @ ys)) \<and>
      branch env m a xs c \<and> branch env m b ys c \<and> distinct (xs @ ys @ [c]) \<and>
      (\<forall>x \<in> set (c # xs). shallow env m (unat (us_Height u)) x) \<and> (\<forall>y \<in> set (c # ys). shallow env m (unat (us_Height v)) y)"
proof (induction "unat (us_Height u) + unat (us_Height v)" arbitrary: a b u v dead new rule: less_induct)
  case less
  have here: "shallow env m (unat (us_Height u)) a" "shallow env m (unat (us_Height v)) b"
    using less.prems(3,4) by (auto simp: shallow_def)
  show ?case
  proof (cases "a = b")
    case True
    then have "reorg_walk env m a b dead new = Some (WalkDone (dead @ []) (new @ []))"
      by (subst reorg_walk.simps) simp
    then show ?thesis using True here by (intro exI [of _ "[]"] exI [of _ b]) simp
  next
    case False
    obtain ba where ba: "getObject env (m_db m) a = Inr (BlockObj ba)" "parent_ok env (m_db m) a u ba"
      using entry_block [OF inv less.prems(1,3)] by blast
    obtain bb where bb: "getObject env (m_db m) b = Inr (BlockObj bb)" "parent_ok env (m_db m) b v bb"
      using entry_block [OF inv less.prems(2,4)] by blast
    have gu: "GetUTXO env m a = Inr u" "GetUTXO env m b = Inr v"
      using less.prems by (simp_all add: GetUTXO_Inr)
    have pa: "parent_of env m a = blk_Previd ba" "parent_of env m b = blk_Previd bb"
      using ba bb by (simp_all add: parent_of_def GetObject_Inr [THEN iffD2])
    consider (gt) "us_Height v < us_Height u" | (lt) "us_Height u < us_Height v" | (eq) "us_Height u = us_Height v"
      by fastforce
    then show ?thesis
    proof cases
      case gt
      then have "us_Height u \<noteq> 0" by (metis word_not_simps(1))
      with ba(2) obtain p up where p: "blk_Previd ba = Some p" "HashID_ok p" "getUTXO env (m_db m) p = Inr up"
        "unat (us_Height u) = Suc (unat (us_Height up))" by (auto elim: parent_ok_cases)
      have step: "reorg_walk env m a b dead new = reorg_walk env m p b (dead @ [a]) new"
        using gt False gu pa p(1) by (subst reorg_walk.simps) simp
      obtain xs ys c where w: "reorg_walk env m p b (dead @ [a]) new = Some (WalkDone ((dead @ [a]) @ xs) (new @ ys))"
        "branch env m p xs c" "branch env m b ys c" "distinct (xs @ ys @ [c])"
        "\<forall>x \<in> set (c # xs). shallow env m (unat (us_Height up)) x" "\<forall>y \<in> set (c # ys). shallow env m (unat (us_Height v)) y"
        using less.hyps [OF _ p(2) less.prems(2) p(3) less.prems(4), of "dead @ [a]" new] p(4) by auto
      have "unat (us_Height v) < unat (us_Height u)" using gt by (simp add: word_less_nat_alt)
      then have "a \<notin> set (c # xs) \<union> set (c # ys)"
        using w(5,6) shallow_above [OF _ less.prems(3)] p(4) by (metis UnE lessI)
      then show ?thesis
        using step w p(1,4) pa(1) here(1) shallow_le [of env m "unat (us_Height up)" _ "unat (us_Height u)"]
        by (intro exI [of _ "a # xs"] exI [of _ ys] exI [of _ c]) auto
    next
      case lt
      then have "us_Height v \<noteq> 0" by (metis word_not_simps(1))
      with bb(2) obtain p up where p: "blk_Previd bb = Some p" "HashID_ok p" "getUTXO env (m_db m) p = Inr up"
        "unat (us_Height v) = Suc (unat (us_Height up))" by (auto elim: parent_ok_cases)
      have step: "reorg_walk env m a b dead new = reorg_walk env m a p dead (new @ [b])"
        using lt False gu pa p(1) by (subst reorg_walk.simps) (auto dest: order.asym)
      obtain xs ys c where w: "reorg_walk env m a p dead (new @ [b]) = Some (WalkDone (dead @ xs) ((new @ [b]) @ ys))"
        "branch env m a xs c" "branch env m p ys c" "distinct (xs @ ys @ [c])"
        "\<forall>x \<in> set (c # xs). shallow env m (unat (us_Height u)) x" "\<forall>y \<in> set (c # ys). shallow env m (unat (us_Height up)) y"
        using less.hyps [OF _ less.prems(1) p(2) less.prems(3) p(3), of dead "new @ [b]"] p(4) by auto
      have "unat (us_Height u) < unat (us_Height v)" using lt by (simp add: word_less_nat_alt)
      then have "b \<notin> set (c # xs) \<union> set (c # ys)"
        using w(5,6) shallow_above [OF _ less.prems(4)] p(4) by (metis UnE lessI)
      then show ?thesis
        using step w p(1,4) pa(2) here(2) shallow_le [of env m "unat (us_Height up)" _ "unat (us_Height v)"]
        by (intro exI [of _ xs] exI [of _ "b # ys"] exI [of _ c]) auto
    next
      case eq
      have "us_Height u \<noteq> 0"
      proof
        assume "us_Height u = 0"
        then have "a = genesisHash" "b = genesisHash"
          using ba(2) bb(2) eq by (auto elim: parent_ok_cases)
        with False show False by simp
      qed
      with ba(2) obtain p up where p: "blk_Previd ba = Some p" "HashID_ok p" "getUTXO env (m_db m) p = Inr up"
          "unat (us_Height u) = Suc (unat (us_Height up))" by (auto elim: parent_ok_cases)
      from \<open>us_Height u \<noteq> 0\<close> eq bb(2) obtain q uq where q: "blk_Previd bb = Some q" "HashID_ok q"
          "getUTXO env (m_db m) q = Inr uq" "unat (us_Height v) = Suc (unat (us_Height uq))"
        by (auto elim: parent_ok_cases)
      have step: "reorg_walk env m a b dead new = reorg_walk env m p q (dead @ [a]) (new @ [b])"
        using eq False gu pa p(1) q(1) by (subst reorg_walk.simps) simp
      obtain xs ys c where w: "reorg_walk env m p q (dead @ [a]) (new @ [b]) =
          Some (WalkDone ((dead @ [a]) @ xs) ((new @ [b]) @ ys))"
        "branch env m p xs c" "branch env m q ys c" "distinct (xs @ ys @ [c])"
        "\<forall>x \<in> set (c # xs). shallow env m (unat (us_Height up)) x" "\<forall>y \<in> set (c # ys). shallow env m (unat (us_Height uq)) y"
        using less.hyps [OF _ p(2) q(2) p(3) q(3), of "dead @ [a]" "new @ [b]"] p(4) q(4) by auto
      have h: "unat (us_Height up) < unat (us_Height u)" "unat (us_Height uq) < unat (us_Height u)"
        "unat (us_Height up) < unat (us_Height v)" "unat (us_Height uq) < unat (us_Height v)"
        using p(4) q(4) eq by simp_all
      then have "a \<notin> set (c # xs) \<union> set (c # ys)" "b \<notin> set (c # xs) \<union> set (c # ys)"
        using w(5,6) shallow_above [OF _ less.prems(3)] shallow_above [OF _ less.prems(4)] by (metis UnE)+
      then show ?thesis
        using step w p(1,4) q(1,4) pa False here
          shallow_le [of env m "unat (us_Height up)" _ "unat (us_Height u)"]
          shallow_le [of env m "unat (us_Height uq)" _ "unat (us_Height v)"]
        by (intro exI [of _ "a # xs"] exI [of _ "b # ys"] exI [of _ c]) auto
    qed
  qed
qed

section \<open>A reorganisation as \<^verbatim>\<open>commitBlock\<close> calls it\<close>

text \<open>
  The old tip that \<open>HandleReorg\<close> gets is the empty string, which names no UTXO set: nothing happens.
\<close>

lemma HandleReorg_empty:
  assumes "\<And>u. getUTXO env (m_db m) [] \<noteq> Inr u" "newTip \<noteq> []"
  shows "HandleReorg env now m [] newTip = Returns m"
proof -
  have "reorg_walk env m [] newTip [] [] = Some WalkMissing"
    using assms GetUTXO_Inr [of env m "[]"] by (subst reorg_walk.simps) (auto split: sum.splits)
  then show ?thesis by (simp add: HandleReorg_def)
qed

lemma commitBlock_reorg:
  assumes l: "ldb_ok env" and no: "\<And>u. getUTXO env (m_db m) [] \<noteq> Inr u" and oid: "vr_ObjID result \<noteq> []"
    and tip: "vr_IsNewTip result" "blk_Previd blk = Some p" "GetChaintip env m = Inr (old, h)" "old \<noteq> p"
    and c: "commitBlock env now m blk result = Returns (m', r)"
  shows "db_mempool (m_db m') = db_mempool (m_db m) \<and> db_mempoolSpentInputs (m_db m') = db_mempoolSpentInputs (m_db m)"
proof -
  obtain d e where d: "(case vr_NewUTXOSet result of None \<Rightarrow> (m_db m, None)
      | Some utxos \<Rightarrow> putUTXO env (m_db m) (vr_ObjID result) utxos) = (d, e)" by fastforce
  have d': "ldb_get env (db_db d) k = ldb_get env (db_db (m_db m)) k" if "k \<noteq> utxoKey (vr_ObjID result)" for k
    using d put_key_other(1) [OF l _ that] by (auto simp: putUTXO_def split: option.splits)
  have mem: "db_mempool d = db_mempool (m_db m)" "db_mempoolSpentInputs d = db_mempoolSpentInputs (m_db m)"
    using d put_key_other(2,3) [OF l] by (auto simp: putUTXO_def split: option.splits)
  obtain d2 e2 where d2: "putChaintip env d (vr_ObjID result) (vr_NewHeight result) = (d2, e2)" by fastforce
  have mem2: "db_mempool d2 = db_mempool d" "db_mempoolSpentInputs d2 = db_mempoolSpentInputs d"
    using d2 put_key_other(2,3) [OF l] by (auto simp: putChaintip_def)
  have "GetChaintip env (upd_db d m) = Inr (old, h)"
    using tip(3) d' [of chaintipKey] getChaintip_cong [of env d "m_db m"] by (simp add: GetChaintip_Inr)
  then have up: "update_tip env (upd_db d m) blk result =
      (case e2 of Some _ \<Rightarrow> Some (upd_db d2 m, True, Some (Errorf ''failed to update chaintip''))
       | None \<Rightarrow> Some (call_minerCancel (upd_db d2 m), True, None))"
    using tip(2,4) d2 by (auto simp: update_tip_def upd_db_def split: option.splits)
  have "getUTXO env d2 [] = getUTXO env (m_db m) []"
    using d2 put_key_other(1) [OF l, of d chaintipKey _ d2 e2 "utxoKey []"] d' [of "utxoKey []"] oid
    by (intro getUTXO_cong) (auto simp: putChaintip_def)
  then have re: "HandleReorg env now (call_minerCancel (upd_db d2 m)) [] (vr_ObjID result) =
      Returns (call_minerCancel (upd_db d2 m))"
    using no oid by (intro HandleReorg_empty) simp_all
  show ?thesis
    using c d up re tip(1) mem mem2
    by (cases e; cases e2) (auto simp: commitBlock_def Let_def)
qed

text \<open>With an empty old tip the search for the ancestor stops at once, so a commit never loops.\<close>

lemma of_panic_no_loop [simp]: "of_panic x \<noteq> Loops"
  by (simp add: of_panic_def split: option.splits)

lemma update_tip_utxo:
  assumes "ldb_ok env" "update_tip env m blk result = Some (m', b, e)"
  shows "getUTXO env (m_db m') k = getUTXO env (m_db m) k"
proof -
  obtain d e' where p: "putChaintip env (m_db m) (vr_ObjID result) (vr_NewHeight result) = (d, e')" by fastforce
  have "m_db m' = d" using assms(2) p by (auto simp: update_tip_def split: option.splits)
  moreover have "ldb_get env (db_db d) (utxoKey k) = ldb_get env (db_db (m_db m)) (utxoKey k)"
    using p put_key_other(1) [OF assms(1)] by (auto simp: putChaintip_def)
  ultimately show ?thesis by (intro getUTXO_cong) simp
qed

lemma commitBlock_no_loop:
  assumes l: "ldb_ok env" and no: "\<And>u. getUTXO env (m_db m) [] \<noteq> Inr u" and oid: "vr_ObjID result \<noteq> []"
  shows "commitBlock env now m blk result \<noteq> Loops"
proof -
  obtain d e where d: "(case vr_NewUTXOSet result of None \<Rightarrow> (m_db m, None)
      | Some utxos \<Rightarrow> putUTXO env (m_db m) (vr_ObjID result) utxos) = (d, e)" by fastforce
  have "ldb_get env (db_db d) (utxoKey []) = ldb_get env (db_db (m_db m)) (utxoKey [])"
    using d put_key_other(1) [OF l, of _ _ _ _ _ "utxoKey []"] oid by (auto simp: putUTXO_def split: option.splits)
  then have no1: "getUTXO env d [] \<noteq> Inr u" for u using no getUTXO_cong by metis
  let ?up = "if vr_IsNewTip result then update_tip env (upd_db d m) blk result else Some (upd_db d m, False, None)"
  have "HandleReorg env now m1 [] (vr_ObjID result) \<noteq> Loops" if "?up = Some (m1, b, None)" for m1 b
  proof -
    have "getUTXO env (m_db m1) [] \<noteq> Inr u" for u
      using that update_tip_utxo [OF l, of "upd_db d m" blk result m1 b None "[]"] no1 by (auto split: if_splits)
    then show ?thesis using HandleReorg_empty oid by (metis outcome.distinct(3))
  qed
  then show ?thesis
    using d by (cases e) (auto simp: commitBlock_def Let_def split: option.splits if_splits prod.splits elim!: and_then.elims)
qed

lemma commitTransaction_no_loop: "commitTransaction env now m tx result \<noteq> Loops"
  by (simp add: commitTransaction_def Let_def split: prod.splits option.splits)

lemma CommitObject_no_loop:
  assumes l: "ldb_ok env" and h: "hash_ok env" and inv: "chain_inv env (m_db m)" and oid: "HashID_ok (vr_ObjID result)"
  shows "CommitObject env now m obj result \<noteq> Loops"
proof -
  obtain d r where p: "putObject env (m_db m) obj = (d, r)" by fastforce
  show ?thesis
  proof (cases r)
    case (Inr oid')
    have hid: "HashObject env obj = Inr oid'" using putObject_effect(4) [OF l p] Inr by simp
    then have "utxoKey [] \<noteq> oid'" using HashObject_ok [OF h hid] HashID_keys(1) by metis
    then have "getUTXO env d [] = getUTXO env (m_db m) []"
      using putObject_effect(2) [OF l p hid] by (intro getUTXO_cong) simp
    then have "getUTXO env (m_db (upd_db d m)) [] \<noteq> Inr u" for u
      using chain_invD(4) [OF inv, of "[]" u] by (auto simp: HashID_ok_def)
    moreover have "vr_ObjID result \<noteq> []" using oid by (auto simp: HashID_ok_def)
    ultimately have "commitBlock env now (upd_db d m) blk result \<noteq> Loops" for blk
      using commitBlock_no_loop [OF l] by blast
    then show ?thesis
      using p Inr by (cases obj) (simp_all add: CommitObject_def Let_def commitTransaction_no_loop)
  qed (use p in \<open>simp add: CommitObject_def\<close>)
qed

end
