(* ===== verification/Mempool.thy ===== *)
theory Mempool
  imports Chain
begin

text \<open>
  The mempool's own invariant: the spent-outpoint map names, for every outpoint an entry spends,
  that entry. Two entries therefore never spend one outpoint. Every operation that
  \<^verbatim>\<open>CommitObject\<close> performs keeps it, the reload after a reorganisation included. The converse, that
  every recorded outpoint belongs to an entry, does not hold: \<open>removeMempoolEntry\<close> looks the
  entry up after deleting it and so leaves its outpoints recorded.
\<close>

definition entry_keys_ok :: "'d database \<Rightarrow> HashID \<Rightarrow> MempoolEntry \<Rightarrow> bool" where
  "entry_keys_ok d txid e \<longleftrightarrow> (\<exists>tx ks. me_Tx e = Some tx \<and> spent_keys (elems (tx_Inputs tx)) = Some ks \<and>
     (\<forall>k \<in> set ks. gm_get (db_mempoolSpentInputs d) k = Some txid))"

definition mempool_inv :: "'d database \<Rightarrow> bool" where
  "mempool_inv d \<longleftrightarrow> gm_wf (db_mempool d) \<and>
     (\<forall>txid e. gm_get (db_mempool d) txid = Some e \<longrightarrow> entry_keys_ok d txid e)"

lemma mempool_invE:
  assumes "mempool_inv d" "gm_get (db_mempool d) txid = Some e"
  obtains tx ks where "me_Tx e = Some tx" "spent_keys (elems (tx_Inputs tx)) = Some ks"
    "\<forall>k \<in> set ks. gm_get (db_mempoolSpentInputs d) k = Some txid"
  using assms unfolding mempool_inv_def entry_keys_ok_def by blast

text \<open>The outpoints an entry spends.\<close>

definition entry_spends :: "MempoolEntry \<Rightarrow> OutpointKey \<Rightarrow> bool" where
  "entry_spends e k \<longleftrightarrow> (\<exists>tx ks. me_Tx e = Some tx \<and> spent_keys (elems (tx_Inputs tx)) = Some ks \<and> k \<in> set ks)"

lemma mempool_inv_unique:
  assumes "mempool_inv d" "gm_get (db_mempool d) t = Some e" "gm_get (db_mempool d) t' = Some e'"
    "entry_spends e k" "entry_spends e' k"
  shows "t = t'"
proof -
  have "gm_get (db_mempoolSpentInputs d) k = Some t"
    by (rule mempool_invE [OF assms(1,2)]) (use assms(4) in \<open>auto simp: entry_spends_def\<close>)
  moreover have "gm_get (db_mempoolSpentInputs d) k = Some t'"
    by (rule mempool_invE [OF assms(1,3)]) (use assms(5) in \<open>auto simp: entry_spends_def\<close>)
  ultimately show ?thesis by simp
qed

lemma mempool_inv_memory:
  "db_mempool d' = db_mempool d \<Longrightarrow> db_mempoolSpentInputs d' = db_mempoolSpentInputs d \<Longrightarrow>
     mempool_inv d' = mempool_inv d"
  by (simp add: mempool_inv_def entry_keys_ok_def)

lemma put_key_mempool: "put_key env d k v = (d', e) \<Longrightarrow> mempool_inv d' = mempool_inv d"
  by (rule mempool_inv_memory) (auto simp: put_key_def split: prod.splits)

lemma delete_key_mempool: "delete_key env d k = (d', e) \<Longrightarrow> mempool_inv d' = mempool_inv d"
  by (rule mempool_inv_memory) (auto simp: delete_key_def split: prod.splits)

lemma mempool_inv_empty [simp]: "mempool_inv (d\<lparr>db_mempool := [], db_mempoolSpentInputs := []\<rparr>)"
  by (simp add: mempool_inv_def)

section \<open>Adding and removing entries\<close>

text \<open>An entry may be added when none of its outpoints is recorded.\<close>

lemma mempool_inv_add:
  assumes inv: "mempool_inv d" and tx: "me_Tx e = Some tx"
    and sp: "spend_inputs txid (elems (tx_Inputs tx)) (db_mempoolSpentInputs d) = Some spent"
    and free: "\<And>ks k. spent_keys (elems (tx_Inputs tx)) = Some ks \<Longrightarrow> k \<in> set ks \<Longrightarrow>
      \<not> gm_has (db_mempoolSpentInputs d) k"
  shows "mempool_inv (d\<lparr>db_mempool := gm_set txid e (db_mempool d), db_mempoolSpentInputs := spent\<rparr>)"
proof -
  obtain ks where ks: "spent_keys (elems (tx_Inputs tx)) = Some ks"
    and spent: "spent = fold (\<lambda>k. gm_set k txid) ks (db_mempoolSpentInputs d)"
    using sp by (auto simp: spend_inputs_keys)
  have get: "gm_get spent k = (if k \<in> set ks then Some txid else gm_get (db_mempoolSpentInputs d) k)" for k
    using gm.get_fold_set_const [of "\<lambda>k. k" txid ks] by (simp add: spent)
  have old: "gm_get spent k = Some t" if "gm_get (db_mempoolSpentInputs d) k = Some t" for k t
    using free [OF ks, of k] that by (auto simp: get gm_has_def)
  have "entry_keys_ok (d\<lparr>db_mempool := gm_set txid e (db_mempool d), db_mempoolSpentInputs := spent\<rparr>) t f"
    if "gm_get (gm_set txid e (db_mempool d)) t = Some f" for t f
  proof (cases "t = txid")
    case True
    then show ?thesis using that tx ks get by (auto simp: entry_keys_ok_def)
  next
    case False
    then have "entry_keys_ok d t f" using that inv by (simp add: mempool_inv_def)
    then show ?thesis using old by (fastforce simp: entry_keys_ok_def)
  qed
  then show ?thesis using inv by (simp add: mempool_inv_def)
qed

lemma mempool_inv_del:
  assumes "mempool_inv d"
  shows "mempool_inv (d\<lparr>db_mempool := gm_del txid (db_mempool d)\<rparr>)"
  using assms by (auto simp: mempool_inv_def entry_keys_ok_def)

lemma addMempoolEntry_inv:
  assumes "addMempoolEntry env now d tx fee = Some (d', e)" "mempool_inv d"
    and free: "\<And>ks k. spent_keys (elems (tx_Inputs tx)) = Some ks \<Longrightarrow> k \<in> set ks \<Longrightarrow>
      \<not> gm_has (db_mempoolSpentInputs d) k"
  shows "mempool_inv d'"
proof (cases "GetObjectID env (TxObj tx)")
  case (Pair obj r)
  show ?thesis
  proof (cases r)
    case (Inl err)
    then show ?thesis using assms Pair by (simp add: addMempoolEntry_def)
  next
    case (Inr txid)
    define tx' where "tx' = (case obj of TxObj t \<Rightarrow> t | _ \<Rightarrow> tx)"
    have ins: "tx_Inputs tx' = tx_Inputs tx"
      using Pair Inr by (auto simp: tx'_def GetObjectID_def split: option.splits sum.splits)
    define en where "en = \<lparr>me_TxID = txid, me_Tx = Some tx', me_Fee = fee, me_Timestamp = now\<rparr>"
    have en_id: "me_TxID en = txid" by (simp add: en_def)
    obtain d1 e1 where p: "put_key env d (mempoolKey txid) (print_json (MempoolEntry_json env en)) = (d1, e1)"
      by fastforce
    obtain d2 e2 where f: "putFee env d1 txid fee = (d2, e2)" by fastforce
    have i: "mempool_inv d1" "mempool_inv d2"
      using assms(2) put_key_mempool [OF p] put_key_mempool [OF f [unfolded putFee_def]] by simp_all
    have sp: "db_mempoolSpentInputs d2 = db_mempoolSpentInputs d"
      using p f by (auto simp: putFee_def put_key_def split: prod.splits)
    note unfolded = assms(1) [unfolded addMempoolEntry_def Pair Inr, simplified, unfolded Let_def,
        simplified, folded tx'_def, folded en_def, unfolded p, simplified]
    show ?thesis
    proof (cases e1)
      case (Some err)
      then show ?thesis using unfolded i by simp
    next
      case e1: None
      show ?thesis
      proof (cases e2)
        case (Some err)
        then show ?thesis using unfolded e1 f i by simp
      next
        case None
        then obtain spent where spent: "spend_inputs txid (elems (tx_Inputs tx)) (db_mempoolSpentInputs d2) = Some spent"
          and d': "d' = d2\<lparr>db_mempool := gm_set txid en (db_mempool d2), db_mempoolSpentInputs := spent\<rparr>"
          using unfolded e1 f by (auto simp: en_id split: option.splits)
        show ?thesis
          unfolding d' by (rule mempool_inv_add [OF i(2), of en tx'])
            (use spent free sp ins in \<open>auto simp: en_def\<close>)
      qed
    qed
  qed
qed

lemma removeMempoolEntry_inv:
  assumes "removeMempoolEntry env d txid = Some (d', e)" "mempool_inv d"
  shows "mempool_inv d'"
proof -
  obtain d1 e1 where p: "delete_key env d (mempoolKey txid) = (d1, e1)" by fastforce
  obtain d2 e2 where f: "delete_key env d1 (feeKey txid) = (d2, e2)" by fastforce
  have i: "mempool_inv d1" "mempool_inv d2"
    using assms(2) delete_key_mempool [OF p] delete_key_mempool [OF f] by simp_all
  have "d' = d1 \<or> d' = d2 \<or> d' = d2\<lparr>db_mempool := gm_del txid (db_mempool d2)\<rparr>"
    using assms(1) p f by (auto simp: removeMempoolEntry_def Let_def split: option.splits)
  then show ?thesis using i mempool_inv_del by auto
qed

text \<open>It leaves the recorded outpoints as they were.\<close>

lemma removeMempoolEntry_spent:
  "removeMempoolEntry env d txid = Some (d', e) \<Longrightarrow> db_mempoolSpentInputs d' = db_mempoolSpentInputs d"
  by (auto simp: removeMempoolEntry_def delete_key_def Let_def split: option.splits prod.splits)

section \<open>The sweep\<close>

lemma clean_entry_inv:
  assumes c: "clean_entry utxos (txid, e) d = Some d'" and inv: "mempool_inv d"
    and e: "gm_get (db_mempool d) txid = Some e"
  shows "mempool_inv d' \<and> (\<forall>t. t \<noteq> txid \<longrightarrow> gm_get (db_mempool d') t = gm_get (db_mempool d) t) \<and>
    gm_get (db_mempool d') txid = (if \<forall>k. entry_spends e k \<longrightarrow> gm_has utxos k then Some e else None)"
proof -
  obtain tx ks where tx: "me_Tx e = Some tx" and ks: "spent_keys (elems (tx_Inputs tx)) = Some ks"
      and all: "\<forall>k \<in> set ks. gm_get (db_mempoolSpentInputs d) k = Some txid"
    by (rule mempool_invE [OF inv e])
  have sp: "entry_spends e k \<longleftrightarrow> k \<in> set ks" for k using tx ks by (auto simp: entry_spends_def)
  have ai: "all_inputs_in (elems (tx_Inputs tx)) utxos = Some (\<forall>k \<in> set ks. gm_has utxos k)"
    by (rule all_inputs_in_keys [OF ks])
  show ?thesis
  proof (cases "\<forall>k \<in> set ks. gm_has utxos k")
    case True
    then show ?thesis using c tx ai sp inv e by (simp add: clean_entry_def)
  next
    case False
    define d1 where "d1 = d\<lparr>db_mempoolSpentInputs := fold gm_del ks (db_mempoolSpentInputs d),
        db_mempool := gm_del txid (db_mempool d)\<rparr>"
    have d': "d' = d1" using c tx ai False ks by (simp add: clean_entry_def unspend_inputs_keys d1_def)
    have get: "gm_get (fold gm_del ks (db_mempoolSpentInputs d)) k =
        (if k \<in> set ks then None else gm_get (db_mempoolSpentInputs d) k)" for k
      using gm.get_fold_del [of "\<lambda>k. k" ks "db_mempoolSpentInputs d"] by simp
    have "entry_keys_ok d1 t f" if "t \<noteq> txid" "gm_get (db_mempool d) t = Some f" for t f
    proof -
      note t = that
      obtain tx' ks' where f: "me_Tx f = Some tx'" "spent_keys (elems (tx_Inputs tx')) = Some ks'"
          "\<forall>k \<in> set ks'. gm_get (db_mempoolSpentInputs d) k = Some t"
        by (rule mempool_invE [OF inv t(2)])
      have "k \<notin> set ks" if "k \<in> set ks'" for k using that f(3) all t(1) by auto
      with f show ?thesis by (auto simp: entry_keys_ok_def d1_def get)
    qed
    then have "mempool_inv d1" using inv by (auto simp: mempool_inv_def d1_def split: if_splits)
    then show ?thesis using False sp unfolding d' by (auto simp: d1_def)
  qed
qed

lemma clean_loop:
  assumes "loop (clean_entry utxos) es d = Some d'" "mempool_inv d" "distinct (map fst es)"
    and "\<And>t e. (t, e) \<in> set es \<Longrightarrow> gm_get (db_mempool d) t = Some e"
  shows "mempool_inv d' \<and> (\<forall>t. gm_get (db_mempool d') t = (case map_of es t of
     None \<Rightarrow> gm_get (db_mempool d) t
   | Some e \<Rightarrow> if \<forall>k. entry_spends e k \<longrightarrow> gm_has utxos k then Some e else None))"
  using assms
proof (induction es arbitrary: d)
  case (Cons x es)
  obtain t e where x: "x = (t, e)" by (cases x)
  obtain d1 where d1: "clean_entry utxos (t, e) d = Some d1" "loop (clean_entry utxos) es d1 = Some d'"
    using Cons.prems(1) x by (auto split: option.splits)
  have e: "gm_get (db_mempool d) t = Some e" using Cons.prems(4) x by simp
  note s = clean_entry_inv [OF d1(1) Cons.prems(2) e]
  have nin: "map_of es t = None" using Cons.prems(3) x by (simp add: map_of_eq_None_iff)
  have "gm_get (db_mempool d1) t' = Some e'" if "(t', e') \<in> set es" for t' e'
  proof -
    have "t' \<noteq> t" using that nin by (auto simp: map_of_eq_None_iff image_iff)
    then show ?thesis using s Cons.prems(4) that x by simp
  qed
  from Cons.IH [OF d1(2) _ _ this] s Cons.prems(3) x
  have "mempool_inv d'" and IH: "gm_get (db_mempool d') t' = (case map_of es t' of
     None \<Rightarrow> gm_get (db_mempool d1) t'
   | Some e \<Rightarrow> if \<forall>k. entry_spends e k \<longrightarrow> gm_has utxos k then Some e else None)" for t'
    by auto
  with s nin show ?case unfolding x by (auto simp: IH split: option.splits)
qed simp

lemma clean_loop_total:
  assumes "mempool_inv d" "distinct (map fst es)"
    and "\<And>t e. (t, e) \<in> set es \<Longrightarrow> gm_get (db_mempool d) t = Some e"
  shows "\<exists>d'. loop (clean_entry utxos) es d = Some d'"
  using assms
proof (induction es arbitrary: d)
  case (Cons x es)
  obtain t e where x: "x = (t, e)" by (cases x)
  have e: "gm_get (db_mempool d) t = Some e" using Cons.prems(3) x by simp
  then obtain tx ks where "me_Tx e = Some tx" and "spent_keys (elems (tx_Inputs tx)) = Some ks"
    using mempool_invE [OF Cons.prems(1)] by metis
  then obtain d1 where d1: "clean_entry utxos (t, e) d = Some d1"
    by (cases "\<forall>k \<in> set ks. gm_has utxos k")
      (auto simp: clean_entry_def all_inputs_in_keys unspend_inputs_keys)
  note s = clean_entry_inv [OF d1 Cons.prems(1) e]
  have nin: "map_of es t = None" using Cons.prems(2) x by (simp add: map_of_eq_None_iff)
  have "gm_get (db_mempool d1) t' = Some e'" if "(t', e') \<in> set es" for t' e'
  proof -
    have "t' \<noteq> t" using that nin by (auto simp: map_of_eq_None_iff image_iff)
    then show ?thesis using s Cons.prems(3) that x by simp
  qed
  from Cons.IH [OF _ _ this] s Cons.prems(2) x d1 show ?case by simp
qed simp

text \<open>The outpoints of an evicted entry are free again, all others keep their entry.\<close>

lemma clean_entry_spent:
  assumes c: "clean_entry utxos (txid, e) d = Some d'" and inv: "mempool_inv d"
    and e: "gm_get (db_mempool d) txid = Some e"
  shows "gm_get (db_mempoolSpentInputs d') k =
    (if entry_spends e k \<and> (\<exists>k'. entry_spends e k' \<and> \<not> gm_has utxos k') then None else gm_get (db_mempoolSpentInputs d) k)"
proof -
  obtain tx ks where tx: "me_Tx e = Some tx" and ks: "spent_keys (elems (tx_Inputs tx)) = Some ks"
    using mempool_invE [OF inv e] by metis
  have sp: "entry_spends e k \<longleftrightarrow> k \<in> set ks" for k using tx ks by (auto simp: entry_spends_def)
  show ?thesis
    using c tx ks gm.get_fold_del [of "\<lambda>k. k" ks "db_mempoolSpentInputs d" k]
    by (auto simp: clean_entry_def all_inputs_in_keys [OF ks] unspend_inputs_keys sp split: if_splits)
qed

lemma clean_loop_spent:
  assumes "loop (clean_entry utxos) es d = Some d'" "mempool_inv d" "distinct (map fst es)"
    and "\<And>t e. (t, e) \<in> set es \<Longrightarrow> gm_get (db_mempool d) t = Some e"
  shows "gm_get (db_mempoolSpentInputs d') k =
    (if \<exists>(t, e) \<in> set es. entry_spends e k \<and> (\<exists>k'. entry_spends e k' \<and> \<not> gm_has utxos k') then None
     else gm_get (db_mempoolSpentInputs d) k)"
  using assms
proof (induction es arbitrary: d)
  case (Cons x es)
  obtain t e where x: "x = (t, e)" by (cases x)
  obtain d1 where d1: "clean_entry utxos (t, e) d = Some d1" "loop (clean_entry utxos) es d1 = Some d'"
    using Cons.prems(1) x by (auto split: option.splits)
  have e: "gm_get (db_mempool d) t = Some e" using Cons.prems(4) x by simp
  note s = clean_entry_inv [OF d1(1) Cons.prems(2) e]
  have "gm_get (db_mempool d1) t' = Some e'" if "(t', e') \<in> set es" for t' e'
  proof -
    have "t' \<noteq> t" using that Cons.prems(3) x by force
    then show ?thesis using s Cons.prems(4) that x by simp
  qed
  from Cons.IH [OF d1(2) _ _ this] s Cons.prems(3)
  show ?case by (auto simp: x clean_entry_spent [OF d1(1) Cons.prems(2) e])
qed simp

text \<open>
  The sweep keeps exactly the entries all of whose outpoints are in the UTXO set of the tip, frees
  the outpoints of the others and only them, and it never panics.
\<close>

lemma CleanMempool_exact:
  assumes "mempool_inv (m_db m)" "getChaintip env (m_db m) = Inr (tip, h)" "getUTXO env (m_db m) tip = Inr u"
  obtains m' where "CleanMempool env m = Some m'" "mempool_inv (m_db m')"
    "\<And>t. gm_get (db_mempool (m_db m')) t = (case gm_get (db_mempool (m_db m)) t of
       None \<Rightarrow> None
     | Some e \<Rightarrow> if \<forall>k. entry_spends e k \<longrightarrow> gm_has (us_UTXOs u) k then Some e else None)"
    "\<And>k. gm_get (db_mempoolSpentInputs (m_db m')) k =
       (if \<exists>t e. gm_get (db_mempool (m_db m)) t = Some e \<and> entry_spends e k \<and>
           (\<exists>k'. entry_spends e k' \<and> \<not> gm_has (us_UTXOs u) k') then None
        else gm_get (db_mempoolSpentInputs (m_db m)) k)"
proof -
  let ?d = "m_db m"
  have d: "distinct (map fst (db_mempool ?d))" and g: "\<And>t e. (t, e) \<in> set (db_mempool ?d) \<Longrightarrow> gm_get (db_mempool ?d) t = Some e"
    using assms(1) by (auto simp: mempool_inv_def gm_wf_def gm_get_def)
  obtain d' where d': "loop (clean_entry (us_UTXOs u)) (db_mempool ?d) ?d = Some d'"
    using clean_loop_total [OF assms(1) d g] by blast
  have "CleanMempool env m = Some (upd_db d' m)"
    using assms(2,3) d' by (simp add: CleanMempool_def GetChaintip_Inr [THEN iffD2] GetUTXO_Inr [THEN iffD2])
  moreover have "gm_get (db_mempoolSpentInputs d') k =
       (if \<exists>t e. gm_get (db_mempool ?d) t = Some e \<and> entry_spends e k \<and>
           (\<exists>k'. entry_spends e k' \<and> \<not> gm_has (us_UTXOs u) k') then None
        else gm_get (db_mempoolSpentInputs ?d) k)" for k
  proof -
    have "(t, e) \<in> set (db_mempool ?d) \<longleftrightarrow> gm_get (db_mempool ?d) t = Some e" for t e
      using d by (simp add: gm_get_def)
    then show ?thesis using clean_loop_spent [OF d' assms(1) d g, of k] by (simp add: Bex_def split_paired_Ex)
  qed
  moreover note clean_loop [OF d' assms(1) d g]
  ultimately show ?thesis by (intro that [of "upd_db d' m"]) (auto simp: gm_get_def split: option.splits)
qed

lemma CleanMempool_inv:
  assumes "CleanMempool env m = Some m'" "mempool_inv (m_db m)"
  shows "mempool_inv (m_db m')"
proof (cases "\<exists>tip h u. getChaintip env (m_db m) = Inr (tip, h) \<and> getUTXO env (m_db m) tip = Inr u")
  case True
  then obtain tip h u where "getChaintip env (m_db m) = Inr (tip, h)" "getUTXO env (m_db m) tip = Inr u" by blast
  then obtain m1 where "CleanMempool env m = Some m1" "mempool_inv (m_db m1)"
    by (rule CleanMempool_exact [OF assms(2)])
  then show ?thesis using assms(1) by simp
next
  case False
  then have "m' = m"
    using assms(1) by (auto simp: CleanMempool_def GetChaintip_Inr GetUTXO_Inr split: sum.splits)
  then show ?thesis using assms(2) by simp
qed

section \<open>Reloading and committing\<close>

lemma resolve_keys: "mapM (resolve_input env m) inputs = Some rs \<Longrightarrow> spent_keys inputs = Some (map fst rs)"
proof (induction inputs arbitrary: rs)
  case (Cons i "is")
  then show ?case
    by (auto simp: resolve_input_def elim!: bind_SomeE split: option.splits sum.splits if_splits)
qed simp

text \<open>A transaction that validation accepts spends nothing the mempool has recorded as spent.\<close>

lemma accepted_free:
  assumes "ValidateTransaction env m tx = Some r" "vr_Error r = None"
    and "spent_keys (elems (tx_Inputs tx)) = Some ks" "k \<in> set ks"
  shows "\<not> gm_has (db_mempoolSpentInputs (m_db m)) k"
proof -
  have "tx_accepts env m tx (vr_Fee r)" by (rule ValidateTransaction_sound [OF assms(1,2)])
  then obtain rs where rs: "mapM (resolve_input env m) (elems (tx_Inputs tx)) = Some rs"
      "\<forall>(key, out, sig) \<in> set rs. \<not> IsInputSpent m key"
    by (auto simp: tx_accepts_def split: option.splits)
  then have "ks = map fst rs" using resolve_keys [OF rs(1)] assms(3) by simp
  then show ?thesis using rs(2) assms(4) by (auto simp: IsInputSpent_def)
qed

lemma reload_entry_inv:
  assumes "reload_entry env entry m = Some m'" "mempool_inv (m_db m)"
  shows "mempool_inv (m_db m')"
proof -
  obtain tx r where tx: "me_Tx entry = Some tx" and r: "ValidateTransaction env m tx = Some r"
    using assms(1) by (auto simp: reload_entry_def split: option.splits)
  define c where "c = (if vr_Error r \<noteq> None \<or> vr_ErrorCode r \<noteq> E_NONE then Some True
      else map_option Not (IsInputInUTXO env m tx))"
  consider d e where "removeMempoolEntry env (m_db m) (me_TxID entry) = Some (d, e)" "m_db m' = d"
    | spent where "vr_Error r = None"
        "spend_inputs (me_TxID entry) (elems (tx_Inputs tx)) (db_mempoolSpentInputs (m_db m)) = Some spent"
        "m_db m' = (m_db m)\<lparr>db_mempool := gm_set (me_TxID entry) entry (db_mempool (m_db m)),
           db_mempoolSpentInputs := spent\<rparr>"
    using assms(1) tx r
    by (auto simp: reload_entry_def split: option.splits bool.splits if_splits prod.splits)
  then show ?thesis
  proof cases
    case 1
    then show ?thesis using removeMempoolEntry_inv assms(2) by simp
  next
    case 2
    show ?thesis
      unfolding 2(3) by (rule mempool_inv_add [OF assms(2) tx 2(2)]) (rule accepted_free [OF r 2(1)])
  qed
qed

lemma InitializeMempool_inv:
  "InitializeMempool env m = Some m' \<Longrightarrow> mempool_inv (m_db m) \<Longrightarrow> mempool_inv (m_db m')"
  by (auto simp: InitializeMempool_def intro: loop_invariant [where P = "\<lambda>m. mempool_inv (m_db m)"]
      reload_entry_inv split: prod.splits if_splits)

lemma HandleReorg_inv:
  "HandleReorg env now m oldTip newTip = Returns m' \<Longrightarrow> mempool_inv (m_db m) \<Longrightarrow> mempool_inv (m_db m')"
  by (auto simp: HandleReorg_def intro: InitializeMempool_inv split: option.splits walk.splits)

lemma AddToMempool_inv:
  assumes "AddToMempool env now m tx fee = Some (m', e)" "mempool_inv (m_db m)"
    and "\<And>ks k. spent_keys (elems (tx_Inputs tx)) = Some ks \<Longrightarrow> k \<in> set ks \<Longrightarrow>
      \<not> gm_has (db_mempoolSpentInputs (m_db m)) k"
  shows "mempool_inv (m_db m')"
proof -
  obtain e1 where "addMempoolEntry env now (m_db m) tx fee = Some (m_db m', e1)"
    using assms(1) by (auto simp: AddToMempool_def split: option.splits prod.splits)
  then show ?thesis using addMempoolEntry_inv assms(2,3) by blast
qed

lemma mempool_conflict_False:
  "mempool_conflict m inputs = Some False \<Longrightarrow> spent_keys inputs = Some ks \<Longrightarrow> k \<in> set ks \<Longrightarrow> \<not> IsInputSpent m k"
  by (induction inputs arbitrary: ks) (auto split: option.splits if_splits)

lemma commitTransaction_inv:
  assumes c: "commitTransaction env now m tx result = Returns (m', r)" and inv: "mempool_inv (m_db m)"
  shows "mempool_inv (m_db m')"
proof -
  obtain d e where f: "putFee env (m_db m) (vr_ObjID result) (vr_Fee result) = (d, e)" by fastforce
  have d: "mempool_inv d" using put_key_mempool [OF f [unfolded putFee_def]] inv by simp
  have "m' = upd_db d m \<or> mempool_conflict (upd_db d m) (elems (tx_Inputs tx)) = Some False \<and>
      (\<exists>e. AddToMempool env now (upd_db d m) tx (vr_Fee result) = Some (m', e))"
    using c f by (auto simp: commitTransaction_def Let_def split: option.splits if_splits bool.splits)
  then show ?thesis
  proof
    assume a: "mempool_conflict (upd_db d m) (elems (tx_Inputs tx)) = Some False \<and>
      (\<exists>e. AddToMempool env now (upd_db d m) tx (vr_Fee result) = Some (m', e))"
    then obtain e' where add: "AddToMempool env now (upd_db d m) tx (vr_Fee result) = Some (m', e')" by blast
    show ?thesis
      by (rule AddToMempool_inv [OF add])
        (use d a mempool_conflict_False [of "upd_db d m" "elems (tx_Inputs tx)"] in \<open>auto simp: IsInputSpent_def\<close>)
  qed (use d in simp)
qed

lemma remove_tx_inv: "remove_tx env txid m = Some m' \<Longrightarrow> mempool_inv (m_db m) \<Longrightarrow> mempool_inv (m_db m')"
  by (auto simp: remove_tx_def RemoveFromMempool_def dest: removeMempoolEntry_inv split: option.splits prod.splits)

lemma update_tip_inv:
  assumes "update_tip env m blk result = Some (m', reorg, e)" "mempool_inv (m_db m)"
  shows "mempool_inv (m_db m')"
proof -
  obtain d e' where p: "putChaintip env (m_db m) (vr_ObjID result) (vr_NewHeight result) = (d, e')" by fastforce
  have "m_db m' = d" using assms(1) p by (auto simp: update_tip_def split: option.splits prod.splits)
  then show ?thesis using put_key_mempool [OF p [unfolded putChaintip_def Let_def]] assms(2) by simp
qed

lemma commitBlock_inv:
  assumes c: "commitBlock env now m blk result = Returns (m', r)" and inv: "mempool_inv (m_db m)"
  shows "mempool_inv (m_db m')"
proof -
  define p where "p = (case vr_NewUTXOSet result of None \<Rightarrow> (m_db m, None)
    | Some utxos \<Rightarrow> putUTXO env (m_db m) (vr_ObjID result) utxos)"
  obtain d e where p: "p = (d, e)" by fastforce
  have d: "mempool_inv d"
    using p inv by (auto simp: p_def putUTXO_def dest: put_key_mempool split: option.splits)
  show ?thesis
  proof (cases e)
    case (Some x)
    then show ?thesis using c p d by (auto simp: commitBlock_def p_def [symmetric])
  next
    case None
    define t where "t = (if vr_IsNewTip result then update_tip env (upd_db d m) blk result
      else Some (upd_db d m, False, None))"
    obtain m1 reorg e1 where t: "t = Some (m1, reorg, e1)"
      using c p None by (cases t) (auto simp: commitBlock_def Let_def p_def [symmetric] t_def [symmetric])
    have m1: "mempool_inv (m_db m1)"
      using t d by (auto simp: t_def dest: update_tip_inv split: if_splits)
    show ?thesis
    proof (cases e1)
      case (Some x)
      then show ?thesis
        using c p None t m1 by (auto simp: commitBlock_def Let_def p_def [symmetric] t_def [symmetric])
    next
      case e1: None
      have s: "(if reorg then HandleReorg env now m1 '''' (vr_ObjID result)
          else of_panic (case loop (remove_tx env) (elems (blk_Txids blk)) m1 of
              None \<Rightarrow> None | Some m \<Rightarrow> CleanMempool env m)) = Returns m'"
        using c p None t e1
        by (auto simp: commitBlock_def Let_def p_def [symmetric] t_def [symmetric] and_then_Returns)
      show ?thesis
      proof (cases reorg)
        case True
        then show ?thesis using s HandleReorg_inv m1 by simp
      next
        case False
        then obtain m2 where m2: "loop (remove_tx env) (elems (blk_Txids blk)) m1 = Some m2"
            "CleanMempool env m2 = Some m'"
          using s by (auto split: option.splits)
        have "mempool_inv (m_db m2)"
          by (rule loop_invariant [where P = "\<lambda>m. mempool_inv (m_db m)", OF m2(1) m1]) (rule remove_tx_inv)
        then show ?thesis by (rule CleanMempool_inv [OF m2(2)])
      qed
    qed
  qed
qed

lemma CommitObject_mempool:
  assumes c: "CommitObject env now m obj result = Returns (m', r)" and inv: "mempool_inv (m_db m)"
  shows "mempool_inv (m_db m')"
proof -
  obtain d x where p: "putObject env (m_db m) obj = (d, x)" by fastforce
  have d: "mempool_inv d"
    using p inv by (auto simp: putObject_def dest: put_key_mempool split: option.splits sum.splits prod.splits)
  have "m' = upd_db d m \<or>
    (\<exists>tx. commitTransaction env now (upd_db d m) tx result = Returns (m', r)) \<or>
    (\<exists>blk. commitBlock env now (upd_db d m) blk result = Returns (m', r))"
    using c p by (cases x; cases obj) (auto simp: CommitObject_def Let_def)
  then show ?thesis using d commitTransaction_inv commitBlock_inv by (metis m_db_upd_db)
qed

end
