(* ===== verification/Protocol.thy ===== *)
theory Protocol
  imports Crypto PeerAddr
begin

text \<open>
  \<^verbatim>\<open>internal/protocol\<close>: the messages of \<^verbatim>\<open>messages.go\<close>, the texts that \<^verbatim>\<open>constructors.go\<close> makes of
  them, and \<^verbatim>\<open>UnmarshalMessage\<close> of \<^verbatim>\<open>unmarshal.go\<close>, with the wire form of peers. \<open>None\<close> is an error
  return; the error's text is not modelled. A message that is not an object may have no member
  that its struct lacks; the members inside an object message are not checked that way, since its
  custom method decodes it again without the option.

  Results: what a constructor writes for well-formed values is read back as the same message;
  an object that arrives is typed, its block fields are in range and its ID is not cached.
\<close>

section \<open>Messages\<close>

datatype Message =
    HelloMsg (msg_Type: MessageType) (hello_Version: Version) (hello_Agent: "BuString option")
  | ErrorMsg (msg_Type: MessageType) (error_Name: ErrorCode) (error_Description: BuString)
  | GetPeersMsg (msg_Type: MessageType)
  | PeersMsg (msg_Type: MessageType) (peers_Peers: "Peer slice")
  | GetObjectMsg (msg_Type: MessageType) (getobject_ObjectID: HashID)
  | IHaveObjectMsg (msg_Type: MessageType) (ihaveobject_ObjectID: HashID)
  | ObjectMsg (msg_Type: MessageType) (object_Raw: "json option") (object_Object: "Object option")
  | GetMempoolMsg (msg_Type: MessageType)
  | MempoolMsg (msg_Type: MessageType) (mempool_Txids: "HashID slice")
  | GetChainTipMsg (msg_Type: MessageType)
  | ChainTipMsg (msg_Type: MessageType) (chaintip_BlockID: HashID)

fun Message_MessageType :: "Message \<Rightarrow> MessageType" where
  "Message_MessageType (HelloMsg _ _ _) = MSG_HELLO"
| "Message_MessageType (ErrorMsg _ _ _) = MSG_ERROR"
| "Message_MessageType (GetPeersMsg _) = MSG_GETPEERS"
| "Message_MessageType (PeersMsg _ _) = MSG_PEERS"
| "Message_MessageType (GetObjectMsg _ _) = MSG_GETOBJECT"
| "Message_MessageType (IHaveObjectMsg _ _) = MSG_IHAVEOBJECT"
| "Message_MessageType (ObjectMsg _ _ _) = MSG_OBJECT"
| "Message_MessageType (GetMempoolMsg _) = MSG_GETMEMPOOL"
| "Message_MessageType (MempoolMsg _ _) = MSG_MEMPOOL"
| "Message_MessageType (GetChainTipMsg _) = MSG_GETCHAINTIP"
| "Message_MessageType (ChainTipMsg _ _) = MSG_CHAINTIP"

text \<open>\<^verbatim>\<open>json.Marshal\<close> of a message; a nil raw object is written as null.\<close>

fun Message_json :: "Message \<Rightarrow> json" where
  "Message_json (HelloMsg t v agent) =
     JObj ([(''type'', JStr (MessageType_str t)), (''version'', JStr v)] @ omit_nil ''agent'' JStr agent)"
| "Message_json (ErrorMsg t n d) =
     JObj [(''type'', JStr (MessageType_str t)), (''name'', JStr (ErrorCode_str n)), (''description'', JStr d)]"
| "Message_json (GetPeersMsg t) = JObj [(''type'', JStr (MessageType_str t))]"
| "Message_json (PeersMsg t ps) =
     JObj [(''type'', JStr (MessageType_str t)), (''peers'', slice_json JStr ps)]"
| "Message_json (GetObjectMsg t h) = JObj [(''type'', JStr (MessageType_str t)), (''objectid'', JStr h)]"
| "Message_json (IHaveObjectMsg t h) = JObj [(''type'', JStr (MessageType_str t)), (''objectid'', JStr h)]"
| "Message_json (ObjectMsg t raw _) =
     JObj [(''type'', JStr (MessageType_str t)), (''object'', ptr_json (\<lambda>j. j) raw)]"
| "Message_json (GetMempoolMsg t) = JObj [(''type'', JStr (MessageType_str t))]"
| "Message_json (MempoolMsg t ids) =
     JObj [(''type'', JStr (MessageType_str t)), (''txids'', slice_json JStr ids)]"
| "Message_json (GetChainTipMsg t) = JObj [(''type'', JStr (MessageType_str t))]"
| "Message_json (ChainTipMsg t b) = JObj [(''type'', JStr (MessageType_str t)), (''blockid'', JStr b)]"

section \<open>Constructors\<close>

definition Version0 :: Version where
  "Version0 = ''0.10.0''"

definition MakeHello :: "BuString option \<Rightarrow> string option" where
  "MakeHello agent = CanonicalizeMessage (Message_json (HelloMsg MSG_HELLO Version0 agent))"

definition MakeError :: "ErrorCode \<Rightarrow> BuString \<Rightarrow> string option" where
  "MakeError name description = CanonicalizeMessage (Message_json (ErrorMsg MSG_ERROR name description))"

definition MakeGetPeers :: "string option" where
  "MakeGetPeers = CanonicalizeMessage (Message_json (GetPeersMsg MSG_GETPEERS))"

definition MakePeers :: "Peer slice \<Rightarrow> string option" where
  "MakePeers peers = CanonicalizeMessage (Message_json (PeersMsg MSG_PEERS peers))"

definition MakeGetObject :: "HashID \<Rightarrow> string option" where
  "MakeGetObject objectID = CanonicalizeMessage (Message_json (GetObjectMsg MSG_GETOBJECT objectID))"

definition MakeIHaveObject :: "HashID \<Rightarrow> string option" where
  "MakeIHaveObject objectID = CanonicalizeMessage (Message_json (IHaveObjectMsg MSG_IHAVEOBJECT objectID))"

text \<open>The raw message is the canonical text, which \<^verbatim>\<open>json.Marshal\<close> checks and writes as it is.\<close>

definition MakeObject :: "Object \<Rightarrow> string option" where
  "MakeObject obj = do {
     raw \<leftarrow> Canonicalize (Object_json obj);
     j \<leftarrow> parse_json raw;
     CanonicalizeMessage (Message_json (ObjectMsg MSG_OBJECT (Some j) None)) }"

definition MakeGetMempool :: "string option" where
  "MakeGetMempool = CanonicalizeMessage (Message_json (GetMempoolMsg MSG_GETMEMPOOL))"

definition MakeMempool :: "HashID slice \<Rightarrow> string option" where
  "MakeMempool txids = CanonicalizeMessage (Message_json (MempoolMsg MSG_MEMPOOL txids))"

definition MakeGetChainTip :: "string option" where
  "MakeGetChainTip = CanonicalizeMessage (Message_json (GetChainTipMsg MSG_GETCHAINTIP))"

definition MakeChainTip :: "HashID \<Rightarrow> string option" where
  "MakeChainTip blockID = CanonicalizeMessage (Message_json (ChainTipMsg MSG_CHAINTIP blockID))"

section \<open>Peers on the wire\<close>

definition Peer_Unmarshal :: "json \<Rightarrow> Peer option" where
  "Peer_Unmarshal j = map_option sanitizePeer (dec_string j)"

definition Peers_Unmarshal :: "json \<Rightarrow> Peer slice option" where
  "Peers_Unmarshal j = do {
     rawPeers \<leftarrow> (case j of JArr js \<Rightarrow> mapM Peer_Unmarshal js | JNull \<Rightarrow> Some [] | _ \<Rightarrow> None);
     Some (Some (filter (\<lambda>peer. peer \<noteq> PEER_INVALID) rawPeers)) }"

section \<open>Object messages\<close>

text \<open>
  The height probe ignores the error: any member that is not null allocates the pointer.
\<close>

definition cbProbe_Height :: "json \<Rightarrow> bool" where
  "cbProbe_Height raw = (case members raw of
     None \<Rightarrow> False
   | Some kvs \<Rightarrow> (case jfield [''height''] ''height'' kvs of None \<Rightarrow> False | Some j \<Rightarrow> j \<noteq> JNull))"

definition inner_object :: "json \<Rightarrow> Object option" where
  "inner_object raw = do {
     kvs \<leftarrow> members raw;
     type \<leftarrow> val_field OBJ_NONE ObjectType_Unmarshal (jfield [''type''] ''type'' kvs);
     (case type of
        OBJ_BLOCK \<Rightarrow> do {
          b \<leftarrow> Block_Unmarshal raw;
          if blk_T b \<noteq> TARGET then None else Some (BlockObj b) }
      | OBJ_TRANSACTION \<Rightarrow>
          if cbProbe_Height raw then map_option CoinbaseObj (CoinbaseTransaction_Unmarshal raw)
          else map_option TxObj (Transaction_Unmarshal raw)
      | OBJ_NONE \<Rightarrow> None) }"

definition Object_UnmarshalJSON :: "(string \<times> json) list \<Rightarrow> Message option" where
  "Object_UnmarshalJSON kvs = do {
     let f = (\<lambda>n. jfield [''type'', ''object''] n kvs);
     type \<leftarrow> val_field MSG_NONE MessageType_Unmarshal (f ''type'');
     raw \<leftarrow> f ''object'';
     obj \<leftarrow> inner_object raw;
     Some (ObjectMsg type (Some raw) (Some obj)) }"

section \<open>Reading a message\<close>

text \<open>
  The struct a registered type decodes into, by its field names and the decoder of its members.
\<close>

fun message_fields :: "MessageType \<Rightarrow> string list" where
  "message_fields MSG_HELLO = [''type'', ''version'', ''agent'']"
| "message_fields MSG_ERROR = [''type'', ''name'', ''description'']"
| "message_fields MSG_PEERS = [''type'', ''peers'']"
| "message_fields MSG_GETOBJECT = [''type'', ''objectid'']"
| "message_fields MSG_IHAVEOBJECT = [''type'', ''objectid'']"
| "message_fields MSG_MEMPOOL = [''type'', ''txids'']"
| "message_fields MSG_CHAINTIP = [''type'', ''blockid'']"
| "message_fields _ = [''type'']"

definition decode_message :: "MessageType \<Rightarrow> (string \<times> json) list \<Rightarrow> Message option" where
  "decode_message t kvs =
     (let names = message_fields t; f = (\<lambda>n. jfield names n kvs)
      in if t = MSG_OBJECT then Object_UnmarshalJSON kvs
      else if \<not> list_all (\<lambda>(k, v). match_field names k \<noteq> None) kvs then None
      else do {
        type \<leftarrow> val_field MSG_NONE MessageType_Unmarshal (f ''type'');
        (case t of
           MSG_HELLO \<Rightarrow> do {
             version \<leftarrow> val_field [] Version_Unmarshal (f ''version'');
             agent \<leftarrow> ptr_field BuString_Unmarshal (f ''agent'');
             Some (HelloMsg type version agent) }
         | MSG_ERROR \<Rightarrow> do {
             name \<leftarrow> val_field E_NONE ErrorCode_Unmarshal (f ''name'');
             description \<leftarrow> val_field [] BuString_Unmarshal (f ''description'');
             Some (ErrorMsg type name description) }
         | MSG_GETPEERS \<Rightarrow> Some (GetPeersMsg type)
         | MSG_PEERS \<Rightarrow> do {
             peers \<leftarrow> val_field None Peers_Unmarshal (f ''peers'');
             Some (PeersMsg type peers) }
         | MSG_GETOBJECT \<Rightarrow> do {
             h \<leftarrow> val_field [] HashID_Unmarshal (f ''objectid'');
             Some (GetObjectMsg type h) }
         | MSG_IHAVEOBJECT \<Rightarrow> do {
             h \<leftarrow> val_field [] HashID_Unmarshal (f ''objectid'');
             Some (IHaveObjectMsg type h) }
         | MSG_GETMEMPOOL \<Rightarrow> Some (GetMempoolMsg type)
         | MSG_MEMPOOL \<Rightarrow> do {
             txids \<leftarrow> val_field None HashIDs_Unmarshal (f ''txids'');
             Some (MempoolMsg type txids) }
         | MSG_GETCHAINTIP \<Rightarrow> Some (GetChainTipMsg type)
         | MSG_CHAINTIP \<Rightarrow> do {
             b \<leftarrow> val_field [] HashID_Unmarshal (f ''blockid'');
             Some (ChainTipMsg type b) }
         | _ \<Rightarrow> None) })"

text \<open>
  Reading into \<^verbatim>\<open>interface{}\<close> fails on a number beyond the range of a float64, with a fraction or
  exponent too: the literal's digits as an integer, and the power of ten they are scaled by.
\<close>

definition frac_scale :: "string \<Rightarrow> nat \<times> int" where
  "frac_scale s =
     (let s' = (if s \<noteq> [] \<and> hd s = CHR ''-'' then tl s else s);
          mant = takeWhile (\<lambda>c. c \<noteq> CHR ''e'' \<and> c \<noteq> CHR ''E'') s';
          ex = drop (Suc (length mant)) s';
          frac = drop (Suc (length (takeWhile is_digit mant))) mant;
          e = (case ex of [] \<Rightarrow> 0
             | c # cs \<Rightarrow> if c = CHR ''-'' then - int (nat_of_string cs)
                         else if c = CHR ''+'' then int (nat_of_string cs) else int (nat_of_string ex))
      in (nat_of_string (filter is_digit mant), e - int (length frac)))"

definition frac_finite :: "string \<Rightarrow> bool" where
  "frac_finite s = (case frac_scale s of
     (n, e) \<Rightarrow> if 0 \<le> e then n * 10 ^ nat e < 2 ^ 1024 - 2 ^ 970
               else n < (2 ^ 1024 - 2 ^ 970) * 10 ^ nat (- e))"

fun finite_numbers :: "json \<Rightarrow> bool" where
  "finite_numbers (JFrac s) = frac_finite s"
| "finite_numbers (JArr js) = list_all finite_numbers js"
| "finite_numbers (JObj kvs) = list_all (\<lambda>(k, v). finite_numbers v) kvs"
| "finite_numbers _ = True"

definition UnmarshalMessage :: "string \<Rightarrow> Message option" where
  "UnmarshalMessage raw = do {
     j \<leftarrow> parse_json raw;
     probe \<leftarrow> (if finite_numbers j then as_interface j else None);
     kvs \<leftarrow> (case probe of JObj kvs \<Rightarrow> Some kvs | _ \<Rightarrow> None);
     typeVal \<leftarrow> (case gm_get kvs ''type'' of Some (JStr s) \<Rightarrow> Some s | _ \<Rightarrow> None);
     typ \<leftarrow> enum_of MessageType_str [MSG_HELLO, MSG_ERROR, MSG_GETPEERS, MSG_PEERS, MSG_GETOBJECT,
       MSG_IHAVEOBJECT, MSG_OBJECT, MSG_GETMEMPOOL, MSG_MEMPOOL, MSG_GETCHAINTIP, MSG_CHAINTIP] typeVal;
     decode_message typ (case j of JObj kvs \<Rightarrow> kvs | _ \<Rightarrow> []) }"

section \<open>A message that was written is read back\<close>

lemma parse_json_line: "no_frac j \<Longrightarrow> parse_json (print_json j @ [CHR 0x0A]) = Some j"
  using reads_backD [OF parse_print, of j "2 * length (print_json j @ [CHR 0x0A]) + 2" "[CHR 0x0A]"]
  by (simp add: parse_json_def stops_def is_num_char_def is_digit_def skip_ws_def is_ws_def)

lemma exact_sort_members: "exact_json j \<Longrightarrow> exact_json (sort_members j)"
  by (induction j) (auto simp: list_all_iff comp_def case_prod_beta distinct_map inj_on_def, (fastforce+)?)

lemma exact_finite: "exact_json j \<Longrightarrow> finite_numbers j"
  by (induction j) (auto simp: list_all_iff)

definition sorted_kvs :: "(string \<times> json) list \<Rightarrow> (string \<times> json) list" where
  "sorted_kvs kvs = sort_key fst (map (\<lambda>(k, v). (k, sort_members v)) kvs)"

lemma sort_members_JObj: "sort_members (JObj kvs) = JObj (sorted_kvs kvs)"
  by (simp add: sorted_kvs_def)

lemma map_fst_sorted: "set (map fst (sorted_kvs kvs)) = set (map fst kvs)"
  by (simp add: sorted_kvs_def image_image case_prod_beta)

lemma sorted_kvs_map_of: "distinct (map fst kvs) \<Longrightarrow> map_of (sorted_kvs kvs) k = map_option sort_members (map_of kvs k)"
  unfolding sorted_kvs_def by (subst sort_key_fst_map_of) (auto simp: map_of_map comp_def case_prod_beta)

lemma sorted_kvs_distinct: "distinct (map fst kvs) \<Longrightarrow> distinct (map fst (sorted_kvs kvs))"
proof -
  assume "distinct (map fst kvs)"
  moreover have "map fst (map (\<lambda>(k, v). (k, sort_members v)) kvs) = map fst kvs"
    by (simp add: case_prod_beta comp_def)
  then have "mset (map fst (sorted_kvs kvs)) = mset (map fst kvs)"
    unfolding sorted_kvs_def by (metis mset_map mset_sort)
  ultimately show ?thesis by (metis mset_eq_imp_distinct_iff)
qed

lemma jfield_sorted:
  assumes "distinct (map fst kvs)" "fst ` set kvs \<subseteq> set names"
  shows "jfield names n (sorted_kvs kvs) = map_option sort_members (map_of kvs n)"
  using jfield_exact [OF sorted_kvs_distinct [OF assms(1)], of names n] assms map_fst_sorted [of kvs]
  by (simp add: sorted_kvs_map_of)

text \<open>What \<open>UnmarshalMessage\<close> makes of the text of a message with exact numbers.\<close>

lemma UnmarshalMessage_text:
  assumes raw: "CanonicalizeMessage (JObj kvs) = Some raw" and ex: "exact_json (JObj kvs)"
    and ty: "map_of kvs ''type'' = Some (JStr (MessageType_str t))" and t: "t \<noteq> MSG_NONE"
  shows "UnmarshalMessage raw = decode_message t (sorted_kvs kvs)"
proof -
  have "raw = print_json (sort_members (JObj kvs)) @ [CHR 0x0A]"
    using raw ex by (simp only: CanonicalizeMessage_def Canonicalize_exact) simp
  moreover have ex': "exact_json (sort_members (JObj kvs))" by (rule exact_sort_members [OF ex])
  ultimately have p: "parse_json raw = Some (JObj (sorted_kvs kvs))"
    using parse_json_line [OF exact_no_frac [OF ex']] by (simp only: sort_members_JObj)
  have "gm_get (sorted_kvs kvs) ''type'' = Some (JStr (MessageType_str t))"
    using ex ty by (simp add: gm_get_def sorted_kvs_map_of)
  moreover have "enum_of MessageType_str [MSG_HELLO, MSG_ERROR, MSG_GETPEERS, MSG_PEERS, MSG_GETOBJECT,
       MSG_IHAVEOBJECT, MSG_OBJECT, MSG_GETMEMPOOL, MSG_MEMPOOL, MSG_GETCHAINTIP, MSG_CHAINTIP]
       (MessageType_str t) = Some t"
    using t by (cases t) simp_all
  ultimately show ?thesis
    using p exact_finite [OF ex'] as_interface_exact(1) [OF ex']
    by (simp add: UnmarshalMessage_def sort_members_JObj del: as_interface.simps enum_of.simps
        finite_numbers.simps sort_members.simps)
qed

lemma MessageType_Unmarshal_str [simp]:
  "t \<noteq> MSG_NONE \<Longrightarrow> MessageType_Unmarshal (JStr (MessageType_str t)) = Some t"
  by (cases t) (simp_all add: MessageType_Unmarshal_def)

lemma ErrorCode_Unmarshal_str [simp]:
  "c \<noteq> E_NONE \<Longrightarrow> ErrorCode_Unmarshal (JStr (ErrorCode_str c)) = Some c"
  by (cases c) (simp_all add: ErrorCode_Unmarshal_def)

lemma MessageType_Unmarshal_names:
  "MessageType_Unmarshal (JStr ''hello'') = Some MSG_HELLO"
  "MessageType_Unmarshal (JStr ''error'') = Some MSG_ERROR"
  "MessageType_Unmarshal (JStr ''getpeers'') = Some MSG_GETPEERS"
  "MessageType_Unmarshal (JStr ''peers'') = Some MSG_PEERS"
  "MessageType_Unmarshal (JStr ''getobject'') = Some MSG_GETOBJECT"
  "MessageType_Unmarshal (JStr ''ihaveobject'') = Some MSG_IHAVEOBJECT"
  "MessageType_Unmarshal (JStr ''object'') = Some MSG_OBJECT"
  "MessageType_Unmarshal (JStr ''getmempool'') = Some MSG_GETMEMPOOL"
  "MessageType_Unmarshal (JStr ''mempool'') = Some MSG_MEMPOOL"
  "MessageType_Unmarshal (JStr ''getchaintip'') = Some MSG_GETCHAINTIP"
  "MessageType_Unmarshal (JStr ''chaintip'') = Some MSG_CHAINTIP"
  by (simp_all add: MessageType_Unmarshal_def)

text \<open>The messages the constructors can write for values of the protocol.\<close>

fun Message_ok :: "Message \<Rightarrow> bool" where
  "Message_ok (HelloMsg t v agent) \<longleftrightarrow> t = MSG_HELLO \<and> version_ok v \<and> pred_option BuString_ok agent"
| "Message_ok (ErrorMsg t n d) \<longleftrightarrow> t = MSG_ERROR \<and> n \<noteq> E_NONE \<and> BuString_ok d"
| "Message_ok (GetPeersMsg t) \<longleftrightarrow> t = MSG_GETPEERS"
| "Message_ok (PeersMsg t ps) \<longleftrightarrow> t = MSG_PEERS \<and> ps \<noteq> None \<and>
     list_all (\<lambda>p. p \<noteq> PEER_INVALID \<and> sanitizePeer p = p) (elems ps)"
| "Message_ok (GetObjectMsg t h) \<longleftrightarrow> t = MSG_GETOBJECT \<and> HashID_ok h"
| "Message_ok (IHaveObjectMsg t h) \<longleftrightarrow> t = MSG_IHAVEOBJECT \<and> HashID_ok h"
| "Message_ok (ObjectMsg t raw obj) \<longleftrightarrow> False"
| "Message_ok (GetMempoolMsg t) \<longleftrightarrow> t = MSG_GETMEMPOOL"
| "Message_ok (MempoolMsg t ids) \<longleftrightarrow> t = MSG_MEMPOOL \<and> list_all HashID_ok (elems ids) \<and> length (elems ids) \<le> 1000"
| "Message_ok (GetChainTipMsg t) \<longleftrightarrow> t = MSG_GETCHAINTIP"
| "Message_ok (ChainTipMsg t b) \<longleftrightarrow> t = MSG_CHAINTIP \<and> HashID_ok b"

lemma sort_strings [simp]: "sort_members (slice_json JStr s) = slice_json JStr s"
  by (simp add: slice_json_def comp_def split: option.splits)

lemma Peers_dec_enc:
  "list_all (\<lambda>p. p \<noteq> PEER_INVALID \<and> sanitizePeer p = p) ps \<Longrightarrow>
     Peers_Unmarshal (slice_json JStr (Some ps)) = Some (Some ps)"
proof -
  assume ok: "list_all (\<lambda>p. p \<noteq> PEER_INVALID \<and> sanitizePeer p = p) ps"
  then have "mapM Peer_Unmarshal (map JStr ps) = Some ps"
    by (induction ps) (simp_all add: Peer_Unmarshal_def)
  with ok show ?thesis by (simp add: Peers_Unmarshal_def slice_json_def list_all_iff filter_id_conv)
qed

lemma decode_fields:
  assumes "distinct (map fst kvs)" "fst ` set kvs \<subseteq> set (message_fields t)"
  shows "list_all (\<lambda>(k, v). match_field (message_fields t) k \<noteq> None) (sorted_kvs kvs)"
proof -
  have "fst ` set (sorted_kvs kvs) \<subseteq> set (message_fields t)"
    using map_fst_sorted [of kvs] assms(2) by simp
  then have "k \<in> set (message_fields t)" if "(k, v) \<in> set (sorted_kvs kvs)" for k v
    using that by (metis fst_conv image_subset_iff)
  moreover have "match_field names k = Some k" if "k \<in> set names" for names k
    using that by (simp add: match_field_def)
  ultimately show ?thesis unfolding list_all_iff by fastforce
qed

lemma decode_message_ok:
  assumes "Message_ok msg" "Message_json msg = JObj kvs"
  shows "decode_message (Message_MessageType msg) (sorted_kvs kvs) = Some msg"
proof -
  have d: "distinct (map fst kvs)" "fst ` set kvs \<subseteq> set (message_fields (Message_MessageType msg))"
    using assms by (cases msg; auto simp: omit_nil_def split: option.splits)+
  have f: "jfield (message_fields (Message_MessageType msg)) n (sorted_kvs kvs) =
      map_option sort_members (map_of kvs n)" for n
    by (rule jfield_sorted [OF d])
  note l = decode_fields [OF d]
  have type: "jfield (message_fields (Message_MessageType msg)) ''type'' (sorted_kvs kvs) =
      Some (JStr (MessageType_str (Message_MessageType msg)))"
  proof -
    have "map_of kvs ''type'' = Some (JStr (MessageType_str (Message_MessageType msg)))"
      using assms by (cases msg) auto
    then show ?thesis using f [of "''type''"] by simp
  qed
  show ?thesis
  proof (cases msg)
    case (HelloMsg t v agent)
    then have kvs: "kvs = [(''type'', JStr ''hello''), (''version'', JStr v)] @ omit_nil ''agent'' JStr agent"
      using assms by simp
    have "jfield (message_fields MSG_HELLO) ''version'' (sorted_kvs kvs) = Some (JStr v)"
      "jfield (message_fields MSG_HELLO) ''agent'' (sorted_kvs kvs) = map_option JStr agent"
      using f [of "''version''"] f [of "''agent''"] HelloMsg
      by (auto simp: kvs omit_nil_def split: option.splits)
    then show ?thesis
      using HelloMsg type l assms(1)
      by (cases agent) (simp_all add: decode_message_def Let_def MessageType_Unmarshal_names Version_Unmarshal_def)
  qed (use assms type l f [of "''name''"] f [of "''description''"] f [of "''peers''"] f [of "''objectid''"]
      f [of "''txids''"] f [of "''blockid''"] in
      \<open>auto simp: decode_message_def Let_def MessageType_Unmarshal_names HashIDs_dec_enc Peers_dec_enc\<close>)
qed

lemma message_roundtrip:
  assumes "Message_ok msg" "CanonicalizeMessage (Message_json msg) = Some raw"
  shows "UnmarshalMessage raw = Some msg"
proof -
  obtain kvs where kvs: "Message_json msg = JObj kvs" by (cases msg) auto
  have "exact_json (JObj kvs)" and "map_of kvs ''type'' = Some (JStr (MessageType_str (Message_MessageType msg)))"
    and "Message_MessageType msg \<noteq> MSG_NONE"
    using assms(1) kvs [symmetric] by (cases msg; auto simp: omit_nil_def split: option.splits)+
  with decode_message_ok [OF assms(1) kvs] show ?thesis
    using UnmarshalMessage_text [of kvs raw] assms(2) kvs by simp
qed

section \<open>The object of an object message\<close>

lemma first_field:
  assumes "\<And>m. m \<in> set names \<Longrightarrow> \<not> eq_fold n m"
  shows "jfield (n # names) n kvs = jfield [n] n kvs"
proof -
  have "match_field (n # names) k = Some n \<longleftrightarrow> match_field [n] k = Some n" for k
  proof -
    have "n \<notin> set names" using assms [of n] by (auto simp: eq_fold_def)
    moreover have "find P names = Some n \<Longrightarrow> n \<in> set names" for P
      by (auto simp: find_Some_iff)
    ultimately show ?thesis using assms [of k] by (auto simp: match_field_def)
  qed
  then show ?thesis by (simp add: jfield_def)
qed

lemma type_fields [simp]:
  "jfield Block_fields ''type'' kvs = jfield [''type''] ''type'' kvs"
  "jfield [''type'', ''inputs'', ''outputs''] ''type'' kvs = jfield [''type''] ''type'' kvs"
  "jfield [''type'', ''height'', ''outputs''] ''type'' kvs = jfield [''type''] ''type'' kvs"
  unfolding Block_fields_def by (rule first_field; auto simp: eq_fold_def lower_def)+

lemma HashID_Unmarshal_ok: "HashID_Unmarshal j = Some h \<Longrightarrow> HashID_ok h"
  by (auto simp: HashID_Unmarshal_def HashID_ok_def split: if_splits elim!: bind_SomeE)

lemma Nonce_Unmarshal_ok: "Nonce_Unmarshal j = Some h \<Longrightarrow> Nonce_ok h"
  by (auto simp: Nonce_Unmarshal_def Nonce_ok_def split: if_splits elim!: bind_SomeE)

lemma BuString_Unmarshal_ok: "BuString_Unmarshal j = Some s \<Longrightarrow> BuString_ok s"
  by (auto simp: BuString_Unmarshal_def BuString_ok_def maxBuStringLen_def split: if_splits elim!: bind_SomeE)

lemma HashIDs_Unmarshal_ok:
  "HashIDs_Unmarshal j = Some s \<Longrightarrow> list_all HashID_ok (elems s) \<and> length (elems s) \<le> 1000"
  using UnmarshalArray_elems [of HashID_Unmarshal 0 maxArrLen j s]
  by (auto simp: HashIDs_Unmarshal_def list_all_iff maxArrLen_def dest: HashID_Unmarshal_ok)

lemma BuStrings_Unmarshal_ok:
  "BuStrings_Unmarshal j = Some s \<Longrightarrow> list_all BuString_ok (elems s) \<and> length (elems s) \<le> 10"
  using UnmarshalArray_elems [of BuString_Unmarshal 0 maxBuStringsLen j s]
  by (auto simp: BuStrings_Unmarshal_def list_all_iff maxBuStringsLen_def dest: BuString_Unmarshal_ok)

lemma ptr_field_ok:
  assumes "ptr_field dec f = Some p" "\<And>j x. j \<noteq> JNull \<Longrightarrow> dec j = Some x \<Longrightarrow> P x"
  shows "pred_option P p"
  using assms by (auto simp: ptr_field_def split: option.splits if_splits)

lemma Block_Unmarshal_ok:
  assumes "Block_Unmarshal j = Some b" "blk_Type b = OBJ_BLOCK" "HashID_ok (blk_T b)"
  shows "Block_ok b"
proof -
  obtain f where f: "val_field 0 BuInt_Unmarshal (f ''created'') = Some (blk_Created b)"
      "ptr_field BuString_Unmarshal (f ''miner'') = Some (blk_Miner b)"
      "val_field [] Nonce_Unmarshal (f ''nonce'') = Some (blk_Nonce b)"
      "ptr_field BuString_Unmarshal (f ''note'') = Some (blk_Note b)"
      "ptr_field HashID_Unmarshal (f ''previd'') = Some (blk_Previd b)"
      "ptr_field BuStrings_Unmarshal (f ''studentids'') = Some (blk_Studentids b)"
      "val_field None HashIDs_Unmarshal (f ''txids'') = Some (blk_Txids b)"
    and c: "blk_CachedID b = None"
    using assms(1) by (auto simp: Block_Unmarshal_def Let_def elim!: bind_SomeE)
  have "BuInt_ok (blk_Created b)"
    using f(1) by (rule val_field_SomeE) (simp add: BuInt_ok_def, rule BuInt_Unmarshal_ok)
  moreover have "Nonce_ok (blk_Nonce b)"
    using f(3) by (rule val_field_SomeE) (simp add: Nonce_ok_def, rule Nonce_Unmarshal_ok)
  moreover have "pred_option BuString_ok (blk_Miner b)" "pred_option BuString_ok (blk_Note b)"
    "pred_option HashID_ok (blk_Previd b)"
    by (rule ptr_field_ok [OF f(2) BuString_Unmarshal_ok] ptr_field_ok [OF f(4) BuString_Unmarshal_ok]
        ptr_field_ok [OF f(5) HashID_Unmarshal_ok], assumption)+
  moreover have "pred_option (\<lambda>s. s \<noteq> None \<and> list_all BuString_ok (elems s) \<and> length (elems s) \<le> 10)
      (blk_Studentids b)"
  proof (rule ptr_field_ok [OF f(6)])
    fix j x assume j: "j \<noteq> JNull" "BuStrings_Unmarshal j = Some x"
    then have "x \<noteq> None"
      by (cases x) (auto simp: BuStrings_Unmarshal_def UnmarshalArray_def split: json.splits if_splits elim!: bind_SomeE)
    with BuStrings_Unmarshal_ok [OF j(2)]
    show "x \<noteq> None \<and> list_all BuString_ok (elems x) \<and> length (elems x) \<le> 10" by simp
  qed
  moreover have "list_all HashID_ok (elems (blk_Txids b)) \<and> length (elems (blk_Txids b)) \<le> 1000"
    using f(7) by (rule val_field_SomeE) (simp, rule HashIDs_Unmarshal_ok)
  ultimately show ?thesis using assms c by (simp add: Block_ok_def)
qed

text \<open>What arrives is typed as its form says, carries no cached ID, and a block has its fields in range.\<close>

fun received_ok :: "Object \<Rightarrow> bool" where
  "received_ok (TxObj t) \<longleftrightarrow> tx_Type t = OBJ_TRANSACTION \<and> tx_CachedID t = None"
| "received_ok (CoinbaseObj c) \<longleftrightarrow> cb_Type c = OBJ_TRANSACTION \<and> cb_CachedID c = None"
| "received_ok (BlockObj b) \<longleftrightarrow> Block_ok b \<and> blk_T b = TARGET"

lemma HashID_ok_TARGET: "HashID_ok TARGET"
  by code_simp

lemma inner_object_ok:
  assumes "inner_object raw = Some obj"
  shows "received_ok obj"
proof -
  obtain kvs type where kvs: "members raw = Some kvs"
    "val_field OBJ_NONE ObjectType_Unmarshal (jfield [''type''] ''type'' kvs) = Some type"
    using assms by (auto simp: inner_object_def elim!: bind_SomeE)
  show ?thesis
  proof (cases type)
    case OBJ_NONE
    then show ?thesis using assms kvs by (simp add: inner_object_def)
  next
    case OBJ_BLOCK
    then obtain b where b: "Block_Unmarshal raw = Some b" "blk_T b = TARGET" "obj = BlockObj b"
      using assms kvs by (auto simp: inner_object_def split: if_splits elim!: bind_SomeE)
    moreover have "blk_Type b = OBJ_BLOCK"
      using b(1) kvs OBJ_BLOCK by (auto simp: Block_Unmarshal_def Let_def elim!: bind_SomeE)
    ultimately show ?thesis using Block_Unmarshal_ok [of raw b] HashID_ok_TARGET by simp
  next
    case OBJ_TRANSACTION
    then show ?thesis
      using assms kvs
      by (auto simp: inner_object_def Transaction_Unmarshal_def CoinbaseTransaction_Unmarshal_def Let_def
          split: if_splits option.splits elim!: bind_SomeE)
  qed
qed

lemma decode_object:
  "decode_message t kvs = Some (ObjectMsg t' r o') \<Longrightarrow> Object_UnmarshalJSON kvs = Some (ObjectMsg t' r o')"
  by (cases t) (auto simp: decode_message_def Let_def split: if_splits elim!: bind_SomeE)

lemma UnmarshalMessage_object:
  assumes "UnmarshalMessage raw = Some (ObjectMsg t r o')"
  obtains obj where "o' = Some obj" "received_ok obj"
proof -
  obtain kvs where "Object_UnmarshalJSON kvs = Some (ObjectMsg t r o')"
    using assms unfolding UnmarshalMessage_def by (elim bind_SomeE) (rule that, rule decode_object)
  then show ?thesis
    using that by (auto simp: Object_UnmarshalJSON_def Let_def intro: inner_object_ok elim!: bind_SomeE)
qed

section \<open>An object that was sent is read back\<close>

text \<open>The canonical text has the members in another order; every decoder finds them by name.\<close>

lemma members_sorted: "members (sort_members (JObj kvs)) = Some (sorted_kvs kvs)"
  by (simp add: sort_members_JObj del: sort_members.simps)

lemma sort_slice: "sort_members (slice_json enc s) = slice_json (\<lambda>x. sort_members (enc x)) s"
  by (simp add: slice_json_def comp_def split: option.splits)

lemma sort_ptr: "sort_members (ptr_json enc p) = ptr_json (\<lambda>x. sort_members (enc x)) p"
  by (simp add: ptr_json_def split: option.splits)

lemma Outpoint_sorted: "Outpoint_ok p \<Longrightarrow> Outpoint_Unmarshal (sort_members (Outpoint_json p)) = Some p"
  unfolding Outpoint_json_def Outpoint_Unmarshal_def members_sorted
  by (auto simp: jfield_sorted sort_ptr Outpoint_ok_def split: option.splits)

lemma TxInput_sorted: "TxInput_ok i \<Longrightarrow> TxInput_Unmarshal (sort_members (TxInput_json i)) = Some i"
  unfolding TxInput_json_def TxInput_Unmarshal_def members_sorted
  by (auto simp: jfield_sorted sort_ptr TxInput_ok_def Outpoint_sorted split: option.splits)

lemma TxOutput_sorted: "TxOutput_ok o' \<Longrightarrow> TxOutput_Unmarshal (sort_members (TxOutput_json o')) = Some o'"
  unfolding TxOutput_json_def TxOutput_Unmarshal_def members_sorted
  by (simp add: jfield_sorted TxOutput_ok_def Picabu_Marshal_def)

lemma TxOutputs_sorted:
  "TxOutputs_ok outs \<Longrightarrow> TxOutputs_Unmarshal (sort_members (slice_json TxOutput_json outs)) = Some outs"
  unfolding TxOutputs_Unmarshal_def TxOutputs_ok_def maxArrLen_def sort_slice
  by (rule UnmarshalArray_slice_json) (auto simp: list_all_iff TxOutput_sorted)

lemma TxInputs_sorted:
  "list_all TxInput_ok ins \<Longrightarrow> 1 \<le> length ins \<Longrightarrow> length ins \<le> 1000 \<Longrightarrow>
     TxInputs_Unmarshal (sort_members (slice_json TxInput_json (Some ins))) = Some (Some ins)"
  unfolding TxInputs_Unmarshal_def maxArrLen_def sort_slice
  by (rule UnmarshalArray_slice_json) (auto simp: list_all_iff TxInput_sorted)

lemma Transaction_sorted_dec:
  "Transaction_ok t \<Longrightarrow> Transaction_Unmarshal (sort_members (Transaction_json t)) = Some t"
  unfolding Transaction_json_def Transaction_Unmarshal_def members_sorted
  by (auto simp: jfield_sorted Transaction_ok_def TxOutputs_sorted TxInputs_sorted split: option.splits
      simp del: type_fields)

lemma Coinbase_sorted_dec:
  "CoinbaseTransaction_ok c \<Longrightarrow>
     CoinbaseTransaction_Unmarshal (sort_members (CoinbaseTransaction_json c)) = Some c"
  unfolding CoinbaseTransaction_json_def CoinbaseTransaction_Unmarshal_def members_sorted
  by (auto simp: jfield_sorted CoinbaseTransaction_ok_def TxOutputs_sorted simp del: type_fields)

lemma Block_sorted_dec:
  assumes ok: "Block_ok b"
  shows "Block_Unmarshal (sort_members (Block_json b)) = Some b"
proof -
  define kvs where "kvs = [(''type'', JStr (ObjectType_str (blk_Type b))), (''T'', JStr (blk_T b)),
      (''created'', JInt (blk_Created b))] @ omit_nil ''miner'' JStr (blk_Miner b) @
     [(''nonce'', JStr (blk_Nonce b))] @ omit_nil ''note'' JStr (blk_Note b) @
     [(''previd'', ptr_json JStr (blk_Previd b))] @
     omit_nil ''studentids'' (slice_json JStr) (blk_Studentids b) @ [(''txids'', slice_json JStr (blk_Txids b))]"
  have "distinct (map fst kvs)" "fst ` set kvs \<subseteq> set Block_fields"
    by (auto simp: kvs_def omit_nil_def Block_fields_def split: option.splits)
  note f = jfield_sorted [OF this]
  have get: "map_of kvs ''type'' = Some (JStr (ObjectType_str (blk_Type b)))"
    "map_of kvs ''T'' = Some (JStr (blk_T b))" "map_of kvs ''created'' = Some (JInt (blk_Created b))"
    "map_of kvs ''miner'' = map_option JStr (blk_Miner b)" "map_of kvs ''nonce'' = Some (JStr (blk_Nonce b))"
    "map_of kvs ''note'' = map_option JStr (blk_Note b)"
    "map_of kvs ''previd'' = Some (ptr_json JStr (blk_Previd b))"
    "map_of kvs ''studentids'' = map_option (slice_json JStr) (blk_Studentids b)"
    "map_of kvs ''txids'' = Some (slice_json JStr (blk_Txids b))"
    by (auto simp: kvs_def omit_nil_def split: option.splits)
  have "ptr_field BuString_Unmarshal (map_option JStr (blk_Miner b)) = Some (blk_Miner b)"
    "ptr_field BuString_Unmarshal (map_option JStr (blk_Note b)) = Some (blk_Note b)"
    "ptr_field HashID_Unmarshal (Some (ptr_json JStr (blk_Previd b))) = Some (blk_Previd b)"
    using ok by (auto simp: Block_ok_def intro!: ptr_field_omit_nil split: option.splits)
  moreover have "ptr_field BuStrings_Unmarshal (map_option (slice_json JStr) (blk_Studentids b))
      = Some (blk_Studentids b)"
    using ok by (auto simp: Block_ok_def BuStrings_dec_enc intro!: ptr_field_omit_nil)
  moreover have "HashIDs_Unmarshal (slice_json JStr (blk_Txids b)) = Some (blk_Txids b)"
    using ok by (auto simp: Block_ok_def HashIDs_dec_enc)
  moreover have "Block_json b = JObj kvs" by (simp add: Block_json_def kvs_def)
  moreover have "map_option sort_members (map_option JStr p) = map_option JStr p"
    "map_option sort_members (map_option (slice_json JStr) q) = map_option (slice_json JStr) q"
    for p :: "string option" and q :: "string slice option"
    by (cases p, simp_all) (cases q, simp_all)
  ultimately show ?thesis
    using ok
    by (simp add: Block_Unmarshal_def members_sorted f get sort_ptr Block_ok_def
        del: ptr_field_ptr_json type_fields sort_members.simps(1))
qed

lemma jfield_alone:
  assumes "distinct (map fst kvs)" "\<And>k. k \<in> fst ` set kvs \<Longrightarrow> k \<noteq> n \<Longrightarrow> \<not> eq_fold n k"
  shows "jfield [n] n kvs = map_of kvs n"
  using assms
proof (induction kvs rule: rev_induct)
  case (snoc kv kvs)
  obtain k v where kv: "kv = (k, v)" by (cases kv)
  have "map_of kvs k = None" using snoc.prems(1) kv by (auto simp: map_of_eq_None_iff)
  moreover have "match_field [n] k = Some n \<longleftrightarrow> k = n"
    using snoc.prems(2) [of k] kv by (auto simp: match_field_def)
  ultimately show ?case using snoc kv by (auto simp: jfield_snoc map_add_def split: option.splits)
qed simp

lemma probe_sorted:
  assumes "distinct (map fst kvs)" "\<And>k. k \<in> fst ` set kvs \<Longrightarrow> k \<noteq> n \<Longrightarrow> \<not> eq_fold n k"
  shows "jfield [n] n (sorted_kvs kvs) = map_option sort_members (map_of kvs n)"
  using jfield_alone [OF sorted_kvs_distinct [OF assms(1)], of n] assms map_fst_sorted [of kvs]
  by (simp add: sorted_kvs_map_of)

lemma sort_members_idem: "sort_members (sort_members j) = sort_members j"
proof (induction j)
  case (JObj kvs)
  let ?n = "\<lambda>(k, v). (k, sort_members v)"
  have comm: "sort_key fst (map ?n xs) = map ?n (sort_key fst xs)" for xs :: "(string \<times> json) list"
    by (rule sort_key_map_fst) auto
  have "map ?n (map ?n kvs) = map ?n kvs" using JObj by fastforce
  then have "sort_key fst (map ?n (sort_key fst (map ?n kvs))) = sort_key fst (sort_key fst (map ?n kvs))"
    by (metis comm)
  also have "\<dots> = sort_key fst (map ?n kvs)"
    by (metis sort_key_id_if_sorted sorted_sort_key)
  finally show ?case by simp
qed (auto simp: comp_def)

text \<open>
  An object whose text keeps its value: every field in range, the target in a block, and all numbers
  below 2^53. It may have its ID cached: the ID is not written. The code sends objects with larger
  numbers too; their text holds the float64 nearest to the number, so the receiver gets another value.
\<close>

fun sendable :: "Object \<Rightarrow> bool" where
  "sendable (TxObj t) \<longleftrightarrow> Transaction_ok (t\<lparr>tx_CachedID := None\<rparr>) \<and> exact_object (TxObj t)"
| "sendable (CoinbaseObj c) \<longleftrightarrow> CoinbaseTransaction_ok (c\<lparr>cb_CachedID := None\<rparr>) \<and> exact_object (CoinbaseObj c)"
| "sendable (BlockObj b) \<longleftrightarrow> Block_ok (b\<lparr>blk_CachedID := None\<rparr>) \<and> blk_T b = TARGET \<and> exact_object (BlockObj b)"

lemma inner_object_sorted:
  assumes "sendable obj"
  shows "inner_object (sort_members (Object_json obj)) = Some (uncached obj)"
proof -
  obtain kvs where kvs: "Object_json (uncached obj) = JObj kvs" by (cases obj)
    (simp_all add: Transaction_json_def CoinbaseTransaction_json_def Block_json_def)
  have d: "distinct (map fst kvs)"
    and ty: "\<And>k. k \<in> fst ` set kvs \<Longrightarrow> k \<noteq> ''type'' \<Longrightarrow> \<not> eq_fold ''type'' k"
    and h: "\<And>k. k \<in> fst ` set kvs \<Longrightarrow> k \<noteq> ''height'' \<Longrightarrow> \<not> eq_fold ''height'' k"
    using kvs by (cases obj; auto simp: Transaction_json_def CoinbaseTransaction_json_def Block_json_def
        omit_nil_def eq_fold_def lower_def split: option.splits)+
  note p = members_sorted [of kvs] probe_sorted [OF d ty] probe_sorted [OF d h]
  have j: "Object_json obj = JObj kvs" using kvs by simp
  show ?thesis
  proof (cases obj)
    case (TxObj t)
    have "map_of kvs ''type'' = Some (JStr ''transaction'')" "map_of kvs ''height'' = None"
      using kvs TxObj assms by (auto simp: Transaction_json_def Transaction_ok_def)
    then show ?thesis
      using TxObj assms Transaction_sorted_dec [of "t\<lparr>tx_CachedID := None\<rparr>"] j
      by (simp add: inner_object_def p cbProbe_Height_def Transaction_json_def del: sort_members.simps(1))
  next
    case (CoinbaseObj c)
    have "map_of kvs ''type'' = Some (JStr ''transaction'')" "map_of kvs ''height'' = Some (JInt (cb_Height c))"
      using kvs CoinbaseObj assms by (auto simp: CoinbaseTransaction_json_def CoinbaseTransaction_ok_def)
    then show ?thesis
      using CoinbaseObj assms Coinbase_sorted_dec [of "c\<lparr>cb_CachedID := None\<rparr>"] j
      by (simp add: inner_object_def p cbProbe_Height_def CoinbaseTransaction_json_def del: sort_members.simps(1))
  next
    case (BlockObj b)
    have "map_of kvs ''type'' = Some (JStr ''block'')"
      using kvs BlockObj assms by (auto simp: Block_json_def Block_ok_def)
    then show ?thesis
      using BlockObj assms Block_sorted_dec [of "b\<lparr>blk_CachedID := None\<rparr>"] j
      by (simp add: inner_object_def p Block_json_def del: sort_members.simps(1))
  qed
qed

lemma sendable_exact: "sendable obj \<Longrightarrow> exact_json (Object_json obj)"
  using exact_Object_json [of obj] by (cases obj) auto

lemma object_roundtrip:
  assumes "sendable obj" "MakeObject obj = Some raw"
  shows "UnmarshalMessage raw = Some (ObjectMsg MSG_OBJECT (Some (sort_members (Object_json obj))) (Some (uncached obj)))"
proof -
  let ?j = "sort_members (Object_json obj)"
  let ?kvs = "[(''type'', JStr ''object''), (''object'', ?j)]"
  have ex: "exact_json ?j" by (rule exact_sort_members [OF sendable_exact [OF assms(1)]])
  have "CanonicalizeMessage (JObj ?kvs) = Some raw"
    using assms(2) sendable_exact [OF assms(1)] canonical_reads_back [of "Object_json obj"]
    by (auto simp: MakeObject_def ptr_json_def elim!: bind_SomeE)
  then have "UnmarshalMessage raw = decode_message MSG_OBJECT (sorted_kvs ?kvs)"
    by (rule UnmarshalMessage_text) (use ex in simp_all)
  moreover have "jfield [''type'', ''object''] n (sorted_kvs ?kvs) = map_option sort_members (map_of ?kvs n)" for n
    by (rule jfield_sorted) auto
  ultimately show ?thesis
    using inner_object_sorted [OF assms(1)]
    by (simp add: decode_message_def Object_UnmarshalJSON_def MessageType_Unmarshal_names sort_members_idem)
qed

text \<open>A sendable object always has a message.\<close>

lemma MakeObject_total: "sendable obj \<Longrightarrow> MakeObject obj \<noteq> None"
proof -
  assume s: "sendable obj"
  then have ex: "exact_json (Object_json obj)" by (rule sendable_exact)
  let ?kvs = "[(''type'', JStr ''object''), (''object'', sort_members (Object_json obj))]"
  have "exact_json (JObj ?kvs)" using exact_sort_members [OF ex] by simp
  then have "Canonicalize (JObj ?kvs) \<noteq> None" by (simp only: Canonicalize_exact) simp
  then show ?thesis
    using Canonicalize_exact [OF ex] canonical_reads_back [OF ex]
    by (simp add: MakeObject_def CanonicalizeMessage_def ptr_json_def)
qed

end
