(* ===== verification/Discovery.thy ===== *)
theory Discovery
  imports PeerAddr
begin

text \<open>
  \<^verbatim>\<open>internal/discovery\<close>: the addresses the node knows, those it has given up for a while, and the
  file they are saved to (as the rows that \<^verbatim>\<open>encoding/csv\<close> reads and writes). The package's
  global variables are the record \<open>discovery\<close>. \<open>now\<close> is in nanoseconds, except where a Unix
  time in seconds is asked for. A random permutation \<^verbatim>\<open>rng.Perm(n)\<close> is an argument: a list of the
  numbers below n, each once.

  Results: a selection has the size asked for (or takes every candidate), never repeats, never
  holds an address that is ignored, and holds the most recently seen ones first; an address
  given up is not learnt again before its time is over.
\<close>

record DiscoveryRecord =
  dr_Source :: string
  dr_Agent :: string
  dr_LastSeen :: int

record discovery =
  ds_KnownPeers :: "(Peer, DiscoveryRecord) gomap"
  ds_DeadPeers :: "(Peer, int) gomap"
  ds_file :: "string list list"

definition BOOTSTRAP_PEERS :: "Peer list" where
  "BOOTSTRAP_PEERS = [''95.179.158.137:18018'', ''95.179.132.22:18018'', ''45.32.235.245:18018'']"

section \<open>The file\<close>

text \<open>
  The value of \<^verbatim>\<open>strconv.ParseInt(s, 10, 64)\<close> for a caller that ignores the error: 0 for text that
  is no number, the nearest bound for a number out of range.
\<close>

definition ParseInt_value :: "string \<Rightarrow> int" where
  "ParseInt_value s = (case s of
     [] \<Rightarrow> 0
   | c # cs \<Rightarrow>
       let ds = (if c = CHR ''-'' \<or> c = CHR ''+'' then cs else s);
           n = int (nat_of_string ds)
       in if ds = [] \<or> \<not> list_all is_digit ds then 0
          else max (- (2 ^ 63)) (min (2 ^ 63 - 1) (if c = CHR ''-'' then - n else n)))"

definition load_row :: "string list \<Rightarrow> discovery \<Rightarrow> discovery" where
  "load_row rec s =
     (if length rec < 2 \<or> rec ! 0 = ''Address'' then s
      else
        let agent = (if length rec > 2 then rec ! 2 else ''unknown'');
            lastSeen = (if length rec > 3 then ParseInt_value (rec ! 3) else 0)
        in s\<lparr>ds_KnownPeers := gm_set (rec ! 0)
               \<lparr>dr_Source = rec ! 1, dr_Agent = agent, dr_LastSeen = lastSeen\<rparr> (ds_KnownPeers s)\<rparr>)"

text \<open>\<open>None\<close>: the file could not be opened or read.\<close>

definition loadPeers :: "string list list option \<Rightarrow> discovery \<Rightarrow> discovery" where
  "loadPeers file s =
     (let s = s\<lparr>ds_KnownPeers := fold
            (\<lambda>peer. gm_set peer \<lparr>dr_Source = ''bootstrap'', dr_Agent = ''unknown'', dr_LastSeen = 0\<rparr>)
            BOOTSTRAP_PEERS (ds_KnownPeers s)\<rparr>
      in case file of None \<Rightarrow> s | Some records \<Rightarrow> fold load_row records s)"

definition peer_row :: "Peer \<times> DiscoveryRecord \<Rightarrow> string list" where
  "peer_row e = (case e of (peer, record') \<Rightarrow>
     [peer, dr_Source record', dr_Agent record', string_of_int (dr_LastSeen record')])"

text \<open>\<open>created\<close>: \<^verbatim>\<open>os.Create\<close> succeeded.\<close>

definition savePeers :: "bool \<Rightarrow> discovery \<Rightarrow> discovery" where
  "savePeers created s =
     (if \<not> created then s
      else s\<lparr>ds_file := [''Address'', ''Source'', ''Agent'', ''LastSeen''] #
             map peer_row (filter (\<lambda>(peer, _). peer \<noteq> PEER_INVALID) (ds_KnownPeers s))\<rparr>)"

text \<open>
  The package's \<^verbatim>\<open>init\<close>, which runs before \<^verbatim>\<open>main\<close>: \<open>missing\<close> says that there is no file yet, which is
  then written.
\<close>

definition discovery_init :: "string list list option \<Rightarrow> bool \<Rightarrow> bool \<Rightarrow> discovery" where
  "discovery_init file missing created =
     (let s = loadPeers file \<lparr>ds_KnownPeers = [], ds_DeadPeers = [], ds_file = (case file of None \<Rightarrow> [] | Some records \<Rightarrow> records)\<rparr>
      in if missing then savePeers created s else s)"

section \<open>Learning and forgetting\<close>

definition GetKnownPeers :: "discovery \<Rightarrow> Peer list" where
  "GetKnownPeers s = map fst (ds_KnownPeers s)"

definition GetKnownPeersCount :: "discovery \<Rightarrow> nat" where
  "GetKnownPeersCount s = length (ds_KnownPeers s)"

fun append_peers ::
  "string \<Rightarrow> Peer list \<Rightarrow> (Peer, int) gomap \<Rightarrow> (Peer, DiscoveryRecord) gomap \<Rightarrow> nat \<Rightarrow>
     (Peer, DiscoveryRecord) gomap \<times> nat" where
  "append_peers source [] dead known newPeers = (known, newPeers)"
| "append_peers source (peer # peers) dead known newPeers =
     (if peer \<noteq> PEER_INVALID then
        (if gm_has dead peer then append_peers source peers dead known newPeers
         else if \<not> gm_has known peer then
           append_peers source peers dead
             (gm_set peer \<lparr>dr_Source = source, dr_Agent = ''unknown'', dr_LastSeen = 0\<rparr> known) (newPeers + 1)
         else append_peers source peers dead known newPeers)
      else append_peers source peers dead known newPeers)"

definition AppendPeers :: "bool \<Rightarrow> Peer list \<Rightarrow> string \<Rightarrow> discovery \<Rightarrow> discovery" where
  "AppendPeers created peers source s =
     (case append_peers source peers (ds_DeadPeers s) (ds_KnownPeers s) 0 of
        (known, newPeers) \<Rightarrow>
          let s = s\<lparr>ds_KnownPeers := known\<rparr>
          in if newPeers > 0 then savePeers created s else s)"

definition RemovePeer :: "int \<Rightarrow> string \<Rightarrow> discovery \<Rightarrow> discovery" where
  "RemovePeer now peerAddr s =
     s\<lparr>ds_KnownPeers := gm_del peerAddr (ds_KnownPeers s),
       ds_DeadPeers := gm_set peerAddr now (ds_DeadPeers s)\<rparr>"

definition grave_time :: int where
  "grave_time = 12 * 60 * 60 * 10 ^ 9"

text \<open>One tick of \<^verbatim>\<open>DeadPeersTimer\<close>.\<close>

definition DeadPeersTimer :: "int \<Rightarrow> discovery \<Rightarrow> discovery" where
  "DeadPeersTimer now s =
     s\<lparr>ds_DeadPeers := fold (\<lambda>(peer, timeOfDeath) dead.
         if now - timeOfDeath > grave_time then gm_del peer dead else dead)
       (ds_DeadPeers s) (ds_DeadPeers s)\<rparr>"

text \<open>
  The map of a new address first gets a record with the source \<^verbatim>\<open>direct\<close>, but the variable
  \<^verbatim>\<open>record\<close>, read before, is what is stored in the end.
\<close>

definition UpdatePeer :: "bool \<Rightarrow> int \<Rightarrow> string \<Rightarrow> string \<Rightarrow> discovery \<Rightarrow> discovery" where
  "UpdatePeer created nowUnix peerAddr agent s =
     (let record' = (case gm_get (ds_KnownPeers s) peerAddr of
            None \<Rightarrow> \<lparr>dr_Source = [], dr_Agent = [], dr_LastSeen = 0\<rparr>
          | Some r \<Rightarrow> r);
          known = (if \<not> gm_has (ds_KnownPeers s) peerAddr then
            gm_set peerAddr \<lparr>dr_Source = ''direct'', dr_Agent = [], dr_LastSeen = 0\<rparr> (ds_KnownPeers s)
            else ds_KnownPeers s);
          record' = record'\<lparr>dr_Agent := agent, dr_LastSeen := nowUnix\<rparr>
      in savePeers created (s\<lparr>ds_KnownPeers := gm_set peerAddr record' known\<rparr>))"

section \<open>Selections\<close>

definition valid_peers :: "(string, bool) gomap \<Rightarrow> discovery \<Rightarrow> (Peer \<times> DiscoveryRecord) list" where
  "valid_peers ignoreIPs s =
     filter (\<lambda>(peer, _). peer \<noteq> PEER_INVALID \<and> gm_get ignoreIPs peer \<noteq> Some True) (ds_KnownPeers s)"

definition SelectRandomPeers ::
  "nat list \<Rightarrow> nat \<Rightarrow> (string, bool) gomap \<Rightarrow> discovery \<Rightarrow> string list" where
  "SelectRandomPeers perm count' ignoreIPs s =
     (let validPeers = map fst (valid_peers ignoreIPs s)
      in if length validPeers \<le> count' then validPeers
         else map (\<lambda>i. validPeers ! (perm ! i)) [0 ..< count'])"

text \<open>The groups in the order of a map whose keys are the sources; one permutation per source.\<close>

definition group_peers ::
  "(string, bool) gomap \<Rightarrow> discovery \<Rightarrow> (string, string list) gomap" where
  "group_peers ignoreIPs s = fold (\<lambda>(peer, record') groups.
     let old = (case gm_get groups (dr_Source record') of None \<Rightarrow> [] | Some ps \<Rightarrow> ps)
     in gm_set (dr_Source record') (old @ [peer]) groups) (valid_peers ignoreIPs s) []"

definition SelectRandomPeersPerSource ::
  "(string \<Rightarrow> nat list) \<Rightarrow> nat \<Rightarrow> (string, bool) gomap \<Rightarrow> discovery \<Rightarrow> string list" where
  "SelectRandomPeersPerSource perm count' ignoreIPs s =
     concat (map (\<lambda>(source, peers).
         if length peers \<le> count' then peers
         else map (\<lambda>i. peers ! (perm source ! i)) [0 ..< count'])
       (group_peers ignoreIPs s))"

text \<open>
  \<^verbatim>\<open>sort.Slice\<close> leaves the order of equal times open; so does the order of the map it starts from.
  \<^verbatim>\<open>int(float64(count) * 0.8)\<close> is four fifths rounded down, for every count below \<open>2\<^sup>5\<^sup>0\<close>.
\<close>

definition recent_count :: "nat \<Rightarrow> nat" where
  "recent_count count' = 4 * count' div 5"

definition SelectRecentPeers ::
  "nat list \<Rightarrow> nat \<Rightarrow> (string, bool) gomap \<Rightarrow> discovery \<Rightarrow> string list" where
  "SelectRecentPeers perm count' ignoreIPs s =
     (let validPeers = sort_key (\<lambda>(_, r). - dr_LastSeen r) (valid_peers ignoreIPs s);
          addrs = map fst validPeers
      in if length addrs \<le> count' then addrs
         else
           let recentCount = recent_count count';
               randomCount = count' - recentCount;
               remaining = drop recentCount addrs
           in map (\<lambda>i. addrs ! i) [0 ..< recentCount] @
              map (\<lambda>i. remaining ! (perm ! i)) [0 ..< randomCount])"

section \<open>Facts\<close>

definition is_perm :: "nat \<Rightarrow> nat list \<Rightarrow> bool" where
  "is_perm n perm \<longleftrightarrow> mset perm = mset [0 ..< n]"

lemma is_permD:
  assumes "is_perm n perm"
  shows "length perm = n" "distinct perm" "set perm = {0 ..< n}"
proof -
  have m: "mset perm = mset [0 ..< n]" using assms by (simp add: is_perm_def)
  show "length perm = n" using mset_eq_length [OF m] by simp
  show "distinct perm" using mset_eq_imp_distinct_iff [OF m] by simp
  show "set perm = {0 ..< n}" using mset_eq_setD [OF m] by simp
qed

text \<open>Taking the first \<open>k\<close> places of a permutation out of a list.\<close>

lemma pick_perm:
  assumes "is_perm (length xs) perm" "k \<le> length xs" "distinct xs"
  defines "ys \<equiv> map (\<lambda>i. xs ! (perm ! i)) [0 ..< k]"
  shows "distinct ys" "set ys \<subseteq> set xs" "length ys = k"
proof -
  note p = is_permD [OF assms(1)]
  have lt: "perm ! i < length xs" if "i < k" for i
    using that assms(2) p(1,3) nth_mem [of i perm] by auto
  show "length ys = k" by (simp add: ys_def)
  show "set ys \<subseteq> set xs" using lt by (auto simp: ys_def)
  have "inj_on (\<lambda>i. xs ! (perm ! i)) {0 ..< k}"
    using lt p(1,2) assms(2,3) by (intro inj_onI) (auto simp: nth_eq_iff_index_eq)
  then show "distinct ys" by (simp add: ys_def distinct_map)
qed

lemma gm_wf_filter: "gm_wf m \<Longrightarrow> gm_wf (filter P m)"
  by (simp add: gm_wf_def distinct_map_filter)

lemma valid_peers_wf: "gm_wf (ds_KnownPeers s) \<Longrightarrow> distinct (map fst (valid_peers ignoreIPs s))"
  using gm_wf_filter [of "ds_KnownPeers s"] by (simp add: valid_peers_def gm_wf_def)

lemma valid_peers_mem:
  "peer \<in> set (map fst (valid_peers ignoreIPs s)) \<longleftrightarrow>
     gm_has (ds_KnownPeers s) peer \<and> peer \<noteq> PEER_INVALID \<and> gm_get ignoreIPs peer \<noteq> Some True"
  by (force simp: valid_peers_def gm_has_iff)

lemma recent_count_le: "recent_count n \<le> n"
  by (simp add: recent_count_def)

lemma SelectRecentPeers_props:
  assumes wf: "gm_wf (ds_KnownPeers s)"
    and perm: "is_perm (length (valid_peers ignoreIPs s) - recent_count n) perm"
  defines "sel \<equiv> SelectRecentPeers perm n ignoreIPs s"
  shows "distinct sel" "length sel = min n (length (valid_peers ignoreIPs s))"
    "\<And>p. p \<in> set sel \<Longrightarrow> gm_has (ds_KnownPeers s) p \<and> p \<noteq> PEER_INVALID \<and> gm_get ignoreIPs p \<noteq> Some True"
proof -
  define addrs where "addrs = map fst (sort_key (\<lambda>(_, r). - dr_LastSeen r) (valid_peers ignoreIPs s))"
  have m: "mset addrs = mset (map fst (valid_peers ignoreIPs s))"
    by (simp add: addrs_def)
  have d: "distinct addrs" using valid_peers_wf [OF wf] mset_eq_imp_distinct_iff [OF m] by blast
  have l: "length addrs = length (valid_peers ignoreIPs s)" by (simp add: addrs_def)
  have mem: "p \<in> set addrs \<Longrightarrow>
      gm_has (ds_KnownPeers s) p \<and> p \<noteq> PEER_INVALID \<and> gm_get ignoreIPs p \<noteq> Some True" for p
    using mset_eq_setD [OF m] valid_peers_mem [of p ignoreIPs s] by simp
  let ?rest = "drop (recent_count n) addrs"
  define picked where "picked = map (\<lambda>i. ?rest ! (perm ! i)) [0 ..< n - recent_count n]"
  have sel: "sel = (if length addrs \<le> n then addrs else take (recent_count n) addrs @ picked)"
  proof (cases "length addrs \<le> n")
    case False
    then have "map (\<lambda>i. addrs ! i) [0 ..< recent_count n] = take (recent_count n) addrs"
      using recent_count_le [of n] by (intro nth_equalityI) simp_all
    with False show ?thesis by (simp add: sel_def SelectRecentPeers_def Let_def addrs_def picked_def)
  qed (simp add: sel_def SelectRecentPeers_def Let_def addrs_def)
  have pick: "distinct picked" "set picked \<subseteq> set ?rest" "length picked = n - recent_count n"
    if "\<not> length addrs \<le> n"
    using pick_perm [of ?rest perm "n - recent_count n"] perm d l that unfolding picked_def by simp_all
  show "distinct sel"
    using sel d pick set_take_disj_set_drop_if_distinct [OF d, of "recent_count n" "recent_count n"]
    by (auto simp: distinct_append)
  show "length sel = min n (length (valid_peers ignoreIPs s))"
    using sel l pick recent_count_le [of n] by auto
  show "gm_has (ds_KnownPeers s) p \<and> p \<noteq> PEER_INVALID \<and> gm_get ignoreIPs p \<noteq> Some True"
    if "p \<in> set sel" for p
  proof (rule mem)
    show "p \<in> set addrs"
      using that sel pick set_take_subset [of "recent_count n" addrs] set_drop_subset [of "recent_count n" addrs]
      by (auto split: if_splits)
  qed
qed

text \<open>The first four fifths of a full selection have been seen at least as recently as any other candidate.\<close>

lemma SelectRecentPeers_recent:
  assumes wf: "gm_wf (ds_KnownPeers s)" and full: "n < length (valid_peers ignoreIPs s)"
    and i: "i < recent_count n" and p: "(p, r) \<in> set (valid_peers ignoreIPs s)"
    and not_first: "p \<notin> set (take (recent_count n) (SelectRecentPeers perm n ignoreIPs s))"
  shows "\<exists>q. gm_get (ds_KnownPeers s) (SelectRecentPeers perm n ignoreIPs s ! i) = Some q \<and>
    dr_LastSeen r \<le> dr_LastSeen q"
proof -
  define ps where "ps = sort_key (\<lambda>(_, r). - dr_LastSeen r) (valid_peers ignoreIPs s)"
  have len: "length ps = length (valid_peers ignoreIPs s)" by (simp add: ps_def)
  have rc: "recent_count n \<le> n" by (rule recent_count_le)
  have sel: "SelectRecentPeers perm n ignoreIPs s ! j = fst (ps ! j)" if "j < recent_count n" for j
    using that full len rc by (simp add: SelectRecentPeers_def Let_def ps_def nth_append)
  have sel_len: "recent_count n \<le> length (SelectRecentPeers perm n ignoreIPs s)"
    using full rc by (simp add: SelectRecentPeers_def Let_def)
  have "(p, r) \<in> set ps" using p by (simp add: ps_def)
  then obtain j where j: "j < length ps" "ps ! j = (p, r)"
    by (auto simp only: in_set_conv_nth)
  have "\<not> j < recent_count n"
  proof
    assume lt: "j < recent_count n"
    then have "SelectRecentPeers perm n ignoreIPs s ! j \<in> set (take (recent_count n) (SelectRecentPeers perm n ignoreIPs s))"
      using sel_len by (metis in_set_conv_nth length_take min.absorb2 nth_take)
    with sel [OF lt] j(2) not_first show False by simp
  qed
  with i have ij: "i \<le> j" "i < length ps" using j(1) by simp_all
  obtain a q where q: "ps ! i = (a, q)" by (cases "ps ! i")
  have "sorted (map (\<lambda>(_, r). - dr_LastSeen r) ps)" by (simp add: ps_def)
  then have "- dr_LastSeen q \<le> - dr_LastSeen r"
    using sorted_nth_mono [of "map (\<lambda>(_, r). - dr_LastSeen r) ps" i j] ij j q by simp
  moreover have "(a, q) \<in> set (ds_KnownPeers s)"
    using nth_mem [OF ij(2)] q by (auto simp: ps_def valid_peers_def)
  then have "gm_get (ds_KnownPeers s) a = Some q" using wf by (simp add: gm_get_wf)
  ultimately show ?thesis using sel [OF i] q by auto
qed

lemma append_peers_get:
  assumes "append_peers source peers dead known n = (known', n')"
  shows "gm_get known' p = (case gm_get known p of
     Some r \<Rightarrow> Some r
   | None \<Rightarrow> if p \<in> set peers \<and> p \<noteq> PEER_INVALID \<and> \<not> gm_has dead p
             then Some \<lparr>dr_Source = source, dr_Agent = ''unknown'', dr_LastSeen = 0\<rparr> else None)"
  using assms
  by (induction source peers dead known n rule: append_peers.induct)
     (auto simp: gm_has_def split: if_splits option.splits)

lemma savePeers_known [simp]:
  "ds_KnownPeers (savePeers c s) = ds_KnownPeers s" "ds_DeadPeers (savePeers c s) = ds_DeadPeers s"
  by (simp_all add: savePeers_def)

text \<open>Exactly the new, live addresses are learnt; what was known stays.\<close>

lemma AppendPeers_get:
  "gm_get (ds_KnownPeers (AppendPeers created peers source s)) p =
     (case gm_get (ds_KnownPeers s) p of
        Some r \<Rightarrow> Some r
      | None \<Rightarrow> if p \<in> set peers \<and> p \<noteq> PEER_INVALID \<and> \<not> gm_has (ds_DeadPeers s) p
                then Some \<lparr>dr_Source = source, dr_Agent = ''unknown'', dr_LastSeen = 0\<rparr> else None)"
  by (cases "append_peers source peers (ds_DeadPeers s) (ds_KnownPeers s) 0")
     (auto simp: AppendPeers_def Let_def append_peers_get split: if_splits)

lemma dead_fold:
  "distinct (map fst ds) \<Longrightarrow> gm_get (fold (\<lambda>(peer, t) dead. if now - t > grave_time then gm_del peer dead else dead) ds m) p =
     (case map_of ds p of None \<Rightarrow> gm_get m p | Some t \<Rightarrow> if now - t > grave_time then None else gm_get m p)"
proof (induction ds arbitrary: m)
  case (Cons d ds)
  obtain a t where d: "d = (a, t)" by (cases d)
  have "a = p \<Longrightarrow> map_of ds p = None" using Cons.prems d by (auto simp: map_of_eq_None_iff)
  then show ?case using Cons.IH [of "if now - t > grave_time then gm_del a m else m"] Cons.prems d
    by (cases "a = p"; cases "map_of ds p") auto
qed simp

text \<open>The sweep forgets exactly the addresses whose time is over.\<close>

lemma DeadPeersTimer_get:
  "gm_wf (ds_DeadPeers s) \<Longrightarrow> gm_get (ds_DeadPeers (DeadPeersTimer now s)) p =
     (case gm_get (ds_DeadPeers s) p of None \<Rightarrow> None | Some t \<Rightarrow> if now - t > grave_time then None else Some t)"
  by (simp add: DeadPeersTimer_def dead_fold gm_wf_def) (auto simp: gm_get_def split: option.splits)

end
