(* ===== verification/Sample.thy ===== *)
theory Sample
  imports Mempool Protocol Discovery
begin

text \<open>
  A concrete environment, for the examples that show the hypotheses of the theorems can hold: a
  store held in memory whose writes never fail; a hash given by a table for the sample objects
  (the genesis block has its real ID) and constant elsewhere; signatures that repeat the message
  and the public half of the key. The sample chain is the genesis block and one block on it, whose
  coinbase a sample transaction spends.
\<close>

section \<open>Sample objects\<close>

definition sample_id :: "nat \<Rightarrow> HashID" where
  "sample_id n = replicate 62 CHR ''0'' @ [hex_digit (n div 16), hex_digit (n mod 16)]"

definition genesis :: Block where
  "genesis = \<lparr>blk_Type = OBJ_BLOCK, blk_T = TARGET, blk_Created = 1771159355,
     blk_Miner = Some ''Marabu'',
     blk_Nonce = ''00dd82159556175752d9ba7349df67bddd237b59183747383f7b720e85c32347'',
     blk_Note = Some (''Financial Times 2026-02-13: Crypto'' @ [CHR 0x27] @
       ''s battle with the banks is splitting Trump'' @ [CHR 0x27] @ ''s base''),
     blk_Previd = None, blk_Studentids = None, blk_Txids = Some [], blk_CachedID = None\<rparr>"

definition pub1 :: HashID where "pub1 = replicate 64 CHR ''a''"
definition pub2 :: HashID where "pub2 = replicate 64 CHR ''b''"

definition coinbase1 :: CoinbaseTransaction where
  "coinbase1 = MakeCoinbaseTransaction 1 (Some [MakeTxOutput pub1 (50 * 10 ^ 12)])"

definition block1 :: Block where
  "block1 = MakeBlock TARGET 1771159356 None ''0'' None (Some genesisHash) None (Some [sample_id 1])"

definition transaction1 :: Transaction where
  "transaction1 = MakeTransaction
     (Some [\<lparr>in_Outpoint = \<lparr>op_Txid = sample_id 1, op_Index = Some 0\<rparr>, in_Sig = None\<rparr>])
     (Some [MakeTxOutput pub2 (49 * 10 ^ 12)])"

section \<open>The environment\<close>

definition mem_get :: "(bytes, bytes) gomap \<Rightarrow> bytes \<Rightarrow> bytes result" where
  "mem_get d k = (case gm_get d k of None \<Rightarrow> Inl LdbNotFound | Some v \<Rightarrow> Inr v)"

definition hash_table :: "(string option \<times> HashID) list" where
  "hash_table =
     [(Canonicalize (Block_json genesis), genesisHash),
      (Canonicalize (CoinbaseTransaction_json coinbase1), sample_id 1),
      (Canonicalize (Block_json block1), sample_id 2)]"

definition mem_hash :: "bytes \<Rightarrow> bytes option" where
  "mem_hash m = (case hex_DecodeString (case map_of hash_table (Some m) of None \<Rightarrow> sample_id 3 | Some h \<Rightarrow> h) of
     Inl _ \<Rightarrow> None | Inr b \<Rightarrow> Some b)"

definition mem_env :: "(bytes, bytes) gomap env" where
  "mem_env = \<lparr>
     blake2s = mem_hash,
     ed_verify = (\<lambda>pk m s. s = m @ pk),
     ed_sign = (\<lambda>sk m. m @ drop 32 sk),
     time_text = string_of_int,
     time_parse = parse_int,
     ldb_has = (\<lambda>d k. Inr (gm_has d k)),
     ldb_get = mem_get,
     ldb_put = (\<lambda>d k v. (gm_set k v d, None)),
     ldb_delete = (\<lambda>d k. (gm_del k d, None)),
     ldb_iter = (\<lambda>d. (d, None))\<rparr>"

lemma mem_env_simps [simp]:
  "blake2s mem_env = mem_hash" "ldb_get mem_env = mem_get" "ldb_put mem_env d k v = (gm_set k v d, None)"
  "ldb_delete mem_env d k = (gm_del k d, None)" "ldb_has mem_env d k = Inr (gm_has d k)"
  "ldb_iter mem_env d = (d, None)"
  by (simp_all add: mem_env_def)

lemma mem_get_simps [simp]:
  "mem_get [] k = Inl LdbNotFound"
  "mem_get (gm_set k' v d) k = (if k = k' then Inr v else mem_get d k)"
  "mem_get (gm_del k' d) k = (if k = k' then Inl LdbNotFound else mem_get d k)"
  by (simp_all add: mem_get_def)

lemma mem_ldb_ok: "ldb_ok mem_env" "ldb_total mem_env"
  by (auto simp: ldb_ok_def ldb_total_def mem_get_def fun_eq_iff gm_has_def split: option.splits)

text \<open>An ID in lower-case hexadecimal is what its bytes are written as.\<close>

lemma hex_encode_decode:
  "hex_DecodeString h = Inr b \<Longrightarrow> list_all is_lower_hex h \<Longrightarrow> hex_EncodeToString b = h"
proof (induction h arbitrary: b rule: hex_DecodeString.induct)
  case (3 c d s)
  have digit: "hex_digit n = c" if "hex_val c = Some n" "is_lower_hex c" for c n
    using that by (auto simp: hex_val_def is_lower_hex_def hex_digit_def Let_def split: if_splits)
  from 3 obtain x y bs where xy: "hex_val c = Some x" "hex_val d = Some y" "hex_DecodeString s = Inr bs"
      "b = char_of (16 * x + y) # bs"
    by (auto split: option.splits sum.splits)
  have lt: "x < 16" "y < 16" using xy hex_val_less by blast+
  have "(of_char (char_of (16 * x + y) :: char) :: nat) = 16 * x + y" using lt by simp
  then show ?case
    using 3 xy lt digit [of c x] digit [of d y] by (simp add: hex_EncodeToString_def)
qed (simp_all add: hex_EncodeToString_def)

definition table_id :: "string option \<Rightarrow> HashID" where
  "table_id c = (case map_of hash_table c of None \<Rightarrow> sample_id 3 | Some h \<Rightarrow> h)"

lemma sample_id_ok:
  "HashID_ok genesisHash" "list_all is_lower_hex genesisHash"
  "HashID_ok (sample_id 1)" "list_all is_lower_hex (sample_id 1)"
  "HashID_ok (sample_id 2)" "list_all is_lower_hex (sample_id 2)"
  "HashID_ok (sample_id 3)" "list_all is_lower_hex (sample_id 3)"
  by code_simp+

lemma table_id_ok: "HashID_ok (table_id c)" "list_all is_lower_hex (table_id c)"
  by (auto simp: table_id_def hash_table_def sample_id_ok sample_id_ok [unfolded One_nat_def] split: option.splits)

lemma mem_hash_table: "\<exists>b. mem_hash m = Some b \<and> length b = 32 \<and> hex_EncodeToString b = table_id (Some m)"
proof -
  obtain b where "hex_DecodeString (table_id (Some m)) = Inr b" "length b = 32"
    using hex_decode_ok [of "table_id (Some m)"] table_id_ok(1) [of "Some m"] by (auto simp: HashID_ok_def)
  then show ?thesis
    using hex_encode_decode table_id_ok(2) by (simp add: mem_hash_def table_id_def)
qed

lemma mem_hash_ok: "hash_ok mem_env"
  using mem_hash_table by (auto simp: hash_ok_def)

lemma mem_HashObject:
  assumes "exact_object obj"
  shows "HashObject mem_env obj = Inr (table_id (Canonicalize (Object_json obj)))"
proof -
  obtain c where "Canonicalize (Object_json obj) = Some c"
    using Canonicalize_exact [OF exact_Object_json [OF assms]] by blast
  then show ?thesis
    using mem_hash_table [of c] by (auto simp: HashObject_def HashString_def Hash_def split: option.splits)
qed

lemma sample_texts:
  "HashID_ok TARGET" "HashID_ok pub1" "HashID_ok pub2" "Nonce_ok (blk_Nonce genesis)" "Nonce_ok ''0''"
  "BuString_ok ''Marabu''" "BuString_ok (the (blk_Note genesis))"
  by code_simp+

lemma sample_objects:
  "Block_ok genesis" "Block_ok block1" "CoinbaseTransaction_ok coinbase1" "Transaction_ok transaction1"
  "exact_object (BlockObj genesis)" "exact_object (BlockObj block1)" "exact_object (CoinbaseObj coinbase1)"
  "exact_object (TxObj transaction1)"
  using sample_texts sample_id_ok
  by (simp_all add: Block_ok_def genesis_def block1_def MakeBlock_def BuInt_ok_def CoinbaseTransaction_ok_def
      coinbase1_def MakeCoinbaseTransaction_def TxOutputs_ok_def TxOutput_ok_def MakeTxOutput_def
      Transaction_ok_def transaction1_def MakeTransaction_def TxInput_ok_def Outpoint_ok_def
      exact_object_def exact_int_def exact_output_def exact_tx_def)

text \<open>Their IDs.\<close>

lemma sample_ids:
  "HashObject mem_env (BlockObj genesis) = Inr genesisHash"
  "HashObject mem_env (CoinbaseObj coinbase1) = Inr (sample_id 1)"
  "HashObject mem_env (BlockObj block1) = Inr (sample_id 2)"
  "HashObject mem_env (TxObj transaction1) = Inr (sample_id 3)"
proof -
  have differ: "Canonicalize (Object_json a) \<noteq> Canonicalize (Object_json b)"
    if "exact_object a" "exact_object b" "uncached a \<noteq> uncached b" for a b
    using Canonicalize_object_iff [OF that(1,2)] that(3) by simp
  have "uncached (BlockObj genesis) \<noteq> uncached (BlockObj block1)"
    by (simp add: genesis_def block1_def MakeBlock_def)
  note d = differ [OF sample_objects(5,6) this] differ [OF sample_objects(5,7), simplified]
    differ [OF sample_objects(6,7), simplified] differ [OF sample_objects(8,5), simplified]
    differ [OF sample_objects(8,6), simplified] differ [OF sample_objects(8,7), simplified]
  show "HashObject mem_env (BlockObj genesis) = Inr genesisHash"
    by (simp add: mem_HashObject sample_objects table_id_def hash_table_def)
  show "HashObject mem_env (CoinbaseObj coinbase1) = Inr (sample_id 1)"
    using d by (simp add: mem_HashObject sample_objects table_id_def hash_table_def)
  show "HashObject mem_env (BlockObj block1) = Inr (sample_id 2)"
    using d by (simp add: mem_HashObject sample_objects table_id_def hash_table_def)
  show "HashObject mem_env (TxObj transaction1) = Inr (sample_id 3)"
    using d by (simp add: mem_HashObject sample_objects table_id_def hash_table_def)
qed

section \<open>The node after the genesis block\<close>

lemma genesis_fields [simp]:
  "blk_Type genesis = OBJ_BLOCK" "blk_Created genesis = 1771159355" "blk_Previd genesis = None"
  "blk_Txids genesis = Some []" "blk_CachedID genesis = None" "genesis\<lparr>blk_CachedID := None\<rparr> = genesis"
  by (simp_all add: genesis_def)

definition sample_config :: NodeConfig where
  "sample_config = \<lparr>cfg_DBPath = ''db'', cfg_ServerPort = 18018, cfg_AgentName = ''agent'', cfg_Note = '''',
     cfg_StudentIDs = None, cfg_MiningCores = 1, cfg_PubKey = pub1\<rparr>"

definition manager0 :: "(bytes, bytes) gomap Manager" where
  "manager0 = the (NewManager (Some []) sample_config)"

definition t0 :: int where
  "t0 = 1771200000"

definition genesis_object :: Object where
  "genesis_object = BlockObj (genesis\<lparr>blk_CachedID := Some genesisHash\<rparr>)"

definition genesis_result :: ValidationResult where
  "genesis_result = zero_result\<lparr>vr_ObjID := genesisHash,
     vr_NewUTXOSet := Some \<lparr>us_BlockID = genesisHash, us_UTXOs = [], us_Height = 0\<rparr>,
     vr_NewHeight := 0, vr_IsNewTip := True\<rparr>"

lemma manager0_db [simp]: "m_db manager0 = newDatabase []"
  by (simp add: manager0_def NewManager_def)

lemma genesis_PoW: "VerifyPoW genesisHash = Inr True"
  by code_simp

lemma sample_validate:
  "ValidateObject mem_env t0 manager0 (BlockObj genesis) = Some (genesis_object, genesis_result)"
proof -
  have g: "GetObjectID mem_env (BlockObj genesis) = (genesis_object, Inr genesisHash)"
    using sample_ids(1) by (simp add: GetObjectID_def genesis_object_def)
  have "GetObjectID mem_env genesis_object = (genesis_object, Inr genesisHash)"
    by (simp add: GetObjectID_def genesis_object_def)
  then show ?thesis
    using g by (simp add: ValidateObject_def ValidateBlock_def genesis_object_def genesis_PoW Let_def
        check_parent_def block_start_def block_finish_def GetChaintip_def getChaintip_def genesis_result_def
        t0_def newDatabase_def zero_result_def BlockRewardBigInt_def Picabu_Cmp_def
        BLOCK_REWARD_UINT64_def)
qed

definition manager1 :: "(bytes, bytes) gomap Manager" where
  "manager1 = manager0\<lparr>m_db := (newDatabase
     (gm_set chaintipKey (print_json (Chaintip_json \<lparr>ct_BlockID = genesisHash, ct_Height = 0\<rparr>))
     (gm_set (utxoKey genesisHash) (print_json (UTXOStorageData_json (utxo_data
        \<lparr>us_BlockID = genesisHash, us_UTXOs = [], us_Height = 0\<rparr>)))
     (gm_set genesisHash (print_json (Object_json genesis_object)) []))))\<rparr>"

lemma genesis_keys [simp]:
  "chaintipKey \<noteq> genesisHash" "genesisHash \<noteq> chaintipKey" "utxoKey b \<noteq> genesisHash" "genesisHash \<noteq> utxoKey b"
  using HashID_keys [OF sample_id_ok(1)] by metis+

lemma CleanMempool_empty: "db_mempool (m_db m) = [] \<Longrightarrow> CleanMempool env m = Some m"
  by (auto simp: CleanMempool_def upd_db_def split: sum.splits)

lemma sample_commit:
  "CommitObject mem_env now manager0 genesis_object genesis_result = Returns (manager1, True, E_NONE, None)"
proof -
  let ?c = "\<lparr>ct_BlockID = genesisHash, ct_Height = 0\<rparr>"
  have h: "HashObject mem_env genesis_object = Inr genesisHash"
    using sample_ids(1) by (simp add: genesis_object_def HashObject_def Block_json_def)
  then obtain canon where canon: "Canonicalize (Object_json genesis_object) = Some canon"
    "HashString mem_env canon = Inr genesisHash"
    by (auto simp: HashObject_def split: option.splits)
  have tip: "parse_json (print_json (Chaintip_json ?c)) \<bind> Chaintip_Unmarshal = Some ?c"
    using chaintip_codec.dec_enc [of ?c] sample_id_ok(1) by (simp add: parse_json_print)
  have g: "CommitObject mem_env now manager0 genesis_object genesis_result =
      commitBlock mem_env now (upd_db (newDatabase (gm_set genesisHash (print_json (Object_json genesis_object)) [])) manager0)
        (genesis\<lparr>blk_CachedID := Some genesisHash\<rparr>) genesis_result"
    using canon by (simp add: CommitObject_def putObject_def put_key_def genesis_object_def newDatabase_def)
  show ?thesis
    unfolding g
    by (simp add: commitBlock_def genesis_result_def putUTXO_def put_key_def newDatabase_def upd_db_def
        update_tip_def GetChaintip_def getChaintip_def putChaintip_def call_minerCancel_def manager0_def
        NewManager_def tip CleanMempool_empty manager1_def of_panic_def sample_config_def)
qed

text \<open>What it holds.\<close>

lemma manager1_reads:
  "getObject mem_env (m_db manager1) genesisHash = Inr (BlockObj genesis)"
  "getUTXO mem_env (m_db manager1) genesisHash = Inr \<lparr>us_BlockID = genesisHash, us_UTXOs = [], us_Height = 0\<rparr>"
  "getChaintip mem_env (m_db manager1) = Inr (genesisHash, 0)"
proof -
  have "decodeObject (print_json (Object_json genesis_object)) = Inr (BlockObj genesis)"
    using decodeObject_json [of genesis_object] Object_ok_uncached [of "BlockObj genesis"] sample_objects(1)
    by (simp add: genesis_object_def)
  then show "getObject mem_env (m_db manager1) genesisHash = Inr (BlockObj genesis)"
    by (simp add: getObject_def manager1_def newDatabase_def)
  have "UTXOSet_ok \<lparr>us_BlockID = genesisHash, us_UTXOs = [], us_Height = 0\<rparr>"
    by (simp add: UTXOSet_ok_def sample_id_ok)
  from getUTXO_text [OF _ this, of mem_env "m_db manager1" genesisHash]
  show "getUTXO mem_env (m_db manager1) genesisHash = Inr \<lparr>us_BlockID = genesisHash, us_UTXOs = [], us_Height = 0\<rparr>"
    by (simp add: manager1_def newDatabase_def)
  show "getChaintip mem_env (m_db manager1) = Inr (genesisHash, 0)"
    by (simp add: getChaintip_def manager1_def newDatabase_def parse_json_print
        chaintip_codec.dec_enc sample_id_ok)
qed

lemma manager0_inv: "chain_inv mem_env (m_db manager0)" "tip_max mem_env (m_db manager0)" "mempool_inv (m_db manager0)"
  by (simp_all add: chain_inv_def tip_max_def mempool_inv_def store_outputs_ok_def getUTXO_def getObject_def
      getChaintip_def newDatabase_def)

lemma genesis_in: "object_in mem_env (BlockObj genesis)"
  using sample_objects(1) by (auto simp: object_in_def cache_ok_def)

lemma manager1_inv: "chain_inv mem_env (m_db manager1)" "tip_max mem_env (m_db manager1)" "mempool_inv (m_db manager1)"
proof -
  have ok: "vr_Error genesis_result = None"
    and new: "ldb_get mem_env (db_db (m_db manager0)) (vr_ObjID genesis_result) \<noteq> Inr v" for v
    by (simp_all add: genesis_result_def zero_result_def newDatabase_def)
  note c = CommitObject_chain [OF mem_ldb_ok(1) mem_hash_ok manager0_inv(1) genesis_in sample_validate ok new sample_commit]
  show "chain_inv mem_env (m_db manager1)" "tip_max mem_env (m_db manager1)"
    using c(1,3) manager0_inv(2) by simp_all
  show "mempool_inv (m_db manager1)"
    by (rule CommitObject_mempool [OF sample_commit manager0_inv(3)])
qed

section \<open>A node with a waiting transaction\<close>

definition key1 :: OutpointKey where
  "key1 = \<lparr>key_Txid = sample_id 1, key_Index = 0\<rparr>"

definition entry1 :: MempoolEntry where
  "entry1 = \<lparr>me_TxID = sample_id 3, me_Tx = Some transaction1, me_Fee = 10 ^ 12, me_Timestamp = 0\<rparr>"

definition manager2 :: "(bytes, bytes) gomap Manager" where
  "manager2 = upd_db ((m_db manager1)\<lparr>db_mempool := [(sample_id 3, entry1)],
     db_mempoolSpentInputs := [(key1, sample_id 3)]\<rparr>) manager1"

lemma manager2_mempool [simp]:
  "db_mempool (m_db manager2) = [(sample_id 3, entry1)]"
  "db_mempoolSpentInputs (m_db manager2) = [(key1, sample_id 3)]"
  by (simp_all add: manager2_def)

lemma entry1_spends: "entry_spends entry1 k \<longleftrightarrow> k = key1"
  by (simp add: entry_spends_def entry1_def transaction1_def MakeTransaction_def input_key_def key1_def)

lemma manager2_reads:
  "getUTXO mem_env (m_db manager2) b = getUTXO mem_env (m_db manager1) b"
  "getChaintip mem_env (m_db manager2) = getChaintip mem_env (m_db manager1)"
  by (auto simp: manager2_def intro: getUTXO_cong getChaintip_cong)

lemma manager2_inv: "mempool_inv (m_db manager2)"
  by (auto simp: mempool_inv_def entry_keys_ok_def entry1_def transaction1_def MakeTransaction_def
      input_key_def key1_def gm_wf_def gm_get_def split: if_splits)

text \<open>Three known peers.\<close>

definition sample_discovery :: discovery where
  "sample_discovery = \<lparr>ds_KnownPeers =
     [(''a:1'', \<lparr>dr_Source = [], dr_Agent = [], dr_LastSeen = 5\<rparr>),
      (''b:1'', \<lparr>dr_Source = [], dr_Agent = [], dr_LastSeen = 9\<rparr>),
      (''c:1'', \<lparr>dr_Source = [], dr_Agent = [], dr_LastSeen = 1\<rparr>)], ds_DeadPeers = [], ds_file = []\<rparr>"

end
