(* ===== verification/Connections.thy ===== *)
theory Connections
  imports PeerAddr
begin

text \<open>
  \<^verbatim>\<open>internal/peer/connections.go\<close>: the table of open connections with its counters, the muted and
  the banned names, and \<^verbatim>\<open>Disconnect\<close> of \<^verbatim>\<open>peer.go\<close>. A \<^verbatim>\<open>*Peer\<close> is a number: its place in the heap
  \<open>net_heap\<close>, where the struct lives. Locks are left out: every operation here is one critical
  section, \<open>Disconnect\<close> and \<open>BanPeer\<close> included (their parts only grow the set of closed peers).

  Results: the counters always equal the numbers of peers in the table, the outbound cap holds
  for the peers that are not persistent, and a ban leaves no connected peer that matches it.
\<close>

definition MaxOutbound :: int where
  "MaxOutbound = 15"

section \<open>State\<close>

text \<open>\<open>p_done\<close>: the channel \<^verbatim>\<open>done\<close> is closed; \<open>p_connClosed\<close>: \<^verbatim>\<open>conn.Close()\<close> was called.\<close>

record PeerState =
  p_agent :: string
  p_addr :: string
  p_host :: string
  p_ID :: int
  p_handshakeComplete :: bool
  p_done :: bool
  p_origin :: Origin
  p_isPersistent :: bool
  p_sentChainTip :: bool
  p_connClosed :: bool

type_synonym pref = nat

record ConnectionManager =
  cm_peers :: "(string, pref) gomap"
  cm_inboundCount :: int
  cm_outboundCount :: int
  cm_persistentCount :: int
  cm_peerCounter :: int
  cm_mutedPeers :: "(string, bool) gomap"
  cm_bannedPeers :: "(string, bool) gomap"

definition NewConnectionManager :: ConnectionManager where
  "NewConnectionManager = \<lparr>cm_peers = [], cm_inboundCount = 0, cm_outboundCount = 0,
     cm_persistentCount = 0, cm_peerCounter = 0, cm_mutedPeers = [], cm_bannedPeers = []\<rparr>"

record net =
  net_heap :: "PeerState list"
  net_cm :: ConnectionManager

definition empty_net :: net where
  "empty_net = \<lparr>net_heap = [], net_cm = NewConnectionManager\<rparr>"

definition upd_peer :: "pref \<Rightarrow> (PeerState \<Rightarrow> PeerState) \<Rightarrow> net \<Rightarrow> net" where
  "upd_peer p f n = n\<lparr>net_heap := (net_heap n)[p := f (net_heap n ! p)]\<rparr>"

section \<open>The table\<close>

datatype add_error = ErrOutboundFull | ErrOutboundDuplicate

definition Add :: "pref \<Rightarrow> net \<Rightarrow> net \<times> add_error option" where
  "Add p n =
     (let s = net_heap n ! p; cm = net_cm n
      in if p_origin s = Outbound \<and> \<not> p_isPersistent s \<and> cm_outboundCount cm \<ge> MaxOutbound then
        (n, Some ErrOutboundFull)
      else if gm_has (cm_peers cm) (p_addr s) then (n, Some ErrOutboundDuplicate)
      else
        let cm = cm\<lparr>cm_peers := gm_set (p_addr s) p (cm_peers cm), cm_peerCounter := cm_peerCounter cm + 1\<rparr>;
            ident = cm_peerCounter cm;
            cm = (if p_isPersistent s then cm\<lparr>cm_persistentCount := cm_persistentCount cm + 1\<rparr> else cm);
            cm = (case p_origin s of
                Inbound \<Rightarrow> cm\<lparr>cm_inboundCount := cm_inboundCount cm + 1\<rparr>
              | Outbound \<Rightarrow> cm\<lparr>cm_outboundCount := cm_outboundCount cm + 1\<rparr>)
        in (upd_peer p (\<lambda>s. s\<lparr>p_ID := ident\<rparr>) (n\<lparr>net_cm := cm\<rparr>), None))"

definition Remove :: "pref \<Rightarrow> net \<Rightarrow> net" where
  "Remove p n =
     (let s = net_heap n ! p; cm = net_cm n
      in if \<not> gm_has (cm_peers cm) (p_addr s) then n
      else
        let cm = cm\<lparr>cm_peers := gm_del (p_addr s) (cm_peers cm)\<rparr>;
            cm = (if p_isPersistent s then cm\<lparr>cm_persistentCount := cm_persistentCount cm - 1\<rparr> else cm);
            cm = (case p_origin s of
                Inbound \<Rightarrow> cm\<lparr>cm_inboundCount := cm_inboundCount cm - 1\<rparr>
              | Outbound \<Rightarrow> cm\<lparr>cm_outboundCount := cm_outboundCount cm - 1\<rparr>)
        in n\<lparr>net_cm := cm\<rparr>)"

definition Exists :: "net \<Rightarrow> string \<Rightarrow> pref option" where
  "Exists n addr = gm_get (cm_peers (net_cm n)) addr"

definition GetAll :: "net \<Rightarrow> pref list" where
  "GetAll n = map snd (cm_peers (net_cm n))"

definition GetActiveIPs :: "net \<Rightarrow> (string, bool) gomap" where
  "GetActiveIPs n = fold (\<lambda>(ip, _). gm_set ip True) (cm_peers (net_cm n)) []"

definition GetDisposable :: "net \<Rightarrow> pref list" where
  "GetDisposable n = filter (\<lambda>p. p_origin (net_heap n ! p) = Outbound \<and> \<not> p_isPersistent (net_heap n ! p))
     (map snd (cm_peers (net_cm n)))"

definition GetCounts :: "net \<Rightarrow> int \<times> int \<times> int \<times> nat" where
  "GetCounts n = (let cm = net_cm n
     in (cm_inboundCount cm, cm_outboundCount cm, cm_persistentCount cm, length (cm_bannedPeers cm)))"

text \<open>\<^verbatim>\<open>NewPeer\<close>, up to the start of its reading goroutine: the new peer, or the refusal.\<close>

definition host_of :: "string \<Rightarrow> string" where
  "host_of addr = (case SplitHostPort addr of None \<Rightarrow> [] | Some (host, _) \<Rightarrow> host)"

definition NewPeer :: "string \<Rightarrow> Origin \<Rightarrow> bool \<Rightarrow> net \<Rightarrow> net \<times> (add_error + pref)" where
  "NewPeer addr origin isPersistent n =
     (let p = length (net_heap n);
          s = \<lparr>p_agent = [], p_addr = addr, p_host = host_of addr, p_ID = 0, p_handshakeComplete = False,
               p_done = False, p_origin = origin, p_isPersistent = isPersistent, p_sentChainTip = False,
               p_connClosed = False\<rparr>
      in (case Add p (n\<lparr>net_heap := net_heap n @ [s]\<rparr>) of
            (n', Some err) \<Rightarrow> (upd_peer p (\<lambda>s. s\<lparr>p_connClosed := True\<rparr>) n', Inl err)
          | (n', None) \<Rightarrow> (n', Inr p)))"

definition Disconnect :: "pref \<Rightarrow> net \<Rightarrow> net" where
  "Disconnect p n =
     (if p_done (net_heap n ! p) then n
      else upd_peer p (\<lambda>s. s\<lparr>p_connClosed := True\<rparr>)
             (Remove p (upd_peer p (\<lambda>s. s\<lparr>p_done := True\<rparr>) n)))"

definition Name :: "PeerState \<Rightarrow> string" where
  "Name s = (if p_agent s \<noteq> '''' \<and> p_agent s \<noteq> ''unknown'' then p_agent s else p_addr s)"

section \<open>Muting and banning\<close>

definition MutePeer :: "string \<Rightarrow> ConnectionManager \<Rightarrow> ConnectionManager" where
  "MutePeer peer cm = cm\<lparr>cm_mutedPeers := gm_set peer True (cm_mutedPeers cm)\<rparr>"

definition UnmutePeer :: "string \<Rightarrow> ConnectionManager \<Rightarrow> ConnectionManager" where
  "UnmutePeer peer cm = cm\<lparr>cm_mutedPeers := gm_del peer (cm_mutedPeers cm)\<rparr>"

definition IsMuted :: "ConnectionManager \<Rightarrow> string \<Rightarrow> bool" where
  "IsMuted cm peer \<longleftrightarrow> gm_get (cm_mutedPeers cm) peer = Some True"

record PeerRecord =
  pr_Target :: string
  pr_IP :: string
  pr_Agent :: string

text \<open>The record of one name: a guess from its format, filled in from the first peer that matches.\<close>

definition peer_record :: "net \<Rightarrow> string \<Rightarrow> PeerRecord" where
  "peer_record n target =
     (let r = \<lparr>pr_Target = target, pr_IP = ''Offline / Unknown'', pr_Agent = ''Offline / Unknown''\<rparr>;
          r = (if ParseIP target \<noteq> None then r\<lparr>pr_IP := target\<rparr> else r\<lparr>pr_Agent := target\<rparr>)
      in (case find (\<lambda>p. p_host (net_heap n ! p) = target \<or> p_agent (net_heap n ! p) = target)
                 (map snd (cm_peers (net_cm n))) of
            None \<Rightarrow> r
          | Some p \<Rightarrow>
              let r = r\<lparr>pr_IP := p_host (net_heap n ! p)\<rparr>
              in if p_agent (net_heap n ! p) \<noteq> '''' then r\<lparr>pr_Agent := p_agent (net_heap n ! p)\<rparr> else r))"

definition GetMuted :: "net \<Rightarrow> PeerRecord list" where
  "GetMuted n = map (\<lambda>(target, _). peer_record n target) (cm_mutedPeers (net_cm n))"

definition GetBanned :: "net \<Rightarrow> PeerRecord list" where
  "GetBanned n = map (\<lambda>(target, _). peer_record n target) (cm_bannedPeers (net_cm n))"

definition BanPeer :: "string \<Rightarrow> net \<Rightarrow> net" where
  "BanPeer target n =
     (let n = n\<lparr>net_cm := (net_cm n)\<lparr>cm_bannedPeers := gm_set target True (cm_bannedPeers (net_cm n))\<rparr>\<rparr>;
          violators = filter (\<lambda>p. p_host (net_heap n ! p) = target \<or> p_agent (net_heap n ! p) = target)
            (map snd (cm_peers (net_cm n)))
      in fold Disconnect violators n)"

definition UnbanPeer :: "string \<Rightarrow> ConnectionManager \<Rightarrow> ConnectionManager" where
  "UnbanPeer target cm = cm\<lparr>cm_bannedPeers := gm_del target (cm_bannedPeers cm)\<rparr>"

definition IsBanned :: "ConnectionManager \<Rightarrow> string \<Rightarrow> bool" where
  "IsBanned cm target \<longleftrightarrow> gm_get (cm_bannedPeers cm) target = Some True"

definition UnmuteAll :: "ConnectionManager \<Rightarrow> ConnectionManager \<times> nat" where
  "UnmuteAll cm = (cm\<lparr>cm_mutedPeers := []\<rparr>, length (cm_mutedPeers cm))"

definition UnbanAll :: "ConnectionManager \<Rightarrow> ConnectionManager \<times> nat" where
  "UnbanAll cm = (cm\<lparr>cm_bannedPeers := []\<rparr>, length (cm_bannedPeers cm))"

section \<open>The invariant\<close>

text \<open>How many peers of the table have a property.\<close>

definition count_in :: "(PeerState \<Rightarrow> bool) \<Rightarrow> PeerState list \<Rightarrow> (string, pref) gomap \<Rightarrow> int" where
  "count_in P h m = gm_sum (\<lambda>p. if P (h ! p) then 1 else 0) m"

definition table_count :: "(PeerState \<Rightarrow> bool) \<Rightarrow> net \<Rightarrow> int" where
  "table_count P n = count_in P (net_heap n) (cm_peers (net_cm n))"

definition table_ok :: "net \<Rightarrow> bool" where
  "table_ok n \<longleftrightarrow> gm_wf (cm_peers (net_cm n)) \<and>
     (\<forall>addr p. gm_get (cm_peers (net_cm n)) addr = Some p \<longrightarrow>
        p < length (net_heap n) \<and> p_addr (net_heap n ! p) = addr \<and> \<not> p_done (net_heap n ! p)) \<and>
     (\<forall>p < length (net_heap n). \<not> p_done (net_heap n ! p) \<longrightarrow> \<not> p_connClosed (net_heap n ! p) \<longrightarrow>
        gm_get (cm_peers (net_cm n)) (p_addr (net_heap n ! p)) = Some p)"

definition counts_ok :: "net \<Rightarrow> bool" where
  "counts_ok n \<longleftrightarrow>
     cm_inboundCount (net_cm n) = table_count (\<lambda>s. p_origin s = Inbound) n \<and>
     cm_outboundCount (net_cm n) = table_count (\<lambda>s. p_origin s = Outbound) n \<and>
     cm_persistentCount (net_cm n) = table_count p_isPersistent n \<and>
     table_count (\<lambda>s. p_origin s = Outbound \<and> \<not> p_isPersistent s) n \<le> MaxOutbound"

definition net_inv :: "net \<Rightarrow> bool" where
  "net_inv n \<longleftrightarrow> table_ok n \<and> counts_ok n"

lemma count_in_cong:
  assumes "gm_wf m" "\<And>a p. gm_get m a = Some p \<Longrightarrow> P (h' ! p) = P (h ! p)"
  shows "count_in P h' m = count_in P h m"
  unfolding count_in_def
  by (rule gm_sum_cong) (use assms in \<open>auto simp: gm_get_wf\<close>)

lemma count_in_set:
  "gm_wf m \<Longrightarrow> gm_get m a = None \<Longrightarrow> count_in P h (gm_set a p m) = (if P (h ! p) then 1 else 0) + count_in P h m"
  by (simp add: count_in_def gm_sum_set)

lemma count_in_del:
  "gm_wf m \<Longrightarrow> gm_get m a = Some p \<Longrightarrow>
     count_in P h (gm_del a m) = count_in P h m - (if P (h ! p) then 1 else 0)"
  by (simp add: count_in_def gm_sum_del)

lemma count_in_mono: "(\<And>s. P s \<Longrightarrow> Q s) \<Longrightarrow> count_in P h m \<le> count_in Q h m"
  unfolding count_in_def by (induction m) auto

lemma table_okD:
  assumes "table_ok n"
  shows "gm_wf (cm_peers (net_cm n))"
    and "gm_get (cm_peers (net_cm n)) a = Some p \<Longrightarrow>
      p < length (net_heap n) \<and> p_addr (net_heap n ! p) = a \<and> \<not> p_done (net_heap n ! p)"
    and "p < length (net_heap n) \<Longrightarrow> \<not> p_done (net_heap n ! p) \<Longrightarrow> \<not> p_connClosed (net_heap n ! p) \<Longrightarrow>
      gm_get (cm_peers (net_cm n)) (p_addr (net_heap n ! p)) = Some p"
  using assms by (simp_all add: table_ok_def)

lemma table_okI:
  assumes "gm_wf (cm_peers (net_cm n))"
    and "\<And>a p. gm_get (cm_peers (net_cm n)) a = Some p \<Longrightarrow>
      p < length (net_heap n) \<and> p_addr (net_heap n ! p) = a \<and> \<not> p_done (net_heap n ! p)"
    and "\<And>p. p < length (net_heap n) \<Longrightarrow> \<not> p_done (net_heap n ! p) \<Longrightarrow> \<not> p_connClosed (net_heap n ! p) \<Longrightarrow>
      gm_get (cm_peers (net_cm n)) (p_addr (net_heap n ! p)) = Some p"
  shows "table_ok n"
  using assms by (simp add: table_ok_def)

lemma heap_upd_peer:
  "net_heap (upd_peer p f n) ! q = (if q = p \<and> p < length (net_heap n) then f (net_heap n ! p) else net_heap n ! q)"
  "length (net_heap (upd_peer p f n)) = length (net_heap n)" "net_cm (upd_peer p f n) = net_cm n"
  by (cases "p < length (net_heap n)"; auto simp: upd_peer_def nth_list_update list_update_beyond)+

text \<open>Changes to a struct that the table does not depend on.\<close>

definition table_frame :: "(PeerState \<Rightarrow> PeerState) \<Rightarrow> bool" where
  "table_frame f \<longleftrightarrow> (\<forall>s. p_addr (f s) = p_addr s \<and> p_origin (f s) = p_origin s \<and>
     p_isPersistent (f s) = p_isPersistent s \<and> p_done (f s) = p_done s \<and>
     (p_connClosed s \<longrightarrow> p_connClosed (f s)))"

lemma counts_ok_transfer:
  assumes "gm_wf (cm_peers (net_cm n))" "counts_ok n" "net_cm n' = net_cm n"
    and "\<And>a p. gm_get (cm_peers (net_cm n)) a = Some p \<Longrightarrow>
      p_origin (net_heap n' ! p) = p_origin (net_heap n ! p) \<and>
      p_isPersistent (net_heap n' ! p) = p_isPersistent (net_heap n ! p)"
  shows "counts_ok n'"
proof -
  have "table_count P n' = table_count P n"
    if "\<And>s s'. p_origin s = p_origin s' \<Longrightarrow> p_isPersistent s = p_isPersistent s' \<Longrightarrow> P s = P s'" for P
    unfolding table_count_def assms(3)
    by (rule count_in_cong [OF assms(1)]) (use assms(4) that in blast)
  then show ?thesis using assms(2,3) by (simp add: counts_ok_def)
qed

lemma upd_peer_inv:
  assumes "net_inv n" "table_frame f"
  shows "net_inv (upd_peer p f n)"
proof -
  have "table_ok (upd_peer p f n)"
    using assms unfolding net_inv_def table_ok_def table_frame_def heap_upd_peer by auto
  moreover have "counts_ok (upd_peer p f n)"
    by (rule counts_ok_transfer [of n])
       (use assms in \<open>auto simp: net_inv_def table_ok_def heap_upd_peer table_frame_def\<close>)
  ultimately show ?thesis by (simp add: net_inv_def)
qed

lemma empty_net_inv: "net_inv empty_net"
  by (simp add: net_inv_def table_ok_def counts_ok_def table_count_def count_in_def empty_net_def
      NewConnectionManager_def MaxOutbound_def)

section \<open>Every operation keeps it\<close>

text \<open>Registering a peer that is allocated and alive.\<close>

lemma Add_Some:
  "Add p n = (n', Some e) \<Longrightarrow> n' = n \<and> (e = ErrOutboundDuplicate \<longrightarrow> gm_has (cm_peers (net_cm n)) (p_addr (net_heap n ! p)))"
  by (auto simp: Add_def Let_def split: if_splits)

lemma Add_None:
  assumes "Add p n = (n', None)" "p < length (net_heap n)"
  shows "gm_get (cm_peers (net_cm n)) (p_addr (net_heap n ! p)) = None"
    and "cm_peers (net_cm n') = gm_set (p_addr (net_heap n ! p)) p (cm_peers (net_cm n))"
    and "net_heap n' = (net_heap n)[p := (net_heap n ! p)\<lparr>p_ID := cm_peerCounter (net_cm n) + 1\<rparr>]"
    and "cm_inboundCount (net_cm n') = cm_inboundCount (net_cm n) + (if p_origin (net_heap n ! p) = Inbound then 1 else 0)"
    and "cm_outboundCount (net_cm n') = cm_outboundCount (net_cm n) + (if p_origin (net_heap n ! p) = Outbound then 1 else 0)"
    and "cm_persistentCount (net_cm n') = cm_persistentCount (net_cm n) + (if p_isPersistent (net_heap n ! p) then 1 else 0)"
    and "p_origin (net_heap n ! p) = Outbound \<Longrightarrow> \<not> p_isPersistent (net_heap n ! p) \<Longrightarrow>
      cm_outboundCount (net_cm n) < MaxOutbound"
    and "cm_peerCounter (net_cm n') = cm_peerCounter (net_cm n) + 1"
  using assms by (auto simp: Add_def Let_def gm_has_def upd_peer_def split: if_splits Origin.splits)

lemma NewPeer_inv:
  assumes inv: "net_inv n" and new: "NewPeer addr origin pers n = (n', r)"
  shows "net_inv n'"
proof -
  let ?p = "length (net_heap n)" and ?m = "cm_peers (net_cm n)"
  define s where "s = \<lparr>p_agent = [], p_addr = addr, p_host = host_of addr, p_ID = 0, p_handshakeComplete = False,
    p_done = False, p_origin = origin, p_isPersistent = pers, p_sentChainTip = False, p_connClosed = False\<rparr>"
  define n1 where "n1 = n\<lparr>net_heap := net_heap n @ [s]\<rparr>"
  have t: "table_ok n" and c: "counts_ok n" using inv by (auto simp: net_inv_def)
  note wf = table_okD(1) [OF t]
  have lt: "gm_get ?m a = Some p \<Longrightarrow> p < ?p" for a p using table_okD(2) [OF t] by blast
  have n1: "net_heap n1 = net_heap n @ [s]" "net_cm n1 = net_cm n" by (simp_all add: n1_def)
  show ?thesis
  proof (cases "snd (Add ?p n1)")
    case (Some e)
    then have "n' = upd_peer ?p (\<lambda>s. s\<lparr>p_connClosed := True\<rparr>) n1"
      using new Add_Some [of ?p n1 "fst (Add ?p n1)" e]
      by (auto simp: NewPeer_def Let_def s_def n1_def split: prod.splits option.splits)
    then have n': "net_heap n' = net_heap n @ [s\<lparr>p_connClosed := True\<rparr>]" "net_cm n' = net_cm n"
      by (simp_all add: upd_peer_def n1)
    have "table_ok n'"
      unfolding table_ok_def n'
      by (use t lt in \<open>auto simp: table_ok_def nth_append less_Suc_eq dest: lt\<close>)
    moreover have "counts_ok n'"
      by (rule counts_ok_transfer [OF wf c n'(2)]) (use lt in \<open>simp add: n' nth_append\<close>)
    ultimately show ?thesis by (simp add: net_inv_def)
  next
    case None
    then have add: "Add ?p n1 = (n', None)"
      using new by (auto simp: NewPeer_def Let_def s_def n1_def split: prod.splits option.splits)
    note a = Add_None [OF add, unfolded n1, simplified]
    have fresh: "gm_get ?m addr = None" and m': "cm_peers (net_cm n') = gm_set addr ?p ?m"
      using a(1,2) by (simp_all add: s_def)
    have h': "net_heap n' = net_heap n @ [s\<lparr>p_ID := cm_peerCounter (net_cm n) + 1\<rparr>]"
      using a(3) by simp
    have "table_ok n'"
    proof (rule table_okI, unfold m' h')
      show "gm_wf (gm_set addr ?p ?m)" using wf by simp
    next
      fix b p assume "gm_get (gm_set addr ?p ?m) b = Some p"
      then consider (new) "b = addr" "p = ?p" | (old) "gm_get ?m b = Some p"
        by (cases "b = addr") simp_all
      then show "p < length (net_heap n @ [s\<lparr>p_ID := cm_peerCounter (net_cm n) + 1\<rparr>]) \<and>
          p_addr ((net_heap n @ [s\<lparr>p_ID := cm_peerCounter (net_cm n) + 1\<rparr>]) ! p) = b \<and>
          \<not> p_done ((net_heap n @ [s\<lparr>p_ID := cm_peerCounter (net_cm n) + 1\<rparr>]) ! p)"
        by cases (use table_okD(2) [OF t, of b p] in \<open>simp_all add: s_def nth_append\<close>)
    next
      fix p assume p: "p < length (net_heap n @ [s\<lparr>p_ID := cm_peerCounter (net_cm n) + 1\<rparr>])"
        "\<not> p_done ((net_heap n @ [s\<lparr>p_ID := cm_peerCounter (net_cm n) + 1\<rparr>]) ! p)"
        "\<not> p_connClosed ((net_heap n @ [s\<lparr>p_ID := cm_peerCounter (net_cm n) + 1\<rparr>]) ! p)"
      show "gm_get (gm_set addr ?p ?m) (p_addr ((net_heap n @ [s\<lparr>p_ID := cm_peerCounter (net_cm n) + 1\<rparr>]) ! p)) = Some p"
      proof (cases "p = ?p")
        case False
        then have "gm_get ?m (p_addr (net_heap n ! p)) = Some p"
          using p table_okD(3) [OF t, of p] by (simp add: nth_append)
        moreover have "p_addr (net_heap n ! p) \<noteq> addr" using calculation fresh by auto
        ultimately show ?thesis using False p(1) by (simp add: nth_append)
      qed (simp add: s_def nth_append)
    qed
    moreover have cnt: "table_count P n' = (if P s then 1 else 0) + table_count P n"
      if "P (s\<lparr>p_ID := cm_peerCounter (net_cm n) + 1\<rparr>) = P s" for P
    proof -
      have "count_in P (net_heap n') ?m = count_in P (net_heap n) ?m"
        by (rule count_in_cong [OF wf]) (use lt in \<open>simp add: h' nth_append\<close>)
      then show ?thesis
        using that by (simp add: table_count_def m' count_in_set [OF wf fresh] h' nth_append)
    qed
    have le: "table_count (\<lambda>s. p_origin s = Outbound \<and> \<not> p_isPersistent s) n \<le>
        table_count (\<lambda>s. p_origin s = Outbound) n"
      unfolding table_count_def by (rule count_in_mono) simp
    have "counts_ok n'"
      using c a(4-7) le unfolding counts_ok_def
      by (auto simp: cnt s_def)
    ultimately show ?thesis by (simp add: net_inv_def)
  qed
qed

text \<open>
  The peers that \<open>NewPeer\<close> returned: registered until they are disconnected. Only these are ever
  used afterwards.
\<close>

definition served :: "net \<Rightarrow> pref \<Rightarrow> bool" where
  "served n p \<longleftrightarrow> p < length (net_heap n) \<and>
     (p_done (net_heap n ! p) \<or> gm_get (cm_peers (net_cm n)) (p_addr (net_heap n ! p)) = Some p)"

lemma NewPeer_served:
  assumes inv: "net_inv n" and new: "NewPeer addr origin pers n = (n', Inr p)"
  shows "served n' p"
proof -
  define s where "s = \<lparr>p_agent = [], p_addr = addr, p_host = host_of addr, p_ID = 0, p_handshakeComplete = False,
    p_done = False, p_origin = origin, p_isPersistent = pers, p_sentChainTip = False, p_connClosed = False\<rparr>"
  have add: "Add (length (net_heap n)) (n\<lparr>net_heap := net_heap n @ [s]\<rparr>) = (n', None)" and p: "p = length (net_heap n)"
    using new by (auto simp: NewPeer_def Let_def s_def split: prod.splits option.splits)
  note a = Add_None [OF add, simplified]
  show ?thesis using a(2,3) p by (simp add: served_def s_def)
qed

lemma Disconnect_steps:
  assumes "served n p" "\<not> p_done (net_heap n ! p)"
  shows "net_heap (Disconnect p n) = (net_heap n)[p := (net_heap n ! p)\<lparr>p_done := True, p_connClosed := True\<rparr>]"
    and "cm_peers (net_cm (Disconnect p n)) = gm_del (p_addr (net_heap n ! p)) (cm_peers (net_cm n))"
    and "cm_inboundCount (net_cm (Disconnect p n)) =
      cm_inboundCount (net_cm n) - (if p_origin (net_heap n ! p) = Inbound then 1 else 0)"
    and "cm_outboundCount (net_cm (Disconnect p n)) =
      cm_outboundCount (net_cm n) - (if p_origin (net_heap n ! p) = Outbound then 1 else 0)"
    and "cm_persistentCount (net_cm (Disconnect p n)) =
      cm_persistentCount (net_cm n) - (if p_isPersistent (net_heap n ! p) then 1 else 0)"
    and "cm_bannedPeers (net_cm (Disconnect p n)) = cm_bannedPeers (net_cm n)"
    and "cm_mutedPeers (net_cm (Disconnect p n)) = cm_mutedPeers (net_cm n)"
  using assms
  by (auto simp: served_def Disconnect_def Remove_def upd_peer_def Let_def gm_has_def split: Origin.splits)

lemma Disconnect_done: "p_done (net_heap n ! p) \<Longrightarrow> Disconnect p n = n"
  by (simp add: Disconnect_def)

lemma Disconnect_inv:
  assumes inv: "net_inv n" and p: "served n p"
  shows "net_inv (Disconnect p n)"
proof (cases "p_done (net_heap n ! p)")
  case True
  then show ?thesis using inv by (simp add: Disconnect_done)
next
  case False
  let ?s = "net_heap n ! p" and ?m = "cm_peers (net_cm n)" and ?n = "Disconnect p n"
  have t: "table_ok n" and c: "counts_ok n" using inv by (auto simp: net_inv_def)
  note wf = table_okD(1) [OF t] and d = Disconnect_steps [OF p False]
  have reg: "gm_get ?m (p_addr ?s) = Some p" and lt: "p < length (net_heap n)"
    using p False by (auto simp: served_def)
  have other: "q \<noteq> p" if "gm_get ?m a = Some q" "a \<noteq> p_addr ?s" for a q
    using that table_okD(2) [OF t, of a q] by auto
  have "table_ok ?n"
  proof (rule table_okI)
    show "gm_wf (cm_peers (net_cm ?n))" using wf by (simp add: d(2))
  next
    fix a q assume "gm_get (cm_peers (net_cm ?n)) a = Some q"
    then have a: "gm_get ?m a = Some q" "a \<noteq> p_addr ?s" by (auto simp: d(2) split: if_splits)
    with other [OF a] table_okD(2) [OF t a(1)]
    show "q < length (net_heap ?n) \<and> p_addr (net_heap ?n ! q) = a \<and> \<not> p_done (net_heap ?n ! q)"
      by (simp add: d(1))
  next
    fix q assume q: "q < length (net_heap ?n)" "\<not> p_done (net_heap ?n ! q)" "\<not> p_connClosed (net_heap ?n ! q)"
    then have "q \<noteq> p" using lt by (auto simp: d(1))
    then have "gm_get ?m (p_addr (net_heap n ! q)) = Some q"
      using q table_okD(3) [OF t, of q] by (simp add: d(1))
    moreover have "p_addr (net_heap n ! q) \<noteq> p_addr ?s" using calculation reg \<open>q \<noteq> p\<close> by auto
    ultimately show "gm_get (cm_peers (net_cm ?n)) (p_addr (net_heap ?n ! q)) = Some q"
      using \<open>q \<noteq> p\<close> by (simp add: d(1,2))
  qed
  moreover have cnt: "table_count P ?n = table_count P n - (if P ?s then 1 else 0)" for P
  proof -
    have "count_in P (net_heap ?n) (gm_del (p_addr ?s) ?m) = count_in P (net_heap n) (gm_del (p_addr ?s) ?m)"
    proof (rule count_in_cong)
      fix a q assume "gm_get (gm_del (p_addr ?s) ?m) a = Some q"
      then have "q \<noteq> p" using other [of a q] by (auto split: if_splits)
      then show "P (net_heap ?n ! q) = P (net_heap n ! q)" by (simp add: d(1))
    qed (use wf in simp)
    then show ?thesis by (simp add: table_count_def d(2) count_in_del [OF wf reg])
  qed
  have "counts_ok ?n"
    using c unfolding counts_ok_def by (auto simp: cnt d(3-5))
  ultimately show ?thesis by (simp add: net_inv_def)
qed

lemma Disconnect_served:
  assumes inv: "net_inv n" and p: "served n p" and q: "served n q"
  shows "served (Disconnect p n) q"
proof (cases "p_done (net_heap n ! p)")
  case True
  then show ?thesis using q by (simp add: Disconnect_done)
next
  case False
  note d = Disconnect_steps [OF p False]
  have reg: "gm_get (cm_peers (net_cm n)) (p_addr (net_heap n ! p)) = Some p"
    using p False by (auto simp: served_def)
  show ?thesis
  proof (cases "q = p")
    case True
    then show ?thesis using q by (simp add: served_def d)
  next
    case False
    then show ?thesis using q reg by (auto simp: served_def d)
  qed
qed

lemma table_served: "table_ok n \<Longrightarrow> p \<in> set (map snd (cm_peers (net_cm n))) \<Longrightarrow> served n p"
proof -
  assume t: "table_ok n" and "p \<in> set (map snd (cm_peers (net_cm n)))"
  then obtain a where "gm_get (cm_peers (net_cm n)) a = Some p"
    using table_okD(1) [OF t] by (auto simp: gm_get_wf)
  then show "served n p" using table_okD(2) [OF t] by (auto simp: served_def)
qed

text \<open>Disconnecting a list of peers removes exactly them from the table.\<close>

lemma fold_Disconnect:
  assumes "net_inv n" "\<forall>p \<in> set ps. served n p"
  shows "net_inv (fold Disconnect ps n) \<and> (\<forall>q. served n q \<longrightarrow> served (fold Disconnect ps n) q) \<and>
    (\<forall>a q. gm_get (cm_peers (net_cm (fold Disconnect ps n))) a = Some q \<longleftrightarrow>
       gm_get (cm_peers (net_cm n)) a = Some q \<and> q \<notin> set ps) \<and>
    (\<forall>q. q \<notin> set ps \<longrightarrow> net_heap (fold Disconnect ps n) ! q = net_heap n ! q) \<and>
    cm_bannedPeers (net_cm (fold Disconnect ps n)) = cm_bannedPeers (net_cm n)"
  using assms
proof (induction ps arbitrary: n)
  case (Cons p ps)
  have p: "served n p" using Cons.prems(2) by simp
  let ?n = "Disconnect p n"
  have inv: "net_inv ?n" by (rule Disconnect_inv [OF Cons.prems(1) p])
  have srv: "served n q \<Longrightarrow> served ?n q" for q by (rule Disconnect_served [OF Cons.prems(1) p])
  have t: "table_ok n" using Cons.prems(1) by (simp add: net_inv_def)
  have one: "(gm_get (cm_peers (net_cm ?n)) a = Some q \<longleftrightarrow> gm_get (cm_peers (net_cm n)) a = Some q \<and> q \<noteq> p)"
    "(q \<noteq> p \<longrightarrow> net_heap ?n ! q = net_heap n ! q)" "cm_bannedPeers (net_cm ?n) = cm_bannedPeers (net_cm n)" for a q
  proof -
    show "(gm_get (cm_peers (net_cm ?n)) a = Some q \<longleftrightarrow> gm_get (cm_peers (net_cm n)) a = Some q \<and> q \<noteq> p)"
    proof (cases "p_done (net_heap n ! p)")
      case True
      then have "gm_get (cm_peers (net_cm n)) a = Some q \<Longrightarrow> q \<noteq> p" using table_okD(2) [OF t, of a q] by blast
      then show ?thesis using True by (simp add: Disconnect_done) blast
    next
      case False
      then have "gm_get (cm_peers (net_cm n)) (p_addr (net_heap n ! p)) = Some p"
        using p by (simp add: served_def)
      moreover have "gm_get (cm_peers (net_cm n)) a = Some p \<Longrightarrow> a = p_addr (net_heap n ! p)"
        using table_okD(2) [OF t, of a p] by simp
      ultimately show ?thesis
        by (cases "a = p_addr (net_heap n ! p)") (auto simp: Disconnect_steps(2) [OF p False])
    qed
    show "(q \<noteq> p \<longrightarrow> net_heap ?n ! q = net_heap n ! q)" "cm_bannedPeers (net_cm ?n) = cm_bannedPeers (net_cm n)"
      using Disconnect_steps [OF p] by (cases "p_done (net_heap n ! p)"; simp add: Disconnect_done)+
  qed
  have "\<forall>q \<in> set ps. served ?n q" using Cons.prems(2) srv by simp
  note IH = Cons.IH [OF inv this]
  show ?case
  proof (intro conjI allI impI)
    show "net_inv (fold Disconnect (p # ps) n)" using IH by simp
    show "served (fold Disconnect (p # ps) n) q" if "served n q" for q using IH srv that by simp
    show "gm_get (cm_peers (net_cm (fold Disconnect (p # ps) n))) a = Some q \<longleftrightarrow>
        gm_get (cm_peers (net_cm n)) a = Some q \<and> q \<notin> set (p # ps)" for a q
      using IH one(1) [of a q] by auto
    show "net_heap (fold Disconnect (p # ps) n) ! q = net_heap n ! q" if "q \<notin> set (p # ps)" for q
      using IH one(2) [of q] that by simp
    show "cm_bannedPeers (net_cm (fold Disconnect (p # ps) n)) = cm_bannedPeers (net_cm n)"
      using IH one(3) by simp
  qed
qed simp

text \<open>A ban: no registered peer matches it afterwards; the others stay registered.\<close>

lemma BanPeer_effect:
  assumes inv: "net_inv n"
  shows "net_inv (BanPeer target n)" and "IsBanned (net_cm (BanPeer target n)) target"
    and "served n q \<Longrightarrow> served (BanPeer target n) q"
    and "gm_get (cm_peers (net_cm (BanPeer target n))) a = Some p \<longleftrightarrow>
      gm_get (cm_peers (net_cm n)) a = Some p \<and> p_host (net_heap n ! p) \<noteq> target \<and> p_agent (net_heap n ! p) \<noteq> target"
    and "gm_get (cm_peers (net_cm (BanPeer target n))) a = Some p \<Longrightarrow>
      net_heap (BanPeer target n) ! p = net_heap n ! p"
proof -
  define n1 where "n1 = n\<lparr>net_cm := (net_cm n)\<lparr>cm_bannedPeers := gm_set target True (cm_bannedPeers (net_cm n))\<rparr>\<rparr>"
  define vs where "vs = filter (\<lambda>p. p_host (net_heap n ! p) = target \<or> p_agent (net_heap n ! p) = target)
    (map snd (cm_peers (net_cm n)))"
  have ban: "BanPeer target n = fold Disconnect vs n1"
    by (simp add: BanPeer_def Let_def n1_def vs_def)
  have inv1: "net_inv n1"
    using inv by (simp add: net_inv_def table_ok_def counts_ok_def table_count_def n1_def)
  have "\<forall>p \<in> set vs. served n1 p"
    using table_served [of n1] inv1 by (auto simp: vs_def n1_def net_inv_def)
  note f = fold_Disconnect [OF inv1 this]
  show "net_inv (BanPeer target n)" using f ban by simp
  show "IsBanned (net_cm (BanPeer target n)) target" using f ban by (simp add: IsBanned_def n1_def)
  have "served n1 q = served n q" by (simp add: n1_def served_def)
  then show "served n q \<Longrightarrow> served (BanPeer target n) q"
    using f unfolding ban by blast
  have wf: "gm_wf (cm_peers (net_cm n))" using inv by (simp add: net_inv_def table_ok_def)
  have vs: "q \<in> set vs \<longleftrightarrow> p_host (net_heap n ! q) = target \<or> p_agent (net_heap n ! q) = target"
    if "gm_get (cm_peers (net_cm n)) b = Some q" for b q
  proof -
    have "q \<in> set (map snd (cm_peers (net_cm n)))" using that wf by (force simp: gm_get_wf)
    then show ?thesis by (simp add: vs_def)
  qed
  have get: "gm_get (cm_peers (net_cm (BanPeer target n))) b = Some q \<longleftrightarrow>
      gm_get (cm_peers (net_cm n)) b = Some q \<and> q \<notin> set vs" for b q
    using f unfolding ban by (simp add: n1_def)
  show "gm_get (cm_peers (net_cm (BanPeer target n))) a = Some p \<longleftrightarrow>
      gm_get (cm_peers (net_cm n)) a = Some p \<and> p_host (net_heap n ! p) \<noteq> target \<and> p_agent (net_heap n ! p) \<noteq> target"
    using get [of a p] vs [of a p] by blast
  have "q \<notin> set vs \<Longrightarrow> net_heap (BanPeer target n) ! q = net_heap n ! q" for q
    using f unfolding ban by (simp add: n1_def)
  then show "gm_get (cm_peers (net_cm (BanPeer target n))) a = Some p \<Longrightarrow>
      net_heap (BanPeer target n) ! p = net_heap n ! p"
    using get [of a p] by blast
qed

section \<open>Runs of the connection manager\<close>

text \<open>
  The operations other code calls, as events. A peer that is closed is one \<^verbatim>\<open>NewPeer\<close> returned:
  no other handle exists.
\<close>

datatype conn_op =
    OpNewPeer string Origin bool
  | OpDisconnect pref
  | OpHandshake pref string
  | OpBan string
  | OpUnban string
  | OpMute string
  | OpUnmute string
  | OpUnmuteAll
  | OpUnbanAll

definition upd_cm :: "(ConnectionManager \<Rightarrow> ConnectionManager) \<Rightarrow> net \<Rightarrow> net" where
  "upd_cm f n = n\<lparr>net_cm := f (net_cm n)\<rparr>"

fun conn_step :: "net \<Rightarrow> conn_op \<Rightarrow> net" where
  "conn_step n (OpNewPeer addr origin persistent) = fst (NewPeer addr origin persistent n)"
| "conn_step n (OpDisconnect p) = (if served n p then Disconnect p n else n)"
| "conn_step n (OpHandshake p agent) = upd_peer p (\<lambda>s. s\<lparr>p_handshakeComplete := True, p_agent := agent\<rparr>) n"
| "conn_step n (OpBan target) = BanPeer target n"
| "conn_step n (OpUnban target) = upd_cm (UnbanPeer target) n"
| "conn_step n (OpMute peer) = upd_cm (MutePeer peer) n"
| "conn_step n (OpUnmute peer) = upd_cm (UnmutePeer peer) n"
| "conn_step n OpUnmuteAll = upd_cm (\<lambda>cm. fst (UnmuteAll cm)) n"
| "conn_step n OpUnbanAll = upd_cm (\<lambda>cm. fst (UnbanAll cm)) n"

lemma upd_cm_inv:
  assumes "net_inv n" "\<And>cm. cm_peers (f cm) = cm_peers cm" "\<And>cm. cm_inboundCount (f cm) = cm_inboundCount cm"
    "\<And>cm. cm_outboundCount (f cm) = cm_outboundCount cm" "\<And>cm. cm_persistentCount (f cm) = cm_persistentCount cm"
  shows "net_inv (upd_cm f n)"
  using assms by (simp add: net_inv_def table_ok_def counts_ok_def table_count_def upd_cm_def)

lemma conn_step_inv: "net_inv n \<Longrightarrow> net_inv (conn_step n e)"
proof (cases e)
  case (OpNewPeer addr origin persistent)
  then show "net_inv n \<Longrightarrow> net_inv (conn_step n e)"
    by (cases "NewPeer addr origin persistent n") (auto intro: NewPeer_inv)
next
  case (OpHandshake p agent)
  then show "net_inv n \<Longrightarrow> net_inv (conn_step n e)"
    by (simp add: upd_peer_inv table_frame_def)
qed (auto intro: Disconnect_inv BanPeer_effect(1) upd_cm_inv
  simp: UnbanPeer_def MutePeer_def UnmutePeer_def UnmuteAll_def UnbanAll_def)

interpretation conn: machine conn_step net_inv empty_net
  by unfold_locales (rule empty_net_inv, rule conn_step_inv)

end
