(* ===== verification/Sending.thy ===== *)
theory Sending
  imports Mempool Protocol Discovery Connections
begin

text \<open>
  \<^verbatim>\<open>internal/peer/sendMessages.go\<close>: what the node hands to \<^verbatim>\<open>conn.Write\<close>. The state of the whole node
  is the record \<open>node\<close>: the Manager, the table of connections, the known peers and \<open>nd_out\<close>, the
  texts written so far, in order, each with the peer it was written to. \<open>nd_listening\<close>: the accept
  loop of \<^verbatim>\<open>StartServer\<close> runs.

  What happens around one call is a \<open>world\<close>: the clock (one reading per call, in nanoseconds),
  whether \<^verbatim>\<open>os.Create\<close> of the peers file succeeds, which connections accept a write, the remote
  address that dialling an address gives, and the text of an error value. A write to a connection that the node closed fails. \<^verbatim>\<open>Broadcast\<close> writes from
  one goroutine per peer; here the writes come in the order of the table.
\<close>

record world =
  w_now :: int
  w_created :: bool
  w_writes :: "pref \<Rightarrow> bool"
  w_dial :: "string \<Rightarrow> string option"
  w_text :: "error \<Rightarrow> string"

record 'd node =
  nd_mgr :: "'d Manager"
  nd_net :: net
  nd_disc :: discovery
  nd_out :: "(pref \<times> bytes) list"
  nd_listening :: bool

text \<open>The clock in seconds.\<close>

definition unix :: "world \<Rightarrow> int" where
  "unix w = w_now w div 10 ^ 9"

definition peer_of :: "'d node \<Rightarrow> pref \<Rightarrow> PeerState" where
  "peer_of n p = net_heap (nd_net n) ! p"

definition upd_mgr :: "'d Manager \<Rightarrow> 'd node \<Rightarrow> 'd node" where
  "upd_mgr m n = n\<lparr>nd_mgr := m\<rparr>"

definition upd_net :: "(net \<Rightarrow> net) \<Rightarrow> 'd node \<Rightarrow> 'd node" where
  "upd_net f n = n\<lparr>nd_net := f (nd_net n)\<rparr>"

definition upd_disc :: "(discovery \<Rightarrow> discovery) \<Rightarrow> 'd node \<Rightarrow> 'd node" where
  "upd_disc f n = n\<lparr>nd_disc := f (nd_disc n)\<rparr>"

section \<open>Writing\<close>

text \<open>\<open>msg\<close> is the constructed text, \<open>None\<close> if it could not be made; the result tells success.\<close>

definition SendMessage :: "world \<Rightarrow> pref \<Rightarrow> string option \<Rightarrow> 'd node \<Rightarrow> 'd node \<times> bool" where
  "SendMessage w p msg n = (case msg of
     None \<Rightarrow> (n, False)
   | Some text \<Rightarrow>
       if w_writes w p \<and> \<not> p_connClosed (peer_of n p) then (n\<lparr>nd_out := nd_out n @ [(p, text)]\<rparr>, True)
       else (n, False))"

definition Broadcast :: "world \<Rightarrow> string option \<Rightarrow> 'd node \<Rightarrow> 'd node" where
  "Broadcast w msg n = (case msg of
     None \<Rightarrow> n
   | Some _ \<Rightarrow> fold (\<lambda>p n. fst (SendMessage w p msg n)) (GetAll (nd_net n)) n)"

text \<open>The callers below ignore the error, or only log it.\<close>

definition SendHello :: "world \<Rightarrow> pref \<Rightarrow> 'd node \<Rightarrow> 'd node" where
  "SendHello w p n = fst (SendMessage w p (MakeHello (Some (cfg_AgentName (Config (nd_mgr n))))) n)"

definition SendError :: "world \<Rightarrow> pref \<Rightarrow> ErrorCode \<Rightarrow> string \<Rightarrow> 'd node \<Rightarrow> 'd node" where
  "SendError w p name description n = fst (SendMessage w p (MakeError name description) n)"

definition SendGetPeers :: "world \<Rightarrow> pref \<Rightarrow> 'd node \<Rightarrow> 'd node" where
  "SendGetPeers w p n = fst (SendMessage w p MakeGetPeers n)"

definition SendPeers :: "world \<Rightarrow> pref \<Rightarrow> Peer slice \<Rightarrow> 'd node \<Rightarrow> 'd node" where
  "SendPeers w p peers n = fst (SendMessage w p (MakePeers peers) n)"

definition SendGetObject :: "world \<Rightarrow> pref \<Rightarrow> HashID \<Rightarrow> 'd node \<Rightarrow> 'd node" where
  "SendGetObject w p objectID n = fst (SendMessage w p (MakeGetObject objectID) n)"

definition SendIHaveObject :: "world \<Rightarrow> pref \<Rightarrow> HashID \<Rightarrow> 'd node \<Rightarrow> 'd node" where
  "SendIHaveObject w p objectID n = fst (SendMessage w p (MakeIHaveObject objectID) n)"

definition SendObject :: "world \<Rightarrow> pref \<Rightarrow> Object \<Rightarrow> 'd node \<Rightarrow> 'd node" where
  "SendObject w p obj n = fst (SendMessage w p (MakeObject obj) n)"

definition SendGetMempool :: "world \<Rightarrow> pref \<Rightarrow> 'd node \<Rightarrow> 'd node" where
  "SendGetMempool w p n = fst (SendMessage w p MakeGetMempool n)"

definition SendMempool :: "world \<Rightarrow> pref \<Rightarrow> HashID slice \<Rightarrow> 'd node \<Rightarrow> 'd node" where
  "SendMempool w p txIDs n = fst (SendMessage w p (MakeMempool txIDs) n)"

definition SendGetChainTip :: "world \<Rightarrow> pref \<Rightarrow> 'd node \<Rightarrow> 'd node" where
  "SendGetChainTip w p n = fst (SendMessage w p MakeGetChainTip n)"

definition SendChainTip :: "world \<Rightarrow> pref \<Rightarrow> HashID \<Rightarrow> 'd node \<Rightarrow> 'd node" where
  "SendChainTip w p chainTip n = fst (SendMessage w p (MakeChainTip chainTip) n)"

definition Greet :: "world \<Rightarrow> pref \<Rightarrow> 'd node \<Rightarrow> 'd node" where
  "Greet w p n = SendGetChainTip w p (SendGetPeers w p (SendHello w p n))"

definition BroadcastHello :: "world \<Rightarrow> 'd node \<Rightarrow> 'd node" where
  "BroadcastHello w n = Broadcast w (MakeHello None) n"

definition BroadcastGetPeers :: "world \<Rightarrow> 'd node \<Rightarrow> 'd node" where
  "BroadcastGetPeers w n = Broadcast w MakeGetPeers n"

definition BroadcastPeers :: "world \<Rightarrow> Peer slice \<Rightarrow> 'd node \<Rightarrow> 'd node" where
  "BroadcastPeers w peers n = Broadcast w (MakePeers peers) n"

definition BroadcastGetObject :: "world \<Rightarrow> HashID \<Rightarrow> 'd node \<Rightarrow> 'd node" where
  "BroadcastGetObject w objectID n = Broadcast w (MakeGetObject objectID) n"

definition BroadcastIHaveObject :: "world \<Rightarrow> HashID \<Rightarrow> 'd node \<Rightarrow> 'd node" where
  "BroadcastIHaveObject w objectID n = Broadcast w (MakeIHaveObject objectID) n"

definition BroadcastObject :: "world \<Rightarrow> Object \<Rightarrow> 'd node \<Rightarrow> 'd node" where
  "BroadcastObject w obj n = Broadcast w (MakeObject obj) n"

definition BroadcastGetMempool :: "world \<Rightarrow> 'd node \<Rightarrow> 'd node" where
  "BroadcastGetMempool w n = Broadcast w MakeGetMempool n"

definition BroadcastMempool :: "world \<Rightarrow> HashID slice \<Rightarrow> 'd node \<Rightarrow> 'd node" where
  "BroadcastMempool w txIDs n = Broadcast w (MakeMempool txIDs) n"

definition BroadcastGetChainTip :: "world \<Rightarrow> 'd node \<Rightarrow> 'd node" where
  "BroadcastGetChainTip w n = Broadcast w MakeGetChainTip n"

definition BroadcastChainTip :: "world \<Rightarrow> HashID \<Rightarrow> 'd node \<Rightarrow> 'd node" where
  "BroadcastChainTip w chainTip n = Broadcast w (MakeChainTip chainTip) n"

section \<open>Sending only appends to what is written\<close>

named_theorems send_defs \<open>the functions that only write\<close>

lemmas [send_defs] = SendHello_def SendError_def SendGetPeers_def SendPeers_def SendGetObject_def
  SendIHaveObject_def SendObject_def SendGetMempool_def SendMempool_def SendGetChainTip_def SendChainTip_def

named_theorems broadcast_defs \<open>the functions that write to every peer\<close>

lemmas [broadcast_defs] = BroadcastHello_def BroadcastGetPeers_def BroadcastPeers_def BroadcastGetObject_def
  BroadcastIHaveObject_def BroadcastObject_def BroadcastGetMempool_def BroadcastMempool_def
  BroadcastGetChainTip_def BroadcastChainTip_def

text \<open>Equal but for texts appended to open connections.\<close>

definition wrote :: "'d node \<Rightarrow> 'd node \<Rightarrow> bool" where
  "wrote n n' \<longleftrightarrow> (\<exists>ms. n' = n\<lparr>nd_out := nd_out n @ ms\<rparr> \<and> (\<forall>(p, text) \<in> set ms. \<not> p_connClosed (peer_of n p)))"

lemma wrote_refl [simp]: "wrote n n"
  by (auto simp: wrote_def intro: exI [of _ "[]"])

lemma wrote_trans [trans]: "wrote n n' \<Longrightarrow> wrote n' n'' \<Longrightarrow> wrote n n''"
proof -
  assume "wrote n n'" "wrote n' n''"
  then obtain ms ms' where ms: "n' = n\<lparr>nd_out := nd_out n @ ms\<rparr>" "\<forall>(p, text) \<in> set ms. \<not> p_connClosed (peer_of n p)"
    and ms': "n'' = n'\<lparr>nd_out := nd_out n' @ ms'\<rparr>" "\<forall>(p, text) \<in> set ms'. \<not> p_connClosed (peer_of n' p)"
    unfolding wrote_def by blast
  then have "n'' = n\<lparr>nd_out := nd_out n @ (ms @ ms')\<rparr>" by simp
  moreover have "\<forall>(p, text) \<in> set (ms @ ms'). \<not> p_connClosed (peer_of n p)"
    using ms ms' by (auto simp: peer_of_def)
  ultimately show "wrote n n''" unfolding wrote_def by blast
qed

lemma wrote_same:
  assumes "wrote n n'"
  shows "nd_mgr n' = nd_mgr n" "nd_net n' = nd_net n" "nd_disc n' = nd_disc n" "nd_listening n' = nd_listening n"
    "peer_of n' = peer_of n"
  using assms by (auto simp: wrote_def peer_of_def)

lemma SendMessage_wrote: "wrote n (fst (SendMessage w p msg n))"
  by (auto simp: SendMessage_def wrote_def split: option.splits intro: exI [of _ "[]"])

lemma Send_wrote:
  "wrote n (SendHello w p n)" "wrote n (SendError w p c s n)" "wrote n (SendGetPeers w p n)"
  "wrote n (SendPeers w p ps n)" "wrote n (SendGetObject w p h n)" "wrote n (SendIHaveObject w p h n)"
  "wrote n (SendObject w p obj n)" "wrote n (SendGetMempool w p n)" "wrote n (SendMempool w p hs n)"
  "wrote n (SendGetChainTip w p n)" "wrote n (SendChainTip w p h n)"
  by (simp_all add: send_defs SendMessage_wrote)

lemmas Send_same [simp] = Send_wrote [THEN wrote_same(1)] Send_wrote [THEN wrote_same(2)]
  Send_wrote [THEN wrote_same(3)] Send_wrote [THEN wrote_same(5)]

lemma fold_wrote: "(\<And>x n. wrote n (f x n)) \<Longrightarrow> wrote n (fold f xs n)"
  by (induction xs arbitrary: n) (auto intro: wrote_trans)

lemma Broadcast_wrote: "wrote n (Broadcast w msg n)"
  by (auto simp: Broadcast_def intro: fold_wrote SendMessage_wrote split: option.splits)

lemma Broadcasts_wrote:
  "wrote n (BroadcastIHaveObject w h n)" "wrote n (BroadcastObject w obj n)" "wrote n (BroadcastGetPeers w n)"
  "wrote n (BroadcastGetChainTip w n)" "wrote n (BroadcastGetMempool w n)" "wrote n (BroadcastGetObject w h n)"
  by (simp_all add: broadcast_defs Broadcast_wrote)

lemma Greet_wrote: "wrote n (Greet w p n)"
  unfolding Greet_def by (rule wrote_trans, rule wrote_trans, rule Send_wrote(1), rule Send_wrote(3), rule Send_wrote(10))

lemmas Greet_same [simp] = Greet_wrote [THEN wrote_same(1)] Greet_wrote [THEN wrote_same(2)]
  Greet_wrote [THEN wrote_same(3)] Greet_wrote [THEN wrote_same(5)]

text \<open>Without write errors a broadcast reaches every registered peer once.\<close>

lemma Broadcast_all:
  assumes "\<And>p. w_writes w p" "\<And>p. p \<in> set (GetAll (nd_net n)) \<Longrightarrow> \<not> p_connClosed (peer_of n p)"
  shows "nd_out (Broadcast w (Some text) n) = nd_out n @ map (\<lambda>p. (p, text)) (GetAll (nd_net n))"
proof -
  have "nd_out (fold (\<lambda>p n. fst (SendMessage w p (Some text) n)) ps n) = nd_out n @ map (\<lambda>p. (p, text)) ps"
    if "\<And>p. p \<in> set ps \<Longrightarrow> \<not> p_connClosed (peer_of n p)" for ps
    using that
  proof (induction ps arbitrary: n)
    case (Cons p ps)
    let ?n = "n\<lparr>nd_out := nd_out n @ [(p, text)]\<rparr>"
    have "fst (SendMessage w p (Some text) n) = ?n"
      using Cons.prems assms(1) by (simp add: SendMessage_def)
    moreover have "peer_of ?n = peer_of n" by (simp add: peer_of_def fun_eq_iff)
    ultimately show ?case using Cons.IH [of ?n] Cons.prems by simp
  qed simp
  then show ?thesis using assms(2) by (simp add: Broadcast_def)
qed

end
