(* ===== verification/Handlers.thy ===== *)
theory Handlers
  imports Sending
begin

text \<open>
  \<^verbatim>\<open>internal/peer/objects.go\<close>, \<^verbatim>\<open>internal/peer/handlers.go\<close> and \<^verbatim>\<open>handleMessage\<close> of \<^verbatim>\<open>internal/peer/peer.go\<close>:
  what a received text does to the node. A handler returns the node, panics, or loops for ever
  (inside a commit). Log output is left out; where a log line evaluates something that can panic,
  the panic is kept.

  \<open>acceptObject\<close> and the loop of \<^verbatim>\<open>resolvePendingBlocks\<close> call each other; \<open>fuel\<close> bounds the depth. Every
  level takes blocks out of the waiting map, so the number of waiting blocks is enough, and that
  much is what \<open>handleObject\<close> passes; see \<open>handle_event_no_loop\<close> in the theory \<open>Progress\<close>.
\<close>

section \<open>Objects\<close>

definition block_or :: "Block \<Rightarrow> Object \<Rightarrow> Block" where
  "block_or blk obj = (case obj of BlockObj b \<Rightarrow> b | _ \<Rightarrow> blk)"

text \<open>After \<^verbatim>\<open>CommitObject\<close> succeeded: the answer, the gossip and the timer.\<close>

definition after_commit ::
  "world \<Rightarrow> pref \<Rightarrow> ValidationResult \<Rightarrow> bool \<Rightarrow> ErrorCode \<Rightarrow> 'd node \<Rightarrow> 'd node" where
  "after_commit w p result gossip errorCode n =
     (let n = (if errorCode \<noteq> E_NONE
               then SendError w p errorCode ''Transaction stored, but rejected from mempool.'' n else n);
          n = (if gossip then BroadcastIHaveObject w (vr_ObjID result) n else n)
      in upd_mgr (ResetSyncTimer (w_now w) (nd_mgr n)) n)"

text \<open>A block that waited and is still not valid.\<close>

definition keep_waiting ::
  "world \<Rightarrow> pref \<Rightarrow> Block \<Rightarrow> ValidationResult \<Rightarrow> 'd node \<Rightarrow> 'd node outcome" where
  "keep_waiting w p blk result n =
     (if vr_ErrorCode result = E_UNKNOWN_OBJECT then
        Returns (if vr_MissingID result \<noteq> DUMMY_HASH
          then SendGetObject w p (vr_MissingID result)
            (upd_mgr (AddPendingBlock (w_now w) (nd_mgr n) (p_addr (peer_of n p)) (vr_MissingID result) blk) n)
          else n)
      else (case vr_Error result of
          None \<Rightarrow> Panics
        | Some e \<Rightarrow> Returns (SendError w p (vr_ErrorCode result) (w_text w e) n)))"

function acceptObject ::
  "'d env \<Rightarrow> world \<Rightarrow> nat \<Rightarrow> pref \<Rightarrow> Object \<Rightarrow> ValidationResult \<Rightarrow> 'd node \<Rightarrow> 'd node outcome"
and resolvePendingBlocks ::
  "'d env \<Rightarrow> world \<Rightarrow> nat \<Rightarrow> pref \<Rightarrow> HashID \<Rightarrow> 'd node \<Rightarrow> 'd node outcome"
and resolve_loop ::
  "'d env \<Rightarrow> world \<Rightarrow> nat \<Rightarrow> pref \<Rightarrow> PendingBlock list \<Rightarrow> 'd node \<Rightarrow> 'd node outcome" where
  "acceptObject env w 0 p obj result n = Loops"
| "acceptObject env w (Suc fuel) p obj result n =
     (if ExistsObject env (nd_mgr n) (vr_ObjID result) = Inr True then Returns n
      else and_then (CommitObject env (w_now w) (nd_mgr n) obj result) (\<lambda>(m, gossip, errorCode, err).
        if err \<noteq> None then Returns (upd_mgr m n)
        else resolvePendingBlocks env w fuel p (vr_ObjID result)
          (after_commit w p result gossip errorCode (upd_mgr m n))))"
| "resolvePendingBlocks env w fuel p resolvedObjID n =
     (case FetchPendingBlocks (nd_mgr n) resolvedObjID of
        (m, pendingBlocks) \<Rightarrow> resolve_loop env w fuel p pendingBlocks (upd_mgr m n))"
| "resolve_loop env w fuel p [] n = Returns n"
| "resolve_loop env w fuel p (pending # pendings) n =
     (case ValidateObject env (unix w) (nd_mgr n) (BlockObj (pb_Block pending)) of
        None \<Rightarrow> Panics
      | Some (obj, result) \<Rightarrow>
          and_then
            (if vr_ErrorCode result = E_NONE \<and> vr_Error result = None then acceptObject env w fuel p obj result n
             else keep_waiting w p (block_or (pb_Block pending) obj) result n)
            (resolve_loop env w fuel p pendings))"
  by pat_completeness auto

termination
  by (relation "measures [\<lambda>x. case x of Inl (env, w, fuel, _) \<Rightarrow> fuel
        | Inr (Inl (env, w, fuel, _)) \<Rightarrow> fuel | Inr (Inr (env, w, fuel, _)) \<Rightarrow> fuel,
      \<lambda>x. case x of Inl _ \<Rightarrow> 0
        | Inr (Inl _) \<Rightarrow> 2 | Inr (Inr _) \<Rightarrow> (1 :: nat),
      \<lambda>x. case x of Inl _ \<Rightarrow> 0
        | Inr (Inl _) \<Rightarrow> 0 | Inr (Inr (env, w, fuel, p, pendings, n)) \<Rightarrow> length pendings]") simp_all


text \<open>The blocks that wait, over all the objects they wait for.\<close>

definition waiting_total :: "'d node \<Rightarrow> nat" where
  "waiting_total n = (\<Sum>(t, bs)\<leftarrow>db_pendingBlocks (m_db (nd_mgr n)). length bs)"

definition rejectObject ::
  "world \<Rightarrow> pref \<Rightarrow> Object \<Rightarrow> ValidationResult \<Rightarrow> 'd node \<Rightarrow> 'd node outcome" where
  "rejectObject w p obj result n =
     (if vr_ErrorCode result = E_UNKNOWN_OBJECT \<and> vr_MissingID result \<noteq> DUMMY_HASH then
        let n = upd_mgr (ResetSyncTimer (w_now w) (nd_mgr n)) n;
            n = (case obj of
                BlockObj blk \<Rightarrow> upd_mgr (AddPendingBlock (w_now w) (nd_mgr n) (p_addr (peer_of n p))
                    (vr_MissingID result) blk) n
              | _ \<Rightarrow> n)
        in Returns (SendGetObject w p (vr_MissingID result) n)
      else (case vr_Error result of
          None \<Rightarrow> Panics
        | Some e \<Rightarrow> Returns (SendError w p (vr_ErrorCode result) (w_text w e) n)))"

section \<open>Handlers\<close>

text \<open>The log line of \<^verbatim>\<open>handleHello\<close> dereferences \<^verbatim>\<open>msg.Agent\<close>.\<close>

definition handleHello :: "world \<Rightarrow> pref \<Rightarrow> BuString option \<Rightarrow> 'd node \<Rightarrow> 'd node outcome" where
  "handleHello w p msg_Agent n =
     (let agent = (case msg_Agent of None \<Rightarrow> ''unknown'' | Some a \<Rightarrow> a);
          cm = net_cm (nd_net n); s = peer_of n p
      in if IsBanned cm (p_host s) \<or> IsBanned cm agent \<or> IsBanned cm (p_addr s) then
        Returns (upd_net (Disconnect p)
          (SendError w p E_INVALID_HANDSHAKE ''Your agent is banned from this node.'' n))
      else if msg_Agent = None then Panics
      else
        Returns (upd_disc (UpdatePeer (w_created w) (unix w) (p_addr s) agent)
          (upd_net (upd_peer p (\<lambda>s. s\<lparr>p_handshakeComplete := True, p_agent := agent\<rparr>)) n)))"

definition handleError :: "'d node \<Rightarrow> 'd node" where
  "handleError n = n"

definition handleGetPeers :: "world \<Rightarrow> pref \<Rightarrow> 'd node \<Rightarrow> 'd node" where
  "handleGetPeers w p n = SendPeers w p (Some (GetKnownPeers (nd_disc n))) n"

definition handlePeers :: "world \<Rightarrow> pref \<Rightarrow> Peer slice \<Rightarrow> 'd node \<Rightarrow> 'd node" where
  "handlePeers w p peers n = upd_disc (AppendPeers (w_created w) (elems peers) (p_addr (peer_of n p))) n"

definition handleGetObject :: "'d env \<Rightarrow> world \<Rightarrow> pref \<Rightarrow> HashID \<Rightarrow> 'd node \<Rightarrow> 'd node" where
  "handleGetObject env w p oid n = (case GetObject env (nd_mgr n) oid of
     Inl e \<Rightarrow>
       if e = ErrNotFound then SendError w p E_UNKNOWN_OBJECT (''Object not found: '' @ oid) n
       else SendError w p E_INTERNAL_ERROR ''Internal node error while reading object.'' n
   | Inr obj \<Rightarrow> SendObject w p obj n)"

definition handleIHaveObject :: "'d env \<Rightarrow> world \<Rightarrow> pref \<Rightarrow> HashID \<Rightarrow> 'd node \<Rightarrow> 'd node" where
  "handleIHaveObject env w p oid n = (case ExistsObject env (nd_mgr n) oid of
     Inl _ \<Rightarrow> n
   | Inr exists' \<Rightarrow> if exists' then n else SendGetObject w p oid n)"

text \<open>A nil object panics in \<^verbatim>\<open>GetObjectID\<close>.\<close>

definition handleObject :: "'d env \<Rightarrow> world \<Rightarrow> pref \<Rightarrow> Object option \<Rightarrow> 'd node \<Rightarrow> 'd node outcome" where
  "handleObject env w p msg_Object n = (case msg_Object of
     None \<Rightarrow> Panics
   | Some obj \<Rightarrow> (case ValidateObject env (unix w) (nd_mgr n) obj of
       None \<Rightarrow> Panics
     | Some (obj, result) \<Rightarrow>
         if vr_ErrorCode result = E_INVALID_BLOCK_POW then
           let n = SendError w p E_INVALID_BLOCK_POW ''Invalid proof of work. You have been banned.'' n;
               n = upd_net (BanPeer (p_host (peer_of n p))) n
           in Returns (upd_net (Disconnect p) n)
         else if vr_Error result \<noteq> None then rejectObject w p obj result n
         else acceptObject env w (Suc (waiting_total n)) p obj result n))"

definition handleGetMempool :: "world \<Rightarrow> pref \<Rightarrow> 'd node \<Rightarrow> 'd node" where
  "handleGetMempool w p n =
     SendMempool w p (case GetMempoolTxids (nd_mgr n) of None \<Rightarrow> Some [] | Some ids \<Rightarrow> Some ids) n"

fun handleMempool :: "'d env \<Rightarrow> world \<Rightarrow> pref \<Rightarrow> HashID list \<Rightarrow> 'd node \<Rightarrow> 'd node" where
  "handleMempool env w p [] n = n"
| "handleMempool env w p (txid # txids) n =
     handleMempool env w p txids (case ExistsObject env (nd_mgr n) txid of
         Inl _ \<Rightarrow> n
       | Inr exists' \<Rightarrow> if exists' then n else SendGetObject w p txid n)"

definition handleGetChainTip :: "'d env \<Rightarrow> world \<Rightarrow> pref \<Rightarrow> 'd node \<Rightarrow> 'd node" where
  "handleGetChainTip env w p n = (case GetChaintip env (nd_mgr n) of
     Inl e \<Rightarrow>
       if e = ErrNotFound then SendError w p E_UNKNOWN_OBJECT ''Chain tip not found'' n
       else SendError w p E_INTERNAL_ERROR ''Internal node error while retrieving chain tip'' n
   | Inr (tip, _) \<Rightarrow> SendChainTip w p tip n)"

definition handleChainTip :: "'d env \<Rightarrow> world \<Rightarrow> pref \<Rightarrow> HashID \<Rightarrow> 'd node \<Rightarrow> 'd node" where
  "handleChainTip env w p blockID n =
     (let n = (if \<not> p_sentChainTip (peer_of n p)
               then upd_mgr (IncrementChaintipsReceived (nd_mgr n))
                      (upd_net (upd_peer p (\<lambda>s. s\<lparr>p_sentChainTip := True\<rparr>)) n)
               else n)
      in case ExistsObject env (nd_mgr n) blockID of
           Inl _ \<Rightarrow> n
         | Inr exists' \<Rightarrow> if exists' then n else SendGetObject w p blockID n)"

section \<open>One received text\<close>

text \<open>The log detail of an object message computes, and caches, its ID.\<close>

definition log_detail :: "'d env \<Rightarrow> Message \<Rightarrow> Message option" where
  "log_detail env msg = (case msg of
     ObjectMsg t raw None \<Rightarrow> None
   | ObjectMsg t raw (Some obj) \<Rightarrow> Some (ObjectMsg t raw (Some (fst (GetObjectID env obj))))
   | _ \<Rightarrow> Some msg)"

fun dispatch :: "'d env \<Rightarrow> world \<Rightarrow> pref \<Rightarrow> Message \<Rightarrow> 'd node \<Rightarrow> 'd node outcome" where
  "dispatch env w p (HelloMsg _ _ agent) n = handleHello w p agent n"
| "dispatch env w p (ErrorMsg _ _ _) n = Returns (handleError n)"
| "dispatch env w p (GetPeersMsg _) n = Returns (handleGetPeers w p n)"
| "dispatch env w p (PeersMsg _ peers) n = Returns (handlePeers w p peers n)"
| "dispatch env w p (GetObjectMsg _ oid) n = Returns (handleGetObject env w p oid n)"
| "dispatch env w p (IHaveObjectMsg _ oid) n = Returns (handleIHaveObject env w p oid n)"
| "dispatch env w p (ObjectMsg _ _ obj) n = handleObject env w p obj n"
| "dispatch env w p (GetMempoolMsg _) n = Returns (handleGetMempool w p n)"
| "dispatch env w p (MempoolMsg _ txids) n = Returns (handleMempool env w p (elems txids) n)"
| "dispatch env w p (GetChainTipMsg _) n = Returns (handleGetChainTip env w p n)"
| "dispatch env w p (ChainTipMsg _ blockID) n = Returns (handleChainTip env w p blockID n)"

definition handleMessage :: "'d env \<Rightarrow> world \<Rightarrow> pref \<Rightarrow> string \<Rightarrow> 'd node \<Rightarrow> 'd node outcome" where
  "handleMessage env w p raw n =
     (if TrimSpace raw = [] then Returns n
      else (case UnmarshalMessage raw of
        None \<Rightarrow>
          let n = SendError w p E_INVALID_FORMAT (''Could not validate JSON message: '' @ w_text w JsonError) n
          in Returns (if \<not> p_handshakeComplete (peer_of n p) then upd_net (Disconnect p) n else n)
      | Some msg \<Rightarrow> (case log_detail env msg of
          None \<Rightarrow> Panics
        | Some msg \<Rightarrow>
            if \<not> p_handshakeComplete (peer_of n p) \<and> Message_MessageType msg \<noteq> MSG_HELLO then
              Returns (upd_net (Disconnect p) (SendError w p E_INVALID_HANDSHAKE
                (''Handshake not completed, expected hello message but received '' @
                 MessageType_str (Message_MessageType msg)) n))
            else dispatch env w p msg n)))"

end
