(* ===== verification/Topology.thy ===== *)
theory Topology
  imports Handlers
begin

text \<open>
  The rest of \<^verbatim>\<open>internal/peer/peer.go\<close> and \<^verbatim>\<open>internal/peer/topology.go\<close>: connections that come in and
  go out, and what the tickers do. \<^verbatim>\<open>replenishOutbound\<close> dials its candidates from one goroutine each;
  here the dials end in the order of the candidates. A random choice is an argument.
\<close>

section \<open>Connections\<close>

text \<open>One turn of the accept loop of \<^verbatim>\<open>StartServer\<close>, for a connection from \<open>addr\<close>.\<close>

definition StartServer :: "world \<Rightarrow> string \<Rightarrow> 'd node \<Rightarrow> 'd node" where
  "StartServer w addr n =
     (if \<not> nd_listening n then n
      else if IsBanned (net_cm (nd_net n)) (host_of addr) then n
      else (case NewPeer addr Inbound False (nd_net n) of
          (nt, Inl _) \<Rightarrow> n\<lparr>nd_net := nt, nd_listening := False\<rparr>
        | (nt, Inr p) \<Rightarrow> Greet w p (n\<lparr>nd_net := nt\<rparr>)))"

datatype client_error = ErrBanned | ErrDial | ErrNewPeer add_error

definition StartClient ::
  "world \<Rightarrow> string \<Rightarrow> int \<Rightarrow> bool \<Rightarrow> 'd node \<Rightarrow> 'd node \<times> client_error option" where
  "StartClient w host port isPersistent n =
     (if IsBanned (net_cm (nd_net n)) host then (n, Some ErrBanned)
      else (case w_dial w (JoinHostPort host (string_of_int port)) of
          None \<Rightarrow> (n, Some ErrDial)
        | Some addr \<Rightarrow> (case NewPeer addr Outbound isPersistent (nd_net n) of
              (nt, Inl e) \<Rightarrow> (n\<lparr>nd_net := nt\<rparr>, Some (ErrNewPeer e))
            | (nt, Inr p) \<Rightarrow> (Greet w p (n\<lparr>nd_net := nt\<rparr>), None))))"

definition NotifyPeerUnfindable :: "world \<Rightarrow> string \<Rightarrow> HashID \<Rightarrow> 'd node \<Rightarrow> 'd node" where
  "NotifyPeerUnfindable w peerAddr txid n = (case Exists (nd_net n) peerAddr of
     None \<Rightarrow> n
   | Some p \<Rightarrow> SendError w p E_UNFINDABLE_OBJECT
       ''Failed to retrieve object from the network in time.'' n)"

text \<open>What the decoder of \<^verbatim>\<open>initializeSocket\<close> delivers: a message, or the end of the stream or an error.\<close>

definition initializeSocket :: "'d env \<Rightarrow> world \<Rightarrow> pref \<Rightarrow> string option \<Rightarrow> 'd node \<Rightarrow> 'd node outcome" where
  "initializeSocket env w p rawMsg n = (case rawMsg of
     None \<Rightarrow> Returns (upd_net (Disconnect p) n)
   | Some raw \<Rightarrow> handleMessage env w p raw n)"

section \<open>Tickers\<close>

text \<open>\<open>perm\<close> is the permutation that \<^verbatim>\<open>rand.Shuffle\<close> applies.\<close>

definition fetchMissingDependencies :: "world \<Rightarrow> nat list \<Rightarrow> 'd node \<Rightarrow> 'd node" where
  "fetchMissingDependencies w perm n =
     (let missingHashes = elems (GetMissingDependencies (nd_mgr n));
          peers = GetAll (nd_net n)
      in if missingHashes = [] \<or> peers = [] then n
      else
        let peers = map (\<lambda>i. peers ! (perm ! i)) [0 ..< length peers]
        in fold (\<lambda>hash. fold (\<lambda>p. SendGetObject w p hash) (take 2 peers)) (take 10 missingHashes) n)"

definition churnRandomPeer :: "nat \<Rightarrow> 'd node \<Rightarrow> 'd node" where
  "churnRandomPeer i n =
     (let disposablePeers = GetDisposable (nd_net n)
      in if disposablePeers = [] then n
         else upd_net (upd_peer (disposablePeers ! (i mod length disposablePeers))
                (\<lambda>s. s\<lparr>p_connClosed := True\<rparr>)) n)"

text \<open>One dial of \<^verbatim>\<open>replenishOutbound\<close>; errors of \<^verbatim>\<open>SplitHostPort\<close> and \<^verbatim>\<open>Atoi\<close> are ignored.\<close>

definition dial_candidate :: "world \<Rightarrow> string \<Rightarrow> 'd node \<Rightarrow> 'd node" where
  "dial_candidate w addr n =
     (let (host, portStr) = (case SplitHostPort addr of None \<Rightarrow> ([], []) | Some hp \<Rightarrow> hp)
      in case StartClient w host (ParseInt_value portStr) False n of
           (n, None) \<Rightarrow> n
         | (n, Some (ErrNewPeer _)) \<Rightarrow> n
         | (n, Some _) \<Rightarrow> upd_disc (RemovePeer (w_now w) addr) n)"

definition replenishOutbound :: "world \<Rightarrow> nat list \<Rightarrow> 'd node \<Rightarrow> 'd node" where
  "replenishOutbound w perm n =
     (if cm_outboundCount (net_cm (nd_net n)) \<ge> MaxOutbound then n
      else fold (dial_candidate w) (SelectRecentPeers perm 50 (GetActiveIPs (nd_net n)) (nd_disc n)) n)"

datatype topology_tick = ChurnTick nat | ReplenishTick "nat list" | GossipTick | SyncStallTick "nat list"

fun StartTopologyManager :: "world \<Rightarrow> topology_tick \<Rightarrow> 'd node \<Rightarrow> 'd node" where
  "StartTopologyManager w (ChurnTick i) n = churnRandomPeer i n"
| "StartTopologyManager w (ReplenishTick perm) n = replenishOutbound w perm n"
| "StartTopologyManager w GossipTick n = BroadcastGetChainTip w (BroadcastGetPeers w n)"
| "StartTopologyManager w (SyncStallTick perm) n = fetchMissingDependencies w perm n"

end
