(* ===== verification/Ledger.thy ===== *)
theory Ledger
  imports Chain
begin

text \<open>
  The ledger that validation implements, without maps that are updated in place, cursors and error
  results: a ledger is a partial function from outpoints to outputs, a transaction removes the
  set of outpoints it names and adds its outputs, all or nothing, and a block is the composition of
  its transactions. \<open>ledger_of\<close> reads a ledger off the loop state of \<^verbatim>\<open>ValidateBlock\<close>.

  Results: every step of the loop and the whole loop commute with \<open>ledger_of\<close> (\<open>block_txs_ledger\<close>),
  and \<^verbatim>\<open>ValidateBlock\<close> accepts exactly the blocks the ledger accepts, with the ledger's set of unspent
  outputs (\<open>ValidateBlock_ledger\<close>); in particular the order of Go's maps has no influence.
\<close>

section \<open>The specification\<close>

record ledger =
  lg_outs :: "OutpointKey \<rightharpoonup> TxOutput"
  lg_coinbase :: "(HashID \<times> Picabu) option"
  lg_fees :: Picabu

definition outs_created :: "HashID \<Rightarrow> TxOutput list \<Rightarrow> OutpointKey \<rightharpoonup> TxOutput" where
  "outs_created txid outs k =
     (if key_Txid k = txid \<and> 0 \<le> key_Index k \<and> nat (key_Index k) < length outs
      then Some (outs ! nat (key_Index k)) else None)"

text \<open>A transaction in a block may not spend the block's own coinbase.\<close>

definition ledger_pay :: "HashID \<Rightarrow> Transaction \<Rightarrow> ledger \<Rightarrow> ledger option" where
  "ledger_pay txid t L = (case spent_keys (elems (tx_Inputs t)) of
     None \<Rightarrow> None
   | Some ks \<Rightarrow>
       if distinct ks \<and> set ks \<subseteq> dom (lg_outs L) \<and>
          (\<forall>k \<in> set ks. map_option fst (lg_coinbase L) \<noteq> Some (key_Txid k))
       then Some (L\<lparr>lg_outs := (lg_outs L |` (- set ks)) ++ outs_created txid (elems (tx_Outputs t)),
              lg_fees := lg_fees L + ((\<Sum>k\<leftarrow>ks. out_Value (the (lg_outs L k))) - (\<Sum>v\<leftarrow>elems (tx_Outputs t). out_Value v))\<rparr>)
       else None)"

text \<open>A coinbase is the first transaction of its block, has the block's height, and adds one output.\<close>

definition ledger_mint :: "uint64 \<Rightarrow> nat \<Rightarrow> HashID \<Rightarrow> CoinbaseTransaction \<Rightarrow> ledger \<Rightarrow> ledger option" where
  "ledger_mint height i cbID c L =
     (if i = 0 \<and> uint64_of_int (cb_Height c) = height
      then (case elems (cb_Outputs c) of
        [] \<Rightarrow> None
      | v # _ \<Rightarrow> Some (L\<lparr>lg_outs := (lg_outs L)(\<lparr>key_Txid = cbID, key_Index = 0\<rparr> \<mapsto> v),
            lg_coinbase := Some (cbID, out_Value v)\<rparr>))
      else None)"

definition ledger_step ::
  "'d env \<Rightarrow> 'd Manager \<Rightarrow> uint64 \<Rightarrow> nat \<Rightarrow> HashID \<Rightarrow> ledger \<Rightarrow> ledger option" where
  "ledger_step env m height i txid L = (case GetObject env m txid of
     Inr (TxObj t) \<Rightarrow> ledger_pay txid t L
   | Inr (CoinbaseObj c) \<Rightarrow> ledger_mint height i (id_value (snd (GetObjectID env (CoinbaseObj c)))) c L
   | _ \<Rightarrow> None)"

fun ledger_run ::
  "'d env \<Rightarrow> 'd Manager \<Rightarrow> uint64 \<Rightarrow> nat \<Rightarrow> HashID list \<Rightarrow> ledger \<Rightarrow> ledger option" where
  "ledger_run env m height i [] L = Some L"
| "ledger_run env m height i (txid # txids) L =
     Option.bind (ledger_step env m height i txid L) (ledger_run env m height (Suc i) txids)"

definition fresh_ledger :: "(OutpointKey \<rightharpoonup> TxOutput) \<Rightarrow> ledger" where
  "fresh_ledger outs = \<lparr>lg_outs = outs, lg_coinbase = None, lg_fees = 0\<rparr>"

text \<open>The block as a whole: the coinbase takes at most the reward and the fees.\<close>

definition ledger_block ::
  "'d env \<Rightarrow> 'd Manager \<Rightarrow> uint64 \<Rightarrow> HashID list \<Rightarrow> (OutpointKey \<rightharpoonup> TxOutput) \<Rightarrow> (OutpointKey \<rightharpoonup> TxOutput) option" where
  "ledger_block env m height txids outs = (case ledger_run env m height 0 txids (fresh_ledger outs) of
     None \<Rightarrow> None
   | Some L \<Rightarrow>
       if (case lg_coinbase L of None \<Rightarrow> 0 | Some (_, v) \<Rightarrow> v) \<le> BlockRewardBigInt + lg_fees L
       then Some (lg_outs L) else None)"

section \<open>The abstraction\<close>

definition ledger_of :: "block_state \<Rightarrow> ledger" where
  "ledger_of st = \<lparr>lg_outs = gm_get (bs_utxos st),
     lg_coinbase = (if bs_hasCoinbase st then Some (bs_cbID st, cb_value st) else None), lg_fees = bs_fees st\<rparr>"

text \<open>What a step accepted; a rejection and a panic are the same to the ledger.\<close>

definition accepted :: "('r + 's) option \<Rightarrow> 's option" where
  "accepted x = (case x of Some (Inr s) \<Rightarrow> Some s | _ \<Rightarrow> None)"

lemma accepted_simps [simp]:
  "accepted None = None" "accepted (Some (Inl r)) = None" "accepted (Some (Inr s)) = Some s"
  by (simp_all add: accepted_def)

lemma accepted_Some: "accepted x = Some s \<longleftrightarrow> x = Some (Inr s)"
  by (auto simp: accepted_def split: option.splits sum.splits)

section \<open>Every step commutes\<close>

lemma add_utxos_get:
  "add_utxos txid i outs u s = (u', s') \<Longrightarrow> gm_get u' k =
     (if key_Txid k = txid \<and> int i \<le> key_Index k \<and> nat (key_Index k) < i + length outs
      then Some (outs ! (nat (key_Index k) - i)) else gm_get u k)"
proof (induction outs arbitrary: i u s)
  case (Cons v outs)
  let ?k = "\<lparr>key_Txid = txid, key_Index = int i\<rparr>"
  have step: "gm_get u' k =
     (if key_Txid k = txid \<and> int (Suc i) \<le> key_Index k \<and> nat (key_Index k) < Suc i + length outs
      then Some (outs ! (nat (key_Index k) - Suc i)) else gm_get (gm_set ?k v u) k)"
    using Cons.prems by (intro Cons.IH) simp
  show ?case
  proof (cases "key_Txid k = txid \<and> key_Index k = int i")
    case True
    then have "k = ?k" by simp
    then show ?thesis using step by simp
  next
    case False
    then have k: "k \<noteq> ?k" by auto
    show ?thesis
    proof (cases "key_Txid k = txid \<and> int (Suc i) \<le> key_Index k \<and> nat (key_Index k) < Suc i + length outs")
      case True
      moreover have "nat (key_Index k) - i = Suc (nat (key_Index k) - Suc i)" using True by linarith
      ultimately show ?thesis using step by simp
    next
      case inside: False
      then show ?thesis using step k False by auto
    qed
  qed
qed auto

lemma add_utxos_created: "add_utxos txid 0 outs u s = (u', s') \<Longrightarrow> gm_get u' = gm_get u ++ outs_created txid outs"
  using add_utxos_get [of txid 0 outs u s u' s'] by (auto simp: fun_eq_iff outs_created_def map_add_def)

lemma add_utxos_sum: "snd (add_utxos txid i outs u s) = s + (\<Sum>v\<leftarrow>outs. out_Value v)"
  by (induction outs arbitrary: i u s) simp_all

lemma gm_fold_del: "gm_get (fold gm_del ks u) = gm_get u |` (- set ks)"
  using gm.get_fold_del [of "\<lambda>k. k" ks u] by (simp add: fun_eq_iff restrict_map_def)

lemma spent_keys_txids: "spent_keys inputs = Some ks \<Longrightarrow> map key_Txid ks = map (\<lambda>i. op_Txid (in_Outpoint i)) inputs"
  by (induction inputs arbitrary: ks) (auto simp: input_key_def split: option.splits)

text \<open>The loop that deletes the inputs one by one accepts a set of distinct unspent outpoints.\<close>

lemma spend_utxos_accepted:
  "accepted (spend_utxos r hc cbID inputs u 0) = (case spent_keys inputs of
     None \<Rightarrow> None
   | Some ks \<Rightarrow>
       if distinct ks \<and> set ks \<subseteq> dom (gm_get u) \<and> (\<forall>k \<in> set ks. \<not> (hc \<and> key_Txid k = cbID))
       then Some (fold gm_del ks u, \<Sum>k\<leftarrow>ks. out_Value (the (gm_get u k))) else None)"
    (is "?l = ?r")
proof -
  have "(\<forall>i \<in> set inputs. \<not> (hc \<and> op_Txid (in_Outpoint i) = cbID)) = (\<forall>k \<in> set ks. \<not> (hc \<and> key_Txid k = cbID))"
    if "spent_keys inputs = Some ks" for ks
  proof -
    have "key_Txid ` set ks = (\<lambda>i. op_Txid (in_Outpoint i)) ` set inputs"
      using arg_cong [OF spent_keys_txids [OF that], of set] by simp
    then show ?thesis by (metis (no_types, lifting) image_iff)
  qed
  moreover have "(\<forall>k \<in> set ks. gm_has u k) = (set ks \<subseteq> dom (gm_get u))" for ks
    by (auto simp: gm_has_def)
  ultimately have l: "?l = Some (u', s) \<longleftrightarrow> (\<exists>ks. spent_keys inputs = Some ks \<and> distinct ks \<and>
      set ks \<subseteq> dom (gm_get u) \<and> (\<forall>k \<in> set ks. \<not> (hc \<and> key_Txid k = cbID)) \<and>
      u' = fold gm_del ks u \<and> s = (\<Sum>k\<leftarrow>ks. out_Value (the (gm_get u k))))" for u' s
    unfolding accepted_Some spend_utxos_Inr by (metis add_0)
  show ?thesis
  proof (cases ?l)
    case None
    have no: "\<not> (distinct ks \<and> set ks \<subseteq> dom (gm_get u) \<and> (\<forall>k \<in> set ks. \<not> (hc \<and> key_Txid k = cbID)))"
      if ks: "spent_keys inputs = Some ks" for ks
    proof
      assume ok: "distinct ks \<and> set ks \<subseteq> dom (gm_get u) \<and> (\<forall>k \<in> set ks. \<not> (hc \<and> key_Txid k = cbID))"
      have "?l = Some (fold gm_del ks u, \<Sum>k\<leftarrow>ks. out_Value (the (gm_get u k)))"
        unfolding l by (rule exI [of _ ks]) (intro conjI ks ok [THEN conjunct1] ok [THEN conjunct2, THEN conjunct1]
          ok [THEN conjunct2, THEN conjunct2] refl)
      with None show False by simp
    qed
    show ?thesis
    proof (cases "spent_keys inputs")
      case (Some ks)
      show ?thesis unfolding Some option.case if_not_P [OF no [OF Some]] by (rule None)
    qed (simp add: None)
  next
    case (Some x)
    obtain u' s where x: "x = (u', s)" by fastforce
    obtain ks where "spent_keys inputs = Some ks" "distinct ks" "set ks \<subseteq> dom (gm_get u)"
      "\<forall>k \<in> set ks. \<not> (hc \<and> key_Txid k = cbID)" "u' = fold gm_del ks u"
      "s = (\<Sum>k\<leftarrow>ks. out_Value (the (gm_get u k)))"
      using Some l x by blast
    with Some x show ?thesis by simp
  qed
qed

lemma block_tx_pay:
  assumes "GetObject env m txid = Inr (TxObj t)"
  shows "map_option ledger_of (accepted (block_tx env m r height i txid st)) = ledger_pay txid t (ledger_of st)"
proof (cases "spent_keys (elems (tx_Inputs t))")
  case None
  then have "accepted (spend_utxos r (bs_hasCoinbase st) (bs_cbID st) (elems (tx_Inputs t)) (bs_utxos st) 0) = None"
    by (simp add: spend_utxos_accepted)
  then show ?thesis
    using assms None by (auto simp: block_tx_def ledger_pay_def split: option.splits sum.splits)
next
  case (Some ks)
  let ?ok = "distinct ks \<and> set ks \<subseteq> dom (gm_get (bs_utxos st)) \<and> (\<forall>k \<in> set ks. \<not> (bs_hasCoinbase st \<and> key_Txid k = bs_cbID st))"
  let ?sum = "\<Sum>k\<leftarrow>ks. out_Value (the (gm_get (bs_utxos st) k))"
  have spend: "accepted (spend_utxos r (bs_hasCoinbase st) (bs_cbID st) (elems (tx_Inputs t)) (bs_utxos st) 0) =
      (if ?ok then Some (fold gm_del ks (bs_utxos st), ?sum) else None)"
    using Some by (simp add: spend_utxos_accepted)
  have cb: "(\<forall>k \<in> set ks. map_option fst (lg_coinbase (ledger_of st)) \<noteq> Some (key_Txid k)) =
      (\<forall>k \<in> set ks. \<not> (bs_hasCoinbase st \<and> key_Txid k = bs_cbID st))"
    by (auto simp: ledger_of_def)
  show ?thesis
  proof (cases ?ok)
    case True
    then have sp: "spend_utxos r (bs_hasCoinbase st) (bs_cbID st) (elems (tx_Inputs t)) (bs_utxos st) 0 =
        Some (Inr (fold gm_del ks (bs_utxos st), ?sum))"
      using spend by (simp add: accepted_Some)
    obtain u' s where add: "add_utxos txid 0 (elems (tx_Outputs t)) (fold gm_del ks (bs_utxos st)) 0 = (u', s)"
      by fastforce
    have "gm_get u' = (gm_get (bs_utxos st) |` (- set ks)) ++ outs_created txid (elems (tx_Outputs t))"
      "s = (\<Sum>v\<leftarrow>elems (tx_Outputs t). out_Value v)"
      using add_utxos_created [OF add] add_utxos_sum [of txid 0 "elems (tx_Outputs t)" "fold gm_del ks (bs_utxos st)" 0] add
      by (simp_all add: gm_fold_del)
    then have "map_option ledger_of (accepted (block_tx env m r height i txid st)) =
        Some ((ledger_of st)\<lparr>lg_outs := (gm_get (bs_utxos st) |` (- set ks)) ++ outs_created txid (elems (tx_Outputs t)),
          lg_fees := bs_fees st + (?sum - (\<Sum>v\<leftarrow>elems (tx_Outputs t). out_Value v))\<rparr>)"
      using assms sp add by (simp add: block_tx_def ledger_of_def cb_value_def)
    moreover have "lg_outs (ledger_of st) = gm_get (bs_utxos st)" "lg_fees (ledger_of st) = bs_fees st"
      by (simp_all add: ledger_of_def)
    ultimately show ?thesis using True Some cb by (simp add: ledger_pay_def)
  next
    case False
    then have "accepted (spend_utxos r (bs_hasCoinbase st) (bs_cbID st) (elems (tx_Inputs t)) (bs_utxos st) 0) = None"
      unfolding spend by (rule if_not_P)
    then have "accepted (block_tx env m r height i txid st) = None"
      using assms by (auto simp: block_tx_def accepted_def split: option.splits sum.splits)
    moreover have "lg_outs (ledger_of st) = gm_get (bs_utxos st)" by (simp add: ledger_of_def)
    ultimately show ?thesis using False Some cb by (auto simp: ledger_pay_def)
  qed
qed

lemma block_tx_mint:
  assumes "GetObject env m txid = Inr (CoinbaseObj c)"
  shows "map_option ledger_of (accepted (block_tx env m r height i txid st)) =
    ledger_mint height i (id_value (snd (GetObjectID env (CoinbaseObj c)))) c (ledger_of st)"
  using assms by (auto simp: block_tx_def ledger_mint_def ledger_of_def cb_value_def Let_def split: list.splits)

lemma block_tx_ledger:
  "map_option ledger_of (accepted (block_tx env m r height i txid st)) = ledger_step env m height i txid (ledger_of st)"
proof (cases "GetObject env m txid")
  case (Inl e)
  then show ?thesis by (simp add: block_tx_def ledger_step_def)
next
  case (Inr obj)
  then show ?thesis
    by (cases obj) (simp_all add: ledger_step_def block_tx_pay block_tx_mint, simp add: block_tx_def)
qed

theorem block_txs_ledger:
  "map_option ledger_of (accepted (block_txs env m r height i txids st)) = ledger_run env m height i txids (ledger_of st)"
proof (induction txids arbitrary: i st)
  case (Cons txid txids)
  have step: "map_option ledger_of (accepted (block_tx env m r height i txid st)) = ledger_step env m height i txid (ledger_of st)"
    by (rule block_tx_ledger)
  show ?case
  proof (cases "accepted (block_tx env m r height i txid st)")
    case None
    then show ?thesis using step by (auto simp: accepted_def split: option.splits sum.splits)
  next
    case (Some st')
    then have "ledger_step env m height i txid (ledger_of st) = Some (ledger_of st')"
      "block_tx env m r height i txid st = Some (Inr st')"
      using step by (simp_all add: accepted_Some)
    then show ?thesis using Cons.IH [of "Suc i" st'] by simp
  qed
qed simp

section \<open>A block\<close>

text \<open>What is checked of a block before its transactions.\<close>

definition header_ok :: "'d env \<Rightarrow> int \<Rightarrow> 'd Manager \<Rightarrow> Block \<Rightarrow> HashID \<Rightarrow> bool" where
  "header_ok env now m blk blockid \<longleftrightarrow> blk_Created blk \<le> now \<and>
     snd (GetObjectID env (BlockObj blk)) = Inr blockid \<and> VerifyPoW blockid = Inr True \<and>
     (case blk_Previd blk of
        None \<Rightarrow> blockid = genesisHash
      | Some p \<Rightarrow> \<exists>prev. getObject env (m_db m) p = Inr (BlockObj prev) \<and> blk_Created prev < blk_Created blk)"

text \<open>There is a tip, or there is none yet; any other failure to read it makes validation refuse.\<close>

definition tip_readable :: "'d env \<Rightarrow> 'd Manager \<Rightarrow> bool" where
  "tip_readable env m \<longleftrightarrow> (case GetChaintip env m of Inl e \<Rightarrow> e = ErrNotFound | Inr _ \<Rightarrow> True)"

definition parent_outs :: "'d env \<Rightarrow> 'd Manager \<Rightarrow> Block \<Rightarrow> ((OutpointKey \<rightharpoonup> TxOutput) \<times> uint64) option" where
  "parent_outs env m blk = (case blk_Previd blk of
     None \<Rightarrow> Some (Map.empty, 0)
   | Some p \<Rightarrow> (case getUTXO env (m_db m) p of
       Inl _ \<Rightarrow> None
     | Inr u \<Rightarrow> Some (gm_get (us_UTXOs u), us_Height u + 1)))"

text \<open>The outputs that validation proposes for a block it accepts.\<close>

definition new_outs :: "ValidationResult option \<Rightarrow> (OutpointKey \<rightharpoonup> TxOutput) option" where
  "new_outs r = (case r of
     None \<Rightarrow> None
   | Some r \<Rightarrow> if vr_Error r = None then map_option (gm_get \<circ> us_UTXOs) (vr_NewUTXOSet r) else None)"

lemma ledger_of_start: "ledger_of (start_state u) = fresh_ledger (gm_get u)"
  by (simp add: ledger_of_def start_state_def fresh_ledger_def)

lemma cb_value_ledger: "cb_value st = (case lg_coinbase (ledger_of st) of None \<Rightarrow> 0 | Some (_, v) \<Rightarrow> v)"
  by (simp add: ledger_of_def cb_value_def)

lemma block_passes_iff:
  "block_passes env now m blk blockid height utxos st \<longleftrightarrow> header_ok env now m blk blockid \<and>
     block_start env m zero_result blockid blk = Inr (utxos, height) \<and>
     block_txs env m zero_result height 0 (elems (blk_Txids blk)) (start_state utxos) = Some (Inr st) \<and>
     cb_value st \<le> BlockRewardBigInt + bs_fees st"
  by (auto simp: block_passes_def header_ok_def check_parent_None block_start_Inr split: option.splits)

text \<open>A coinbase that the loop has taken has an output.\<close>

definition coinbase_pays :: "block_state \<Rightarrow> bool" where
  "coinbase_pays st \<longleftrightarrow> (bs_hasCoinbase st \<longrightarrow> (\<exists>c v vs. bs_cbTx st = Some c \<and> elems (cb_Outputs c) = v # vs))"

lemma block_tx_coinbase:
  "block_tx env m r height i txid st = Some (Inr st') \<Longrightarrow> coinbase_pays st \<Longrightarrow> coinbase_pays st'"
  by (auto simp: block_tx_def coinbase_pays_def Let_def
      split: sum.splits Object.splits option.splits prod.splits if_splits list.splits)

lemma block_txs_coinbase:
  "block_txs env m r height i txids st = Some (Inr st') \<Longrightarrow> coinbase_pays st \<Longrightarrow> coinbase_pays st'"
  by (induction txids arbitrary: i st) (auto split: option.splits sum.splits intro: block_tx_coinbase)

lemma block_finish_passes:
  assumes "coinbase_pays st" "cb_value st \<le> BlockRewardBigInt + bs_fees st"
    and "tip_readable env m"
  obtains r where "block_finish env m zero_result blockid height st = Some r" "vr_Error r = None"
    "vr_NewUTXOSet r = Some \<lparr>us_BlockID = blockid, us_UTXOs = bs_utxos st, us_Height = height\<rparr>"
proof (cases "GetChaintip env m")
  case (Inl e)
  then show thesis
    using assms by (intro that) (auto simp: tip_readable_def block_finish_def coinbase_pays_def cb_value_def Picabu_Cmp_def Let_def split: if_splits)
next
  case (Inr t)
  then show thesis
    using assms by (cases t, intro that)
      (auto simp: block_finish_def coinbase_pays_def cb_value_def Picabu_Cmp_def Let_def zero_result_def split: if_splits)
qed

lemma ledger_block_sound:
  assumes "ValidateBlock env now m blk = Some r" "vr_Error r = None"
  obtains blockid outs height u where "header_ok env now m blk blockid" "parent_outs env m blk = Some (outs, height)"
    "vr_NewUTXOSet r = Some u" "ledger_block env m height (elems (blk_Txids blk)) outs = Some (gm_get (us_UTXOs u))"
    "us_Height u = height" "us_BlockID u = blockid"
proof -
  obtain blockid height utxos st where p: "block_passes env now m blk blockid height utxos st"
    and r: "r = zero_result\<lparr>
       vr_NewUTXOSet := Some \<lparr>us_BlockID = blockid, us_UTXOs = bs_utxos st, us_Height = height\<rparr>,
       vr_NewHeight := height,
       vr_IsNewTip := (case GetChaintip env m of Inl _ \<Rightarrow> True | Inr (_, h) \<Rightarrow> h < height)\<rparr>"
    using ValidateBlock_accept [OF assms] .
  note p = p [unfolded block_passes_iff]
  have "ledger_run env m height 0 (elems (blk_Txids blk)) (fresh_ledger (gm_get utxos)) = Some (ledger_of st)"
    using p block_txs_ledger [of env m zero_result height 0 "elems (blk_Txids blk)" "start_state utxos"]
    by (simp add: ledger_of_start)
  then have "ledger_block env m height (elems (blk_Txids blk)) (gm_get utxos) = Some (gm_get (bs_utxos st))"
    using p by (simp add: ledger_block_def flip: cb_value_ledger) (simp add: ledger_of_def)
  moreover have "parent_outs env m blk = Some (gm_get utxos, height)"
    using p by (auto simp: parent_outs_def block_start_Inr split: option.splits)
  ultimately show thesis using p by (intro that) (auto simp: r)
qed

lemma ledger_block_complete:
  assumes "header_ok env now m blk blockid" "parent_outs env m blk = Some (outs, height)"
    and "ledger_block env m height (elems (blk_Txids blk)) outs = Some outs'"
    and "tip_readable env m"
  obtains r u where "ValidateBlock env now m blk = Some r" "vr_Error r = None" "vr_NewUTXOSet r = Some u"
    "gm_get (us_UTXOs u) = outs'"
proof -
  obtain utxos where u: "block_start env m zero_result blockid blk = Inr (utxos, height)" "outs = gm_get utxos"
    using assms(1,2) by (auto simp: parent_outs_def block_start_Inr header_ok_def split: option.splits sum.splits)
  obtain L where L: "ledger_run env m height 0 (elems (blk_Txids blk)) (fresh_ledger outs) = Some L"
    "(case lg_coinbase L of None \<Rightarrow> 0 | Some (_, v) \<Rightarrow> v) \<le> BlockRewardBigInt + lg_fees L" "outs' = lg_outs L"
    using assms(3) by (auto simp: ledger_block_def split: option.splits if_splits)
  have "map_option ledger_of (accepted (block_txs env m zero_result height 0 (elems (blk_Txids blk)) (start_state utxos))) = Some L"
    using L(1) u(2) by (simp add: block_txs_ledger ledger_of_start)
  then obtain st where st: "block_txs env m zero_result height 0 (elems (blk_Txids blk)) (start_state utxos) = Some (Inr st)"
    "L = ledger_of st" by (auto simp: accepted_Some)
  have cb: "cb_value st \<le> BlockRewardBigInt + bs_fees st"
    using L(2) st(2) by (simp add: cb_value_ledger) (simp add: ledger_of_def)
  have parent: "check_parent env m zero_result blk = Some None"
    using assms(1) by (auto simp: header_ok_def check_parent_None split: option.splits)
  have fin: "ValidateBlock env now m blk = block_finish env m zero_result blockid height st"
    using assms(1) u(1) parent st(1) by (simp add: ValidateBlock_def header_ok_def start_state_def Let_def)
  have "coinbase_pays st"
    by (rule block_txs_coinbase [OF st(1)]) (simp add: coinbase_pays_def start_state_def)
  then obtain r where r: "block_finish env m zero_result blockid height st = Some r" "vr_Error r = None"
    "vr_NewUTXOSet r = Some \<lparr>us_BlockID = blockid, us_UTXOs = bs_utxos st, us_Height = height\<rparr>"
    using block_finish_passes [OF _ cb assms(4)] by blast
  show thesis by (rule that [OF _ r(2,3)]) (simp_all add: fin r(1) L(3) st(2) ledger_of_def)
qed

lemma accepted_tip_readable:
  assumes "ValidateBlock env now m blk = Some r" "vr_Error r = None"
  shows "tip_readable env m"
proof -
  obtain blockid height utxos st where "block_passes env now m blk blockid height utxos st"
    using ValidateBlock_accept [OF assms] by metis
  then have "block_finish env m zero_result blockid height st = Some r"
    using assms(1) by (auto simp: block_passes_def ValidateBlock_def start_state_def Let_def)
  then show ?thesis
    using assms(2) by (auto simp: block_finish_def tip_readable_def Let_def split: option.splits list.splits if_splits sum.splits)
qed

text \<open>Acceptance and the resulting set, as one equation over the ledger.\<close>

lemma ValidateBlock_ledger:
  "new_outs (ValidateBlock env now m blk) =
    (if tip_readable env m \<and> (\<exists>blockid. header_ok env now m blk blockid)
     then Option.bind (parent_outs env m blk) (\<lambda>(outs, height). ledger_block env m height (elems (blk_Txids blk)) outs)
     else None)" (is "?l = ?r")
proof -
  have sound: "?r = Some outs'" if new: "?l = Some outs'" for outs'
  proof -
    obtain r u where r: "ValidateBlock env now m blk = Some r" "vr_Error r = None" "vr_NewUTXOSet r = Some u"
      "gm_get (us_UTXOs u) = outs'"
      using new by (auto simp: new_outs_def split: option.splits if_splits)
    show ?thesis using ledger_block_sound [OF r(1,2)] accepted_tip_readable [OF r(1,2)] r(3,4) by fastforce
  qed
  have complete: "?l = Some outs'" if spec: "?r = Some outs'" for outs'
  proof -
    obtain blockid outs height where "header_ok env now m blk blockid" "parent_outs env m blk = Some (outs, height)"
      "ledger_block env m height (elems (blk_Txids blk)) outs = Some outs'" "tip_readable env m"
      using spec by (auto split: if_splits simp: bind_eq_Some_conv)
    from ledger_block_complete [OF this] obtain r u where "ValidateBlock env now m blk = Some r"
      "vr_Error r = None" "vr_NewUTXOSet r = Some u" "gm_get (us_UTXOs u) = outs'" by metis
    then show ?thesis by (simp add: new_outs_def)
  qed
  show ?thesis
  proof (cases ?l)
    case None
    then show ?thesis using complete by (cases ?r) auto
  next
    case (Some outs')
    then show ?thesis using sound by simp
  qed
qed

end
