(* ===== verification/Backing.thy ===== *)
theory Backing
  imports Ledger
begin

text \<open>
  What stands behind an unspent output: in every UTXO set of the store each outpoint names an output
  of a transaction that the store has (\<open>utxos_backed\<close>), and every stored object lies under its own
  hash (\<open>store_ids\<close>). The commit of an accepted object keeps both (\<open>CommitObject_backing\<close>): the
  outputs a block adds are those of the ledger, whose steps read them from stored transactions.
\<close>

section \<open>The encoders lose nothing\<close>

text \<open>What decodes from the text of a value is the value, whether it is well-formed or not.\<close>

lemma dec_strings:
  "HashID_Unmarshal (JStr s) = Some s' \<Longrightarrow> s' = s" "Signature_Unmarshal (JStr s) = Some s' \<Longrightarrow> s' = s"
  by (auto simp: HashID_Unmarshal_def Signature_Unmarshal_def dec_string_def split: if_splits)

lemma dec_BuInt: "BuInt_Unmarshal (JInt i) = Some i' \<Longrightarrow> i' = i"
  by (auto simp: BuInt_Unmarshal_def dec_int64_def split: if_splits)

lemma Outpoint_dec: "Outpoint_Unmarshal (Outpoint_json p) = Some q \<Longrightarrow> q = p"
  by (cases p) (auto simp: Outpoint_Unmarshal_def Outpoint_json_def jfield_exact elim!: bind_SomeE
      dest!: dec_strings dec_BuInt split: if_splits option.splits)

lemma TxInput_dec: "TxInput_Unmarshal (TxInput_json i) = Some j \<Longrightarrow> j = i"
  by (cases i) (auto simp: TxInput_Unmarshal_def TxInput_json_def jfield_exact elim!: bind_SomeE
      dest!: Outpoint_dec dec_strings split: option.splits if_splits)

lemma TxOutput_dec: "TxOutput_Unmarshal (TxOutput_json v) = Some w \<Longrightarrow> w = v"
  by (auto simp: TxOutput_Unmarshal_def TxOutput_json_def jfield_exact Picabu_Marshal_def Picabu_Unmarshal_def
      ptr_field_def elim!: bind_SomeE dest!: dec_strings split: if_splits)

lemma mapM_dec:
  "mapM dec (map enc xs) = Some ys \<Longrightarrow> (\<And>x y. dec (enc x) = Some y \<Longrightarrow> y = x) \<Longrightarrow> ys = xs"
  by (induction xs arbitrary: ys) (auto elim!: bind_SomeE split: option.splits)

lemma slice_dec:
  assumes "UnmarshalArray dec l h (slice_json enc s) = Some s'" "\<And>x y. dec (enc x) = Some y \<Longrightarrow> y = x"
  shows "s' = s"
  using assms by (cases s) (auto simp: UnmarshalArray_def slice_json_def elim!: bind_SomeE dest: mapM_dec split: if_splits)

lemma tx_slices_dec:
  "TxInputs_Unmarshal (slice_json TxInput_json ins) = Some ins' \<Longrightarrow> ins' = ins"
  "TxOutputs_Unmarshal (slice_json TxOutput_json outs) = Some outs' \<Longrightarrow> outs' = outs"
  unfolding TxInputs_Unmarshal_def TxOutputs_Unmarshal_def
  by (erule slice_dec, erule TxInput_dec, erule slice_dec, erule TxOutput_dec)

lemma Transaction_dec:
  "Transaction_Unmarshal (Transaction_json t) = Some t' \<Longrightarrow> tx_Type t = OBJ_TRANSACTION \<Longrightarrow> t' = t\<lparr>tx_CachedID := None\<rparr>"
  by (auto simp: Transaction_Unmarshal_def Transaction_json_def jfield_exact ObjectType_Unmarshal_def dec_string_def
      elim!: bind_SomeE dest!: tx_slices_dec)

lemma Coinbase_dec:
  "CoinbaseTransaction_Unmarshal (CoinbaseTransaction_json c) = Some c' \<Longrightarrow> cb_Type c = OBJ_TRANSACTION \<Longrightarrow>
     c' = c\<lparr>cb_CachedID := None\<rparr>"
  by (auto simp: CoinbaseTransaction_Unmarshal_def CoinbaseTransaction_json_def jfield_exact ObjectType_Unmarshal_def
      dec_string_def ptr_field_def elim!: bind_SomeE dest!: tx_slices_dec dec_BuInt split: if_splits option.splits)

lemma decodeObject_dec:
  assumes "decodeObject (print_json (Object_json obj)) = Inr obj'" "typed obj"
    and "\<And>b. obj = BlockObj b \<Longrightarrow> Block_ok (b\<lparr>blk_CachedID := None\<rparr>)"
  shows "obj' = uncached obj"
proof (cases obj)
  case (TxObj t)
  have "parse_json (print_json (Object_json obj)) = Some (Object_json obj)" by (simp add: parse_json_print)
  then show ?thesis
    using assms(1,2) TxObj by (auto simp: decodeObject_def probe_Transaction or_JsonError_def
        dest: Transaction_dec split: option.splits)
next
  case (CoinbaseObj c)
  have "probe_height (CoinbaseTransaction_json c) \<noteq> Some None"
    by (simp add: probe_height_def CoinbaseTransaction_json_def jfield_ci eq_fold_def lower_def dec_int64_def)
  moreover have "parse_json (print_json (Object_json obj)) = Some (Object_json obj)" by (simp add: parse_json_print)
  ultimately show ?thesis
    using assms(1,2) CoinbaseObj by (auto simp: decodeObject_def probe_Coinbase or_JsonError_def
        dest: Coinbase_dec split: option.splits)
next
  case (BlockObj b)
  then show ?thesis using assms(1) decodeObject_json [of obj] assms(3) by simp
qed

section \<open>The invariant\<close>

definition store_ids :: "'d env \<Rightarrow> 'd database \<Rightarrow> bool" where
  "store_ids env d \<longleftrightarrow> (\<forall>k obj. HashID_ok k \<longrightarrow> getObject env d k = Inr obj \<longrightarrow> HashObject env obj = Inr k)"

text \<open>A coin is an output of a stored transaction.\<close>

definition backed_coin :: "'d env \<Rightarrow> 'd database \<Rightarrow> OutpointKey \<times> TxOutput \<Rightarrow> bool" where
  "backed_coin env d = (\<lambda>(k, v). \<exists>obj outs. getObject env d (key_Txid k) = Inr obj \<and> outputs_of obj = Some outs \<and>
     0 \<le> key_Index k \<and> key_Index k < int (length (elems outs)) \<and> elems outs ! nat (key_Index k) = v)"

definition outs_backed :: "'d env \<Rightarrow> 'd database \<Rightarrow> (OutpointKey \<rightharpoonup> TxOutput) \<Rightarrow> bool" where
  "outs_backed env d outs \<longleftrightarrow> (\<forall>k v. outs k = Some v \<longrightarrow> HashID_ok (key_Txid k) \<and> backed_coin env d (k, v))"

definition utxos_backed :: "'d env \<Rightarrow> 'd database \<Rightarrow> bool" where
  "utxos_backed env d \<longleftrightarrow> (\<forall>b u. getUTXO env d b = Inr u \<longrightarrow> outs_backed env d (gm_get (us_UTXOs u)))"

definition backing_inv :: "'d env \<Rightarrow> 'd database \<Rightarrow> bool" where
  "backing_inv env d \<longleftrightarrow> store_ids env d \<and> utxos_backed env d"

lemma backed_coin_cong:
  "getObject env d' (key_Txid (fst c)) = getObject env d (key_Txid (fst c)) \<Longrightarrow> backed_coin env d' c = backed_coin env d c"
  by (cases c) (simp add: backed_coin_def)

lemma outs_backed_cong:
  assumes "outs_backed env d outs"
    and "\<And>k obj. HashID_ok k \<Longrightarrow> getObject env d k = Inr obj \<Longrightarrow> getObject env d' k = Inr obj"
  shows "outs_backed env d' outs"
  using assms unfolding outs_backed_def backed_coin_def by fastforce

section \<open>The ledger's outputs are backed\<close>

lemma ledger_step_backed:
  assumes step: "ledger_step env m height i txid L = Some L'" and txid: "HashID_ok txid"
    and ids: "store_ids env (m_db m)" and L: "outs_backed env (m_db m) (lg_outs L)"
  shows "outs_backed env (m_db m) (lg_outs L')"
proof -
  obtain obj where obj: "GetObject env m txid = Inr obj"
    using step by (cases "GetObject env m txid") (auto simp: ledger_step_def)
  then have get: "getObject env (m_db m) txid = Inr obj" by (simp add: GetObject_Inr)
  show ?thesis
  proof (cases obj)
    case (TxObj t)
    have "L' k = L'' k" if "L' = L''" for L' L'' :: "OutpointKey \<rightharpoonup> TxOutput" and k using that by simp
    obtain ks where "lg_outs L' = (lg_outs L |` (- set ks)) ++ outs_created txid (elems (tx_Outputs t))"
      using step obj TxObj by (auto simp: ledger_step_def ledger_pay_def split: option.splits if_splits)
    moreover have "backed_coin env (m_db m) (k, v) \<and> key_Txid k = txid"
      if "outs_created txid (elems (tx_Outputs t)) k = Some v" for k v
      using that get TxObj by (auto simp: outs_created_def backed_coin_def outputs_of_def nat_less_iff split: if_splits)
    ultimately show ?thesis
      using L txid by (auto simp: outs_backed_def map_add_Some_iff restrict_map_def split: if_splits)
  next
    case (CoinbaseObj c)
    have id: "id_value (snd (GetObjectID env (CoinbaseObj c))) = txid"
      using ids txid get CoinbaseObj getObject_uncached [OF get] by (simp add: store_ids_def GetObjectID_def id_value_def)
    obtain v vs where "elems (cb_Outputs c) = v # vs" "lg_outs L' = (lg_outs L)(\<lparr>key_Txid = txid, key_Index = 0\<rparr> \<mapsto> v)"
      using step obj CoinbaseObj id by (auto simp: ledger_step_def ledger_mint_def split: list.splits if_splits)
    moreover from this have "backed_coin env (m_db m) (\<lparr>key_Txid = txid, key_Index = 0\<rparr>, v)"
      using get CoinbaseObj by (simp add: backed_coin_def outputs_of_def)
    ultimately show ?thesis using L txid by (simp add: outs_backed_def)
  next
    case (BlockObj b)
    then show ?thesis using step obj by (simp add: ledger_step_def)
  qed
qed

lemma ledger_run_backed:
  "ledger_run env m height i txids L = Some L' \<Longrightarrow> list_all HashID_ok txids \<Longrightarrow> store_ids env (m_db m) \<Longrightarrow>
     outs_backed env (m_db m) (lg_outs L) \<Longrightarrow> outs_backed env (m_db m) (lg_outs L')"
proof (induction txids arbitrary: i L)
  case (Cons txid txids)
  obtain L1 where L1: "ledger_step env m height i txid L = Some L1" "ledger_run env m height (Suc i) txids L1 = Some L'"
    using Cons.prems(1) by (auto simp: bind_eq_Some_conv)
  have "outs_backed env (m_db m) (lg_outs L1)"
    using ledger_step_backed [OF L1(1)] Cons.prems by simp
  then show ?case using Cons.IH [OF L1(2)] Cons.prems by simp
qed simp

lemma accepted_backed:
  assumes "ValidateBlock env now m blk = Some r" "vr_Error r = None" "vr_NewUTXOSet r = Some u"
    and inv: "backing_inv env (m_db m)" and txids: "list_all HashID_ok (elems (blk_Txids blk))"
  shows "outs_backed env (m_db m) (gm_get (us_UTXOs u))"
proof -
  obtain blockid outs height where p: "parent_outs env m blk = Some (outs, height)"
    "ledger_block env m height (elems (blk_Txids blk)) outs = Some (gm_get (us_UTXOs u))"
    by (rule ledger_block_sound [OF assms(1,2)]) (simp add: assms(3))
  have "outs_backed env (m_db m) outs"
  proof (cases "blk_Previd blk")
    case None
    then show ?thesis using p(1) by (auto simp: parent_outs_def outs_backed_def)
  next
    case (Some q)
    then obtain v where "getUTXO env (m_db m) q = Inr v" "outs = gm_get (us_UTXOs v)"
      using p(1) by (auto simp: parent_outs_def split: sum.splits)
    then show ?thesis using inv unfolding backing_inv_def utxos_backed_def by blast
  qed
  moreover obtain L where "ledger_run env m height 0 (elems (blk_Txids blk)) (fresh_ledger outs) = Some L"
    "lg_outs L = gm_get (us_UTXOs u)"
    using p(2) by (auto simp: ledger_block_def split: option.splits if_splits)
  ultimately show ?thesis
    using ledger_run_backed [of env m height 0 "elems (blk_Txids blk)" "fresh_ledger outs" L] txids inv
    by (simp add: backing_inv_def fresh_ledger_def)
qed

section \<open>Every write keeps it\<close>

lemma backing_cong:
  assumes "\<And>k. HashID_ok k \<Longrightarrow> getObject env d' k = getObject env d k" "\<And>b. getUTXO env d' b = getUTXO env d b"
    and "backing_inv env d"
  shows "backing_inv env d'"
  using assms outs_backed_cong [of env d _ d'] unfolding backing_inv_def store_ids_def utxos_backed_def by metis

lemma backing_eq: "chain_eq env d d' \<Longrightarrow> backing_inv env d \<Longrightarrow> backing_inv env d'"
  by (rule backing_cong) (simp_all add: chain_eq_get)

lemma putObject_backing:
  assumes l: "ldb_ok env" and h: "hash_ok env" and put: "putObject env d obj = (d', r)"
    and oid: "HashObject env obj = Inr oid" and ok: "typed obj" "\<And>b. obj = BlockObj b \<Longrightarrow> Block_ok (b\<lparr>blk_CachedID := None\<rparr>)"
    and new: "\<And>v. ldb_get env (db_db d) oid = Inr v \<Longrightarrow> v = print_json (Object_json obj)"
    and inv: "backing_inv env d"
  shows "backing_inv env d'" "\<And>k x. getObject env d k = Inr x \<Longrightarrow> getObject env d' k = Inr x"
proof -
  note eff = putObject_effect [OF l put]
  have id: "HashID_ok oid" using HashObject_ok [OF h oid] by simp
  have other: "getObject env d' k = getObject env d k" if "k \<noteq> oid" for k
    using eff(2) [OF oid that] by (rule getObject_cong)
  have at: "ldb_get env (db_db d') oid = ldb_get env (db_db d) oid \<or> ldb_get env (db_db d') oid = Inr (print_json (Object_json obj))"
    using eff(3) [OF oid] by blast
  show keep: "getObject env d' k = Inr x" if got: "getObject env d k = Inr x" for k x
  proof (cases "k = oid")
    case True
    then obtain v where "ldb_get env (db_db d) oid = Inr v"
      using got by (cases "ldb_get env (db_db d) oid") (auto simp: getObject_def)
    then have "ldb_get env (db_db d') oid = ldb_get env (db_db d) oid" using at new by auto
    then show ?thesis using got True by (simp add: getObject_def)
  next
    case False
    then show ?thesis using other got by simp
  qed
  have utxo: "getUTXO env d' b = getUTXO env d b" for b
    using eff(2) [OF oid, of "utxoKey b"] HashID_keys(1) [OF id] by (intro getUTXO_cong) metis
  have "HashObject env x = Inr k" if k: "HashID_ok k" "getObject env d' k = Inr x" for k x
  proof (cases "k = oid")
    case True
    have "decodeObject (print_json (Object_json obj)) = Inr x"
      using at new k(2) True by (cases "ldb_get env (db_db d) oid") (auto simp: getObject_def)
    then have "x = uncached obj" by (rule decodeObject_dec [OF _ ok])
    then show ?thesis using oid True by (simp add: HashObject_def)
  next
    case False
    then show ?thesis using inv k other by (simp add: backing_inv_def store_ids_def)
  qed
  then show "backing_inv env d'"
    using inv outs_backed_cong [of env d _ d'] keep unfolding backing_inv_def store_ids_def utxos_backed_def utxo by metis
qed

lemma putUTXO_backing:
  assumes l: "ldb_ok env" and put: "putUTXO env d b u = (d', e)" and u: "UTXOSet_ok u"
    and outs: "outs_backed env d (gm_get (us_UTXOs u))" and inv: "backing_inv env d"
  shows "backing_inv env d'"
proof -
  note eff = putUTXO_effect [OF l put u]
  have obj: "getObject env d' k = getObject env d k" if "HashID_ok k" for k
    by (rule getObject_cong, rule eff(2)) (use HashID_keys(1) [OF that] in metis)
  have other: "getUTXO env d' k = getUTXO env d k" if "k \<noteq> b" for k
    by (rule getUTXO_cong, rule eff(2)) (use that in simp)
  have "outs_backed env d (gm_get (us_UTXOs v))" if v: "getUTXO env d' k = Inr v" for k v
  proof (cases "k = b")
    case True
    have "gm_wf (us_UTXOs u)" using u by (simp add: UTXOSet_ok_iff utxos_ok_def)
    then have rev: "gm_get (rev (us_UTXOs u)) = gm_get (us_UTXOs u)"
      using gm_get_perm [of "us_UTXOs u" "rev (us_UTXOs u)"] by simp
    show ?thesis using eff(1)
    proof
      assume "getUTXO env d' b = Inr (u\<lparr>us_UTXOs := rev (us_UTXOs u)\<rparr>)"
      then have "us_UTXOs v = rev (us_UTXOs u)" using v True by auto
      then show ?thesis using outs rev by simp
    next
      assume "e \<noteq> None \<and> ldb_get env (db_db d') = ldb_get env (db_db d)"
      then have "getUTXO env d' b = getUTXO env d b" by (intro getUTXO_cong) simp
      then show ?thesis using v True inv unfolding backing_inv_def utxos_backed_def by metis
    qed
  next
    case False
    then show ?thesis using v other inv by (simp add: backing_inv_def utxos_backed_def)
  qed
  then show ?thesis
    using inv obj outs_backed_cong [of env d _ d'] unfolding backing_inv_def store_ids_def utxos_backed_def by metis
qed

lemma update_tip_backing:
  assumes l: "ldb_ok env" and up: "update_tip env m blk result = Some (m', b, e)" and id: "HashID_ok (vr_ObjID result)"
    and inv: "backing_inv env (m_db m)"
  shows "backing_inv env (m_db m')"
proof -
  obtain d e' where p: "putChaintip env (m_db m) (vr_ObjID result) (vr_NewHeight result) = (d, e')" by fastforce
  have d: "m_db m' = d" using up p by (auto simp: update_tip_def split: option.splits)
  have get: "ldb_get env (db_db d) k = ldb_get env (db_db (m_db m)) k" if "k \<noteq> chaintipKey" for k
    by (rule putChaintip_effect(2) [OF l p id that])
  have "getObject env d k = getObject env (m_db m) k" if "HashID_ok k" for k
    using get HashID_keys(4) [OF that] by (intro getObject_cong) metis
  moreover have "getUTXO env d k = getUTXO env (m_db m) k" for k
    by (rule getUTXO_cong, rule get) (simp add: db_defs)
  ultimately show ?thesis unfolding d using inv by (rule backing_cong)
qed

text \<open>The commit of what validation accepted; an object that is there already must be the same one.\<close>

lemma commitBlock_backing:
  assumes l: "ldb_ok env" and com: "commitBlock env now m blk result = Returns (m', gossip, code, err)"
    and u: "vr_NewUTXOSet result = Some u" "UTXOSet_ok u" "outs_backed env (m_db m) (gm_get (us_UTXOs u))"
    and id: "HashID_ok (vr_ObjID result)" and inv: "backing_inv env (m_db m)"
  shows "backing_inv env (m_db m')"
proof -
  obtain d e where put: "putUTXO env (m_db m) (vr_ObjID result) u = (d, e)" by fastforce
  have d: "backing_inv env (m_db (upd_db d m))" using putUTXO_backing [OF l put u(2,3) inv] by simp
  show ?thesis using com u(1) put
  proof (cases rule: commitBlock_steps)
    case (utxo_error e')
    then show ?thesis using d by simp
  next
    case (tip_error reorg)
    then show ?thesis using update_tip_backing [OF l _ id d] by blast
  next
    case (complete m1)
    have "backing_inv env (m_db m1)"
    proof (cases "vr_IsNewTip result")
      case True
      then show ?thesis using complete(4) update_tip_backing [OF l _ id d] by blast
    next
      case False
      then show ?thesis using complete(3) d by simp
    qed
    then show ?thesis using complete(5) [OF l] backing_eq by (auto simp: same_chain_def)
  qed
qed

lemma CommitObject_backing:
  assumes l: "ldb_ok env" and h: "hash_ok env" and chain: "chain_inv env (m_db m)" and inv: "backing_inv env (m_db m)"
    and obj0: "object_in env obj0" and val: "ValidateObject env now m obj0 = Some (obj, result)" and ok: "vr_Error result = None"
    and new: "\<And>v. ldb_get env (db_db (m_db m)) (vr_ObjID result) = Inr v \<Longrightarrow> v = print_json (Object_json obj)"
    and com: "CommitObject env now' m obj result = Returns (m', gossip, code, err)"
  shows "backing_inv env (m_db m')"
proof -
  note facts = ValidateObject_facts [OF val obj0]
  have oid: "HashObject env obj = Inr (vr_ObjID result)" using facts(3) ok by simp
  have id: "HashID_ok (vr_ObjID result)" using HashObject_ok [OF h oid] by simp
  have ty: "typed obj" "\<And>b. obj = BlockObj b \<Longrightarrow> Block_ok (b\<lparr>blk_CachedID := None\<rparr>)"
    using facts(1) by (simp_all add: object_in_def)
  obtain d1 r where put: "putObject env (m_db m) obj = (d1, r)" by fastforce
  note po = putObject_backing [OF l h put oid ty new inv]
  show ?thesis
  proof (cases r)
    case (Inl e)
    then show ?thesis using com put po(1) by (auto simp: CommitObject_def)
  next
    case (Inr oid')
    show ?thesis
    proof (cases obj)
      case (TxObj tx)
      then have "commitTransaction env now' (upd_db d1 m) tx result = Returns (m', gossip, code, err)"
        using com put Inr by (simp add: CommitObject_def)
      from commitTransaction_same [OF l this] show ?thesis using po(1) backing_eq by (auto simp: same_chain_def)
    next
      case (CoinbaseObj c)
      then show ?thesis using com put Inr po(1) by (auto simp: CommitObject_def)
    next
      case (BlockObj blk)
      have com': "commitBlock env now' (upd_db d1 m) blk result = Returns (m', gossip, code, err)"
        using com put Inr BlockObj by (simp add: CommitObject_def)
      obtain r oid1 where r: "ValidateBlock env now m blk = Some r" "vr_Error r = None" "result = r\<lparr>vr_ObjID := oid1\<rparr>"
        using val ok unfolding BlockObj by (rule ValidateObject_block)
      obtain blockid height utxos st where pass: "block_passes env now m blk blockid height utxos st"
        and r': "r = zero_result\<lparr>
          vr_NewUTXOSet := Some \<lparr>us_BlockID = blockid, us_UTXOs = bs_utxos st, us_Height = height\<rparr>,
          vr_NewHeight := height,
          vr_IsNewTip := (case GetChaintip env m of Inl _ \<Rightarrow> True | Inr (_, h) \<Rightarrow> h < height)\<rparr>"
        using r(1,2) by (rule ValidateBlock_accept)
      let ?u = "\<lparr>us_BlockID = blockid, us_UTXOs = bs_utxos st, us_Height = height\<rparr>"
      have bok: "Block_ok (blk\<lparr>blk_CachedID := None\<rparr>)" using ty(2) BlockObj by simp
      have "HashID_ok blockid"
      proof -
        have "cache_ok env (BlockObj blk)" using facts(1) BlockObj by (simp add: object_in_def)
        then have "snd (GetObjectID env (BlockObj blk)) = HashObject env (BlockObj blk)" by (rule GetObjectID_cache(1))
        then show ?thesis using pass oid id BlockObj by (simp add: block_passes_def)
      qed
      then have uok: "UTXOSet_ok ?u"
        using accepted_entry(1) [OF pass chain bok h] by (simp add: UTXOSet_ok_iff)
      have "outs_backed env (m_db m) (gm_get (us_UTXOs ?u))"
        using accepted_backed [OF r(1,2) _ inv] Block_okD(4) [OF bok] by (simp add: r')
      then have "outs_backed env d1 (gm_get (us_UTXOs ?u))" by (rule outs_backed_cong) (rule po(2))
      then show ?thesis
        using commitBlock_backing [OF l com' _ uok] id po(1) by (simp add: r(3) r')
    qed
  qed
qed

lemma backing_empty: "(\<And>k. ldb_get env (db_db d) k = Inl LdbNotFound) \<Longrightarrow> backing_inv env d"
  by (simp add: backing_inv_def store_ids_def utxos_backed_def getObject_def getUTXO_def)

end
