(* ===== verification/Node.thy ===== *)
theory Node
  imports Topology Backing
begin

text \<open>
  The node as a state machine: an event is one thing that happens to it (a message on a connection,
  the end of a connection, a new connection, a tick of a timer, a ban), and a step handles one event
  to its end. \<open>node_reachable\<close> are the states after any sequence of events in which no handler
  panicked. The node's invariant joins those of its parts, and every step keeps it.
\<close>

section \<open>Events\<close>

datatype event =
    SocketEvent pref "string option"
  | Incoming string
  | Dial string int bool
  | TopologyTick topology_tick
  | CleanupTick
  | SyncEvent sync_event
  | Ban string
  | Unban string

definition cleanup_tick :: "world \<Rightarrow> 'd node \<Rightarrow> 'd node" where
  "cleanup_tick w n = (case CleanupPendingBlocks (w_now w) (nd_mgr n) of
     (m, notices) \<Rightarrow> fold (\<lambda>(peer, txid). NotifyPeerUnfindable w peer txid) notices (upd_mgr m n))"

definition sync_step :: "world \<Rightarrow> sync_event \<Rightarrow> 'd node \<Rightarrow> 'd node" where
  "sync_step w e n = (case SyncNodeState e (nd_mgr n) of
     (m, requestMempool) \<Rightarrow> if requestMempool then BroadcastGetMempool w (upd_mgr m n) else upd_mgr m n)"

fun handle_event :: "'d env \<Rightarrow> world \<Rightarrow> event \<Rightarrow> 'd node \<Rightarrow> 'd node outcome" where
  "handle_event env w (SocketEvent p rawMsg) n =
     (if served (nd_net n) p then initializeSocket env w p rawMsg n else Returns n)"
| "handle_event env w (Incoming addr) n = Returns (StartServer w addr n)"
| "handle_event env w (Dial host port persistent) n = Returns (fst (StartClient w host port persistent n))"
| "handle_event env w (TopologyTick t) n = Returns (StartTopologyManager w t n)"
| "handle_event env w CleanupTick n = Returns (cleanup_tick w n)"
| "handle_event env w (SyncEvent e) n = Returns (sync_step w e n)"
| "handle_event env w (Ban target) n = Returns (upd_net (BanPeer target) n)"
| "handle_event env w (Unban target) n = Returns (upd_net (upd_cm (UnbanPeer target)) n)"

inductive node_reachable :: "'d env \<Rightarrow> 'd node \<Rightarrow> 'd node \<Rightarrow> bool" for env n0 where
  start: "node_reachable env n0 n0"
| step: "node_reachable env n0 n \<Longrightarrow> handle_event env w e n = Returns n' \<Longrightarrow> node_reachable env n0 n'"

section \<open>The invariant\<close>

text \<open>The blocks that wait are blocks as \<open>UnmarshalMessage\<close> delivers them, with a right cached ID if any.\<close>

definition pending_ok :: "'d env \<Rightarrow> 'd database \<Rightarrow> bool" where
  "pending_ok env d \<longleftrightarrow> gm_wf (db_pendingBlocks d) \<and>
     (\<forall>t bs. gm_get (db_pendingBlocks d) t = Some bs \<longrightarrow> (\<forall>b \<in> set bs. object_in env (BlockObj (pb_Block b))))"

definition mgr_inv :: "'d env \<Rightarrow> 'd Manager \<Rightarrow> bool" where
  "mgr_inv env m \<longleftrightarrow> chain_inv env (m_db m) \<and> backing_inv env (m_db m) \<and> mempool_inv (m_db m) \<and> pending_ok env (m_db m)"

definition node_inv :: "'d env \<Rightarrow> 'd node \<Rightarrow> bool" where
  "node_inv env n \<longleftrightarrow> mgr_inv env (nd_mgr n) \<and> net_inv (nd_net n)"

lemma node_inv_wrote: "wrote n n' \<Longrightarrow> node_inv env n' = node_inv env n"
  by (simp add: node_inv_def wrote_same)

lemma mgr_inv_db: "m_db m' = m_db m \<Longrightarrow> mgr_inv env m' = mgr_inv env m"
  by (simp add: mgr_inv_def)

lemma upd_sel [simp]:
  "nd_mgr (upd_mgr m n) = m" "nd_net (upd_mgr m n) = nd_net n" "nd_disc (upd_mgr m n) = nd_disc n"
  "nd_out (upd_mgr m n) = nd_out n" "nd_listening (upd_mgr m n) = nd_listening n"
  "nd_mgr (upd_net f n) = nd_mgr n" "nd_net (upd_net f n) = f (nd_net n)" "nd_disc (upd_net f n) = nd_disc n"
  "nd_out (upd_net f n) = nd_out n" "nd_listening (upd_net f n) = nd_listening n"
  "nd_mgr (upd_disc g n) = nd_mgr n" "nd_net (upd_disc g n) = nd_net n" "nd_disc (upd_disc g n) = g (nd_disc n)"
  "nd_out (upd_disc g n) = nd_out n" "nd_listening (upd_disc g n) = nd_listening n"
  by (simp_all add: upd_mgr_def upd_net_def upd_disc_def)

text \<open>Waiting blocks.\<close>

lemma pending_ok_same:
  "db_pendingBlocks d' = db_pendingBlocks d \<Longrightarrow> pending_ok env d' = pending_ok env d"
  by (simp add: pending_ok_def)

lemma mgr_inv_memory:
  assumes "mgr_inv env m" "db_db (m_db m') = db_db (m_db m)" "db_mempool (m_db m') = db_mempool (m_db m)"
    "db_mempoolSpentInputs (m_db m') = db_mempoolSpentInputs (m_db m)" "pending_ok env (m_db m')"
  shows "mgr_inv env m'"
  using assms chain_inv_eq [OF chain_eq_store [OF assms(2)]] backing_eq [OF chain_eq_store [OF assms(2)]]
    mempool_inv_memory [OF assms(3,4)]
  by (simp add: mgr_inv_def)

lemma AddPendingBlock_inv:
  assumes "mgr_inv env m" "object_in env (BlockObj blk)"
  shows "mgr_inv env (AddPendingBlock now m peer h blk)"
proof (rule mgr_inv_memory [OF assms(1)])
  have "pending_ok env (m_db m)" using assms(1) by (simp add: mgr_inv_def)
  then show "pending_ok env (m_db (AddPendingBlock now m peer h blk))"
    using assms(2) by (cases "gm_get (db_pendingBlocks (m_db m)) h")
      (auto simp: pending_ok_def AddPendingBlock_def addPendingBlock_def Let_def split: if_splits)
qed (simp_all add: AddPendingBlock_def addPendingBlock_def Let_def)

lemma FetchPendingBlocks_inv:
  assumes "mgr_inv env m" "FetchPendingBlocks m h = (m', bs)"
  shows "mgr_inv env m'" "\<forall>b \<in> set bs. object_in env (BlockObj (pb_Block b))"
proof -
  have p: "pending_ok env (m_db m)" using assms(1) by (simp add: mgr_inv_def)
  have m': "m_db m' = (m_db m)\<lparr>db_pendingBlocks := gm_del h (db_pendingBlocks (m_db m))\<rparr>"
    and bs: "bs = (case gm_get (db_pendingBlocks (m_db m)) h of None \<Rightarrow> [] | Some b \<Rightarrow> b)"
    using assms(2) by (auto simp: FetchPendingBlocks_def fetchAndClearPendingBlocks_def Let_def)
  show "mgr_inv env m'"
    by (rule mgr_inv_memory [OF assms(1)]) (use p in \<open>auto simp: m' pending_ok_def split: if_splits\<close>)
  show "\<forall>b \<in> set bs. object_in env (BlockObj (pb_Block b))"
    using p by (cases "gm_get (db_pendingBlocks (m_db m)) h") (auto simp: bs pending_ok_def)
qed

lemma CleanupPendingBlocks_inv:
  assumes "mgr_inv env m" "CleanupPendingBlocks now m = (m', ns)"
  shows "mgr_inv env m'"
proof (cases "TimeSinceLastProgress now m < 2 * 60 * 10 ^ 9")
  case True
  then show ?thesis using assms by (simp add: CleanupPendingBlocks_def)
next
  case False
  obtain d x where c: "checkPendingBlocks now (m_db m) = (d, x)" by fastforce
  with False have m': "m' = upd_db d m"
    using assms(2) by (simp add: CleanupPendingBlocks_def)
  have p: "pending_ok env (m_db m)" using assms(1) by (simp add: mgr_inv_def)
  then have wf: "gm_wf (db_pendingBlocks (m_db m))" by (simp add: pending_ok_def)
  note g = checkPendingBlocks_get [OF wf c]
  show ?thesis
  proof (rule mgr_inv_memory [OF assms(1)])
    have "object_in env (BlockObj (pb_Block b))" if "gm_get (db_pendingBlocks d) t = Some bs" "b \<in> set bs" for t bs b
      using that g(3) [of t] p by (auto simp: pending_ok_def Let_def split: option.splits if_splits)
    then show "pending_ok env (m_db m')" using g(1) by (auto simp: m' pending_ok_def)
  qed (use g(4) in \<open>(subst m', simp, metis database.select_convs database.surjective database.update_convs)+\<close>)
qed

section \<open>Accepting objects\<close>

text \<open>What the work on an object leaves alone.\<close>

definition keeps :: "'d env \<Rightarrow> 'd node \<Rightarrow> 'd node \<Rightarrow> bool" where
  "keeps env n n' \<longleftrightarrow> mgr_inv env (nd_mgr n') \<and> nd_net n' = nd_net n \<and> nd_disc n' = nd_disc n \<and>
     nd_listening n' = nd_listening n \<and>
     (\<exists>ms. nd_out n' = nd_out n @ ms \<and> (\<forall>(p, text) \<in> set ms. \<not> p_connClosed (peer_of n p)))"

lemma keeps_peer: "keeps env n n' \<Longrightarrow> peer_of n' = peer_of n"
  by (simp add: keeps_def peer_of_def fun_eq_iff)

lemma keeps_trans: "keeps env n n' \<Longrightarrow> keeps env n' n'' \<Longrightarrow> keeps env n n''"
proof -
  assume k: "keeps env n n'" and k': "keeps env n' n''"
  obtain ms where ms: "nd_out n' = nd_out n @ ms" "\<forall>(p, text) \<in> set ms. \<not> p_connClosed (peer_of n p)"
    using k by (auto simp: keeps_def)
  obtain ms' where ms': "nd_out n'' = nd_out n' @ ms'" "\<forall>(p, text) \<in> set ms'. \<not> p_connClosed (peer_of n' p)"
    using k' by (auto simp: keeps_def)
  have "nd_out n'' = nd_out n @ (ms @ ms')" using ms(1) ms'(1) by simp
  moreover have "\<forall>(p, text) \<in> set (ms @ ms'). \<not> p_connClosed (peer_of n p)"
    using ms(2) ms'(2) keeps_peer [OF k] by auto
  ultimately show "keeps env n n''" using k k' unfolding keeps_def by metis
qed

lemma keeps_mgr: "mgr_inv env m \<Longrightarrow> keeps env n (upd_mgr m n)"
  by (auto simp: keeps_def)

lemma keeps_wrote: "mgr_inv env (nd_mgr n) \<Longrightarrow> wrote n n' \<Longrightarrow> keeps env n n'"
  by (auto simp: keeps_def wrote_def)

lemma keeps_inv: "keeps env n n' \<Longrightarrow> mgr_inv env (nd_mgr n')"
  by (simp add: keeps_def)

lemma ResetSyncTimer_inv: "mgr_inv env m \<Longrightarrow> mgr_inv env (ResetSyncTimer now m)"
  by (simp add: mgr_inv_def ResetSyncTimer_def)

text \<open>The commit of an accepted object that the store does not have.\<close>

lemma commit_inv:
  assumes l: "ldb_ok env" and h: "hash_ok env" and inv: "mgr_inv env m"
    and obj0: "object_in env obj0" and val: "ValidateObject env now m obj0 = Some (obj, result)"
    and ok: "vr_Error result = None" and new: "ExistsObject env m (vr_ObjID result) \<noteq> Inr True"
    and com: "CommitObject env now' m obj result = Returns (m', gossip, code, err)"
  shows "mgr_inv env m'" "db_pendingBlocks (m_db m') = db_pendingBlocks (m_db m)"
proof -
  have c: "chain_inv env (m_db m)" "mempool_inv (m_db m)" "pending_ok env (m_db m)" "backing_inv env (m_db m)"
    using inv by (auto simp: mgr_inv_def)
  have has: "ldb_has env (db_db (m_db m)) (vr_ObjID result) = (case ldb_get env (db_db (m_db m)) (vr_ObjID result) of
        Inr _ \<Rightarrow> Inr True | Inl e \<Rightarrow> if e = LdbNotFound then Inr False else Inl e)"
    using l unfolding ldb_ok_def by blast
  have new': "ldb_get env (db_db (m_db m)) (vr_ObjID result) \<noteq> Inr v" for v
    using new has by (simp add: ExistsObject_def existsObject_def split: sum.splits)
  note k = CommitObject_chain [OF l h c(1) obj0 val ok new' com]
  show "db_pendingBlocks (m_db m') = db_pendingBlocks (m_db m)" by (rule k(2))
  have "backing_inv env (m_db m')"
    by (rule CommitObject_backing [OF l h c(1,4) obj0 val ok _ com]) (simp add: new')
  with pending_ok_same [OF k(2)] show "mgr_inv env m'"
    unfolding mgr_inv_def using k(1) CommitObject_mempool [OF com c(2)] c(3) by blast
qed

lemma after_commit_keeps:
  assumes "mgr_inv env (nd_mgr n)"
  shows "keeps env n (after_commit w p result gossip code n)"
proof -
  define n1 where "n1 = (if code \<noteq> E_NONE
    then SendError w p code ''Transaction stored, but rejected from mempool.'' n else n)"
  define n2 where "n2 = (if gossip then BroadcastIHaveObject w (vr_ObjID result) n1 else n1)"
  have "wrote n n1" by (simp add: n1_def Send_wrote)
  moreover have "wrote n1 n2" by (simp add: n2_def Broadcasts_wrote)
  ultimately have k: "keeps env n n2" using keeps_wrote [OF assms wrote_trans] by simp
  have eq: "after_commit w p result gossip code n = upd_mgr (ResetSyncTimer (w_now w) (nd_mgr n2)) n2"
    by (simp add: after_commit_def n1_def n2_def Let_def)
  show ?thesis unfolding eq
    by (rule keeps_trans [OF k keeps_mgr [OF ResetSyncTimer_inv [OF keeps_inv [OF k]]]])
qed

lemma keep_waiting_keeps:
  assumes "keep_waiting w p blk result n = Returns n'" "mgr_inv env (nd_mgr n)" "object_in env (BlockObj blk)"
  shows "keeps env n n'"
proof (cases "vr_ErrorCode result = E_UNKNOWN_OBJECT \<and> vr_MissingID result \<noteq> DUMMY_HASH")
  case True
  let ?n = "upd_mgr (AddPendingBlock (w_now w) (nd_mgr n) (p_addr (peer_of n p)) (vr_MissingID result) blk) n"
  have k: "keeps env n ?n" by (rule keeps_mgr [OF AddPendingBlock_inv [OF assms(2,3)]])
  moreover have "keeps env ?n n'"
    using True assms(1) keeps_wrote [OF keeps_inv [OF k] Send_wrote(5)] by (auto simp: keep_waiting_def)
  ultimately show ?thesis by (rule keeps_trans)
next
  case False
  then have "wrote n n'"
    using assms(1) by (auto simp: keep_waiting_def Send_wrote split: if_splits option.splits)
  then show ?thesis using assms(2) by (rule keeps_wrote [rotated])
qed

lemma validated_block:
  assumes "ValidateObject env now m (BlockObj blk) = Some (obj, result)" "object_in env (BlockObj blk)"
  shows "object_in env (BlockObj (block_or blk obj))"
proof -
  have "object_in env obj" "uncached obj = uncached (BlockObj blk)"
    using ValidateObject_facts(1,2) [OF assms] by auto
  then show ?thesis by (cases obj) (auto simp: block_or_def)
qed

lemma accept_resolve_inv:
  assumes l: "ldb_ok env" and h: "hash_ok env"
  shows "\<And>obj0 n'. acceptObject env w fuel p obj result n = Returns n' \<Longrightarrow> mgr_inv env (nd_mgr n) \<Longrightarrow>
      object_in env obj0 \<Longrightarrow> ValidateObject env (unix w) (nd_mgr n) obj0 = Some (obj, result) \<Longrightarrow>
      vr_Error result = None \<Longrightarrow> keeps env n n'"
    and "\<And>n'. resolvePendingBlocks env w fuel p oid n = Returns n' \<Longrightarrow> mgr_inv env (nd_mgr n) \<Longrightarrow> keeps env n n'"
    and "\<And>n'. resolve_loop env w fuel p pendings n = Returns n' \<Longrightarrow> mgr_inv env (nd_mgr n) \<Longrightarrow>
      \<forall>b \<in> set pendings. object_in env (BlockObj (pb_Block b)) \<Longrightarrow> keeps env n n'"
  using l h
proof (induction env w fuel p obj result n and env w fuel p oid n and env w fuel p pendings n
    rule: acceptObject_resolvePendingBlocks_resolve_loop.induct)
  case (2 env w fuel p obj result n)
  show ?case
  proof (cases "ExistsObject env (nd_mgr n) (vr_ObjID result) = Inr True")
    case True
    then show ?thesis using 2 by (simp add: keeps_wrote)
  next
    case False
    then obtain m gossip code err where com: "CommitObject env (w_now w) (nd_mgr n) obj result = Returns (m, gossip, code, err)"
      using 2(2) by (cases "CommitObject env (w_now w) (nd_mgr n) obj result") auto
    have m: "mgr_inv env m" by (rule commit_inv(1) [OF 2(7,8,3,4,5,6) False com])
    show ?thesis
    proof (cases err)
      case (Some e)
      then show ?thesis using 2(2) False com keeps_mgr [OF m, of n] by auto
    next
      case None
      let ?n = "after_commit w p result gossip code (upd_mgr m n)"
      have k: "keeps env n ?n"
        by (rule keeps_trans [OF keeps_mgr [OF m] after_commit_keeps]) (simp add: m)
      have r: "resolvePendingBlocks env w fuel p (vr_ObjID result) ?n = Returns n'"
        using 2(2) False com None by simp
      show ?thesis
        by (rule keeps_trans [OF k 2(1) [OF False _ r keeps_inv [OF k] 2(7,8)]]) (use None in simp_all)
    qed
  qed
next
  case (3 env w fuel p oid n)
  obtain m bs where f: "FetchPendingBlocks (nd_mgr n) oid = (m, bs)" by fastforce
  note fi = FetchPendingBlocks_inv [OF 3(3) f]
  have "resolve_loop env w fuel p bs (upd_mgr m n) = Returns n'" using 3(2) f by simp
  then have "keeps env (upd_mgr m n) n'"
    using 3(1) [OF f [symmetric]] fi 3(4,5) by simp
  then show ?case using keeps_trans [OF keeps_mgr [OF fi(1)]] by blast
next
  case (4 env w fuel p n)
  then show ?case by (simp add: keeps_wrote)
next
  case (5 env w fuel p pending pendings n)
  obtain obj result where val: "ValidateObject env (unix w) (nd_mgr n) (BlockObj (pb_Block pending)) = Some (obj, result)"
    using 5(3) by (cases "ValidateObject env (unix w) (nd_mgr n) (BlockObj (pb_Block pending))") auto
  have oin: "object_in env (BlockObj (pb_Block pending))" using 5(5) by simp
  let ?first = "if vr_ErrorCode result = E_NONE \<and> vr_Error result = None then acceptObject env w fuel p obj result n
     else keep_waiting w p (block_or (pb_Block pending) obj) result n"
  obtain n1 where n1: "?first = Returns n1" "resolve_loop env w fuel p pendings n1 = Returns n'"
    using 5(3) val by (auto simp: and_then_Returns)
  have k: "keeps env n n1"
  proof (cases "vr_ErrorCode result = E_NONE \<and> vr_Error result = None")
    case True
    then show ?thesis using 5(1) [OF val refl True _ 5(4) oin val] n1(1) 5(6,7) by simp
  next
    case False
    have "keep_waiting w p (block_or (pb_Block pending) obj) result n = Returns n1"
      using n1(1) by (simp only: if_not_P [OF False])
    then show ?thesis by (rule keep_waiting_keeps [OF _ 5(4) validated_block [OF val oin]])
  qed
  show ?case
    using keeps_trans [OF k] 5(2) [OF val refl n1(2) keeps_inv [OF k]] 5(5,6,7) by simp
qed simp

section \<open>Every event keeps the invariant\<close>

named_theorems node_keep \<open>operations that keep the invariant of the node\<close>

lemma keeps_node_inv: "keeps env n n' \<Longrightarrow> node_inv env n \<Longrightarrow> node_inv env n'"
  by (simp add: keeps_def node_inv_def)

lemma wrote_node [node_keep]: "node_inv env n \<Longrightarrow> wrote n n' \<Longrightarrow> node_inv env n'"
  by (simp add: node_inv_wrote)

lemma upd_disc_node [node_keep]: "node_inv env n \<Longrightarrow> node_inv env (upd_disc f n)"
  by (simp add: node_inv_def)

lemma upd_net_node: "node_inv env n \<Longrightarrow> net_inv (f (nd_net n)) \<Longrightarrow> node_inv env (upd_net f n)"
  by (simp add: node_inv_def)

lemma upd_mgr_node: "node_inv env n \<Longrightarrow> mgr_inv env m \<Longrightarrow> node_inv env (upd_mgr m n)"
  by (simp add: node_inv_def)

lemma node_invD: "node_inv env n \<Longrightarrow> mgr_inv env (nd_mgr n)" "node_inv env n \<Longrightarrow> net_inv (nd_net n)"
  by (simp_all add: node_inv_def)

lemma Disconnect_node:
  "node_inv env n \<Longrightarrow> served (nd_net n) p \<Longrightarrow> node_inv env (upd_net (Disconnect p) n)"
  by (intro upd_net_node Disconnect_inv node_invD)

lemma upd_peer_node:
  "node_inv env n \<Longrightarrow> table_frame f \<Longrightarrow> node_inv env (upd_net (upd_peer p f) n)"
  by (intro upd_net_node upd_peer_inv node_invD)

lemma received_object_in:
  assumes "received_ok obj"
  shows "object_in env (fst (GetObjectID env obj))"
proof -
  have none: "Object_ObjID obj = None" and ty: "typed obj"
    and blk: "\<And>b. obj = BlockObj b \<Longrightarrow> Block_ok b"
    using assms by (cases obj; auto simp: Block_ok_def)+
  then have c: "cache_ok env obj" by (simp add: cache_ok_def)
  have u: "uncached (fst (GetObjectID env obj)) = uncached obj" by (rule GetObjectID_cache(3) [OF c])
  show ?thesis
  proof (cases obj)
    case (BlockObj b)
    then obtain b' where b': "fst (GetObjectID env obj) = BlockObj b'"
      using u by (cases "fst (GetObjectID env obj)") auto
    then have "b'\<lparr>blk_CachedID := None\<rparr> = b" using u BlockObj none by auto
    then show ?thesis
      using GetObjectID_cache(2) [OF c] b' blk [OF BlockObj] ty BlockObj by (auto simp: object_in_def)
  next
    case (TxObj t)
    then obtain t' where "fst (GetObjectID env obj) = TxObj t'"
      using u by (cases "fst (GetObjectID env obj)") auto
    then show ?thesis using GetObjectID_cache(2) [OF c] u TxObj ty by (cases t; cases t') (auto simp: object_in_def)
  next
    case (CoinbaseObj t)
    then obtain t' where "fst (GetObjectID env obj) = CoinbaseObj t'"
      using u by (cases "fst (GetObjectID env obj)") auto
    then show ?thesis using GetObjectID_cache(2) [OF c] u CoinbaseObj ty by (cases t; cases t') (auto simp: object_in_def)
  qed
qed

lemma handleHello_node:
  assumes "handleHello w p agent n = Returns n'" "node_inv env n" "served (nd_net n) p"
  shows "node_inv env n'"
proof -
  have "node_inv env (upd_net (Disconnect p) (SendError w p c s n))" for c s
    by (rule Disconnect_node [OF wrote_node [OF assms(2) Send_wrote(2)]])
      (simp add: assms(3))
  moreover have "node_inv env (upd_net (upd_peer p (\<lambda>s. s\<lparr>p_handshakeComplete := True, p_agent := a\<rparr>)) n)" for a
    by (rule upd_peer_node [OF assms(2)]) (simp add: table_frame_def)
  ultimately show ?thesis
    using assms(1) by (auto simp: handleHello_def Let_def upd_disc_node split: if_splits)
qed

lemma rejectObject_keeps:
  assumes "rejectObject w p obj result n = Returns n'" "mgr_inv env (nd_mgr n)" "object_in env obj"
  shows "keeps env n n'"
proof (cases "vr_ErrorCode result = E_UNKNOWN_OBJECT \<and> vr_MissingID result \<noteq> DUMMY_HASH")
  case True
  define n1 where "n1 = upd_mgr (ResetSyncTimer (w_now w) (nd_mgr n)) n"
  define n2 where "n2 = (case obj of
      BlockObj blk \<Rightarrow> upd_mgr (AddPendingBlock (w_now w) (nd_mgr n1) (p_addr (peer_of n1 p)) (vr_MissingID result) blk) n1
    | _ \<Rightarrow> n1)"
  have k1: "keeps env n n1" unfolding n1_def by (rule keeps_mgr [OF ResetSyncTimer_inv [OF assms(2)]])
  have "keeps env n1 n2"
  proof (cases obj)
    case (BlockObj blk)
    then show ?thesis
      unfolding n2_def by simp (rule keeps_mgr [OF AddPendingBlock_inv [OF keeps_inv [OF k1]]], use assms(3) BlockObj in simp)
  qed (simp_all add: n2_def keeps_wrote keeps_inv [OF k1])
  then have k2: "keeps env n n2" by (rule keeps_trans [OF k1])
  have "n' = SendGetObject w p (vr_MissingID result) n2"
    using True assms(1) by (simp add: rejectObject_def n2_def n1_def Let_def split: Object.splits)
  then show ?thesis using keeps_trans [OF k2 keeps_wrote [OF keeps_inv [OF k2] Send_wrote(5)]] by simp
next
  case False
  then have "wrote n n'"
    using assms(1) by (auto simp: rejectObject_def Send_wrote split: if_splits option.splits)
  then show ?thesis using assms(2) by (rule keeps_wrote [rotated])
qed

lemma handleObject_node:
  assumes l: "ldb_ok env" and h: "hash_ok env"
    and r: "handleObject env w p (Some obj0) n = Returns n'" and inv: "node_inv env n"
    and p: "served (nd_net n) p" and obj0: "object_in env obj0"
  shows "node_inv env n'"
proof -
  have m: "mgr_inv env (nd_mgr n)" by (rule node_invD [OF inv])
  obtain obj result where val: "ValidateObject env (unix w) (nd_mgr n) obj0 = Some (obj, result)"
    using r by (auto simp: handleObject_def split: option.splits)
  consider (pow) "vr_ErrorCode result = E_INVALID_BLOCK_POW"
    | (bad) "vr_ErrorCode result \<noteq> E_INVALID_BLOCK_POW" "vr_Error result \<noteq> None"
    | (good) "vr_ErrorCode result \<noteq> E_INVALID_BLOCK_POW" "vr_Error result = None" by blast
  then show ?thesis
  proof cases
    case pow
    let ?n = "SendError w p E_INVALID_BLOCK_POW ''Invalid proof of work. You have been banned.'' n"
    have wr: "wrote n ?n" by (rule Send_wrote(2))
    have inv1: "node_inv env ?n" by (rule wrote_node [OF inv wr])
    have net: "net_inv (nd_net ?n)" "served (nd_net ?n) p" using node_invD(2) [OF inv1] wrote_same(2) [OF wr] p by simp_all
    note ban = BanPeer_effect [OF net(1), where target = "p_host (peer_of ?n p)"]
    have "node_inv env (upd_net (BanPeer (p_host (peer_of ?n p))) ?n)" by (rule upd_net_node [OF inv1]) (rule ban(1))
    then have "node_inv env (upd_net (Disconnect p) (upd_net (BanPeer (p_host (peer_of ?n p))) ?n))"
      by (rule Disconnect_node) (use ban(3) [OF net(2)] in simp)
    then show ?thesis using r val pow by (simp add: handleObject_def Let_def)
  next
    case bad
    then have "rejectObject w p obj result n = Returns n'" using r val by (simp add: handleObject_def)
    then show ?thesis
      using keeps_node_inv [OF rejectObject_keeps [OF _ m ValidateObject_facts(1) [OF val obj0]] inv] by blast
  next
    case good
    then have "acceptObject env w (Suc (waiting_total n)) p obj result n = Returns n'"
      using r val by (simp add: handleObject_def)
    then show ?thesis
      using keeps_node_inv [OF accept_resolve_inv(1) [OF l h _ m obj0 val good(2)] inv] by blast
  qed
qed

lemma handleMempool_wrote: "wrote n (handleMempool env w p txids n)"
  by (induction env w p txids n rule: handleMempool.induct)
    (auto intro: wrote_trans [OF Send_wrote(5)] split: sum.splits)

lemma handleChainTip_node:
  assumes "node_inv env n"
  shows "node_inv env (handleChainTip env w p b n)"
proof -
  define n1 where "n1 = (if \<not> p_sentChainTip (peer_of n p)
     then upd_mgr (IncrementChaintipsReceived (nd_mgr n)) (upd_net (upd_peer p (\<lambda>s. s\<lparr>p_sentChainTip := True\<rparr>)) n)
     else n)"
  have "node_inv env (upd_net (upd_peer p (\<lambda>s. s\<lparr>p_sentChainTip := True\<rparr>)) n)"
    by (rule upd_peer_node [OF assms]) (simp add: table_frame_def)
  moreover have "mgr_inv env (IncrementChaintipsReceived (nd_mgr n))"
    using node_invD(1) [OF assms] by (simp add: mgr_inv_def IncrementChaintipsReceived_def)
  ultimately have inv1: "node_inv env n1" using assms by (simp add: n1_def upd_mgr_node)
  have "wrote n1 (handleChainTip env w p b n)"
    by (auto simp: handleChainTip_def n1_def Let_def Send_wrote split: sum.splits)
  then show ?thesis by (rule wrote_node [OF inv1])
qed

lemma handleMessage_node:
  assumes l: "ldb_ok env" and h: "hash_ok env"
    and r: "handleMessage env w p raw n = Returns n'" and inv: "node_inv env n" and p: "served (nd_net n) p"
  shows "node_inv env n'"
proof -
  have drop: "node_inv env (upd_net (Disconnect p) (SendError w p c s n))" for c s
    by (rule Disconnect_node [OF wrote_node [OF inv Send_wrote(2)]])
      (simp add: p)
  have err: "node_inv env (SendError w p c s n)" for c s by (rule wrote_node [OF inv Send_wrote(2)])
  show ?thesis
  proof (cases "TrimSpace raw = []")
    case True
    then show ?thesis using r inv by (simp add: handleMessage_def)
  next
    case False
    show ?thesis
    proof (cases "UnmarshalMessage raw")
      case None
      then show ?thesis using r False drop err by (auto simp: handleMessage_def Let_def split: if_splits)
    next
      case (Some msg0)
      then obtain msg where msg: "log_detail env msg0 = Some msg"
        using r False by (auto simp: handleMessage_def split: option.splits if_splits)
      show ?thesis
      proof (cases "\<not> p_handshakeComplete (peer_of n p) \<and> Message_MessageType msg \<noteq> MSG_HELLO")
        case True
        then show ?thesis using r False Some msg drop by (auto simp: handleMessage_def)
      next
        case hs: False
        then have d: "dispatch env w p msg n = Returns n'"
          using r False Some msg by (simp add: handleMessage_def split: if_splits)
        show ?thesis
        proof (cases msg)
          case (HelloMsg t v a)
          then show ?thesis using d handleHello_node [OF _ inv p] by simp
        next
          case (ObjectMsg t raw' obj)
          then obtain obj0 where obj0: "msg0 = ObjectMsg t raw' (Some obj0)" "obj = Some (fst (GetObjectID env obj0))"
            using msg by (auto simp: log_detail_def split: Message.splits option.splits)
          then obtain obj1 where "Some obj0 = Some obj1" "received_ok obj1"
            using UnmarshalMessage_object Some by metis
          then show ?thesis
            using d ObjectMsg obj0 handleObject_node [OF l h _ inv p received_object_in] by auto
        next
          case (ChainTipMsg t b)
          then show ?thesis using d handleChainTip_node [OF inv] by auto
        next
          case (PeersMsg t ps)
          then show ?thesis using d upd_disc_node [OF inv] by (auto simp: handlePeers_def)
        qed (use d inv in \<open>auto simp: handleError_def handleGetPeers_def handleGetObject_def handleIHaveObject_def
            handleGetMempool_def handleGetChainTip_def Send_wrote handleMempool_wrote
            intro!: wrote_node [OF inv] split: sum.splits\<close>)
      qed
    qed
  qed
qed

text \<open>Connections, tickers and synchronisation.\<close>

lemma NewPeer_node:
  assumes "node_inv env n" "NewPeer addr origin pers (nd_net n) = (nt, r)"
  shows "node_inv env (n\<lparr>nd_net := nt, nd_listening := b\<rparr>)" "node_inv env (n\<lparr>nd_net := nt\<rparr>)"
  using NewPeer_inv [OF node_invD(2) [OF assms(1)] assms(2)] assms(1) by (simp_all add: node_inv_def)

lemma StartServer_node:
  assumes "node_inv env n"
  shows "node_inv env (StartServer w addr n)"
proof (cases "NewPeer addr Inbound False (nd_net n)")
  case (Pair nt r)
  note k = NewPeer_node [OF assms Pair]
  show ?thesis
    using Pair assms k wrote_node [OF k(2) Greet_wrote] by (cases r) (simp_all add: StartServer_def)
qed

lemma StartClient_node:
  assumes "node_inv env n"
  shows "node_inv env (fst (StartClient w host port pers n))"
proof -
  have "node_inv env (Greet w q (n\<lparr>nd_net := nt\<rparr>)) \<and> node_inv env (n\<lparr>nd_net := nt\<rparr>)"
    if "NewPeer addr Outbound pers (nd_net n) = (nt, r)" for addr nt r q
    using NewPeer_node(2) [OF assms that] wrote_node [OF NewPeer_node(2) [OF assms that] Greet_wrote] by simp
  then show ?thesis
    using assms by (auto simp: StartClient_def split: option.splits prod.splits sum.splits)
qed

lemma dial_candidate_node: "node_inv env n \<Longrightarrow> node_inv env (dial_candidate w addr n)"
proof -
  assume inv: "node_inv env n"
  obtain host portStr where hp: "(case SplitHostPort addr of None \<Rightarrow> ([], []) | Some hp \<Rightarrow> hp) = (host, portStr)"
    by fastforce
  obtain n' e where c: "StartClient w host (ParseInt_value portStr) False n = (n', e)" by fastforce
  have "node_inv env n'" using StartClient_node [OF inv, of w host "ParseInt_value portStr" False] c by simp
  then show ?thesis
    using hp c upd_disc_node by (auto simp: dial_candidate_def split: option.splits client_error.splits)
qed

lemma fold_node:
  "node_inv env n \<Longrightarrow> (\<And>x n. node_inv env n \<Longrightarrow> node_inv env (f x n)) \<Longrightarrow> node_inv env (fold f xs n)"
  by (induction xs arbitrary: n) auto

lemma topology_node:
  assumes "node_inv env n"
  shows "node_inv env (StartTopologyManager w t n)"
proof (cases t)
  case (ChurnTick i)
  have "node_inv env (upd_net (upd_peer p (\<lambda>s. s\<lparr>p_connClosed := True\<rparr>)) n)" for p
    by (rule upd_peer_node [OF assms]) (simp add: table_frame_def)
  then show ?thesis using ChurnTick assms by (simp add: churnRandomPeer_def Let_def)
next
  case (ReplenishTick perm)
  then show ?thesis
    using assms by (simp add: replenishOutbound_def fold_node dial_candidate_node)
next
  case GossipTick
  have "wrote n (BroadcastGetChainTip w (BroadcastGetPeers w n))"
    by (rule wrote_trans [OF Broadcasts_wrote(3) Broadcasts_wrote(4)])
  then show ?thesis using GossipTick wrote_node [OF assms] by simp
next
  case (SyncStallTick perm)
  have "wrote n (fold (\<lambda>hash. fold (\<lambda>p. SendGetObject w p hash) ps) hs n)" for ps hs
    by (intro fold_wrote Send_wrote)
  then have "wrote n (fetchMissingDependencies w perm n)"
    by (simp add: fetchMissingDependencies_def Let_def)
  then show ?thesis using SyncStallTick wrote_node [OF assms] by simp
qed

lemma NotifyPeerUnfindable_wrote: "wrote n (NotifyPeerUnfindable w peer txid n)"
  by (auto simp: NotifyPeerUnfindable_def Send_wrote split: option.splits)

lemma cleanup_node:
  assumes "node_inv env n"
  shows "node_inv env (cleanup_tick w n)"
proof -
  obtain m ns where c: "CleanupPendingBlocks (w_now w) (nd_mgr n) = (m, ns)" by fastforce
  have "node_inv env (upd_mgr m n)"
    by (rule upd_mgr_node [OF assms CleanupPendingBlocks_inv [OF node_invD(1) [OF assms] c]])
  moreover have "wrote (upd_mgr m n) (cleanup_tick w n)"
    unfolding cleanup_tick_def c by (auto intro: fold_wrote NotifyPeerUnfindable_wrote)
  ultimately show ?thesis by (rule wrote_node)
qed

lemma sync_node:
  assumes "node_inv env n"
  shows "node_inv env (sync_step w e n)"
proof -
  obtain m b where s: "SyncNodeState e (nd_mgr n) = (m, b)" by fastforce
  have "m_db m = m_db (nd_mgr n)" using s by (cases e) (auto simp: Let_def split: if_splits)
  then have inv: "node_inv env (upd_mgr m n)"
    using upd_mgr_node [OF assms] mgr_inv_db node_invD(1) [OF assms] by blast
  then show ?thesis using wrote_node [OF inv Broadcasts_wrote(5)] by (simp add: sync_step_def s)
qed

theorem handle_event_node:
  assumes "ldb_ok env" "hash_ok env" "handle_event env w e n = Returns n'" "node_inv env n"
  shows "node_inv env n'"
proof (cases e)
  case (SocketEvent p rawMsg)
  show ?thesis
  proof (cases "served (nd_net n) p")
    case True
    then show ?thesis
      using assms SocketEvent Disconnect_node [OF assms(4) True] handleMessage_node [OF assms(1,2) _ assms(4) True]
      by (cases rawMsg) (auto simp: initializeSocket_def)
  next
    case False
    then show ?thesis using assms SocketEvent by simp
  qed
next
  case (Ban target)
  then show ?thesis
    using assms upd_net_node [OF assms(4), of "BanPeer target"] BanPeer_effect(1) [OF node_invD(2) [OF assms(4)]] by auto
next
  case (Unban target)
  have "net_inv (upd_cm (UnbanPeer target) (nd_net n))"
    by (rule upd_cm_inv [OF node_invD(2) [OF assms(4)]]) (simp_all add: UnbanPeer_def)
  then show ?thesis using assms Unban upd_net_node by auto
qed (use assms StartServer_node StartClient_node topology_node cleanup_node sync_node in auto)

theorem node_reachable_inv:
  assumes "ldb_ok env" "hash_ok env" "node_reachable env n0 n" "node_inv env n0"
  shows "node_inv env n"
  using assms(3,4) by induction (auto intro: handle_event_node [OF assms(1,2)])

section \<open>The start\<close>

text \<open>\<^verbatim>\<open>main\<close>: the Manager after \<^verbatim>\<open>InitializeMempool\<close>, no connection, the server listening.\<close>

definition start_node :: "'d Manager \<Rightarrow> discovery \<Rightarrow> 'd node" where
  "start_node m s = \<lparr>nd_mgr = m, nd_net = empty_net, nd_disc = s, nd_out = [], nd_listening = True\<rparr>"

lemma NewManager_inv:
  assumes "\<And>k. ldb_get env d k = Inl LdbNotFound" "NewManager (Some d) config = Some m"
  shows "mgr_inv env m"
proof -
  have "m_db m = newDatabase d" using assms(2) by (auto simp: NewManager_def)
  then show ?thesis
    using assms(1) backing_empty [of env "m_db m"] by (simp add: mgr_inv_def chain_inv_def mempool_inv_def pending_ok_def store_outputs_ok_def
        getUTXO_def getObject_def getChaintip_def newDatabase_def)
qed

lemma InitializeMempool_mgr_inv:
  assumes "ldb_ok env" "mgr_inv env m" "InitializeMempool env m = Some m'"
  shows "mgr_inv env m'"
proof -
  have s: "chain_eq env (m_db m) (m_db m')" "db_pendingBlocks (m_db m') = db_pendingBlocks (m_db m)"
    using InitializeMempool_same [OF assms(1,3)] by (simp_all add: same_chain_def)
  show ?thesis
    using assms(2) chain_inv_eq [OF s(1)] backing_eq [OF s(1)] InitializeMempool_inv [OF assms(3)] pending_ok_same [OF s(2)]
    by (simp add: mgr_inv_def)
qed

lemma start_node_inv: "mgr_inv env m \<Longrightarrow> node_inv env (start_node m s)"
  by (simp add: node_inv_def start_node_def empty_net_inv)

end
