(* ===== verification/Progress.thy ===== *)
theory Progress
  imports Node
begin

text \<open>
  Handling an event comes to an end. The depth of \<open>acceptObject\<close> is bounded by the number of blocks
  that wait: each level takes some out of the map, and puts back at most those it took. The fuel
  that \<open>handleObject\<close> passes is therefore enough, and no commit loops.
\<close>

section \<open>Counting the blocks that wait\<close>

lemma waiting_total_sum: "int (waiting_total n) = gm_sum (\<lambda>bs. int (length bs)) (db_pendingBlocks (m_db (nd_mgr n)))"
proof -
  have "int (\<Sum>(t, bs)\<leftarrow>m. length bs) = gm_sum (\<lambda>bs. int (length bs)) m" for m :: "(HashID, PendingBlock list) gomap"
    by (induction m) auto
  then show ?thesis by (simp add: waiting_total_def)
qed

lemma waiting_same: "db_pendingBlocks (m_db (nd_mgr n')) = db_pendingBlocks (m_db (nd_mgr n)) \<Longrightarrow> waiting_total n' = waiting_total n"
  by (simp add: waiting_total_def)

lemma mgr_inv_wf: "mgr_inv env m \<Longrightarrow> gm_wf (db_pendingBlocks (m_db m))"
  by (simp add: mgr_inv_def pending_ok_def)

lemma waiting_fetch:
  assumes "mgr_inv env (nd_mgr n)" "FetchPendingBlocks (nd_mgr n) h = (m, bs)"
  shows "waiting_total (upd_mgr m n) + length bs = waiting_total n"
proof -
  have "int (waiting_total (upd_mgr m n)) + int (length bs) = int (waiting_total n)"
    unfolding waiting_total_sum
    using assms(2) gm_sum_del [OF mgr_inv_wf [OF assms(1)], of "\<lambda>bs. int (length bs)" h]
    by (cases "gm_get (db_pendingBlocks (m_db (nd_mgr n))) h")
      (auto simp: FetchPendingBlocks_def fetchAndClearPendingBlocks_def)
  then show ?thesis by linarith
qed

lemma waiting_add:
  assumes "mgr_inv env (nd_mgr n)"
  shows "waiting_total (upd_mgr (AddPendingBlock now (nd_mgr n) peer h blk) n) = Suc (waiting_total n)"
proof -
  have "int (waiting_total (upd_mgr (AddPendingBlock now (nd_mgr n) peer h blk) n)) = int (Suc (waiting_total n))"
    unfolding of_nat_Suc waiting_total_sum
    using gm_sum_set [OF mgr_inv_wf [OF assms], of "\<lambda>bs. int (length bs)" h]
    by (cases "gm_get (db_pendingBlocks (m_db (nd_mgr n))) h") (auto simp: AddPendingBlock_def addPendingBlock_def Let_def)
  then show ?thesis by linarith
qed

lemma waiting_wrote: "wrote n n' \<Longrightarrow> waiting_total n' = waiting_total n"
  by (simp add: waiting_total_def wrote_same)

lemma waiting_SendGetObject [simp]: "waiting_total (SendGetObject w p h n) = waiting_total n"
  by (simp add: waiting_total_def)

lemma after_commit_pending:
  "db_pendingBlocks (m_db (nd_mgr (after_commit w p result gossip code n))) = db_pendingBlocks (m_db (nd_mgr n))"
  by (simp add: after_commit_def Let_def ResetSyncTimer_def wrote_same [OF Broadcasts_wrote(1)])

lemma keep_waiting_total:
  assumes "keep_waiting w p blk result n = Returns n'" "mgr_inv env (nd_mgr n)"
  shows "waiting_total n' \<le> Suc (waiting_total n)"
proof (cases "vr_ErrorCode result = E_UNKNOWN_OBJECT \<and> vr_MissingID result \<noteq> DUMMY_HASH")
  case True
  then have "n' = SendGetObject w p (vr_MissingID result)
      (upd_mgr (AddPendingBlock (w_now w) (nd_mgr n) (p_addr (peer_of n p)) (vr_MissingID result) blk) n)"
    using assms(1) by (simp add: keep_waiting_def)
  then show ?thesis using waiting_add [OF assms(2)] by simp
next
  case False
  then have "wrote n n'"
    using assms(1) by (auto simp: keep_waiting_def Send_wrote split: if_splits option.splits)
  then show ?thesis by (simp add: waiting_wrote)
qed

text \<open>The blocks a call takes out of the map are what its recursive calls can put back.\<close>

lemma accept_resolve_total:
  assumes l: "ldb_ok env" and h: "hash_ok env"
  shows "\<And>obj0 n'. acceptObject env w fuel p obj result n = Returns n' \<Longrightarrow> mgr_inv env (nd_mgr n) \<Longrightarrow>
      object_in env obj0 \<Longrightarrow> ValidateObject env (unix w) (nd_mgr n) obj0 = Some (obj, result) \<Longrightarrow>
      vr_Error result = None \<Longrightarrow> waiting_total n' \<le> waiting_total n"
    and "\<And>n'. resolvePendingBlocks env w fuel p oid n = Returns n' \<Longrightarrow> mgr_inv env (nd_mgr n) \<Longrightarrow>
      waiting_total n' \<le> waiting_total n"
    and "\<And>n'. resolve_loop env w fuel p pendings n = Returns n' \<Longrightarrow> mgr_inv env (nd_mgr n) \<Longrightarrow>
      \<forall>b \<in> set pendings. object_in env (BlockObj (pb_Block b)) \<Longrightarrow>
      waiting_total n' \<le> waiting_total n + length pendings"
  using l h
proof (induction env w fuel p obj result n and env w fuel p oid n and env w fuel p pendings n
    rule: acceptObject_resolvePendingBlocks_resolve_loop.induct)
  case (2 env w fuel p obj result n)
  show ?case
  proof (cases "ExistsObject env (nd_mgr n) (vr_ObjID result) = Inr True")
    case True
    then show ?thesis using 2 by simp
  next
    case False
    then obtain m gossip code err where com: "CommitObject env (w_now w) (nd_mgr n) obj result = Returns (m, gossip, code, err)"
      using 2(2) by (cases "CommitObject env (w_now w) (nd_mgr n) obj result") auto
    note m = commit_inv [OF 2(7,8,3,4,5,6) False com]
    let ?n = "after_commit w p result gossip code (upd_mgr m n)"
    have same: "waiting_total (upd_mgr m n) = waiting_total n" "waiting_total ?n = waiting_total n"
      by (rule waiting_same, simp add: m(2) after_commit_pending)+
    have k: "mgr_inv env (nd_mgr ?n)" by (rule keeps_inv [OF after_commit_keeps]) (simp add: m(1))
    show ?thesis
    proof (cases err)
      case (Some e)
      then show ?thesis using 2(2) False com same(1) by auto
    next
      case None
      then have "resolvePendingBlocks env w fuel p (vr_ObjID result) ?n = Returns n'"
        using 2(2) False com by simp
      from 2(1) [OF False _ this k 2(7,8)] None same(2) show ?thesis by simp
    qed
  qed
next
  case (3 env w fuel p oid n)
  obtain m bs where f: "FetchPendingBlocks (nd_mgr n) oid = (m, bs)" by fastforce
  note fi = FetchPendingBlocks_inv [OF 3(3) f]
  have "resolve_loop env w fuel p bs (upd_mgr m n) = Returns n'" using 3(2) f by simp
  then have "waiting_total n' \<le> waiting_total (upd_mgr m n) + length bs"
    using 3(1) [OF f [symmetric]] fi 3(4,5) by simp
  then show ?case using waiting_fetch [OF 3(3) f] by simp
next
  case (5 env w fuel p pending pendings n)
  obtain obj result where val: "ValidateObject env (unix w) (nd_mgr n) (BlockObj (pb_Block pending)) = Some (obj, result)"
    using 5(3) by (cases "ValidateObject env (unix w) (nd_mgr n) (BlockObj (pb_Block pending))") auto
  have oin: "object_in env (BlockObj (pb_Block pending))" using 5(5) by simp
  obtain n1 where n1: "(if vr_ErrorCode result = E_NONE \<and> vr_Error result = None then acceptObject env w fuel p obj result n
     else keep_waiting w p (block_or (pb_Block pending) obj) result n) = Returns n1"
    "resolve_loop env w fuel p pendings n1 = Returns n'"
    using 5(3) val by (auto simp: and_then_Returns)
  have k: "mgr_inv env (nd_mgr n1) \<and> waiting_total n1 \<le> Suc (waiting_total n)"
  proof (cases "vr_ErrorCode result = E_NONE \<and> vr_Error result = None")
    case True
    then have a: "acceptObject env w fuel p obj result n = Returns n1" using n1(1) by simp
    then show ?thesis
      using keeps_inv [OF accept_resolve_inv(1) [OF 5(6,7) a 5(4) oin val]] 5(1) [OF val refl True a 5(4) oin val] 5(6,7) True
      by simp
  next
    case False
    have a: "keep_waiting w p (block_or (pb_Block pending) obj) result n = Returns n1"
      using n1(1) by (simp only: if_not_P [OF False])
    show ?thesis
      using keep_waiting_total [OF a 5(4)] keeps_inv [OF keep_waiting_keeps [OF a 5(4) validated_block [OF val oin]]] by simp
  qed
  then have "waiting_total n' \<le> waiting_total n1 + length pendings"
    using 5(2) [OF val refl n1(2)] 5(5,6,7) by simp
  then show ?case using k by simp
qed simp_all

section \<open>No event loops\<close>

lemma and_then_Loops: "and_then x f = Loops \<longleftrightarrow> x = Loops \<or> (\<exists>y. x = Returns y \<and> f y = Loops)"
  by (cases x) auto

lemma keep_waiting_no_loop: "keep_waiting w p blk result n \<noteq> Loops"
  by (simp add: keep_waiting_def split: option.splits)

lemma validated_id:
  assumes h: "hash_ok env" and val: "ValidateObject env now m obj0 = Some (obj, result)"
    and obj0: "object_in env obj0" and ok: "vr_Error result = None"
  shows "HashID_ok (vr_ObjID result)"
  using HashObject_ok [OF h ValidateObject_facts(3) [OF val obj0 ok]] by blast

lemma accept_resolve_no_loop:
  assumes l: "ldb_ok env" and h: "hash_ok env"
  shows "\<And>obj0. waiting_total n < fuel \<Longrightarrow> mgr_inv env (nd_mgr n) \<Longrightarrow>
      object_in env obj0 \<Longrightarrow> ValidateObject env (unix w) (nd_mgr n) obj0 = Some (obj, result) \<Longrightarrow>
      vr_Error result = None \<Longrightarrow> acceptObject env w fuel p obj result n \<noteq> Loops"
    and "waiting_total n \<le> fuel \<Longrightarrow> mgr_inv env (nd_mgr n) \<Longrightarrow> resolvePendingBlocks env w fuel p oid n \<noteq> Loops"
    and "pendings \<noteq> [] \<longrightarrow> waiting_total n + length pendings \<le> fuel \<Longrightarrow> mgr_inv env (nd_mgr n) \<Longrightarrow>
      \<forall>b \<in> set pendings. object_in env (BlockObj (pb_Block b)) \<Longrightarrow> resolve_loop env w fuel p pendings n \<noteq> Loops"
  using l h
proof (induction env w fuel p obj result n and env w fuel p oid n and env w fuel p pendings n
    rule: acceptObject_resolvePendingBlocks_resolve_loop.induct)
  case (2 env w fuel p obj result n)
  show ?case
  proof (cases "ExistsObject env (nd_mgr n) (vr_ObjID result) = Inr True")
    case False
    have c: "CommitObject env (w_now w) (nd_mgr n) obj result \<noteq> Loops"
      by (rule CommitObject_no_loop [OF 2(7,8)])
        (use 2(3) validated_id [OF 2(8,5,4,6)] in \<open>simp_all add: mgr_inv_def\<close>)
    have "resolvePendingBlocks env w fuel p (vr_ObjID result) (after_commit w p result gossip code (upd_mgr m n)) \<noteq> Loops"
      if com: "CommitObject env (w_now w) (nd_mgr n) obj result = Returns (m, gossip, code, err)" and err: "err = None"
      for m gossip code err
    proof -
      note m = commit_inv [OF 2(7,8,3,4,5,6) False com]
      let ?n = "after_commit w p result gossip code (upd_mgr m n)"
      have "waiting_total ?n = waiting_total n"
        by (rule waiting_same) (simp add: m(2) after_commit_pending)
      moreover have "mgr_inv env (nd_mgr ?n)" by (rule keeps_inv [OF after_commit_keeps]) (simp add: m(1))
      ultimately show ?thesis using 2(1) [OF False _ _ _ 2(7,8)] 2(2) err by simp
    qed
    then show ?thesis using False c by (auto simp: and_then_Loops split: if_splits)
  qed simp
next
  case (3 env w fuel p oid n)
  obtain m bs where f: "FetchPendingBlocks (nd_mgr n) oid = (m, bs)" by fastforce
  note fi = FetchPendingBlocks_inv [OF 3(3) f]
  have "waiting_total (upd_mgr m n) + length bs \<le> fuel" using waiting_fetch [OF 3(3) f] 3(2) by simp
  then have "resolve_loop env w fuel p bs (upd_mgr m n) \<noteq> Loops"
    using 3(1) [OF f [symmetric]] fi 3(4,5) by simp
  then show ?case using f by simp
next
  case (5 env w fuel p pending pendings n)
  have oin: "object_in env (BlockObj (pb_Block pending))" using 5(5) by simp
  have fuel: "waiting_total n + Suc (length pendings) \<le> fuel" using 5(3) by simp
  show ?case
  proof (cases "ValidateObject env (unix w) (nd_mgr n) (BlockObj (pb_Block pending))")
    case (Some or)
    obtain obj result where val: "ValidateObject env (unix w) (nd_mgr n) (BlockObj (pb_Block pending)) = Some (obj, result)"
      using Some by (cases or) simp
    let ?ok = "vr_ErrorCode result = E_NONE \<and> vr_Error result = None"
    let ?first = "if ?ok then acceptObject env w fuel p obj result n
       else keep_waiting w p (block_or (pb_Block pending) obj) result n"
    have "?first \<noteq> Loops"
    proof (cases ?ok)
      case True
      then have "acceptObject env w fuel p obj result n \<noteq> Loops"
        using 5(1) [OF val refl True _ 5(4) oin val] fuel 5(6,7) by simp
      then show ?thesis using True by simp
    next
      case False
      show ?thesis unfolding if_not_P [OF False] by (rule keep_waiting_no_loop)
    qed
    moreover have "resolve_loop env w fuel p pendings n1 \<noteq> Loops" if n1: "?first = Returns n1" for n1
    proof -
      have "mgr_inv env (nd_mgr n1) \<and> waiting_total n1 \<le> Suc (waiting_total n)"
      proof (cases ?ok)
        case True
        then have a: "acceptObject env w fuel p obj result n = Returns n1" using n1 by simp
        have e: "vr_Error result = None" using True by simp
        show ?thesis
          using keeps_inv [OF accept_resolve_inv(1) [OF 5(6,7) a 5(4) oin val e]]
            accept_resolve_total(1) [OF 5(6,7) a 5(4) oin val e] by simp
      next
        case False
        have a: "keep_waiting w p (block_or (pb_Block pending) obj) result n = Returns n1"
          using n1 by (simp only: if_not_P [OF False])
        show ?thesis
          using keep_waiting_total [OF a 5(4)] keeps_inv [OF keep_waiting_keeps [OF a 5(4) validated_block [OF val oin]]] by simp
      qed
      then show ?thesis using 5(2) [OF val refl] fuel 5(5,6,7) by simp
    qed
    ultimately show ?thesis using val by (auto simp: and_then_Loops)
  qed simp
qed simp_all

text \<open>So no event makes the node loop.\<close>

lemma handleObject_no_loop:
  assumes "ldb_ok env" "hash_ok env" "node_inv env n" "object_in env obj0"
  shows "handleObject env w p (Some obj0) n \<noteq> Loops"
proof (cases "ValidateObject env (unix w) (nd_mgr n) obj0")
  case (Some or)
  obtain obj result where val: "ValidateObject env (unix w) (nd_mgr n) obj0 = Some (obj, result)"
    using Some by (cases or) simp
  have "acceptObject env w (Suc (waiting_total n)) p obj result n \<noteq> Loops" if "vr_Error result = None"
    by (rule accept_resolve_no_loop(1) [OF assms(1,2) _ node_invD(1) [OF assms(3)] assms(4) val that]) simp
  then show ?thesis
    using val by (simp add: handleObject_def rejectObject_def Let_def split: option.splits)
qed (simp add: handleObject_def)

lemma handleMessage_no_loop:
  assumes "ldb_ok env" "hash_ok env" "node_inv env n"
  shows "handleMessage env w p raw n \<noteq> Loops"
proof -
  have "dispatch env w p msg n \<noteq> Loops" if m: "UnmarshalMessage raw = Some msg0" "log_detail env msg0 = Some msg" for msg0 msg
  proof (cases msg)
    case (ObjectMsg t raw' obj)
    then obtain obj0 where obj0: "msg0 = ObjectMsg t raw' (Some obj0)" "obj = Some (fst (GetObjectID env obj0))"
      using m(2) by (auto simp: log_detail_def split: Message.splits option.splits)
    then obtain obj1 where "Some obj0 = Some obj1" "received_ok obj1"
      using UnmarshalMessage_object m(1) by metis
    then show ?thesis
      using ObjectMsg obj0 handleObject_no_loop [OF assms received_object_in] by auto
  qed (simp_all add: handleHello_def Let_def)
  then show ?thesis by (auto simp: handleMessage_def Let_def split: option.splits)
qed

theorem handle_event_no_loop:
  assumes "ldb_ok env" "hash_ok env" "node_inv env n"
  shows "handle_event env w e n \<noteq> Loops"
  by (cases e) (auto simp: initializeSocket_def handleMessage_no_loop [OF assms] split: option.splits)

end
