(* ===== verification/NodeRules.thy ===== *)
theory NodeRules
  imports Progress
begin

text \<open>
  What single events do to the node: the gate of the handshake, a ban for a bad proof of work, the
  answer to a request for an object, the gossip, a block that has to wait. The last section is about
  a node that starts on an empty store.
\<close>

section \<open>Received text\<close>

text \<open>A text that decodes is not only white space: it has an opening brace.\<close>

lemma brace_not_space: "r \<in> set space_runes \<Longrightarrow> CHR ''{'' \<notin> set r"
proof -
  have "list_all (\<lambda>r. CHR ''{'' \<notin> set r) space_runes" by code_simp
  then show "r \<in> set space_runes \<Longrightarrow> CHR ''{'' \<notin> set r" by (simp add: list_all_iff)
qed

lemma trim_left_keeps: "CHR ''{'' \<in> set s \<Longrightarrow> CHR ''{'' \<in> set (trim_left s)"
proof (induction s rule: trim_left.induct)
  case (1 s)
  show ?case
  proof (cases "find (\<lambda>r. take (length r) s = r) space_runes")
    case (Some r)
    then have r: "r \<in> set space_runes" "take (length r) s = r" by (auto simp: find_Some_iff)
    have "set s = set r \<union> set (drop (length r) s)" 
      using r(2) by (metis append_take_drop_id set_append)
    then have d: "CHR ''{'' \<in> set (drop (length r) s)" using 1(2) brace_not_space [OF r(1)] by blast
    show ?thesis
      using 1(1) [OF Some _ d] 1(2) Some by (subst trim_left.simps) auto
  qed (subst trim_left.simps, simp add: 1)
qed

lemma trim_right_keeps: "CHR ''{'' \<in> set s \<Longrightarrow> CHR ''{'' \<in> set (trim_right s)"
proof (induction s rule: trim_right.induct)
  case (1 s)
  show ?case
  proof (cases "find (\<lambda>r. drop (length s - length r) s = r) space_runes")
    case (Some r)
    then have r: "r \<in> set space_runes" "drop (length s - length r) s = r" by (auto simp: find_Some_iff)
    have "set s = set (take (length s - length r) s) \<union> set r" 
      using r(2) by (metis append_take_drop_id set_append)
    then have d: "CHR ''{'' \<in> set (take (length s - length r) s)" using 1(2) brace_not_space [OF r(1)] by blast
    show ?thesis
      using 1(1) [OF Some _ d] 1(2) Some by (subst trim_right.simps) auto
  qed (subst trim_right.simps, simp add: 1)
qed

lemma parse_brace:
  assumes "parse_value (Suc n) s = Some (JObj kvs, r)"
  shows "CHR ''{'' \<in> set s"
proof (cases "skip_ws s")
  case (Cons c cs)
  then have "c \<in> set s" unfolding skip_ws_def by (metis list.set_intros(1) set_dropWhileD)
  moreover have "c = CHR ''{''"
    using assms Cons by (auto simp: parse_word_def parse_number_def Let_def split: if_splits list.splits option.splits)
  ultimately show ?thesis by simp
qed (use assms in simp)

lemma as_interface_obj: "as_interface j = Some (JObj kvs) \<Longrightarrow> \<exists>kvs. j = JObj kvs"
  by (cases j) auto

lemma received_nonempty:
  assumes "UnmarshalMessage raw = Some msg"
  shows "TrimSpace raw \<noteq> []"
proof -
  obtain j probe kvs where "parse_json raw = Some j" "as_interface j = Some probe" "probe = JObj kvs"
    using assms by (auto simp: UnmarshalMessage_def bind_eq_Some_conv split: if_splits json.splits)
  then obtain kvs r where "parse_value (2 * length raw + 2) raw = Some (JObj kvs, r)"
    using as_interface_obj by (fastforce simp: parse_json_def split: option.splits if_splits)
  then have "CHR ''{'' \<in> set raw" using parse_brace [of "2 * length raw + 1"] by simp
  then have "CHR ''{'' \<in> set (TrimSpace raw)"
    unfolding TrimSpace_def by (intro trim_right_keeps trim_left_keeps)
  then show ?thesis by auto
qed

section \<open>Connections\<close>

lemma Disconnect_closes:
  assumes "net_inv nt" "served nt p"
  shows "\<not> (\<exists>a. gm_get (cm_peers (net_cm (Disconnect p nt))) a = Some p)"
    and "IsBanned (net_cm (Disconnect p nt)) t = IsBanned (net_cm nt) t"
proof -
  have "(\<forall>a q. gm_get (cm_peers (net_cm (Disconnect p nt))) a = Some q \<longleftrightarrow>
       gm_get (cm_peers (net_cm nt)) a = Some q \<and> q \<noteq> p) \<and>
     cm_bannedPeers (net_cm (Disconnect p nt)) = cm_bannedPeers (net_cm nt)"
    using fold_Disconnect [OF assms(1), of "[p]"] assms(2) by simp
  then show "\<not> (\<exists>a. gm_get (cm_peers (net_cm (Disconnect p nt))) a = Some p)"
    "IsBanned (net_cm (Disconnect p nt)) t = IsBanned (net_cm nt) t"
    by (auto simp: IsBanned_def)
qed

lemma GetAll_iff:
  "net_inv nt \<Longrightarrow> q \<in> set (GetAll nt) \<longleftrightarrow> (\<exists>a. gm_get (cm_peers (net_cm nt)) a = Some q)"
  using table_okD(1) [of nt] by (force simp: net_inv_def GetAll_def gm_get_wf)

lemma GetAll_distinct:
  assumes "net_inv nt"
  shows "distinct (GetAll nt)"
proof -
  let ?m = "cm_peers (net_cm nt)"
  have t: "table_ok nt" and wf: "gm_wf ?m" using assms table_okD(1) by (auto simp: net_inv_def)
  have "inj_on snd (set ?m)"
  proof (rule inj_onI)
    fix x y assume xy: "x \<in> set ?m" "y \<in> set ?m" "snd x = snd y"
    have "gm_get ?m (fst x) = Some (snd x)" "gm_get ?m (fst y) = Some (snd y)"
      using xy(1,2) wf by (simp_all add: gm_get_wf)
    then show "x = y" using xy(3) table_okD(2) [OF t] by (metis prod_eqI)
  qed
  moreover have "distinct ?m" using wf by (simp add: gm_wf_def distinct_map)
  ultimately show ?thesis by (simp add: GetAll_def distinct_map)
qed

lemma SendMessage_to:
  "wrote n (fst (SendMessage w p msg n))"
  "nd_out (fst (SendMessage w p msg n)) = nd_out n \<or>
     (\<exists>text. msg = Some text \<and> nd_out (fst (SendMessage w p msg n)) = nd_out n @ [(p, text)])"
  by (rule SendMessage_wrote) (auto simp: SendMessage_def split: option.splits)

lemma SendMessage_open:
  "w_writes w p \<Longrightarrow> \<not> p_connClosed (peer_of n p) \<Longrightarrow>
     fst (SendMessage w p (Some text) n) = n\<lparr>nd_out := nd_out n @ [(p, text)]\<rparr>"
  by (simp add: SendMessage_def)


section \<open>The handshake\<close>

lemma log_detail_Some:
  "UnmarshalMessage raw = Some msg \<Longrightarrow> \<exists>msg'. log_detail env msg = Some msg' \<and>
     Message_MessageType msg' = Message_MessageType msg"
  by (cases msg) (auto simp: log_detail_def elim!: UnmarshalMessage_object)

lemma SendError_to:
  obtains ms where "SendError w p c s n = n\<lparr>nd_out := nd_out n @ ms\<rparr>"
    "ms = [] \<or> (\<exists>text. MakeError c s = Some text \<and> ms = [(p, text)])"
proof (cases "MakeError c s")
  case None
  then show thesis using that [of "[]"] by (simp add: SendError_def SendMessage_def)
next
  case (Some raw)
  then show thesis using that [of "[]"] that [of "[(p, raw)]"]
    by (cases "w_writes w p \<and> \<not> p_connClosed (peer_of n p)") (auto simp: SendError_def SendMessage_def)
qed

text \<open>Anything but a hello ends a connection without handshake, with at most an error sent before.\<close>

lemma handleMessage_no_hello:
  assumes "\<not> p_handshakeComplete (peer_of n p)" "TrimSpace raw \<noteq> []"
    and "\<And>msg. UnmarshalMessage raw = Some msg \<Longrightarrow> Message_MessageType msg \<noteq> MSG_HELLO"
  obtains ms where "handleMessage env w p raw n = Returns (upd_net (Disconnect p) (n\<lparr>nd_out := nd_out n @ ms\<rparr>))"
    "ms = [] \<or> (\<exists>c s text. MakeError c s = Some text \<and> ms = [(p, text)])"
proof (cases "UnmarshalMessage raw")
  case None
  obtain ms where "SendError w p E_INVALID_FORMAT (''Could not validate JSON message: '' @ w_text w JsonError) n =
      n\<lparr>nd_out := nd_out n @ ms\<rparr>" "ms = [] \<or> (\<exists>c s text. MakeError c s = Some text \<and> ms = [(p, text)])"
    by (metis SendError_to)
  moreover have "peer_of (n\<lparr>nd_out := nd_out n @ ms\<rparr>) = peer_of n" by (auto simp: peer_of_def)
  ultimately show thesis using that [of ms] assms(1,2) None by (simp add: handleMessage_def)
next
  case (Some msg)
  then obtain msg' where m: "log_detail env msg = Some msg'" "Message_MessageType msg' \<noteq> MSG_HELLO"
    using log_detail_Some assms(3) by metis
  obtain ms where "SendError w p E_INVALID_HANDSHAKE
      (''Handshake not completed, expected hello message but received '' @ MessageType_str (Message_MessageType msg')) n =
      n\<lparr>nd_out := nd_out n @ ms\<rparr>" "ms = [] \<or> (\<exists>c s text. MakeError c s = Some text \<and> ms = [(p, text)])"
    by (metis SendError_to)
  then show thesis using that [of ms] assms(1,2) Some m by (simp add: handleMessage_def)
qed

section \<open>Objects\<close>

lemma handleMessage_object:
  assumes "p_handshakeComplete (peer_of n p)"
    "UnmarshalMessage raw = Some (ObjectMsg t r (Some obj))"
  shows "handleMessage env w p raw n = handleObject env w p (Some (fst (GetObjectID env obj))) n"
  using assms received_nonempty [OF assms(2)] by (simp add: handleMessage_def log_detail_def)

text \<open>A block without proof of work: its sender is banned and may not come back.\<close>

text \<open>
  The test of the proof of work comes after the one of the timestamp and before all that depends on
  the store: a block from the future gets the other error and its sender is not banned.
\<close>

lemma ValidateObject_no_pow:
  assumes "blk_Created blk \<le> now" "snd (GetObjectID env (BlockObj blk)) = Inr blockid" "VerifyPoW blockid = Inr False"
  obtains obj result where "ValidateObject env now m (fst (GetObjectID env (BlockObj blk))) = Some (obj, result)"
    "vr_ErrorCode result = E_INVALID_BLOCK_POW"
proof -
  obtain b where b: "fst (GetObjectID env (BlockObj blk)) = BlockObj b" "blk_Created b = blk_Created blk"
      "blk_CachedID b = Some blockid"
    using assms(2) by (auto simp: GetObjectID_def split: option.splits sum.splits)
  then have "GetObjectID env (BlockObj b) = (BlockObj b, Inr blockid)" by (simp add: GetObjectID_def)
  then show thesis
    using b(1,2) assms(1,3) that
    by (simp add: ValidateObject_def ValidateBlock_def Let_def reject_def zero_result_def)
qed

lemma handleObject_pow:
  assumes inv: "net_inv (nd_net n)" and p: "served (nd_net n) p"
    and "ValidateObject env (unix w) (nd_mgr n) obj0 = Some (obj, result)" "vr_ErrorCode result = E_INVALID_BLOCK_POW"
  obtains n' where "handleObject env w p (Some obj0) n = Returns n'" "nd_mgr n' = nd_mgr n" "nd_disc n' = nd_disc n"
    "IsBanned (net_cm (nd_net n')) (p_host (peer_of n p))" "p \<notin> set (GetAll (nd_net n'))"
proof -
  let ?h = "p_host (peer_of n p)"
  let ?n = "upd_net (Disconnect p) (upd_net (BanPeer ?h)
    (SendError w p E_INVALID_BLOCK_POW ''Invalid proof of work. You have been banned.'' n))"
  have ban: "net_inv (BanPeer ?h (nd_net n))" "IsBanned (net_cm (BanPeer ?h (nd_net n))) ?h"
    "served (BanPeer ?h (nd_net n)) p"
    using BanPeer_effect(1,2) [OF inv] BanPeer_effect(3) [OF inv p] by auto
  have "p \<notin> set (GetAll (nd_net ?n))"
    using Disconnect_closes(1) [OF ban(1,3)] GetAll_iff [OF Disconnect_inv [OF ban(1,3)]] by simp
  moreover have "handleObject env w p (Some obj0) n = Returns ?n"
    using assms(3,4) by (simp add: handleObject_def Let_def)
  ultimately show thesis
    using that [of ?n] ban(2) Disconnect_closes(2) [OF ban(1,3)] by simp
qed

lemma StartServer_banned: "IsBanned (net_cm (nd_net n)) (host_of addr) \<Longrightarrow> StartServer w addr n = n"
  by (simp add: StartServer_def)

text \<open>A block that misses an object waits for it, and the sender is asked for the object.\<close>

lemma handleObject_waits:
  assumes "ValidateObject env (unix w) (nd_mgr n) obj0 = Some (BlockObj blk, result)"
    and "vr_ErrorCode result = E_UNKNOWN_OBJECT" "vr_Error result \<noteq> None" "vr_MissingID result \<noteq> DUMMY_HASH"
    and "w_writes w p" "\<not> p_connClosed (peer_of n p)" "MakeGetObject (vr_MissingID result) = Some text"
  obtains n' where "handleObject env w p (Some obj0) n = Returns n'" "nd_net n' = nd_net n"
    "nd_out n' = nd_out n @ [(p, text)]"
    "gm_get (db_pendingBlocks (m_db (nd_mgr n'))) (vr_MissingID result) =
       Some ((case gm_get (db_pendingBlocks (m_db (nd_mgr n))) (vr_MissingID result) of None \<Rightarrow> [] | Some bs \<Rightarrow> bs) @
         [\<lparr>pb_Block = blk, pb_Timestamp = w_now w, pb_Peer = p_addr (peer_of n p)\<rparr>])"
proof -
  let ?n = "upd_mgr (AddPendingBlock (w_now w) (ResetSyncTimer (w_now w) (nd_mgr n)) (p_addr (peer_of n p))
    (vr_MissingID result) blk) (upd_mgr (ResetSyncTimer (w_now w) (nd_mgr n)) n)"
  have not_pow: "vr_ErrorCode result \<noteq> E_INVALID_BLOCK_POW" using assms(2) by simp
  have same: "peer_of (upd_mgr m n) = peer_of n" for m by (simp add: peer_of_def fun_eq_iff)
  have "peer_of ?n p = peer_of n p" by (simp add: peer_of_def)
  then have "SendGetObject w p (vr_MissingID result) ?n = ?n\<lparr>nd_out := nd_out n @ [(p, text)]\<rparr>"
    using assms(5-7) by (simp add: SendGetObject_def SendMessage_open)
  then have r: "handleObject env w p (Some obj0) n = Returns (?n\<lparr>nd_out := nd_out n @ [(p, text)]\<rparr>)"
    using assms(1-4) not_pow by (simp add: handleObject_def rejectObject_def Let_def same)
  show thesis
    by (rule that [OF r]) (simp_all add: AddPendingBlock_def addPendingBlock_def ResetSyncTimer_def Let_def)
qed


text \<open>An object that the store has is not committed again.\<close>

lemma handleObject_known:
  assumes "ValidateObject env (unix w) (nd_mgr n) obj0 = Some (obj, result)" "vr_Error result = None"
    and "vr_ErrorCode result = E_NONE" "ExistsObject env (nd_mgr n) (vr_ObjID result) = Inr True"
  shows "handleObject env w p (Some obj0) n = Returns n"
  using assms by (simp add: handleObject_def)

text \<open>The answer to a request.\<close>

lemma handleMessage_getobject:
  assumes "p_handshakeComplete (peer_of n p)"
    "UnmarshalMessage raw = Some (GetObjectMsg t oid)"
  shows "handleMessage env w p raw n = Returns (handleGetObject env w p oid n)"
  using assms received_nonempty [OF assms(2)] by (simp add: handleMessage_def log_detail_def)

lemma handleGetObject_found:
  assumes "GetObject env (nd_mgr n) oid = Inr obj" "sendable obj"
    and "w_writes w p" "\<not> p_connClosed (peer_of n p)"
  obtains reply where "handleGetObject env w p oid n = n\<lparr>nd_out := nd_out n @ [(p, reply)]\<rparr>"
    "UnmarshalMessage reply = Some (ObjectMsg MSG_OBJECT (Some (sort_members (Object_json obj))) (Some (uncached obj)))"
proof -
  obtain reply where "MakeObject obj = Some reply" using MakeObject_total [OF assms(2)] by auto
  then show thesis using that [of reply] assms object_roundtrip [OF assms(2)]
    by (simp add: handleGetObject_def SendObject_def SendMessage_open)
qed

lemma MakeGetObject_reads:
  assumes "HashID_ok h"
  obtains reply where "MakeGetObject h = Some reply" "UnmarshalMessage reply = Some (GetObjectMsg MSG_GETOBJECT h)"
proof -
  have "Message_ok (GetObjectMsg MSG_GETOBJECT h)" using assms by simp
  from message_roundtrip [OF this] show thesis
    using that by (auto simp: MakeGetObject_def CanonicalizeMessage_def Canonicalize_exact)
qed

text \<open>The gossip of an accepted object: every open connection gets the ID once.\<close>

lemma gossip_all:
  assumes "net_inv (nd_net n)" "HashID_ok h" "\<And>p. w_writes w p"
    and "\<And>p. p \<in> set (GetAll (nd_net n)) \<Longrightarrow> \<not> p_connClosed (peer_of n p)"
  obtains reply where "nd_out (BroadcastIHaveObject w h n) = nd_out n @ map (\<lambda>p. (p, reply)) (GetAll (nd_net n))"
    "distinct (GetAll (nd_net n))" "UnmarshalMessage reply = Some (IHaveObjectMsg MSG_IHAVEOBJECT h)"
proof -
  have "Message_ok (IHaveObjectMsg MSG_IHAVEOBJECT h)" using assms(2) by simp
  obtain reply where t: "MakeIHaveObject h = Some reply" "UnmarshalMessage reply = Some (IHaveObjectMsg MSG_IHAVEOBJECT h)"
    using message_roundtrip [OF \<open>Message_ok _\<close>]
    by (auto simp: MakeIHaveObject_def CanonicalizeMessage_def Canonicalize_exact)
  then show thesis
    using that [of reply] Broadcast_all [OF assms(3,4), of reply] GetAll_distinct [OF assms(1)]
    by (simp add: BroadcastIHaveObject_def)
qed

section \<open>A node that starts on an empty store\<close>

lemma fresh_reachable_inv:
  assumes "ldb_ok env" "hash_ok env" "\<And>k. ldb_get env d k = Inl LdbNotFound"
    and "NewManager (Some d) config = Some m" "node_reachable env (start_node m known) n"
  shows "node_inv env n"
  using assms by (intro node_reachable_inv [OF assms(1,2,5)] start_node_inv NewManager_inv)

lemma tip_supply:
  assumes "node_inv env n" "GetChaintip env (nd_mgr n) = Inr (tip, h)"
  obtains u where "GetUTXO env (nd_mgr n) tip = Inr u" "us_Height u = h" "utxos_ok (us_UTXOs u)"
    "utxo_total (us_UTXOs u) \<le> (uint h + 1) * BlockRewardBigInt"
proof -
  have c: "chain_inv env (m_db (nd_mgr n))" using assms(1) by (simp add: node_inv_def mgr_inv_def)
  have "getChaintip env (m_db (nd_mgr n)) = Inr (tip, h)" using assms(2) by (simp add: GetChaintip_Inr)
  then obtain u where u: "HashID_ok tip" "getUTXO env (m_db (nd_mgr n)) tip = Inr u" "us_Height u = h"
    using chain_invD(3) [OF c] by blast
  then have "entry_ok env (m_db (nd_mgr n)) tip u" using chain_invD(2) [OF c] by blast
  then show thesis using that [of u] u by (auto simp: entry_ok_def GetUTXO_Inr)
qed

end
