(* ===== verification/NodeSample.thy ===== *)
theory NodeSample
  imports Sample NodeRules
begin

text \<open>A concrete node with one connection, on which the theorems about the node are applied.\<close>

definition world0 :: world where
  "world0 = \<lparr>w_now = t0 * 10 ^ 9, w_created = True, w_writes = (\<lambda>_. True), w_dial = (\<lambda>a. Some a),
     w_text = (\<lambda>_. ''error'')\<rparr>"

lemma world0_simps [simp]: "w_writes world0 p" "w_dial world0 a = Some a" "unix world0 = t0"
  "w_created world0"
  by (simp_all add: world0_def unix_def)

text \<open>One inbound connection, before and after its hello.\<close>

definition peer0 :: PeerState where
  "peer0 = \<lparr>p_agent = [], p_addr = ''5.6.7.8:18018'', p_host = ''5.6.7.8'', p_ID = 1, p_handshakeComplete = False,
     p_done = False, p_origin = Inbound, p_isPersistent = False, p_sentChainTip = False, p_connClosed = False\<rparr>"

definition node0 :: "(bytes, bytes) gomap node" where
  "node0 = StartServer world0 ''5.6.7.8:18018'' (start_node manager0 sample_discovery)"

definition node1 :: "(bytes, bytes) gomap node" where
  "node1 = upd_mgr manager1 (upd_net (upd_peer 0 (\<lambda>s. s\<lparr>p_handshakeComplete := True, p_agent := ''agent''\<rparr>)) node0)"

lemma manager0_mgr_inv: "mgr_inv mem_env manager0" and manager1_mgr_inv: "mgr_inv mem_env manager1"
proof -
  have "pending_ok mem_env (m_db manager0)" "pending_ok mem_env (m_db manager1)"
    by (simp_all add: pending_ok_def newDatabase_def manager1_def)
  moreover have b0: "backing_inv mem_env (m_db manager0)"
    by (rule backing_empty) (simp add: newDatabase_def)
  moreover have "backing_inv mem_env (m_db manager1)"
    by (rule CommitObject_backing [OF mem_ldb_ok(1) mem_hash_ok manager0_inv(1) b0 genesis_in sample_validate _ _ sample_commit])
      (simp_all add: genesis_result_def zero_result_def newDatabase_def)
  ultimately show "mgr_inv mem_env manager0" "mgr_inv mem_env manager1"
    using manager0_inv manager1_inv by (simp_all add: mgr_inv_def)
qed

lemma host0: "host_of ''5.6.7.8:18018'' = ''5.6.7.8''"
  by code_simp

lemma node0_net:
  "nd_net node0 = \<lparr>net_heap = [peer0], net_cm = NewConnectionManager\<lparr>cm_peers := [(''5.6.7.8:18018'', 0)],
     cm_peerCounter := 1, cm_inboundCount := 1\<rparr>\<rparr>"
  "nd_mgr node0 = manager0" "nd_disc node0 = sample_discovery"
  by (simp_all add: node0_def StartServer_def start_node_def empty_net_def NewConnectionManager_def IsBanned_def host0
      NewPeer_def Add_def Let_def upd_peer_def peer0_def gm_get_def gm_set_def gm_del_def gm_has_def)

lemma node0_inv: "node_inv mem_env node0"
  unfolding node0_def by (intro StartServer_node start_node_inv manager0_mgr_inv)

lemma node1_inv: "node_inv mem_env node1"
  unfolding node1_def by (intro upd_mgr_node upd_peer_node node0_inv manager1_mgr_inv) (simp add: table_frame_def)

lemma node_peers:
  "served (nd_net node0) 0" "peer_of node0 0 = peer0" "served (nd_net node1) 0"
  "peer_of node1 0 = peer0\<lparr>p_handshakeComplete := True, p_agent := ''agent''\<rparr>" "nd_mgr node1 = manager1"
  by (simp_all add: node1_def served_def node0_net peer_of_def upd_peer_def peer0_def gm_get_def)

text \<open>Two received texts.\<close>

definition getpeers_text :: string where
  "getpeers_text = ''{'' @ [CHR 0x22] @ ''type'' @ [CHR 0x22] @ '':'' @ [CHR 0x22] @ ''getpeers'' @ [CHR 0x22] @ ''}''"

definition hello_text :: string where
  "hello_text = ''{'' @ [CHR 0x22] @ ''type'' @ [CHR 0x22] @ '':'' @ [CHR 0x22] @ ''hello'' @ [CHR 0x22] @ '','' @
     [CHR 0x22] @ ''version'' @ [CHR 0x22] @ '':'' @ [CHR 0x22] @ ''0.10.0'' @ [CHR 0x22] @ ''}''"

lemma received_texts:
  "TrimSpace getpeers_text \<noteq> []" "TrimSpace hello_text \<noteq> []"
  "UnmarshalMessage getpeers_text = Some (GetPeersMsg MSG_GETPEERS)"
  "UnmarshalMessage hello_text = Some (HelloMsg MSG_HELLO ''0.10.0'' None)"
  by code_simp+


section \<open>Two events\<close>

text \<open>A hello with an agent, then the genesis block.\<close>

definition hello1_text :: string where
  "hello1_text = butlast hello_text @ '','' @ [CHR 0x22] @ ''agent'' @ [CHR 0x22] @ '':'' @ [CHR 0x22] @ ''bob'' @
     [CHR 0x22] @ ''}''"

lemma hello1_received:
  "TrimSpace hello1_text \<noteq> []" "UnmarshalMessage hello1_text = Some (HelloMsg MSG_HELLO ''0.10.0'' (Some ''bob''))"
  by code_simp+

definition node2 :: "(bytes, bytes) gomap node" where
  "node2 = upd_disc (UpdatePeer True t0 ''5.6.7.8:18018'' ''bob'')
     (upd_net (upd_peer 0 (\<lambda>s. s\<lparr>p_handshakeComplete := True, p_agent := ''bob''\<rparr>)) node0)"

lemma hello_event: "handle_event mem_env world0 (SocketEvent 0 (Some hello1_text)) node0 = Returns node2"
  using node_peers(1,2) hello1_received
  by (simp add: initializeSocket_def handleMessage_def log_detail_def handleHello_def Let_def node2_def peer0_def
      IsBanned_def node0_net NewConnectionManager_def gm_get_def)

definition genesis_text :: string where
  "genesis_text = the (MakeObject (BlockObj genesis))"

lemma genesis_sendable: "sendable (BlockObj genesis)"
  using sample_objects(1,5) by (simp add: genesis_def)

lemma genesis_received:
  "UnmarshalMessage genesis_text =
     Some (ObjectMsg MSG_OBJECT (Some (sort_members (Block_json genesis))) (Some (BlockObj genesis)))"
proof -
  have "MakeObject (BlockObj genesis) \<noteq> None" using genesis_sendable by (rule MakeObject_total)
  then have "MakeObject (BlockObj genesis) = Some genesis_text" by (auto simp: genesis_text_def)
  then show u: "UnmarshalMessage genesis_text =
     Some (ObjectMsg MSG_OBJECT (Some (sort_members (Block_json genesis))) (Some (BlockObj genesis)))"
    using object_roundtrip [OF genesis_sendable] by simp
qed

lemma cached_genesis:
  "GetObjectID mem_env (BlockObj genesis) = (genesis_object, Inr genesisHash)"
  "ValidateObject mem_env t0 manager0 genesis_object = Some (genesis_object, genesis_result)"
proof -
  show g: "GetObjectID mem_env (BlockObj genesis) = (genesis_object, Inr genesisHash)"
    using sample_ids(1) by (simp add: GetObjectID_def genesis_object_def)
  have "GetObjectID mem_env genesis_object = (genesis_object, Inr genesisHash)"
    by (simp add: GetObjectID_def genesis_object_def)
  with g show "ValidateObject mem_env t0 manager0 genesis_object = Some (genesis_object, genesis_result)"
    using sample_validate by (simp add: ValidateObject_def)
qed


lemma node2_parts:
  "nd_mgr node2 = manager0" "served (nd_net node2) 0" "p_handshakeComplete (peer_of node2 0)"
  "net_inv (nd_net node2)" "\<not> p_connClosed (peer_of node2 0)"
  using node_peers(1) node_invD(2) [OF handle_event_node [OF mem_ldb_ok(1) mem_hash_ok hello_event node0_inv]]
  by (simp_all add: node2_def node0_net served_def peer_of_def heap_upd_peer peer0_def)

lemma genesis_event:
  obtains n where "handle_event mem_env world0 (SocketEvent 0 (Some genesis_text)) node2 = Returns n"
    "m_db (nd_mgr n) = m_db manager1"
proof -
  let ?n = "after_commit world0 0 genesis_result True E_NONE (upd_mgr manager1 node2)"
  have p: "db_pendingBlocks (m_db manager1) = []" "db_pendingBlocks (m_db manager0) = []"
    by (simp_all add: manager1_def newDatabase_def)
  have m: "m_db (nd_mgr ?n) = m_db manager1"
    using wrote_same(1) [OF Broadcasts_wrote(1) [where n = "upd_mgr manager1 node2"]] by (simp add: after_commit_def Let_def ResetSyncTimer_def)
  have e: "m_db manager1\<lparr>db_pendingBlocks := []\<rparr> = m_db manager1"
    by (simp add: manager1_def newDatabase_def)
  have f: "FetchPendingBlocks (nd_mgr ?n) genesisHash = (upd_db (m_db manager1) (nd_mgr ?n), [])"
    by (simp add: FetchPendingBlocks_def fetchAndClearPendingBlocks_def m p e gm_get_def gm_del_def)
  have "handle_event mem_env world0 (SocketEvent 0 (Some genesis_text)) node2 =
      handleObject mem_env world0 0 (Some genesis_object) node2"
    using node2_parts(2,3) genesis_received handleMessage_object [OF node2_parts(3)]
    by (simp add: initializeSocket_def cached_genesis(1))
  moreover have "handleObject mem_env world0 0 (Some genesis_object) node2 = Returns (upd_mgr (upd_db (m_db manager1) (nd_mgr ?n)) ?n)"
    using f by (simp add: handleObject_def cached_genesis(2) node2_parts(1) genesis_result_def zero_result_def
        ExistsObject_def existsObject_def newDatabase_def waiting_total_def p sample_commit [unfolded genesis_result_def zero_result_def, simplified])
  ultimately show thesis using that by simp
qed

text \<open>After both events the genesis block is the tip.\<close>

lemma genesis_reached:
  obtains n where "node_reachable mem_env (start_node manager0 sample_discovery) n"
    "GetChaintip mem_env (nd_mgr n) = Inr (genesisHash, 0)"
proof -
  obtain n where n: "handle_event mem_env world0 (SocketEvent 0 (Some genesis_text)) node2 = Returns n"
    "m_db (nd_mgr n) = m_db manager1" using genesis_event .
  have "handle_event mem_env world0 (Incoming ''5.6.7.8:18018'') (start_node manager0 sample_discovery) = Returns node0"
    by (simp add: node0_def)
  then have "node_reachable mem_env (start_node manager0 sample_discovery) n"
    by (meson node_reachable.intros hello_event n(1))
  then show thesis using that [of n] manager1_reads(3) by (simp add: GetChaintip_Inr n(2))
qed


text \<open>A hash under which no block has proof of work.\<close>

definition bad_env :: "(bytes, bytes) gomap env" where
  "bad_env = mem_env\<lparr>blake2s := (\<lambda>_. Some (replicate 32 CHR 0xFF))\<rparr>"

lemma bad_id: "hex_EncodeToString (replicate 32 CHR 0xFF) = replicate 64 CHR ''f''" "VerifyPoW (replicate 64 CHR ''f'') = Inr False"
  by code_simp+

lemma bad_genesis: "snd (GetObjectID bad_env (BlockObj genesis)) = Inr (replicate 64 CHR ''f'')"
proof -
  have "exact_json (Block_json genesis)"
    using sample_objects(5) exact_Object_json [of "BlockObj genesis"] by simp
  then have "HashObject bad_env (BlockObj genesis) = Inr (replicate 64 CHR ''f'')"
    by (simp add: HashObject_def Canonicalize_exact HashString_def Hash_def bad_env_def bad_id)
  then show ?thesis by (simp add: GetObjectID_def)
qed

text \<open>A block whose parent is missing.\<close>

definition block1_text :: string where
  "block1_text = the (MakeObject (BlockObj block1))"

lemma block1_received:
  "UnmarshalMessage block1_text =
     Some (ObjectMsg MSG_OBJECT (Some (sort_members (Block_json block1))) (Some (BlockObj block1)))"
proof -
  have s: "sendable (BlockObj block1)"
    using sample_objects(2,6) by (simp add: block1_def MakeBlock_def)
  then have "MakeObject (BlockObj block1) \<noteq> None" by (rule MakeObject_total)
  then have "MakeObject (BlockObj block1) = Some block1_text" by (auto simp: block1_text_def)
  then show ?thesis
    using object_roundtrip [OF s] by (simp add: block1_def MakeBlock_def)
qed

lemma block1_missing:
  obtains blk result where
    "ValidateObject mem_env t0 manager0 (fst (GetObjectID mem_env (BlockObj block1))) = Some (BlockObj blk, result)"
    "vr_ErrorCode result = E_UNKNOWN_OBJECT" "vr_Error result \<noteq> None" "vr_MissingID result = genesisHash"
    "genesisHash \<noteq> DUMMY_HASH"
proof -
  let ?b = "block1\<lparr>blk_CachedID := Some (sample_id 2)\<rparr>"
  have g: "GetObjectID mem_env (BlockObj block1) = (BlockObj ?b, Inr (sample_id 2))"
    using sample_ids(3) by (simp add: GetObjectID_def block1_def MakeBlock_def)
  have g': "GetObjectID mem_env (BlockObj ?b) = (BlockObj ?b, Inr (sample_id 2))"
    by (simp add: GetObjectID_def)
  have p: "VerifyPoW (sample_id 2) = Inr True" "genesisHash \<noteq> DUMMY_HASH" by code_simp+
  have b: "blk_Created ?b \<le> t0" "blk_Previd ?b = Some genesisHash"
    by (simp_all add: block1_def MakeBlock_def t0_def)
  have "GetObject mem_env manager0 genesisHash = Inl ErrNotFound"
    by (simp add: GetObject_def getObject_def newDatabase_def)
  then show thesis
    using b p g' that
    by (auto simp: g ValidateObject_def ValidateBlock_def check_parent_def Let_def reject_missing_def reject_def)
qed

end
