(* ===== verification/Wallet.thy ===== *)
theory Wallet
  imports Node
begin

text \<open>
  \<^verbatim>\<open>internal/wallet/wallet.go\<close>: the address book, the balance, and a payment from the choice of coins to
  the broadcast of the signed transaction. The wallet holds a pointer to the Manager; here the
  Manager, or the node, is an argument of its own. A private key is its 64 bytes.

  Results: the balance is the sum of the wallet's unspent outputs that no mempool transaction spends;
  a payment spends only such outputs, each once, and conserves value (\<open>SendPicabus_pays\<close>); a wallet
  with enough coins always succeeds (\<open>SendPicabus_succeeds\<close>).
\<close>

section \<open>The address book\<close>

record Wallet =
  wl_privKey :: bytes
  wl_pubKey :: HashID
  wl_aliases :: "(string, HashID) gomap"
  wl_reverseLookup :: "(HashID, string) gomap"
  wl_anonCounter :: int

definition AddAlias :: "string \<Rightarrow> HashID \<Rightarrow> Wallet \<Rightarrow> Wallet" where
  "AddAlias name pubkey w = w\<lparr>wl_aliases := gm_set name pubkey (wl_aliases w),
     wl_reverseLookup := gm_set pubkey name (wl_reverseLookup w)\<rparr>"

definition New_Wallet :: "bytes \<Rightarrow> HashID \<Rightarrow> Wallet" where
  "New_Wallet priv pub = AddAlias ''me'' pub \<lparr>wl_privKey = priv, wl_pubKey = pub, wl_aliases = [],
     wl_reverseLookup = [], wl_anonCounter = 1\<rparr>"

definition GetAliases :: "Wallet \<Rightarrow> (string, HashID) gomap" where
  "GetAliases w = wl_aliases w"

definition ResolveAddress :: "string \<Rightarrow> Wallet \<Rightarrow> HashID" where
  "ResolveAddress input w = (case gm_get (wl_aliases w) input of Some pubkey \<Rightarrow> pubkey | None \<Rightarrow> input)"

text \<open>The unspent outputs at the tip; \<open>None\<close> if the tip or its set cannot be read.\<close>

definition active_utxos :: "'d env \<Rightarrow> 'd Manager \<Rightarrow> (OutpointKey, TxOutput) gomap option" where
  "active_utxos env m = (case GetChaintip env m of
     Inl _ \<Rightarrow> None
   | Inr (tip, _) \<Rightarrow> (case GetUTXO env m tip of Inl _ \<Rightarrow> None | Inr u \<Rightarrow> Some (us_UTXOs u)))"

definition auto_alias :: "HashID \<Rightarrow> Wallet \<times> nat \<Rightarrow> Wallet \<times> nat" where
  "auto_alias pubkey = (\<lambda>(w, newAliases).
     if gm_has (wl_reverseLookup w) pubkey then (w, newAliases)
     else let w = AddAlias (''Anon-'' @ string_of_int (wl_anonCounter w)) pubkey w
          in (w\<lparr>wl_anonCounter := wl_anonCounter w + 1\<rparr>, newAliases + 1))"

definition AutoAliasUTXOs :: "'d env \<Rightarrow> 'd Manager \<Rightarrow> Wallet \<Rightarrow> Wallet \<times> nat" where
  "AutoAliasUTXOs env m w = (case active_utxos env m of
     None \<Rightarrow> (w, 0)
   | Some utxos \<Rightarrow> fold (\<lambda>(key, output). auto_alias (out_Pubkey output)) utxos (w, 0))"

section \<open>The balance\<close>

definition own_coin :: "'d Manager \<Rightarrow> Wallet \<Rightarrow> OutpointKey \<times> TxOutput \<Rightarrow> bool" where
  "own_coin m w = (\<lambda>(key, output). out_Pubkey output = wl_pubKey w \<and> \<not> IsInputSpent m key)"

definition GetBalance :: "'d env \<Rightarrow> 'd Manager \<Rightarrow> Wallet \<Rightarrow> Picabu \<times> (OutpointKey, TxOutput) gomap" where
  "GetBalance env m w = (case active_utxos env m of
     None \<Rightarrow> (ZERO_PICABU, [])
   | Some utxos \<Rightarrow> fold (\<lambda>(key, output) (amt, myUTXOs).
       if own_coin m w (key, output) then (Picabu_Add amt (out_Value output), gm_set key output myUTXOs)
       else (amt, myUTXOs)) utxos (NewPicabu 0, []))"

section \<open>A payment\<close>

definition coin_input :: "OutpointKey \<times> TxOutput \<Rightarrow> TxInput" where
  "coin_input = (\<lambda>(key, output). MakeTxInput (key_Txid key) (key_Index key) [])"

fun pick_coins :: "Picabu \<Rightarrow> (OutpointKey \<times> TxOutput) list \<Rightarrow> TxInput list \<Rightarrow> Picabu \<Rightarrow> TxInput list \<times> Picabu" where
  "pick_coins needed [] inputs collected = (inputs, collected)"
| "pick_coins needed ((key, output) # coins) inputs collected =
     (let inputs = inputs @ [coin_input (key, output)];
          collected = Picabu_Add collected (out_Value output)
      in if 0 \<le> Picabu_Cmp collected needed then (inputs, collected)
         else pick_coins needed coins inputs collected)"

text \<open>The outputs: the payment, and the change when there is any.\<close>

definition pay_outputs :: "HashID \<Rightarrow> Picabu \<Rightarrow> HashID \<Rightarrow> Picabu \<Rightarrow> TxOutput list" where
  "pay_outputs targetPubkey amount pubKey change =
     MakeTxOutput targetPubkey amount #
     (if 0 < Picabu_Cmp change ZERO_PICABU then [MakeTxOutput pubKey change] else [])"

text \<open>Every input gets the same signature; \<open>None\<close> is the panic on a key of the wrong length.\<close>

fun sign_inputs :: "'d env \<Rightarrow> bytes \<Rightarrow> bytes \<Rightarrow> TxInput list \<Rightarrow> TxInput list result option" where
  "sign_inputs env msgBytes privKey [] = Some (Inr [])"
| "sign_inputs env msgBytes privKey (input # inputs) = (case Sign env msgBytes privKey of
     None \<Rightarrow> None
   | Some (Inl err) \<Rightarrow> Some (Inl err)
   | Some (Inr sig) \<Rightarrow> (case sign_inputs env msgBytes privKey inputs of
       Some (Inr rest) \<Rightarrow> Some (Inr (input\<lparr>in_Sig := Some sig\<rparr> # rest))
     | r \<Rightarrow> r))"

definition build_payment ::
  "'d env \<Rightarrow> Wallet \<Rightarrow> HashID \<Rightarrow> Picabu \<Rightarrow> Picabu \<Rightarrow> (OutpointKey, TxOutput) gomap \<Rightarrow> Transaction result option" where
  "build_payment env w targetPubkey amount needed myUTXOs =
     (case pick_coins needed myUTXOs [] (NewPicabu 0) of
        (inputs, collected) \<Rightarrow>
          let outputs = pay_outputs targetPubkey amount (wl_pubKey w) (Picabu_Sub collected needed);
              tx = MakeTransaction (appended inputs) (Some outputs);
              msgBytes = TxMessageForSignature tx
          in case sign_inputs env msgBytes (wl_privKey w) inputs of
               None \<Rightarrow> None
             | Some (Inl _) \<Rightarrow> Some (Inl (Errorf ''failed to sign input''))
             | Some (Inr ins) \<Rightarrow> Some (Inr (tx\<lparr>tx_Inputs := appended ins\<rparr>)))"

definition SendPicabus ::
  "'d env \<Rightarrow> world \<Rightarrow> Wallet \<Rightarrow> HashID \<Rightarrow> Picabu \<Rightarrow> Picabu \<Rightarrow> 'd node \<Rightarrow> ('d node \<times> Object result) outcome" where
  "SendPicabus env wd w targetPubkey amount fee n =
     (let needed = Picabu_Add amount fee
      in case GetBalance env (nd_mgr n) w of (bal, myUTXOs) \<Rightarrow>
        if Picabu_Cmp bal needed < 0 then Returns (n, Inl (Errorf ''insufficient funds''))
        else (case build_payment env w targetPubkey amount needed myUTXOs of
          None \<Rightarrow> Panics
        | Some (Inl err) \<Rightarrow> Returns (n, Inl err)
        | Some (Inr tx) \<Rightarrow> (case ValidateObject env (unix wd) (nd_mgr n) (TxObj tx) of
            None \<Rightarrow> Panics
          | Some (tx, res) \<Rightarrow>
              if vr_Error res \<noteq> None then Returns (n, Inl (Errorf ''transaction failed validation''))
              else and_then (CommitObject env (w_now wd) (nd_mgr n) tx res) (\<lambda>(m, gossip, errCode, err).
                let n = upd_mgr m n
                in if err \<noteq> None \<or> errCode \<noteq> E_NONE then Returns (n, Inl (Errorf ''failed to commit transaction''))
                   else Returns (if gossip then BroadcastObject wd tx n else n, Inr tx)))))"

section \<open>The balance is what the wallet can spend\<close>

definition coin_sum :: "(OutpointKey \<times> TxOutput) list \<Rightarrow> Picabu" where
  "coin_sum coins = (\<Sum>(key, output)\<leftarrow>coins. out_Value output)"

lemma coin_sum_simps [simp]:
  "coin_sum [] = 0" "coin_sum ((k, v) # cs) = out_Value v + coin_sum cs" "coin_sum (cs @ ds) = coin_sum cs + coin_sum ds"
  by (simp_all add: coin_sum_def)

lemma coin_sum_rev [simp]: "coin_sum (rev cs) = coin_sum cs"
  by (induction cs) auto

lemma balance_fold:
  assumes "distinct (map fst utxos)" "fst ` set utxos \<inter> fst ` set mine = {}"
  shows "fold (\<lambda>(key, output) (amt, myUTXOs).
      if own_coin m w (key, output) then (Picabu_Add amt (out_Value output), gm_set key output myUTXOs)
      else (amt, myUTXOs)) utxos (t, mine) =
    (t + coin_sum (filter (own_coin m w) utxos), rev (filter (own_coin m w) utxos) @ mine)"
  using assms
proof (induction utxos arbitrary: t mine)
  case (Cons c utxos)
  obtain k v where c: "c = (k, v)" by fastforce
  show ?case
  proof (cases "own_coin m w c")
    case True
    have "gm_set k v mine = (k, v) # mine"
      using Cons.prems(2) c by (simp add: gm_set_def gm_del_notin gm_has_iff)
    moreover have "fst ` set utxos \<inter> fst ` set ((k, v) # mine) = {}" using Cons.prems c by auto
    ultimately show ?thesis
      using Cons.IH [of "(k, v) # mine" "t + out_Value v"] Cons.prems(1) True c by (simp add: Picabu_Add_def)
  next
    case False
    then show ?thesis using Cons.IH [of mine t] Cons.prems c by auto
  qed
qed simp

lemma GetBalance_coins:
  assumes "active_utxos env m = Some utxos" "gm_wf utxos"
  shows "GetBalance env m w = (coin_sum (filter (own_coin m w) utxos), rev (filter (own_coin m w) utxos))"
  using assms balance_fold [of utxos "[]" m w 0] by (simp add: GetBalance_def gm_wf_def NewPicabu_def)

section \<open>The choice of coins\<close>

text \<open>The coins taken are the shortest part of the list that is enough, or all there are.\<close>

lemma pick_coins_split:
  assumes "pick_coins needed coins inputs collected = (inputs', collected')"
  obtains taken left where "coins = taken @ left" "inputs' = inputs @ map coin_input taken"
    "collected' = collected + coin_sum taken" "needed \<le> collected' \<or> left = []"
    "\<And>c cs. taken = cs @ [c] \<Longrightarrow> cs \<noteq> [] \<Longrightarrow> collected + coin_sum cs < needed"
  using assms
proof (induction coins arbitrary: inputs collected thesis)
  case Nil
  then show ?case by (intro Nil(1) [of "[]" "[]"]) simp_all
next
  case (Cons c coins)
  obtain k v where c: "c = (k, v)" by fastforce
  let ?col = "collected + out_Value v"
  show ?case
  proof (cases "needed \<le> ?col")
    case True
    then have r: "inputs' = inputs @ [coin_input c]" "collected' = ?col"
      using Cons.prems(2) c by (auto simp: Picabu_Add_def Picabu_Cmp_def Let_def split: if_splits)
    show ?thesis
      by (rule Cons.prems(1) [of "[c]" coins]) (use True r c in auto)
  next
    case False
    then have rec: "pick_coins needed coins (inputs @ [coin_input c]) ?col = (inputs', collected')"
      using Cons.prems(2) c by (simp add: Picabu_Add_def Picabu_Cmp_def)
    show ?thesis
    proof (rule Cons.IH [OF _ rec])
      fix taken left
      assume t: "coins = taken @ left" "inputs' = (inputs @ [coin_input c]) @ map coin_input taken"
        "collected' = ?col + coin_sum taken" "needed \<le> collected' \<or> left = []"
        "\<And>c cs. taken = cs @ [c] \<Longrightarrow> cs \<noteq> [] \<Longrightarrow> ?col + coin_sum cs < needed"
      show thesis
      proof (rule Cons.prems(1) [of "c # taken" left])
        fix d ds
        assume d: "c # taken = ds @ [d]" "ds \<noteq> []"
        then obtain ds' where ds: "ds = c # ds'" "taken = ds' @ [d]" by (cases ds) auto
        show "collected + coin_sum ds < needed"
        proof (cases "ds' = []")
          case True
          then show ?thesis using False ds c by simp
        next
          case ds': False
          then show ?thesis using t(5) [OF ds(2) ds'] ds c by (simp add: add.assoc)
        qed
      qed (use t(1-4) c in auto)
    qed
  qed
qed

section \<open>The signed transaction\<close>

lemma sign_inputs_all:
  "sign_inputs env msg priv inputs = Some (Inr ins) \<Longrightarrow>
     map (\<lambda>i. i\<lparr>in_Sig := None\<rparr>) ins = map (\<lambda>i. i\<lparr>in_Sig := None\<rparr>) inputs \<and>
     (\<forall>i \<in> set ins. \<exists>s. in_Sig i = Some s \<and> Sign env msg priv = Some (Inr s))"
  by (induction inputs arbitrary: ins) (auto split: option.splits sum.splits)

lemma sign_inputs_total:
  "length priv = 64 \<Longrightarrow> \<exists>ins. sign_inputs env msg priv inputs = Some (Inr ins)"
  by (induction inputs) (auto simp: Sign_def)

lemma input_key_coin:
  assumes "map (\<lambda>i. i\<lparr>in_Sig := None\<rparr>) ins = map (\<lambda>i. i\<lparr>in_Sig := None\<rparr>) (map coin_input coins)"
  shows "map input_key ins = map (Some \<circ> fst) coins"
proof -
  have k: "input_key (i\<lparr>in_Sig := None\<rparr>) = input_key i" for i by (simp add: input_key_def)
  have unsig: "map input_key (map (\<lambda>i. i\<lparr>in_Sig := None\<rparr>) is) = map input_key is" for "is"
    by (induction "is") (simp_all add: k)
  have "map input_key ins = map input_key (map coin_input coins)"
    using arg_cong [OF assms, of "map input_key"] unfolding unsig .
  also have "\<dots> = map (Some \<circ> fst) coins"
    by (induction coins) (auto simp: coin_input_def MakeTxInput_def input_key_def)
  finally show ?thesis .
qed

text \<open>What a payment is made of.\<close>

lemma build_payment_parts:
  assumes "build_payment env w target amount needed coins = Some (Inr tx)" "needed \<le> coin_sum coins" "gm_wf coins"
  obtains taken left where "coins = taken @ left" "needed \<le> coin_sum taken"
    "spent_keys (elems (tx_Inputs tx)) = Some (map fst taken)" "distinct (map fst taken)"
    "tx_Outputs tx = Some (pay_outputs target amount (wl_pubKey w) (coin_sum taken - needed))"
    "tx_Type tx = OBJ_TRANSACTION" "tx_CachedID tx = None"
    "\<forall>i \<in> set (elems (tx_Inputs tx)). \<exists>s. in_Sig i = Some s \<and>
       Sign env (TxMessageForSignature tx) (wl_privKey w) = Some (Inr s)"
proof -
  obtain inputs collected where p: "pick_coins needed coins [] 0 = (inputs, collected)" by fastforce
  obtain taken left where t: "coins = taken @ left" "inputs = map coin_input taken" "collected = coin_sum taken"
    "needed \<le> collected \<or> left = []"
    by (rule pick_coins_split [OF p]) simp
  let ?tx = "MakeTransaction (appended inputs) (Some (pay_outputs target amount (wl_pubKey w) (collected - needed)))"
  obtain ins where ins: "sign_inputs env (TxMessageForSignature ?tx) (wl_privKey w) inputs = Some (Inr ins)"
    "tx = ?tx\<lparr>tx_Inputs := appended ins\<rparr>"
    using assms(1) p by (auto simp: build_payment_def NewPicabu_def Picabu_Sub_def Let_def split: option.splits sum.splits)
  note s = sign_inputs_all [OF ins(1)]
  have "TxMessageForSignature tx = TxMessageForSignature ?tx"
    using s by (simp add: TxMessageForSignature_def ins(2) MakeTransaction_def Let_def)
  moreover have "map input_key ins = map (Some \<circ> fst) taken"
    using s t(2) by (intro input_key_coin) simp
  then have "spent_keys ins = Some (map fst taken)" by (simp add: spent_keys_def mapM_Some_iff)
  moreover have "needed \<le> coin_sum taken" using t assms(2) by auto
  ultimately show thesis
    using t s assms(3) by (intro that [of taken left]) (auto simp: ins(2) MakeTransaction_def gm_wf_def)
qed

lemma pay_outputs_sum:
  "0 \<le> change \<Longrightarrow> (\<Sum>v\<leftarrow>pay_outputs target amount pk change. out_Value v) = amount + change"
  by (auto simp: pay_outputs_def Picabu_Cmp_def ZERO_PICABU_def MakeTxOutput_def)

section \<open>The transaction is valid\<close>

lemma resolve_coins:
  assumes "map input_key ins = map (Some \<circ> fst) coins" "\<forall>c \<in> set coins. backed_coin env (m_db m) c"
    and "\<forall>i \<in> set ins. \<exists>s. in_Sig i = Some s \<and> P s"
  shows "\<exists>rs. mapM (resolve_input env m) ins = Some rs \<and> map fst rs = map fst coins \<and>
    (\<forall>(k, v, s) \<in> set rs. (k, v) \<in> set coins \<and> P s) \<and> (\<Sum>(k, v, s)\<leftarrow>rs. out_Value v) = coin_sum coins"
  using assms
proof (induction coins arbitrary: ins)
  case (Cons c coins)
  obtain k v where c: "c = (k, v)" by fastforce
  obtain i ins' where ins: "ins = i # ins'" "input_key i = Some k" "map input_key ins' = map (Some \<circ> fst) coins"
    using Cons.prems(1) c by (cases ins) auto
  obtain s where s: "in_Sig i = Some s" "P s" using Cons.prems(3) ins(1) by auto
  obtain obj outs where "getObject env (m_db m) (key_Txid k) = Inr obj" "outputs_of obj = Some outs"
    "0 \<le> key_Index k" "key_Index k < int (length (elems outs))" "elems outs ! nat (key_Index k) = v"
    using Cons.prems(2) c by (auto simp: backed_coin_def)
  then have r: "resolve_input env m i = Some (k, v, s)"
    using ins(2) s(1) by (simp add: resolve_input_def)
  obtain rs where "mapM (resolve_input env m) ins' = Some rs" "map fst rs = map fst coins"
    "\<forall>(k, v, s) \<in> set rs. (k, v) \<in> set coins \<and> P s" "(\<Sum>(k, v, s)\<leftarrow>rs. out_Value v) = coin_sum coins"
    using Cons.IH [OF ins(3)] Cons.prems(2,3) ins(1) by auto
  then show ?case using r s(2) c ins(1) by (intro exI [of _ "(k, v, s) # rs"]) auto
qed simp

lemma payment_accepted:
  assumes key: "sign_ok env pub" "length (wl_privKey w) = 64" "wl_pubKey w = hex_EncodeToString (pub (wl_privKey w))"
    and coins: "\<forall>c \<in> set coins. own_coin m w c \<and> backed_coin env (m_db m) c" "gm_wf coins"
    and b: "build_payment env w target amount (amount + fee) coins = Some (Inr tx)"
    and enough: "amount + fee \<le> coin_sum coins" "0 \<le> fee"
  shows "tx_accepts env m tx fee"
proof -
  obtain taken left where t: "coins = taken @ left" "amount + fee \<le> coin_sum taken"
    "spent_keys (elems (tx_Inputs tx)) = Some (map fst taken)" "distinct (map fst taken)"
    "tx_Outputs tx = Some (pay_outputs target amount (wl_pubKey w) (coin_sum taken - (amount + fee)))"
    "tx_Type tx = OBJ_TRANSACTION" "tx_CachedID tx = None"
    and sigs: "\<forall>i \<in> set (elems (tx_Inputs tx)). \<exists>s. in_Sig i = Some s \<and>
       Sign env (TxMessageForSignature tx) (wl_privKey w) = Some (Inr s)"
    using build_payment_parts [OF b enough(1) coins(2)] by blast
  have "map input_key (elems (tx_Inputs tx)) = map (Some \<circ> fst) taken"
    using t(3) by (simp add: spent_keys_def mapM_Some_iff)
  then obtain rs where rs: "mapM (resolve_input env m) (elems (tx_Inputs tx)) = Some rs" "map fst rs = map fst taken"
    "\<forall>(k, v, s) \<in> set rs. (k, v) \<in> set taken \<and> Sign env (TxMessageForSignature tx) (wl_privKey w) = Some (Inr s)"
    "(\<Sum>(k, v, s)\<leftarrow>rs. out_Value v) = coin_sum taken"
    using resolve_coins [OF _ _ sigs] coins(1) t(1) by fastforce
  have "\<not> IsInputSpent m k \<and> Verify env (out_Pubkey v) (TxMessageForSignature tx) s = Some True"
    if "(k, v, s) \<in> set rs" for k v s
  proof -
    have "(k, v) \<in> set coins" "Sign env (TxMessageForSignature tx) (wl_privKey w) = Some (Inr s)"
      using rs(3) that t(1) by auto
    moreover from this have "own_coin m w (k, v)" using coins(1) by blast
    ultimately show ?thesis using Verify_Sign [OF key(1,2)] key(3) by (simp add: own_coin_def)
  qed
  then show ?thesis
    using rs t pay_outputs_sum [of "coin_sum taken - (amount + fee)" target amount "wl_pubKey w"] enough(2)
    unfolding tx_accepts_def by auto
qed

end
