(* ===== verification/Payment.thy ===== *)
theory Payment
  imports Wallet
begin

text \<open>
  What \<open>SendPicabus\<close> does to the node: whatever it returns as a transaction is in the mempool with the
  fee asked for and spends only coins of the wallet (\<open>SendPicabus_pays\<close>), and with enough coins that
  stored transactions back it does return one, when the store does not fail (\<open>SendPicabus_succeeds\<close>).
  Numbers below 2^1023 have a float64 (\<open>f64_round_small\<close>), so that the text to be hashed exists.
\<close>

section \<open>Numbers that have a float64\<close>

definition small_int :: "int \<Rightarrow> bool" where
  "small_int i \<longleftrightarrow> \<bar>i\<bar> < 2 ^ 1023"

lemma f64_small: "small_int i \<Longrightarrow> f64_of_int i \<noteq> None"
  using f64_round_small [of "nat \<bar>i\<bar>"] unfolding small_int_def f64_of_int_def
  by (auto simp: nat_less_iff simp del: power_numeral)

fun small_json :: "json \<Rightarrow> bool" where
  "small_json (JInt i) = small_int i"
| "small_json (JFrac s) = False"
| "small_json (JArr xs) = list_all small_json xs"
| "small_json (JObj kvs) = list_all (\<lambda>(k, v). small_json v) kvs"
| "small_json j = True"

lemma small_no_frac: "small_json j \<Longrightarrow> no_frac j"
  by (induction j) (auto simp: list_all_iff)

lemma as_interface_small:
  "small_json j \<Longrightarrow> as_interface j \<noteq> None"
  "list_all small_json xs \<Longrightarrow> as_interface_list xs \<noteq> None"
  "list_all (\<lambda>(k, v). small_json v) kvs \<Longrightarrow> as_interface_members kvs \<noteq> None"
  by (induction j and xs and kvs rule: as_interface_as_interface_list_as_interface_members.induct)
     (use f64_small in auto)

lemma Canonicalize_small: "small_json j \<Longrightarrow> Canonicalize j \<noteq> None"
  using as_interface_small(1) by (simp add: Canonicalize_via small_no_frac)

definition small_tx :: "Transaction \<Rightarrow> bool" where
  "small_tx t \<longleftrightarrow> (\<forall>v \<in> set (elems (tx_Outputs t)). small_int (out_Value v)) \<and>
     (\<forall>i \<in> set (elems (tx_Inputs t)). pred_option small_int (op_Index (in_Outpoint i)))"

lemma small_slice: "(\<And>x. x \<in> set (elems s) \<Longrightarrow> small_json (enc x)) \<Longrightarrow> small_json (slice_json enc s)"
  by (simp add: slice_json_def list_all_iff split: option.splits)

lemma small_ptr: "(\<And>x. p = Some x \<Longrightarrow> small_json (enc x)) \<Longrightarrow> small_json (ptr_json enc p)"
  by (simp add: ptr_json_def split: option.splits)

lemma small_tx_json:
  assumes "small_tx t"
  shows "small_json (Transaction_json t)"
proof -
  have "small_json (TxInput_json i)" if "i \<in> set (elems (tx_Inputs t))" for i
    using assms that
    by (force simp: small_tx_def TxInput_json_def Outpoint_json_def intro!: small_ptr)
  moreover have "small_json (TxOutput_json v)" if "v \<in> set (elems (tx_Outputs t))" for v
    using assms that by (simp add: small_tx_def TxOutput_json_def Picabu_Marshal_def)
  ultimately show ?thesis by (auto simp: Transaction_json_def intro!: small_slice)
qed

lemma HashObject_small:
  assumes "hash_ok env" "small_tx t"
  obtains oid where "HashObject env (TxObj t) = Inr oid"
proof -
  obtain c where "Canonicalize (Transaction_json t) = Some c"
    using Canonicalize_small [OF small_tx_json [OF assms(2)]] by blast
  moreover obtain h where "blake2s env c = Some h" using assms(1) unfolding hash_ok_def by blast
  ultimately show thesis by (intro that) (simp add: HashObject_def HashString_def Hash_def)
qed

section \<open>The commit\<close>

lemma of_hash:
  assumes "HashObject env (TxObj tx) = Inr oid" "tx_CachedID tx = None"
  shows "GetObjectID env (TxObj tx) = (TxObj (tx\<lparr>tx_CachedID := Some oid\<rparr>), Inr oid)"
    "HashObject env (TxObj (tx\<lparr>tx_CachedID := Some oid\<rparr>)) = Inr oid"
  using assms by (simp_all add: GetObjectID_def HashObject_def Transaction_json_def)

lemma TxMessage_cached: "TxMessageForSignature (tx\<lparr>tx_CachedID := c\<rparr>) = TxMessageForSignature tx"
  by (simp add: TxMessageForSignature_def Transaction_json_def Let_def)

lemma tx_accepts_cached: "tx_accepts env m (tx\<lparr>tx_CachedID := c\<rparr>) fee = tx_accepts env m tx fee"
  by (simp add: tx_accepts_def TxMessage_cached cong: option.case_cong)

lemma ValidateObject_payment:
  assumes "tx_accepts env m tx fee" "HashObject env (TxObj tx) = Inr oid" "tx_CachedID tx = None"
  shows "ValidateObject env now m (TxObj tx) =
    Some (TxObj (tx\<lparr>tx_CachedID := Some oid\<rparr>), zero_result\<lparr>vr_ObjID := oid, vr_Fee := fee\<rparr>)"
  using of_hash [OF assms(2,3)] assms(1) ValidateTransaction_complete [of env m "tx\<lparr>tx_CachedID := Some oid\<rparr>" fee]
  by (simp add: ValidateObject_def tx_accepts_cached)

lemma put_key_total:
  assumes "ldb_total env"
  obtains d' where "put_key env d k v = (d', None)" "d' = d\<lparr>db_db := db_db d'\<rparr>"
proof (cases "ldb_put env (db_db d) k v")
  case (Pair h e)
  have "snd (ldb_put env (db_db d) k v) = None" using assms unfolding ldb_total_def by blast
  then show thesis using Pair by (intro that [of "d\<lparr>db_db := h\<rparr>"]) (simp_all add: put_key_def)
qed

lemma mempool_conflict_free:
  "spent_keys inputs = Some ks \<Longrightarrow> (\<forall>k \<in> set ks. \<not> IsInputSpent m k) \<Longrightarrow> mempool_conflict m inputs = Some False"
  by (induction inputs arbitrary: ks) (auto split: option.splits)

lemma all_inputs_in_has:
  "spent_keys inputs = Some ks \<Longrightarrow> (\<forall>k \<in> set ks. gm_has utxos k) \<Longrightarrow> all_inputs_in inputs utxos = Some True"
  by (induction inputs arbitrary: ks) (auto split: option.splits)

lemma active_utxos_Some:
  "active_utxos env m = Some utxos \<longleftrightarrow>
     (\<exists>tip h u. getChaintip env (m_db m) = Inr (tip, h) \<and> getUTXO env (m_db m) tip = Inr u \<and> utxos = us_UTXOs u)"
proof -
  have "active_utxos env m = Some utxos \<longleftrightarrow>
     (\<exists>tip h u. GetChaintip env m = Inr (tip, h) \<and> GetUTXO env m tip = Inr u \<and> utxos = us_UTXOs u)"
    by (auto simp: active_utxos_def split: sum.splits)
  then show ?thesis by (simp add: GetChaintip_Inr GetUTXO_Inr)
qed


lemma putFee_total:
  assumes "ldb_ok env" "ldb_total env" "HashID_ok oid"
  obtains d' where "putFee env d oid fee = (d', None)" "d' = d\<lparr>db_db := db_db d'\<rparr>" "chain_eq env d d'"
proof -
  obtain d' where "putFee env d oid fee = (d', None)" "d' = d\<lparr>db_db := db_db d'\<rparr>"
    using put_key_total [OF assms(2)] unfolding putFee_def by metis
  then show thesis using that putFee_chain [OF assms(1)] by blast
qed

lemma active_utxos_eq:
  assumes "getChaintip env (m_db m') = getChaintip env (m_db m)" "\<And>b. getUTXO env (m_db m') b = getUTXO env (m_db m) b"
  shows "active_utxos env m' = active_utxos env m"
proof -
  have "active_utxos env m' = Some u \<longleftrightarrow> active_utxos env m = Some u" for u
    by (simp add: active_utxos_Some assms)
  then show ?thesis by (metis option.exhaust)
qed

lemma put_object_total:
  assumes "ldb_ok env" "ldb_total env" "HashObject env obj = Inr oid" "HashID_ok oid"
  obtains d' where "putObject env d obj = (d', Inr oid)" "d' = d\<lparr>db_db := db_db d'\<rparr>"
    "getChaintip env d' = getChaintip env d" "\<And>b. getUTXO env d' b = getUTXO env d b"
proof -
  obtain d' where p: "put_key env d oid (print_json (Object_json obj)) = (d', None)" "d' = d\<lparr>db_db := db_db d'\<rparr>"
    using put_key_total [OF assms(2)] by metis
  have get: "ldb_get env (db_db d') k = ldb_get env (db_db d) k" if "k \<noteq> oid" for k
    using put_key_get [OF assms(1) p(1)] that by simp
  have tip: "getChaintip env d' = getChaintip env d"
    by (rule getChaintip_cong, rule get) (use assms(4) in \<open>metis HashID_keys(4)\<close>)
  have utxo: "getUTXO env d' b = getUTXO env d b" for b
    by (rule getUTXO_cong, rule get) (use assms(4) in \<open>metis HashID_keys(1)\<close>)
  show thesis
    by (rule that [OF _ p(2) tip utxo])
      (use p(1) assms(3) in \<open>auto simp: putObject_def HashObject_def Let_def split: option.splits\<close>)
qed

text \<open>A transaction whose inputs are unspent and in the tip's set enters the mempool.\<close>

lemma CommitObject_payment:
  assumes l: "ldb_ok env" "ldb_total env" and oid: "HashObject env (TxObj tx) = Inr oid" "tx_CachedID tx = Some oid" "HashID_ok oid"
    and ks: "spent_keys (elems (tx_Inputs tx)) = Some ks" "\<forall>k \<in> set ks. \<not> IsInputSpent m k \<and> gm_has utxos k"
    and u: "active_utxos env m = Some utxos" and res: "vr_ObjID result = oid"
  obtains m' where "CommitObject env now m (TxObj tx) result = Returns (m', True, E_NONE, None)"
    "gm_get (db_mempool (m_db m')) oid =
       Some \<lparr>me_TxID = oid, me_Tx = Some tx, me_Fee = vr_Fee result, me_Timestamp = now\<rparr>"
    "\<forall>k \<in> set ks. gm_get (db_mempoolSpentInputs (m_db m')) k = Some oid"
proof -
  obtain d1 where d1: "putObject env (m_db m) (TxObj tx) = (d1, Inr oid)" "d1 = (m_db m)\<lparr>db_db := db_db d1\<rparr>"
    "getChaintip env d1 = getChaintip env (m_db m)" "\<And>b. getUTXO env d1 b = getUTXO env (m_db m) b"
    by (rule put_object_total [OF l oid(1,3)]) blast
  obtain d2 where d2: "putFee env d1 oid (vr_Fee result) = (d2, None)" "d2 = d1\<lparr>db_db := db_db d2\<rparr>" "chain_eq env d1 d2"
    by (rule putFee_total [OF l oid(3)]) blast
  have spent2: "db_mempoolSpentInputs d2 = db_mempoolSpentInputs (m_db m)"
    using d1(2) d2(2) by (metis (no_types, lifting) database.select_convs(6) database.surjective database.update_convs(1))
  let ?m = "upd_db d2 (upd_db d1 m)"
  have "active_utxos env ?m = active_utxos env m"
    by (rule active_utxos_eq) (simp_all add: chain_eq_get [OF d2(3)] d1(3,4))
  then obtain tip h v where "GetChaintip env ?m = Inr (tip, h)" "GetUTXO env ?m tip = Inr v" "us_UTXOs v = utxos"
    using u by (auto simp: active_utxos_def split: sum.splits)
  then have inn: "IsInputInUTXO env ?m tx = Some True"
    using all_inputs_in_has [OF ks(1)] ks(2) by (simp add: IsInputInUTXO_def)
  have free: "mempool_conflict ?m (elems (tx_Inputs tx)) = Some False"
    by (rule mempool_conflict_free [OF ks(1)]) (use ks(2) spent2 in \<open>simp add: IsInputSpent_def\<close>)
  let ?e = "\<lparr>me_TxID = oid, me_Tx = Some tx, me_Fee = vr_Fee result, me_Timestamp = now\<rparr>"
  obtain d3 where d3: "put_key env d2 (mempoolKey oid) (print_json (MempoolEntry_json env ?e)) = (d3, None)"
    using put_key_total [OF l(2)] by metis
  obtain d4 where d4: "putFee env d3 oid (vr_Fee result) = (d4, None)"
    using putFee_total [OF l oid(3)] by metis
  let ?spent = "fold (\<lambda>k. gm_set k oid) ks (db_mempoolSpentInputs d4)"
  let ?d = "d4\<lparr>db_mempool := gm_set oid ?e (db_mempool d4), db_mempoolSpentInputs := ?spent\<rparr>"
  have "GetObjectID env (TxObj tx) = (TxObj tx, Inr oid)" using oid(2) by (simp add: GetObjectID_def)
  then have add: "addMempoolEntry env now d2 tx (vr_Fee result) = Some (?d, None)"
    using d3 d4 ks(1) by (simp add: addMempoolEntry_def spend_inputs_keys Let_def)
  have "CommitObject env now m (TxObj tx) result = Returns (upd_db ?d ?m, True, E_NONE, None)"
    using d1(1) d2(1) inn free add res by (simp add: CommitObject_def commitTransaction_def AddToMempool_def Let_def)
  moreover have "gm_get ?spent k = Some oid" if "k \<in> set ks" for k
    using gm.get_fold_set_const [of "\<lambda>k. k" oid ks "db_mempoolSpentInputs d4" k] that by simp
  ultimately show thesis by (intro that [of "upd_db ?d ?m"]) simp_all
qed

section \<open>A payment as a whole\<close>

text \<open>The coins of a wallet: its outputs in the set of the tip that the mempool does not spend.\<close>

definition wallet_coins :: "'d env \<Rightarrow> 'd Manager \<Rightarrow> Wallet \<Rightarrow> (OutpointKey \<times> TxOutput) list" where
  "wallet_coins env m w = (case active_utxos env m of None \<Rightarrow> [] | Some utxos \<Rightarrow> rev (filter (own_coin m w) utxos))"

lemma GetBalance_wallet:
  assumes "\<And>utxos. active_utxos env m = Some utxos \<Longrightarrow> gm_wf utxos"
  shows "GetBalance env m w = (coin_sum (wallet_coins env m w), wallet_coins env m w)" "gm_wf (wallet_coins env m w)"
proof -
  show "GetBalance env m w = (coin_sum (wallet_coins env m w), wallet_coins env m w)"
    using assms GetBalance_coins [of env m _ w]
    by (cases "active_utxos env m") (simp_all add: wallet_coins_def GetBalance_def ZERO_PICABU_def)
  have "gm_wf (filter P u)" if "gm_wf u" for P and u :: "(OutpointKey \<times> TxOutput) list"
    using that by (simp add: gm_wf_def distinct_map_filter)
  then show "gm_wf (wallet_coins env m w)"
    using assms gm_wf_perm [of "rev (filter (own_coin m w) _)"]
    by (auto simp: wallet_coins_def gm_wf_def rev_map [symmetric] split: option.splits)
qed

lemma wallet_coins_own:
  assumes "c \<in> set (wallet_coins env m w)"
  obtains utxos where "active_utxos env m = Some utxos" "c \<in> set utxos" "own_coin m w c"
  using assms that by (cases "active_utxos env m") (auto simp: wallet_coins_def)

text \<open>A payment that succeeds.\<close>

lemma SendPicabus_returned:
  assumes "SendPicabus env wd w target amount fee n = Returns (n', Inr obj)"
    and "\<And>utxos. active_utxos env (nd_mgr n) = Some utxos \<Longrightarrow> gm_wf utxos"
  obtains tx res m where "build_payment env w target amount (amount + fee) (wallet_coins env (nd_mgr n) w) = Some (Inr tx)"
    "amount + fee \<le> coin_sum (wallet_coins env (nd_mgr n) w)"
    "ValidateObject env (unix wd) (nd_mgr n) (TxObj tx) = Some (obj, res)" "vr_Error res = None"
    "\<exists>gossip. CommitObject env (w_now wd) (nd_mgr n) obj res = Returns (m, gossip, E_NONE, None) \<and>
       n' = (if gossip then BroadcastObject wd obj (upd_mgr m n) else upd_mgr m n)"
proof -
  let ?finish = "\<lambda>obj res. and_then (CommitObject env (w_now wd) (nd_mgr n) obj res) (\<lambda>(m, gossip, errCode, err).
    let n = upd_mgr m n
    in if err \<noteq> None \<or> errCode \<noteq> E_NONE then Returns (n, Inl (Errorf ''failed to commit transaction''))
       else Returns (if gossip then BroadcastObject wd obj n else n, Inr obj))"
  have bal: "GetBalance env (nd_mgr n) w = (coin_sum (wallet_coins env (nd_mgr n) w), wallet_coins env (nd_mgr n) w)"
    by (rule GetBalance_wallet(1)) (rule assms(2))
  have "amount + fee \<le> coin_sum (wallet_coins env (nd_mgr n) w)"
    using assms(1) unfolding SendPicabus_def bal by (auto simp: Picabu_Cmp_def Picabu_Add_def Let_def split: if_splits)
  moreover from this have "\<not> Picabu_Cmp (coin_sum (wallet_coins env (nd_mgr n) w)) (Picabu_Add amount fee) < 0"
    by (simp add: Picabu_Cmp_def Picabu_Add_def)
  ultimately obtain tx res where t: "build_payment env w target amount (amount + fee) (wallet_coins env (nd_mgr n) w) = Some (Inr tx)"
    "amount + fee \<le> coin_sum (wallet_coins env (nd_mgr n) w)"
    "ValidateObject env (unix wd) (nd_mgr n) (TxObj tx) = Some (obj, res)" "vr_Error res = None"
    and fin: "?finish obj res = Returns (n', Inr obj)"
    using assms(1) unfolding SendPicabus_def bal
    by (fastforce simp: Picabu_Add_def Let_def and_then_Returns split: if_splits option.splits sum.splits prod.splits)
  obtain m gossip where "CommitObject env (w_now wd) (nd_mgr n) obj res = Returns (m, gossip, E_NONE, None)"
    "n' = (if gossip then BroadcastObject wd obj (upd_mgr m n) else upd_mgr m n)"
    using fin by (auto simp: and_then_Returns Let_def split: if_splits)
  then show thesis using that [OF t] by blast
qed

lemma active_utxos_ok:
  assumes "chain_inv env (m_db m)" "active_utxos env m = Some utxos"
  obtains h where "utxos_ok utxos" "utxo_total utxos \<le> (uint (h :: uint64) + 1) * BlockRewardBigInt"
proof -
  obtain tip h u where u: "getChaintip env (m_db m) = Inr (tip, h)" "getUTXO env (m_db m) tip = Inr u" "utxos = us_UTXOs u"
    using assms(2) by (auto simp: active_utxos_Some)
  have "HashID_ok tip" using chain_invD(3) [OF assms(1) u(1)] by simp
  from chain_invD(2) [OF assms(1) this u(2)] show thesis
    using that u(3) by (auto simp: entry_ok_def)
qed

text \<open>
  What is returned: its inputs are distinct coins of the wallet, its fee is the one asked for, the
  first output is the payment and the rest, if any, goes back to the wallet.
\<close>

lemma SendPicabus_pays:
  assumes inv: "chain_inv env (m_db (nd_mgr n))" and fee: "0 \<le> fee"
    and s: "SendPicabus env wd w target amount fee n = Returns (n', Inr obj)"
  obtains tx coins where "obj = TxObj tx" "spent_keys (elems (tx_Inputs tx)) = Some (map fst coins)"
    "distinct (map fst coins)" "\<forall>c \<in> set coins. c \<in> set (wallet_coins env (nd_mgr n) w)"
    "tx_Outputs tx = Some (pay_outputs target amount (wl_pubKey w) (coin_sum coins - (amount + fee)))"
    "coin_sum coins = (\<Sum>v\<leftarrow>elems (tx_Outputs tx). out_Value v) + fee"
proof -
  have wf: "gm_wf utxos" if "active_utxos env (nd_mgr n) = Some utxos" for utxos
    using active_utxos_ok [OF inv that] by (auto simp: utxos_ok_def)
  let ?coins = "wallet_coins env (nd_mgr n) w"
  obtain tx res where t: "build_payment env w target amount (amount + fee) ?coins = Some (Inr tx)"
    "amount + fee \<le> coin_sum ?coins"
    "ValidateObject env (unix wd) (nd_mgr n) (TxObj tx) = Some (obj, res)"
    using SendPicabus_returned [OF s wf] by blast
  obtain taken left where p: "?coins = taken @ left" "amount + fee \<le> coin_sum taken"
    "spent_keys (elems (tx_Inputs tx)) = Some (map fst taken)" "distinct (map fst taken)"
    "tx_Outputs tx = Some (pay_outputs target amount (wl_pubKey w) (coin_sum taken - (amount + fee)))"
    using build_payment_parts [OF t(1,2) GetBalance_wallet(2) [OF wf]] by blast
  obtain c where "obj = TxObj (tx\<lparr>tx_CachedID := c\<rparr>)"
  proof -
    have "fst (GetObjectID env (TxObj tx)) = TxObj tx \<or> (\<exists>c. fst (GetObjectID env (TxObj tx)) = TxObj (tx\<lparr>tx_CachedID := Some c\<rparr>))"
      by (auto simp: GetObjectID_def split: option.splits sum.splits)
    moreover have "obj = fst (GetObjectID env (TxObj tx))"
      using t(3) by (auto simp: ValidateObject_def split: prod.splits sum.splits option.splits)
    moreover have "tx = tx\<lparr>tx_CachedID := tx_CachedID tx\<rparr>" by simp
    ultimately show thesis using that by metis
  qed
  then show thesis
    using p pay_outputs_sum [of "coin_sum taken - (amount + fee)" target amount "wl_pubKey w"]
    by (intro that [of "tx\<lparr>tx_CachedID := c\<rparr>" taken]) simp_all
qed

lemma coin_sum_filter:
  assumes "\<And>k v. (k, v) \<in> set utxos \<Longrightarrow> 0 \<le> out_Value v"
  shows "coin_sum (filter P utxos) \<le> utxo_total utxos \<and> 0 \<le> coin_sum (filter P utxos)"
  using assms
proof (induction utxos)
  case (Cons c utxos)
  obtain k v where "c = (k, v)" by fastforce
  with Cons show ?case by fastforce
qed simp

text \<open>The amounts that occur in a payment stay below the total of the set.\<close>

lemma payment_small:
  assumes inv: "chain_inv env (m_db m)" and u: "active_utxos env m = Some utxos"
    and coins: "wallet_coins env m w = taken @ left"
    and tx: "spent_keys (elems (tx_Inputs tx)) = Some (map fst taken)"
      "tx_Outputs tx = Some (pay_outputs target amount pk (coin_sum taken - needed))"
    and amt: "0 \<le> amount" "amount \<le> needed" "needed \<le> coin_sum taken"
  shows "small_tx tx"
proof -
  obtain h :: uint64 where ok: "utxos_ok utxos" "utxo_total utxos \<le> (uint h + 1) * BlockRewardBigInt"
    by (rule active_utxos_ok [OF inv u])
  have val: "0 \<le> out_Value v" if "(k, v) \<in> set utxos" for k v
    using ok(1) that by (auto simp: utxos_ok_def TxOutput_ok_def)
  have idx: "BuInt_range (key_Index k)" if "k \<in> fst ` set utxos" for k
    using ok(1) that by (auto simp: utxos_ok_def OutpointKey_ok_def)
  have wc: "rev (filter (own_coin m w) utxos) = taken @ left" using coins u by (simp add: wallet_coins_def)
  have "coin_sum taken \<le> utxo_total utxos"
  proof -
    have "filter (own_coin m w) utxos = rev left @ rev taken" using arg_cong [OF wc, of rev] by simp
    then have "coin_sum left + coin_sum taken \<le> utxo_total utxos"
      using coin_sum_filter [of utxos "own_coin m w"] val by simp
    moreover have "set left \<subseteq> set utxos" using arg_cong [OF wc, of set] by auto
    then have "0 \<le> coin_sum left"
      using coin_sum_filter [of left "\<lambda>_. True"] val by auto
    ultimately show ?thesis by simp
  qed
  moreover have "(uint h + 1) * BlockRewardBigInt < 2 ^ 1023"
  proof -
    have "uint h + 1 \<le> 2 ^ 64" using uint_lt2p [of h] by simp
    then have "(uint h + 1) * BlockRewardBigInt \<le> 2 ^ 64 * BlockRewardBigInt"
      by (intro mult_right_mono) (simp_all add: BlockRewardBigInt_def BLOCK_REWARD_UINT64_def)
    also have "\<dots> < 2 ^ 1023" by (simp add: BlockRewardBigInt_def BLOCK_REWARD_UINT64_def)
    finally show ?thesis .
  qed
  ultimately have taken: "coin_sum taken < 2 ^ 1023" using ok(2) by simp
  have "small_int (out_Value v)" if "v \<in> set (elems (tx_Outputs tx))" for v
    using that tx(2) amt taken
    by (auto simp: pay_outputs_def MakeTxOutput_def small_int_def Picabu_Cmp_def ZERO_PICABU_def split: if_splits)
  moreover have "pred_option small_int (op_Index (in_Outpoint i))" if "i \<in> set (elems (tx_Inputs tx))" for i
  proof -
    have "map input_key (elems (tx_Inputs tx)) = map Some (map fst taken)"
      using tx(1) by (simp add: spent_keys_def mapM_Some_iff)
    then have "input_key i \<in> Some ` fst ` set taken"
      using that by (metis (no_types, lifting) image_eqI list.set_map)
    then obtain c where c: "c \<in> set taken" "input_key i = Some (fst c)" by auto
    have "c \<in> set utxos" using c(1) arg_cong [OF wc, of set] by auto
    then have "BuInt_range (key_Index (fst c))" by (intro idx) simp
    moreover have "(2 :: int) ^ 63 < 2 ^ 1023" by (intro power_strict_increasing) simp_all
    ultimately have "small_int (key_Index (fst c))"
      unfolding BuInt_range_def small_int_def abs_less_iff by linarith
    moreover have "pred_option (\<lambda>z. z = key_Index (fst c)) (op_Index (in_Outpoint i))"
      using c(2) by (cases "op_Index (in_Outpoint i)") (auto simp: input_key_def dest: arg_cong [where f = key_Index])
    ultimately show ?thesis by (cases "op_Index (in_Outpoint i)") simp_all
  qed
  ultimately show ?thesis by (simp add: small_tx_def)
qed

text \<open>With enough coins of which the outputs are stored, the payment goes through.\<close>

lemma SendPicabus_succeeds:
  assumes l: "ldb_ok env" "ldb_total env" and h: "hash_ok env"
    and key: "sign_ok env pub" "length (wl_privKey w) = 64" "wl_pubKey w = hex_EncodeToString (pub (wl_privKey w))"
    and inv: "chain_inv env (m_db (nd_mgr n))"
    and backed: "\<forall>c \<in> set (wallet_coins env (nd_mgr n) w). backed_coin env (m_db (nd_mgr n)) c"
    and amt: "0 \<le> amount" "0 \<le> fee" "0 < amount + fee" "amount + fee \<le> fst (GetBalance env (nd_mgr n) w)"
  obtains n' tx oid e where "SendPicabus env wd w target amount fee n = Returns (n', Inr (TxObj tx))"
    "tx_CachedID tx = Some oid" "hd (elems (tx_Outputs tx)) = MakeTxOutput target amount"
    "gm_get (db_mempool (m_db (nd_mgr n'))) oid = Some e" "me_Tx e = Some tx" "me_Fee e = fee"
    "\<And>k. entry_spends e k \<Longrightarrow> IsInputSpent (nd_mgr n') k"
proof -
  let ?m = "nd_mgr n"
  let ?coins = "wallet_coins env ?m w"
  have wf: "gm_wf utxos" if "active_utxos env ?m = Some utxos" for utxos
    using active_utxos_ok [OF inv that] by (auto simp: utxos_ok_def)
  have bal: "GetBalance env ?m w = (coin_sum ?coins, ?coins)" and wfc: "gm_wf ?coins"
    by (rule GetBalance_wallet, rule wf, assumption)+
  have enough: "amount + fee \<le> coin_sum ?coins" using amt(4) bal by simp
  obtain utxos where u: "active_utxos env ?m = Some utxos"
    using enough amt(3) by (cases "active_utxos env ?m") (auto simp: wallet_coins_def)
  obtain tx where b: "build_payment env w target amount (amount + fee) ?coins = Some (Inr tx)"
  proof -
    obtain inputs collected where pick: "pick_coins (amount + fee) ?coins [] (NewPicabu 0) = (inputs, collected)"
      by fastforce
    let ?msg = "TxMessageForSignature (MakeTransaction (appended inputs)
      (Some (pay_outputs target amount (wl_pubKey w) (Picabu_Sub collected (amount + fee)))))"
    obtain ins where "sign_inputs env ?msg (wl_privKey w) inputs = Some (Inr ins)"
      using sign_inputs_total [OF key(2)] by blast
    then show thesis by (intro that) (simp add: build_payment_def pick Let_def)
  qed
  obtain taken left where p: "?coins = taken @ left" "amount + fee \<le> coin_sum taken"
    "spent_keys (elems (tx_Inputs tx)) = Some (map fst taken)" "distinct (map fst taken)"
    "tx_Outputs tx = Some (pay_outputs target amount (wl_pubKey w) (coin_sum taken - (amount + fee)))"
    "tx_Type tx = OBJ_TRANSACTION" "tx_CachedID tx = None"
    using build_payment_parts [OF b enough wfc] by blast
  have own: "own_coin ?m w c \<and> c \<in> set utxos" if "c \<in> set ?coins" for c
    using wallet_coins_own [OF that] u by (metis option.inject)
  have acc: "tx_accepts env ?m tx fee"
    using payment_accepted [OF key _ wfc b enough amt(2)] own backed by blast
  have "small_tx tx"
    by (rule payment_small [OF inv u p(1,3,5)]) (use amt p(2) in simp_all)
  then obtain oid where oid: "HashObject env (TxObj tx) = Inr oid" using HashObject_small [OF h] by blast
  let ?tx = "tx\<lparr>tx_CachedID := Some oid\<rparr>"
  have val: "ValidateObject env (unix wd) ?m (TxObj tx) = Some (TxObj ?tx, zero_result\<lparr>vr_ObjID := oid, vr_Fee := fee\<rparr>)"
    by (rule ValidateObject_payment [OF acc oid p(7)])
  have ks: "spent_keys (elems (tx_Inputs ?tx)) = Some (map fst taken)" using p(3) by simp
  have free: "\<forall>k \<in> set (map fst taken). \<not> IsInputSpent ?m k \<and> gm_has utxos k"
  proof
    fix k assume "k \<in> set (map fst taken)"
    then obtain c where "c \<in> set ?coins" "k = fst c" using p(1) by auto
    with own [OF this(1)] show "\<not> IsInputSpent ?m k \<and> gm_has utxos k"
      by (auto simp: own_coin_def gm_has_iff split: prod.splits)
  qed
  obtain m' where m': "CommitObject env (w_now wd) ?m (TxObj ?tx) (zero_result\<lparr>vr_ObjID := oid, vr_Fee := fee\<rparr>) =
      Returns (m', True, E_NONE, None)"
    "gm_get (db_mempool (m_db m')) oid = Some \<lparr>me_TxID = oid, me_Tx = Some ?tx, me_Fee = fee, me_Timestamp = w_now wd\<rparr>"
    "\<forall>k \<in> set (map fst taken). gm_get (db_mempoolSpentInputs (m_db m')) k = Some oid"
  proof -
    have ok: "HashID_ok oid" using HashObject_ok [OF h oid] by simp
    let ?r = "zero_result\<lparr>vr_ObjID := oid, vr_Fee := fee\<rparr>"
    have "vr_ObjID ?r = oid" "tx_CachedID ?tx = Some oid" "vr_Fee ?r = fee" by simp_all
    note c = CommitObject_payment [OF l of_hash(2) [OF oid p(7)] this(2) ok ks free u this(1), where now = "w_now wd",
        unfolded this(3)]
    show thesis by (rule c) (rule that)
  qed
  have "SendPicabus env wd w target amount fee n = Returns (BroadcastObject wd (TxObj ?tx) (upd_mgr m' n), Inr (TxObj ?tx))"
    using enough b val m'(1) unfolding SendPicabus_def bal
    by (simp add: Picabu_Cmp_def Picabu_Add_def zero_result_def Let_def)
  moreover have "nd_mgr (BroadcastObject wd obj (upd_mgr m' n)) = m'" for obj
    by (simp add: wrote_same(1) [OF Broadcasts_wrote(2)])
  moreover have "gm_has (db_mempoolSpentInputs (m_db m')) k" if "k \<in> fst ` set taken" for k
    using m'(3) that by (auto simp: gm_has_def)
  ultimately show thesis
    using m'(2) p(3,5) by (intro that) (auto simp: pay_outputs_def entry_spends_def IsInputSpent_def)
qed

text \<open>On a node that keeps its invariant every coin of the wallet is an output of a stored transaction.\<close>

lemma wallet_coins_backed:
  assumes inv: "mgr_inv env m" and c: "c \<in> set (wallet_coins env m w)"
  shows "backed_coin env (m_db m) c"
proof -
  obtain utxos where u: "active_utxos env m = Some utxos" "c \<in> set utxos" using c by (rule wallet_coins_own)
  then obtain tip h us where us: "getUTXO env (m_db m) tip = Inr us" "utxos = us_UTXOs us"
    by (auto simp: active_utxos_Some)
  have "utxos_ok utxos" using active_utxos_ok [OF _ u(1)] inv by (metis mgr_inv_def)
  then have "gm_get (us_UTXOs us) (fst c) = Some (snd c)"
    using u(2) us(2) by (simp add: utxos_ok_def gm_get_def gm_wf_def)
  then show ?thesis
    using inv us(1) by (cases c) (auto simp: mgr_inv_def backing_inv_def utxos_backed_def outs_backed_def)
qed


lemma node_payment:
  assumes inv: "node_inv env n" and fee: "0 \<le> fee"
    and s: "SendPicabus env wd w target amount fee n = Returns (n', Inr obj)"
  shows "\<exists>tx coins. obj = TxObj tx \<and> spent_keys (elems (tx_Inputs tx)) = Some (map fst coins) \<and> distinct (map fst coins) \<and>
    (\<forall>(key, output) \<in> set coins. (key, output) \<in> set (snd (GetBalance env (nd_mgr n) w)) \<and>
       out_Pubkey output = wl_pubKey w \<and> \<not> IsInputSpent (nd_mgr n) key \<and>
       backed_coin env (m_db (nd_mgr n)) (key, output)) \<and>
    hd (elems (tx_Outputs tx)) = MakeTxOutput target amount \<and>
    (\<Sum>(key, output)\<leftarrow>coins. out_Value output) = (\<Sum>output\<leftarrow>elems (tx_Outputs tx). out_Value output) + fee"
proof -
  have m: "mgr_inv env (nd_mgr n)" and chain: "chain_inv env (m_db (nd_mgr n))"
    using inv by (simp_all add: node_inv_def mgr_inv_def)
  obtain tx coins where p: "obj = TxObj tx" "spent_keys (elems (tx_Inputs tx)) = Some (map fst coins)"
    "distinct (map fst coins)" "\<forall>c \<in> set coins. c \<in> set (wallet_coins env (nd_mgr n) w)"
    "tx_Outputs tx = Some (pay_outputs target amount (wl_pubKey w) (coin_sum coins - (amount + fee)))"
    "coin_sum coins = (\<Sum>v\<leftarrow>elems (tx_Outputs tx). out_Value v) + fee"
    using SendPicabus_pays [OF chain fee s] .
  have wf: "gm_wf utxos" if "active_utxos env (nd_mgr n) = Some utxos" for utxos
    using active_utxos_ok [OF chain that] by (metis utxos_ok_def)
  have own: "out_Pubkey v = wl_pubKey w \<and> \<not> IsInputSpent (nd_mgr n) key"
    if "(key, v) \<in> set coins" for key v
  proof -
    have "(key, v) \<in> set (wallet_coins env (nd_mgr n) w)" using p(4) that by blast
    then show ?thesis by (rule wallet_coins_own) (simp add: own_coin_def)
  qed
  have bal: "snd (GetBalance env (nd_mgr n) w) = wallet_coins env (nd_mgr n) w"
    by (simp add: GetBalance_wallet(1) wf)
  have coins: "\<forall>(key, output) \<in> set coins. (key, output) \<in> set (snd (GetBalance env (nd_mgr n) w)) \<and>
       out_Pubkey output = wl_pubKey w \<and> \<not> IsInputSpent (nd_mgr n) key \<and>
       backed_coin env (m_db (nd_mgr n)) (key, output)"
    unfolding bal using p(4) own wallet_coins_backed [OF m] by blast
  have hd: "hd (elems (tx_Outputs tx)) = MakeTxOutput target amount" using p(5) by (simp add: pay_outputs_def)
  show ?thesis
    by (rule exI [of _ tx], rule exI [of _ coins]) (intro conjI p(1-3) coins hd p(6) [unfolded coin_sum_def])
qed

lemma node_payment_succeeds:
  assumes "ldb_ok env" "ldb_total env" "hash_ok env" "sign_ok env pub" "node_inv env n"
    and "length (wl_privKey w) = 64" "wl_pubKey w = hex_EncodeToString (pub (wl_privKey w))"
    and "0 \<le> amount" "0 \<le> fee" "0 < amount + fee" "amount + fee \<le> fst (GetBalance env (nd_mgr n) w)"
  shows "\<exists>n' tx oid e. SendPicabus env wd w target amount fee n = Returns (n', Inr (TxObj tx)) \<and>
    hd (elems (tx_Outputs tx)) = MakeTxOutput target amount \<and> tx_CachedID tx = Some oid \<and>
    gm_get (db_mempool (m_db (nd_mgr n'))) oid = Some e \<and> me_Tx e = Some tx \<and> me_Fee e = fee \<and>
    (\<forall>k. entry_spends e k \<longrightarrow> IsInputSpent (nd_mgr n') k)"
proof -
  have inv: "chain_inv env (m_db (nd_mgr n))" "mgr_inv env (nd_mgr n)"
    using assms(5) by (simp_all add: node_inv_def mgr_inv_def)
  have backed: "\<forall>c \<in> set (wallet_coins env (nd_mgr n) w). backed_coin env (m_db (nd_mgr n)) c"
    using wallet_coins_backed [OF inv(2)] by blast
  show ?thesis
    by (rule SendPicabus_succeeds [OF assms(1-4,6,7) inv(1) backed assms(8-11), of wd target]) blast
qed

end
