(* ===== verification/PaymentSample.thy ===== *)
theory PaymentSample
  imports NodeSample Payment
begin

text \<open>
  A node with money: on the store that has the genesis block, the sample coinbase and the block that
  refers to it are committed, so the tip's UTXO set is one coin of the holder of \<open>pub1\<close>.
\<close>

section \<open>The block with a coinbase\<close>

definition coin_object :: Object where
  "coin_object = CoinbaseObj (coinbase1\<lparr>cb_CachedID := Some (sample_id 1)\<rparr>)"

definition coin_manager :: "(bytes, bytes) gomap Manager" where
  "coin_manager = manager1\<lparr>m_db := newDatabase
     (gm_set (sample_id 1) (print_json (Object_json coin_object)) (db_db (m_db manager1)))\<rparr>"

definition block_object :: Object where
  "block_object = BlockObj (block1\<lparr>blk_CachedID := Some (sample_id 2)\<rparr>)"

definition coin1 :: "OutpointKey \<times> TxOutput" where
  "coin1 = (key1, MakeTxOutput pub1 (50 * 10 ^ 12))"

definition block_result :: ValidationResult where
  "block_result = zero_result\<lparr>vr_ObjID := sample_id 2,
     vr_NewUTXOSet := Some \<lparr>us_BlockID = sample_id 2, us_UTXOs = [coin1], us_Height = 1\<rparr>,
     vr_NewHeight := 1, vr_IsNewTip := True\<rparr>"

definition manager3 :: "(bytes, bytes) gomap Manager" where
  "manager3 = coin_manager\<lparr>m_db := newDatabase
     (gm_set chaintipKey (print_json (Chaintip_json \<lparr>ct_BlockID = sample_id 2, ct_Height = 1\<rparr>))
     (gm_set (utxoKey (sample_id 2)) (print_json (UTXOStorageData_json (utxo_data
        \<lparr>us_BlockID = sample_id 2, us_UTXOs = [coin1], us_Height = 1\<rparr>)))
     (gm_set (sample_id 2) (print_json (Object_json block_object)) (db_db (m_db coin_manager)))))\<rparr>"

lemma sample_keys [simp]:
  "sample_id 1 \<noteq> chaintipKey" "sample_id 2 \<noteq> chaintipKey" "sample_id 1 \<noteq> utxoKey b" "sample_id 2 \<noteq> utxoKey b"
  "sample_id 1 \<noteq> genesisHash" "sample_id 2 \<noteq> genesisHash" "sample_id 1 \<noteq> sample_id 2" "chaintipKey \<noteq> utxoKey b"
proof -
  show "sample_id 1 \<noteq> chaintipKey" "sample_id 1 \<noteq> utxoKey b" using HashID_keys [OF sample_id_ok(3)] by metis+
  show "sample_id 2 \<noteq> chaintipKey" "sample_id 2 \<noteq> utxoKey b" using HashID_keys [OF sample_id_ok(5)] by metis+
  show "sample_id 1 \<noteq> genesisHash" "sample_id 2 \<noteq> genesisHash" "sample_id 1 \<noteq> sample_id 2" by code_simp+
  show "chaintipKey \<noteq> utxoKey b" by (simp add: chaintipKey_def utxoKey_def)
qed

lemmas sample_keys' [simp] = sample_keys [symmetric] sample_keys [unfolded One_nat_def]
  sample_keys [symmetric, unfolded One_nat_def]

lemma coin_ids:
  "GetObjectID mem_env (CoinbaseObj coinbase1) = (coin_object, Inr (sample_id 1))"
  "GetObjectID mem_env coin_object = (coin_object, Inr (sample_id 1))"
  "GetObjectID mem_env (BlockObj block1) = (block_object, Inr (sample_id 2))"
  "GetObjectID mem_env block_object = (block_object, Inr (sample_id 2))"
  "HashObject mem_env coin_object = Inr (sample_id 1)"
  "HashObject mem_env block_object = Inr (sample_id 2)"
  using sample_ids(2,3)
  by (simp_all add: GetObjectID_def coin_object_def block_object_def coinbase1_def MakeCoinbaseTransaction_def
      block1_def MakeBlock_def HashObject_def CoinbaseTransaction_json_def Block_json_def)

lemma coin_commit:
  "ValidateObject mem_env t0 manager1 (CoinbaseObj coinbase1) = Some (coin_object, zero_result\<lparr>vr_ObjID := sample_id 1\<rparr>)"
  "CommitObject mem_env now manager1 coin_object (zero_result\<lparr>vr_ObjID := sample_id 1\<rparr>) =
     Returns (coin_manager, False, E_NONE, None)"
proof -
  show "ValidateObject mem_env t0 manager1 (CoinbaseObj coinbase1) = Some (coin_object, zero_result\<lparr>vr_ObjID := sample_id 1\<rparr>)"
    using coin_ids(1) by (simp add: ValidateObject_def coin_object_def ValidateCoinbase_def zero_result_def)
  show "CommitObject mem_env now manager1 coin_object (zero_result\<lparr>vr_ObjID := sample_id 1\<rparr>) =
     Returns (coin_manager, False, E_NONE, None)"
    using coin_ids(5)
    by (auto simp: CommitObject_def coin_object_def putObject_def put_key_def HashObject_def coin_manager_def
        newDatabase_def manager1_def upd_db_def split: option.splits)
qed

lemma coin_in: "object_in mem_env (CoinbaseObj coinbase1)" "object_in mem_env (BlockObj block1)"
  using sample_objects by (auto simp: object_in_def cache_ok_def coinbase1_def MakeCoinbaseTransaction_def block1_def MakeBlock_def)

lemma sample_fresh:
  "ldb_get mem_env (db_db (m_db manager1)) (sample_id 1) = Inl LdbNotFound"
  "ldb_get mem_env (db_db (m_db coin_manager)) (sample_id 2) = Inl LdbNotFound"
  by (simp_all add: manager1_def coin_manager_def newDatabase_def)

lemma coin_manager_inv: "mgr_inv mem_env coin_manager"
proof -
  have m: "chain_inv mem_env (m_db manager1)" "backing_inv mem_env (m_db manager1)" "mempool_inv (m_db manager1)"
    using manager1_mgr_inv by (simp_all add: mgr_inv_def)
  have ok: "vr_Error (zero_result\<lparr>vr_ObjID := sample_id 1\<rparr>) = None" by (simp add: zero_result_def)
  have "chain_inv mem_env (m_db coin_manager)"
    by (rule CommitObject_chain(1) [OF mem_ldb_ok(1) mem_hash_ok m(1) coin_in(1) coin_commit(1) ok _ coin_commit(2)])
      (use sample_fresh in simp)
  moreover have "backing_inv mem_env (m_db coin_manager)"
    by (rule CommitObject_backing [OF mem_ldb_ok(1) mem_hash_ok m(1,2) coin_in(1) coin_commit(1) ok _ coin_commit(2)])
      (use sample_fresh in simp)
  ultimately show ?thesis
    using CommitObject_mempool [OF coin_commit(2) m(3)]
    by (simp add: mgr_inv_def pending_ok_def coin_manager_def newDatabase_def)
qed

section \<open>The block is committed\<close>

lemma coin_reads:
  "getObject mem_env (m_db coin_manager) genesisHash = Inr (BlockObj genesis)"
  "getObject mem_env (m_db coin_manager) (sample_id 1) = Inr (CoinbaseObj coinbase1)"
  "getUTXO mem_env (m_db coin_manager) genesisHash = Inr \<lparr>us_BlockID = genesisHash, us_UTXOs = [], us_Height = 0\<rparr>"
  "getChaintip mem_env (m_db coin_manager) = Inr (genesisHash, 0)"
proof -
  show "getObject mem_env (m_db coin_manager) genesisHash = Inr (BlockObj genesis)"
    using manager1_reads(1) by (simp add: getObject_def coin_manager_def newDatabase_def)
  have "decodeObject (print_json (Object_json coin_object)) = Inr (CoinbaseObj coinbase1)"
    using decodeObject_json [of coin_object] Object_ok_uncached [of "CoinbaseObj coinbase1"] sample_objects(3)
    by (simp add: coin_object_def coinbase1_def MakeCoinbaseTransaction_def)
  then show "getObject mem_env (m_db coin_manager) (sample_id 1) = Inr (CoinbaseObj coinbase1)"
    by (simp add: getObject_def coin_manager_def newDatabase_def)
  show "getUTXO mem_env (m_db coin_manager) genesisHash = Inr \<lparr>us_BlockID = genesisHash, us_UTXOs = [], us_Height = 0\<rparr>"
    using manager1_reads(2) by (simp add: getUTXO_def coin_manager_def newDatabase_def)
  show "getChaintip mem_env (m_db coin_manager) = Inr (genesisHash, 0)"
    using manager1_reads(3) by (simp add: getChaintip_def coin_manager_def newDatabase_def)
qed

lemma block_PoW: "VerifyPoW (sample_id 2) = Inr True"
  by code_simp

lemma block_validated:
  "ValidateBlock mem_env t0 coin_manager (block1\<lparr>blk_CachedID := Some (sample_id 2)\<rparr>) =
     Some (block_result\<lparr>vr_ObjID := vr_ObjID zero_result\<rparr>)"
proof -
  let ?b = "block1\<lparr>blk_CachedID := Some (sample_id 2)\<rparr>"
  have b: "blk_Created ?b = 1771159356" "blk_Previd ?b = Some genesisHash" "blk_Txids ?b = Some [sample_id 1]"
    by (simp_all add: block1_def MakeBlock_def)
  have id: "snd (GetObjectID mem_env (BlockObj ?b)) = Inr (sample_id 2)" "snd (GetObjectID mem_env (CoinbaseObj coinbase1)) = Inr (sample_id 1)"
    using coin_ids by (simp_all add: block_object_def)
  have parent: "check_parent mem_env coin_manager zero_result ?b = Some None"
    using coin_reads(1) b by (simp add: check_parent_def GetObject_def)
  have start: "block_start mem_env coin_manager zero_result (sample_id 2) ?b = Inr ([], 1)"
    using coin_reads(3) b by (simp add: block_start_def)
  have tx: "block_txs mem_env coin_manager zero_result 1 0 [sample_id 1] (st :: block_state) =
      Some (Inr (st\<lparr>bs_hasCoinbase := True, bs_cbTx := Some coinbase1, bs_cbID := sample_id 1, bs_utxos := [coin1]\<rparr>))"
    if "bs_utxos st = []" for st
    using that coin_reads(2) id(2)
    by (simp add: block_tx_def GetObject_def Let_def coin1_def key1_def gm_set_def gm_del_def)
      (simp add: coinbase1_def MakeCoinbaseTransaction_def uint64_of_int_def id_value_def gm_set_def gm_del_def)
  show "ValidateBlock mem_env t0 coin_manager ?b = Some (block_result\<lparr>vr_ObjID := vr_ObjID zero_result\<rparr>)"
    unfolding ValidateBlock_def Let_def
    using b id parent start tx coin_reads(4) block_PoW
    by (simp add: t0_def block_finish_def GetChaintip_def Let_def block_result_def zero_result_def coinbase1_def
        MakeCoinbaseTransaction_def MakeTxOutput_def BlockRewardBigInt_def BLOCK_REWARD_UINT64_def Picabu_Cmp_def)
qed

lemma block_validate:
  "ValidateObject mem_env t0 coin_manager (BlockObj block1) = Some (block_object, block_result)"
  using coin_ids(3,4) block_validated by (simp add: ValidateObject_def block_object_def block_result_def)

lemma remove_tx_absent:
  assumes "\<not> gm_has (db_db (m_db m)) (mempoolKey txid)" "\<not> gm_has (db_db (m_db m)) (feeKey txid)" "db_mempool (m_db m) = []"
  shows "remove_tx mem_env txid m = Some m"
proof -
  have "upd_db (m_db m\<lparr>db_db := db_db (m_db m), db_mempool := []\<rparr>) m = m"
    using assms(3) by (cases m; cases "m_db m") (simp add: upd_db_def)
  then show ?thesis
    using assms by (simp add: remove_tx_def RemoveFromMempool_def removeMempoolEntry_def delete_key_def gm_del_notin)
qed

lemma sample_mempool_keys:
  "\<not> gm_has (db_db (m_db manager3)) (mempoolKey (sample_id 1))" "\<not> gm_has (db_db (m_db manager3)) (feeKey (sample_id 1))"
proof -
  have "h \<noteq> mempoolKey x \<and> h \<noteq> feeKey x \<and> mempoolKey x \<noteq> h \<and> feeKey x \<noteq> h"
    if "HashID_ok h" for h x using HashID_keys [OF that] by metis
  note k = this [OF sample_id_ok(1)] this [OF sample_id_ok(3)] this [OF sample_id_ok(5)]
  show "\<not> gm_has (db_db (m_db manager3)) (mempoolKey (sample_id 1))" "\<not> gm_has (db_db (m_db manager3)) (feeKey (sample_id 1))"
    using k by (simp_all add: manager3_def coin_manager_def manager1_def newDatabase_def)
qed

lemma block_commit:
  "CommitObject mem_env now coin_manager block_object block_result = Returns (manager3, True, E_NONE, None)"
proof -
  let ?c = "\<lparr>ct_BlockID = genesisHash, ct_Height = 0\<rparr>"
  obtain canon where canon: "Canonicalize (Object_json block_object) = Some canon"
    "HashString mem_env canon = Inr (sample_id 2)"
    using coin_ids(6) by (auto simp: HashObject_def split: option.splits)
  have tip: "parse_json (print_json (Chaintip_json ?c)) \<bind> Chaintip_Unmarshal = Some ?c"
    using chaintip_codec.dec_enc [of ?c] sample_id_ok(1) by (simp add: parse_json_print)
  have b: "blk_Previd block1 = Some genesisHash" "blk_Txids block1 = Some [sample_id 1]"
    by (simp_all add: block1_def MakeBlock_def)
  have g: "CommitObject mem_env now coin_manager block_object block_result =
      commitBlock mem_env now (upd_db (newDatabase (gm_set (sample_id 2) (print_json (Object_json block_object))
        (db_db (m_db coin_manager)))) coin_manager) (block1\<lparr>blk_CachedID := Some (sample_id 2)\<rparr>) block_result"
    using canon by (simp add: CommitObject_def putObject_def put_key_def block_object_def newDatabase_def coin_manager_def)
  let ?d1 = "newDatabase (gm_set (sample_id 2) (print_json (Object_json block_object)) (db_db (m_db coin_manager)))"
  let ?d2 = "newDatabase (gm_set (utxoKey (sample_id 2)) (print_json (UTXOStorageData_json (utxo_data
        \<lparr>us_BlockID = sample_id 2, us_UTXOs = [coin1], us_Height = 1\<rparr>))) (db_db ?d1))"
  have put: "putUTXO mem_env (m_db (upd_db ?d1 coin_manager)) (vr_ObjID block_result)
      \<lparr>us_BlockID = sample_id 2, us_UTXOs = [coin1], us_Height = 1\<rparr> = (?d2, None)"
    by (simp add: putUTXO_def put_key_def newDatabase_def upd_db_def block_result_def)
  have up: "update_tip mem_env (upd_db ?d2 (upd_db ?d1 coin_manager)) (block1\<lparr>blk_CachedID := Some (sample_id 2)\<rparr>) block_result =
      Some (manager3, False, None)"
    by (simp add: put_key_def newDatabase_def upd_db_def update_tip_def GetChaintip_def getChaintip_def putChaintip_def
        call_minerCancel_def manager0_def NewManager_def tip manager3_def coin_manager_def manager1_def b block_result_def)
  have mem: "db_mempool (m_db manager3) = []" by (simp add: manager3_def newDatabase_def)
  have res: "vr_NewUTXOSet block_result = Some \<lparr>us_BlockID = sample_id 2, us_UTXOs = [coin1], us_Height = 1\<rparr>" "vr_IsNewTip block_result"
    by (simp_all add: block_result_def)
  show ?thesis
    unfolding g commitBlock_def
    using put up res b remove_tx_absent [OF sample_mempool_keys mem] CleanMempool_empty [OF mem]
    by (simp add: of_panic_def)
qed

lemma manager3_inv: "mgr_inv mem_env manager3"
proof -
  have m: "chain_inv mem_env (m_db coin_manager)" "backing_inv mem_env (m_db coin_manager)" "mempool_inv (m_db coin_manager)"
    using coin_manager_inv by (simp_all add: mgr_inv_def)
  have r: "vr_Error block_result = None" "vr_ObjID block_result = sample_id 2" by (simp_all add: block_result_def zero_result_def)
  have "chain_inv mem_env (m_db manager3)"
    by (rule CommitObject_chain(1) [OF mem_ldb_ok(1) mem_hash_ok m(1) coin_in(2) block_validate r(1) _ block_commit])
      (use sample_fresh r in simp)
  moreover have "backing_inv mem_env (m_db manager3)"
    by (rule CommitObject_backing [OF mem_ldb_ok(1) mem_hash_ok m(1,2) coin_in(2) block_validate r(1) _ block_commit])
      (use sample_fresh r in simp)
  ultimately show ?thesis
    using CommitObject_mempool [OF block_commit m(3)]
    by (simp add: mgr_inv_def pending_ok_def manager3_def newDatabase_def)
qed

section \<open>Its wallet\<close>

definition wallet1 :: Wallet where
  "wallet1 = New_Wallet (replicate 64 CHR 0xAA) pub1"

definition node3 :: "(bytes, bytes) gomap node" where
  "node3 = start_node manager3 sample_discovery"

lemma node3_inv: "node_inv mem_env node3" "nd_mgr node3 = manager3"
  using start_node_inv [OF manager3_inv] by (simp_all add: node3_def start_node_def)

lemma wallet1_key: "sign_ok mem_env (drop 32)" "length (wl_privKey wallet1) = 64"
    "wl_pubKey wallet1 = hex_EncodeToString (drop 32 (wl_privKey wallet1))"
proof -
  show "sign_ok mem_env (drop 32)" by (simp add: sign_ok_def mem_env_def)
  have w: "wl_privKey wallet1 = replicate 64 CHR 0xAA" "wl_pubKey wallet1 = pub1"
    by (simp_all add: wallet1_def New_Wallet_def AddAlias_def)
  have "pub1 = hex_EncodeToString (drop 32 (replicate 64 CHR 0xAA))" by code_simp
  then show "length (wl_privKey wallet1) = 64" "wl_pubKey wallet1 = hex_EncodeToString (drop 32 (wl_privKey wallet1))"
    by (simp_all add: w)
qed

lemma manager3_reads:
  "getUTXO mem_env (m_db manager3) (sample_id 2) = Inr \<lparr>us_BlockID = sample_id 2, us_UTXOs = [coin1], us_Height = 1\<rparr>"
  "getChaintip mem_env (m_db manager3) = Inr (sample_id 2, 1)"
  "getUTXO mem_env (m_db manager3) genesisHash = Inr \<lparr>us_BlockID = genesisHash, us_UTXOs = [], us_Height = 0\<rparr>"
  "getObject mem_env (m_db manager3) (sample_id 2) = Inr (BlockObj block1)"
  "getObject mem_env (m_db manager3) genesisHash = Inr (BlockObj genesis)"
proof -
  let ?u = "\<lparr>us_BlockID = sample_id 2, us_UTXOs = [coin1], us_Height = 1\<rparr>"
  have "UTXOSet_ok ?u"
    using sample_id_ok sample_texts
    by (simp add: UTXOSet_ok_def coin1_def key1_def OutpointKey_ok_def TxOutput_ok_def MakeTxOutput_def gm_wf_def BuInt_range_def)
  from getUTXO_text [OF _ this, of mem_env "m_db manager3" "sample_id 2"]
  show "getUTXO mem_env (m_db manager3) (sample_id 2) = Inr ?u"
    by (simp add: manager3_def newDatabase_def)
  show "getChaintip mem_env (m_db manager3) = Inr (sample_id 2, 1)"
    using sample_id_ok(5) by (simp add: getChaintip_def manager3_def newDatabase_def parse_json_print chaintip_codec.dec_enc)
  have k: "utxoKey genesisHash \<noteq> utxoKey (sample_id 2)" by (simp add: utxoKey_def)
  show "getUTXO mem_env (m_db manager3) genesisHash = Inr \<lparr>us_BlockID = genesisHash, us_UTXOs = [], us_Height = 0\<rparr>"
    using coin_reads(3) k by (simp add: getUTXO_def manager3_def newDatabase_def)
  have "decodeObject (print_json (Object_json block_object)) = Inr (BlockObj block1)"
    using decodeObject_json [of block_object] Object_ok_uncached [of "BlockObj block1"] sample_objects(2)
    by (simp add: block_object_def block1_def MakeBlock_def)
  then show "getObject mem_env (m_db manager3) (sample_id 2) = Inr (BlockObj block1)"
    by (simp add: getObject_def manager3_def newDatabase_def)
  show "getObject mem_env (m_db manager3) genesisHash = Inr (BlockObj genesis)"
    using coin_reads(1) by (simp add: getObject_def manager3_def newDatabase_def)
qed

lemma manager3_parents:
  "parent_of mem_env manager3 (sample_id 2) = Some genesisHash" "parent_of mem_env manager3 genesisHash = None"
  using manager3_reads(4,5) by (simp_all add: parent_of_def GetObject_Inr [THEN iffD2] block1_def MakeBlock_def)

lemma manager3_utxos: "active_utxos mem_env manager3 = Some [coin1]"
  using manager3_reads(1,2) by (simp add: active_utxos_Some)

lemma wallet1_balance: "GetBalance mem_env manager3 wallet1 = (50 * 10 ^ 12, [coin1])"
proof -
  have "own_coin manager3 wallet1 coin1"
    by (simp add: own_coin_def coin1_def MakeTxOutput_def wallet1_def New_Wallet_def AddAlias_def IsInputSpent_def
        manager3_def newDatabase_def)
  then show ?thesis
    using GetBalance_coins [OF manager3_utxos] by (simp add: gm_wf_def coin1_def MakeTxOutput_def)
qed

end
