(* ===== verification/Miner.thy ===== *)
theory Miner
  imports Node "HOL-Library.Sublist"
begin

text \<open>
  \<^verbatim>\<open>internal/miner/miner.go\<close> and \<^verbatim>\<open>internal/utils/random.go\<close>: the block template, the search for a
  nonce in its canonical bytes, and the commit of what was found. The miner holds a pointer to the
  Manager; here the Manager, or the node, is an argument of its own.

  A worker runs until its context is done or it finds a nonce, so its loop is a partial function
  whose \<open>None\<close> means that it never stops; \<open>stop i\<close> says whether the context is done at turn \<open>i\<close>. What
  the \<^verbatim>\<open>select\<close> of \<^verbatim>\<open>Mine\<close> receives from its workers, and the counts of hashes they report, are an
  argument. The rest of the node may take steps while the workers run: \<open>Mine_job\<close> is what comes
  before, \<open>Mine_commit\<close> what comes after.

  Results: the nonce a worker finds is the one whose block has the hash it compared, so that the
  block has proof of work (\<open>found_nonce\<close>).
\<close>

section \<open>The template\<close>

record Miner =
  mn_Pubkey :: HashID
  mn_Agent :: BuString
  mn_StudentIDs :: "BuString slice"
  mn_Note :: BuString

definition New :: "'d Manager \<Rightarrow> HashID \<Rightarrow> Miner" where
  "New m pubkey = \<lparr>mn_Pubkey = pubkey, mn_Agent = cfg_AgentName (Config m),
     mn_StudentIDs = cfg_StudentIDs (Config m), mn_Note = cfg_Note (Config m)\<rparr>"

definition block_header :: "int \<Rightarrow> NodeConfig \<Rightarrow> Block" where
  "block_header now config =
     \<lparr>blk_Type = OBJ_BLOCK, blk_T = TARGET, blk_Created = now,
      blk_Miner = (if cfg_AgentName config \<noteq> [] then Some (cfg_AgentName config) else None),
      blk_Nonce = [],
      blk_Note = (if cfg_Note config \<noteq> [] then Some (cfg_Note config) else None),
      blk_Previd = None,
      blk_Studentids = (if elems (cfg_StudentIDs config) \<noteq> [] then Some (cfg_StudentIDs config) else None),
      blk_Txids = None, blk_CachedID = None\<rparr>"

text \<open>The coinbase that pays the reward and the fees of the mempool.\<close>

definition block_reward :: "MempoolEntry list \<Rightarrow> Picabu" where
  "block_reward mempool = foldl (\<lambda>reward entry. Picabu_Add reward (me_Fee entry)) BlockReward mempool"

definition block_body ::
  "'d env \<Rightarrow> int \<Rightarrow> 'd Manager \<Rightarrow> Miner \<Rightarrow> uint64 \<Rightarrow> Block \<Rightarrow> (Block \<times> CoinbaseTransaction) result option" where
  "block_body env now m mn height block =
     (let mempool = elems (GetMempoolEntries m);
          output = MakeTxOutput (mn_Pubkey mn) (block_reward mempool);
          coinbase = MakeCoinbaseTransaction (BuInt_of_uint64 height) (Some [output])
      in case ValidateObject env now m (CoinbaseObj coinbase) of
           None \<Rightarrow> None
         | Some (obj, res) \<Rightarrow>
             if vr_Error res \<noteq> None then Some (Inl (Errorf ''miner generated invalid coinbase''))
             else (case GetObjectID env obj of
               (_, Inl _) \<Rightarrow> Some (Inl (Errorf ''miner failed to commit coinbase''))
             | (CoinbaseObj coinbase, Inr coinbaseHash) \<Rightarrow>
                 Some (Inr (block\<lparr>blk_Txids := Some (coinbaseHash # map me_TxID mempool),
                   blk_Note := Some (mn_Note mn)\<rparr>, coinbase))
             | (_, Inr _) \<Rightarrow> None))"

definition BuildBlock ::
  "'d env \<Rightarrow> int \<Rightarrow> 'd Manager \<Rightarrow> Miner \<Rightarrow> (Block \<times> CoinbaseTransaction) result option" where
  "BuildBlock env now m mn =
     (let block = block_header now (Config m)
      in case GetChaintip env m of
           Inl err \<Rightarrow> if err = ErrNotFound then block_body env now m mn 0 block else Some (Inl err)
         | Inr (previd, height) \<Rightarrow>
             block_body env now m mn (height + 1) (block\<lparr>blk_Previd := Some previd\<rparr>))"

section \<open>Nonces\<close>

fun hex_of_nat :: "nat \<Rightarrow> string" where
  "hex_of_nat n = (if n < 16 then [hex_digit n] else hex_of_nat (n div 16) @ [hex_digit (n mod 16)])"

declare hex_of_nat.simps [simp del]

text \<open>\<^verbatim>\<open>%064x\<close>, for numbers that are not negative.\<close>

definition hex64 :: "nat \<Rightarrow> string" where
  "hex64 n = (let s = hex_of_nat n in replicate (64 - length s) CHR ''0'' @ s)"

definition SetNonce :: "nat \<Rightarrow> Block \<Rightarrow> Block" where
  "SetNonce nonce block = block\<lparr>blk_Nonce := hex64 nonce\<rparr>"

text \<open>\<^verbatim>\<open>SetBytes\<close> and \<^verbatim>\<open>FillBytes\<close> of \<^verbatim>\<open>big.Int\<close>: big-endian.\<close>

definition SetBytes :: "bytes \<Rightarrow> nat" where
  "SetBytes bs = foldl (\<lambda>n b. n * 256 + of_char b) 0 bs"

fun fill :: "nat \<Rightarrow> nat \<Rightarrow> bytes" where
  "fill 0 n = []"
| "fill (Suc k) n = fill k (n div 256) @ [char_of (n mod 256)]"

definition FillBytes :: "nat \<Rightarrow> nat \<Rightarrow> bytes option" where
  "FillBytes k n = (if n < 256 ^ k then Some (fill k n) else None)"

text \<open>\<open>random\<close> are the bytes that \<^verbatim>\<open>rand.Read\<close> gives.\<close>

definition GenerateRandomNonce :: "bytes \<Rightarrow> nat" where
  "GenerateRandomNonce random = SetBytes random"

section \<open>A worker\<close>

datatype worker_end = Stopped | FoundNonce string | WorkerPanics

text \<open>\<^verbatim>\<open>hex.Encode\<close> into the 64 bytes of the worker's copy at the offset; \<open>None\<close> if the copy is too short.\<close>

definition put_nonce :: "string \<Rightarrow> nat \<Rightarrow> string \<Rightarrow> string option" where
  "put_nonce text off s =
     (if length text < off + 64 then None else Some (take off text @ s @ drop (off + 64) text))"

partial_function (option) mine_loop ::
  "'d env \<Rightarrow> (nat \<Rightarrow> bool) \<Rightarrow> nat \<Rightarrow> nat \<Rightarrow> nat \<Rightarrow> string \<Rightarrow> nat \<Rightarrow> uint64 \<Rightarrow> uint64 list \<Rightarrow>
     (worker_end \<times> uint64 list) option" where
  "mine_loop env stop off target i workerBytes nonce localHashes tracker =
     (if stop i then Some (Stopped, tracker @ [localHashes])
      else (case FillBytes 32 (nonce + 1) of
        None \<Rightarrow> Some (WorkerPanics, tracker)
      | Some rawNonceBytes \<Rightarrow> (case put_nonce workerBytes off (hex_EncodeToString rawNonceBytes) of
          None \<Rightarrow> Some (WorkerPanics, tracker)
        | Some workerBytes \<Rightarrow> (case blake2s env workerBytes of
            None \<Rightarrow> Some (WorkerPanics, tracker)
          | Some hashResult \<Rightarrow>
              let localHashes = localHashes + 1;
                  (localHashes, tracker) =
                    (if localHashes mod 1000 = 0 then (0, tracker @ [1000]) else (localHashes, tracker))
              in if SetBytes hashResult < target
                 then Some (FoundNonce (hex64 (nonce + 1)), tracker @ [localHashes])
                 else mine_loop env stop off target (Suc i) workerBytes (nonce + 1) localHashes tracker))))"

definition mineWorker ::
  "'d env \<Rightarrow> (nat \<Rightarrow> bool) \<Rightarrow> bytes \<Rightarrow> string \<Rightarrow> nat \<Rightarrow> nat \<Rightarrow> (worker_end \<times> uint64 list) option" where
  "mineWorker env stop random templateBytes nonceOffset target =
     mine_loop env stop nonceOffset target 0 templateBytes (GenerateRandomNonce random) 0 []"

section \<open>A round of mining\<close>

text \<open>\<^verbatim>\<open>bytes.Index\<close>; \<open>None\<close> is -1.\<close>

fun bytes_Index :: "string \<Rightarrow> string \<Rightarrow> nat option" where
  "bytes_Index s sep =
     (if take (length sep) s = sep then Some 0
      else (case s of [] \<Rightarrow> None | _ # s' \<Rightarrow> map_option Suc (bytes_Index s' sep)))"

declare bytes_Index.simps [simp del]

record job =
  job_block :: Block
  job_coinbase :: CoinbaseTransaction
  job_template :: string
  job_offset :: nat

definition Mine_job :: "'d env \<Rightarrow> int \<Rightarrow> 'd Manager \<Rightarrow> Miner \<Rightarrow> job result option" where
  "Mine_job env now m mn = (case BuildBlock env now m mn of
     None \<Rightarrow> None
   | Some (Inl err) \<Rightarrow> Some (Inl err)
   | Some (Inr (block, coinbase)) \<Rightarrow>
       let block = block\<lparr>blk_Nonce := DUMMY_HASH\<rparr>
       in (case Canonicalize (Block_json block) of
            None \<Rightarrow> Some (Inl (Errorf ''failed to canonicalize template''))
          | Some templateBytes \<Rightarrow> (case bytes_Index templateBytes DUMMY_HASH of
              None \<Rightarrow> Some (Inl (Errorf ''failed to find nonce offset in canonicalized block''))
            | Some nonceOffset \<Rightarrow> Some (Inr \<lparr>job_block = block, job_coinbase = coinbase,
                job_template = templateBytes, job_offset = nonceOffset\<rparr>))))"

text \<open>The winner's block is stored, validated and committed, counted, and sent to the peers.\<close>

definition Mine_commit ::
  "'d env \<Rightarrow> world \<Rightarrow> job \<Rightarrow> string \<Rightarrow> 'd node \<Rightarrow> ('d node \<times> error option) outcome" where
  "Mine_commit env w j winningNonce n =
     (case GetObjectID env (BlockObj ((job_block j)\<lparr>blk_Nonce := winningNonce\<rparr>)) of (block, finalHash) \<Rightarrow>
       let n = upd_mgr (fst (StoreObject env (nd_mgr n) (CoinbaseObj (job_coinbase j)))) n
       in case ValidateObject env (unix w) (nd_mgr n) block of
            None \<Rightarrow> Panics
          | Some (block, res) \<Rightarrow>
              if vr_Error res \<noteq> None then Returns (n, vr_Error res)
              else and_then (CommitObject env (w_now w) (nd_mgr n) block res) (\<lambda>(m, gossip, errCode, err).
                let n = upd_mgr m n
                in if err \<noteq> None \<or> errCode \<noteq> E_NONE then Returns (n, err)
                   else (case elems (cb_Outputs (job_coinbase j)) of
                       [] \<Rightarrow> Panics
                     | output # _ \<Rightarrow>
                         let n = upd_mgr (AddMinedBlock \<lparr>mb_Hash = id_value finalHash, mb_Height = vr_NewHeight res,
                               mb_Reward = out_Value output, mb_Timestamp = w_now w\<rparr> (nd_mgr n)) n
                         in Returns (if gossip then BroadcastObject w block n else n, None))))"

text \<open>
  \<open>race\<close>: for the template and the offset, the nonce received (\<open>None\<close> if the context was done first)
  and the counts of hashes that the workers reported. The state of mining is reset at the end.
\<close>

definition Mine ::
  "'d env \<Rightarrow> world \<Rightarrow> Miner \<Rightarrow> (string \<Rightarrow> nat \<Rightarrow> string option \<times> uint64 list) \<Rightarrow> 'd node \<Rightarrow>
     ('d node \<times> error option) outcome" where
  "Mine env w mn race n =
     (let idle = (\<lambda>n. upd_mgr (SetMiningState (w_now w) False (nd_mgr n)) n);
          n = upd_mgr (SetMiningState (w_now w) True (nd_mgr n)) n
      in case Mine_job env (unix w) (nd_mgr n) mn of
           None \<Rightarrow> Panics
         | Some (Inl err) \<Rightarrow> Returns (idle n, Some err)
         | Some (Inr j) \<Rightarrow>
             (case race (job_template j) (job_offset j) of
                (winner, hashes) \<Rightarrow>
                  let n = upd_mgr (fold AddMiningHashes hashes (nd_mgr n)) n
                  in case winner of
                       None \<Rightarrow> Returns (idle n, Some (Errorf ''mining interrupted''))
                     | Some nonce \<Rightarrow>
                         and_then (Mine_commit env w j nonce n) (\<lambda>(n, err). Returns (idle n, err))))"

text \<open>One turn of the loop of \<^verbatim>\<open>StartMining\<close>; \<open>ctx\<close> is the number of the turn's context.\<close>

definition StartMining ::
  "'d env \<Rightarrow> world \<Rightarrow> nat \<Rightarrow> Miner \<Rightarrow> (string \<Rightarrow> nat \<Rightarrow> string option \<times> uint64 list) \<Rightarrow> 'd node \<Rightarrow> 'd node outcome" where
  "StartMining env w ctx mn race n =
     and_then (Mine env w mn race (upd_mgr (SetMiningCancel ctx (nd_mgr n)) n)) (\<lambda>(n, err). Returns n)"

section \<open>Nonce texts\<close>

text \<open>The low \<open>k\<close> hexadecimal digits.\<close>

fun hexs :: "nat \<Rightarrow> nat \<Rightarrow> string" where
  "hexs 0 n = []"
| "hexs (Suc k) n = hexs k (n div 16) @ [hex_digit (n mod 16)]"

lemma hexs_0: "hexs k 0 = replicate k CHR ''0''"
proof (induction k)
  case (Suc k)
  have "hex_digit 0 = CHR ''0''" by code_simp
  with Suc show ?case by (simp add: replicate_append_same)
qed simp

lemma hex_of_nat_padded:
  "n < 16 ^ k \<Longrightarrow> 0 < k \<Longrightarrow> length (hex_of_nat n) \<le> k \<and>
     replicate (k - length (hex_of_nat n)) CHR ''0'' @ hex_of_nat n = hexs k n"
proof (induction k arbitrary: n)
  case (Suc k)
  show ?case
  proof (cases "n < 16")
    case True
    then show ?thesis by (simp add: hex_of_nat.simps hexs_0)
  next
    case False
    then have "0 < k" using Suc.prems(1) by (cases k) auto
    moreover have "n div 16 < 16 ^ k" using Suc.prems(1) by (simp add: less_mult_imp_div_less mult.commute)
    ultimately have "length (hex_of_nat (n div 16)) \<le> k \<and>
        replicate (k - length (hex_of_nat (n div 16))) CHR ''0'' @ hex_of_nat (n div 16) = hexs k (n div 16)"
      using Suc.IH by blast
    then show ?thesis using False by (subst (1 2 3) hex_of_nat.simps) auto
  qed
qed simp

lemma hex_encode_append: "hex_EncodeToString (xs @ ys) = hex_EncodeToString xs @ hex_EncodeToString ys"
  by (simp add: hex_EncodeToString_def)

lemma hex_encode_fill: "hex_EncodeToString (fill k n) = hexs (2 * k) n"
proof (induction k arbitrary: n)
  case 0
  then show ?case by (simp add: hex_EncodeToString_def)
next
  case (Suc k)
  have "n mod 256 div 16 = n div 16 mod 16" "n mod 256 mod 16 = n mod 16"
    using mod_mult2_eq [of n 16 16] by (simp_all add: mod_mod_cancel)
  moreover have "n div 16 div 16 = n div 256" by (simp add: div_mult2_eq [symmetric])
  ultimately show ?case using Suc [of "n div 256"]
    by (simp add: hex_encode_append) (simp add: hex_EncodeToString_def)
qed

lemma nonce_text:
  assumes "FillBytes 32 n = Some bs"
  shows "hex_EncodeToString bs = hex64 n" "length (hex64 n) = 64" "Nonce_ok (hex64 n)"
proof -
  have n: "n < 16 ^ 64" and bs: "bs = fill 32 n"
    using assms by (auto simp: FillBytes_def split: if_splits)
  have "hex_EncodeToString bs = hexs 64 n" using hex_encode_fill [of 32 n] bs by simp
  also have "\<dots> = hex64 n" using hex_of_nat_padded [OF n] by (simp add: hex64_def Let_def)
  finally show e: "hex_EncodeToString bs = hex64 n" .
  have "length (fill k m) = k" for k m by (induction k arbitrary: m) auto
  then have "length bs = 32" by (simp add: bs)
  then show "length (hex64 n) = 64" using length_hex_encode [of bs] e by simp
  then show "Nonce_ok (hex64 n)" using hex_encode_lower [of bs] e by (simp add: Nonce_ok_def)
qed

lemma hex_digits_encode: "hex_digits 0 (hex_EncodeToString bs) = Some (int (SetBytes bs))"
proof -
  have "hex_digits (int a) (hex_EncodeToString bs) = Some (int (foldl (\<lambda>n b. n * 256 + of_char b) a bs))" for a
  proof (induction bs arbitrary: a)
    case Nil
    then show ?case by (simp add: hex_EncodeToString_def)
  next
    case (Cons b bs)
    have "(of_char b :: nat) < 256" by simp
    then have "hex_val (hex_digit (of_char b div 16)) = Some (of_char b div 16)"
      "hex_val (hex_digit (of_char b mod 16)) = Some (of_char b mod 16)" by simp_all
    moreover have "int x = 16 * int (x div 16) + int (x mod 16)" for x
      by (metis mult_div_mod_eq of_nat_add of_nat_mult of_nat_numeral)
    from this [of "of_char b"] have e: "256 * int a + 16 * int (of_char b div 16) + int (of_char b mod 16) =
        int a * 256 + int (of_char b)" by linarith
    with calculation show ?case using Cons [of "a * 256 + of_char b"]
      by (simp add: hex_EncodeToString_def e)
  qed
  from this [of 0] show ?thesis by (simp add: SetBytes_def)
qed

section \<open>The template\<close>

text \<open>A character that does not occur in a text separates its occurrences.\<close>

lemma prefix_before:
  assumes "prefix s (xs @ c # ys)" "c \<notin> set s"
  shows "prefix s xs"
  using assms by (auto simp: prefix_append prefix_Cons)

lemma sublist_before:
  assumes "c \<notin> set s"
  shows "sublist s (xs @ c # ys) \<longleftrightarrow> sublist s xs \<or> sublist s ys"
proof (induction xs)
  case Nil
  have "prefix s (c # ys) \<Longrightarrow> s = []" using assms by (auto simp: prefix_Cons)
  then show ?case by (auto simp: sublist_Cons_right)
next
  case (Cons x xs)
  then show ?case
    using prefix_before [of s "x # xs" c ys] assms prefix_prefix [of s "x # xs" "c # ys"]
    by (auto simp: sublist_Cons_right)
qed

lemma bytes_Index_first:
  assumes "\<not> sublist s pre" "c \<notin> set s" "s \<noteq> []"
  shows "bytes_Index (pre @ c # s @ post) s = Some (Suc (length pre))"
  using assms(1)
proof (induction pre)
  case Nil
  have "take (length s) (c # s @ post) \<noteq> s" using assms(2,3) by (cases s) auto
  moreover have "bytes_Index (s @ post) s = Some 0" by (subst bytes_Index.simps) simp
  ultimately show ?case by (subst bytes_Index.simps) simp
next
  case (Cons x pre)
  have "take (length s) (x # pre @ c # s @ post) \<noteq> s"
  proof
    assume "take (length s) (x # pre @ c # s @ post) = s"
    then have "prefix s ((x # pre) @ c # s @ post)" by (metis append_Cons take_is_prefix)
    then have "prefix s (x # pre)" using assms(2) by (rule prefix_before)
    then show False using Cons.prems by (simp add: sublist_Cons_right)
  qed
  moreover have "bytes_Index (pre @ c # s @ post) s = Some (Suc (length pre))"
    using Cons by (simp add: sublist_Cons_right)
  ultimately show ?case by (subst bytes_Index.simps) simp
qed

text \<open>The members of a block in the order of the canonical text.\<close>

lemma sort_slice_strings [simp]: "sort_members (slice_json JStr s) = slice_json JStr s"
  by (cases s) (simp_all add: slice_json_def comp_def)

lemma Block_members_sorted:
  "sort_members (Block_json b) = JObj (
     [(''T'', JStr (blk_T b)), (''created'', JInt (blk_Created b))] @ omit_nil ''miner'' JStr (blk_Miner b) @
     (''nonce'', JStr (blk_Nonce b)) # omit_nil ''note'' JStr (blk_Note b) @
     (''previd'', ptr_json JStr (blk_Previd b)) # omit_nil ''studentids'' (slice_json JStr) (blk_Studentids b) @
     [(''txids'', slice_json JStr (blk_Txids b)), (''type'', JStr (ObjectType_str (blk_Type b)))])"
  by (cases "blk_Miner b"; cases "blk_Note b"; cases "blk_Studentids b"; cases "blk_Previd b")
    (simp_all add: Block_json_def omit_nil_def ptr_json_def)


lemma comma_sep_mid:
  "xs \<noteq> [] \<Longrightarrow> ys \<noteq> [] \<Longrightarrow> comma_sep (xs @ y # ys) = comma_sep xs @ CHR '','' # y @ CHR '','' # comma_sep ys"
proof (induction xs rule: comma_sep.induct)
  case (2 x)
  then show ?case by (cases ys) auto
next
  case (3 x y' zs)
  then show ?case by simp
qed simp

text \<open>Text without the letter C does not contain the dummy nonce.\<close>

lemma no_C: "CHR ''C'' \<notin> set xs \<Longrightarrow> \<not> sublist DUMMY_HASH xs"
proof
  assume "CHR ''C'' \<notin> set xs" "sublist DUMMY_HASH xs"
  moreover have "CHR ''C'' \<in> set DUMMY_HASH" by code_simp
  ultimately show False using set_mono_sublist by blast
qed

lemma escape_cases:
  "if c \<in> set DUMMY_HASH then escape_char c = [c] else set (escape_char c) \<inter> set DUMMY_HASH = {}"
proof -
  have D: "set DUMMY_HASH = set ''CAFEB''" by (auto simp: DUMMY_HASH_def)
  have low: "hex_digit n \<notin> set ''CAFEB''" if "n < 16" for n
    using hex_digit_is_lower [OF that] by (auto simp: is_lower_hex_def)
  show ?thesis
  proof (cases "c \<in> set ''CAFEB''")
    case True
    then have "escape_char c = [c]" by (auto simp: escape_char_def)
    with True show ?thesis by (simp only: D if_True)
  next
    case False
    have "d \<notin> set ''CAFEB''" if "d \<in> set (escape_char c)" for d
    proof -
      have "d = c \<or> d \<in> set [CHR 0x22, CHR 0x5C, CHR ''b'', CHR ''f'', CHR ''n'', CHR ''r'', CHR ''t'', CHR ''u'', CHR ''0''] \<or>
          d = hex_digit (of_char c div 16) \<or> d = hex_digit (of_char c mod 16)"
        using that by (auto simp: escape_char_def split: if_splits)
      then show ?thesis using False low [OF nibble] low [of "of_char c mod 16"] by auto
    qed
    with False show ?thesis by (auto simp only: D if_False)
  qed
qed

lemma prefix_alien: "set xs \<inter> set s = {} \<Longrightarrow> xs \<noteq> [] \<Longrightarrow> prefix s (xs @ ys) \<Longrightarrow> s = []"
  by (cases xs) (auto simp: prefix_Cons)

lemma sublist_alien: "set xs \<inter> set s = {} \<Longrightarrow> s \<noteq> [] \<Longrightarrow> sublist s (xs @ ys) \<Longrightarrow> sublist s ys"
proof (induction xs)
  case (Cons x xs)
  then show ?case using prefix_alien [of "x # xs" s ys] by (auto simp: sublist_Cons_right)
qed simp

lemma prefix_escape:
  "set s \<subseteq> set DUMMY_HASH \<Longrightarrow> prefix s (concat (map escape_char a)) \<Longrightarrow> prefix s a"
proof (induction a arbitrary: s)
  case (Cons c a)
  show ?case
  proof (cases "c \<in> set DUMMY_HASH")
    case True
    then have "escape_char c = [c]" using escape_cases [of c] by simp
    then show ?thesis using Cons by (auto simp: prefix_Cons)
  next
    case False
    moreover have "escape_char c \<noteq> []" by (simp add: escape_char_def)
    ultimately have "s = []"
      using prefix_alien [of "escape_char c" s] escape_cases [of c] Cons.prems by auto
    then show ?thesis by simp
  qed
qed simp

lemma sublist_escape: "sublist DUMMY_HASH (concat (map escape_char a)) \<Longrightarrow> sublist DUMMY_HASH a"
proof (induction a)
  case (Cons c a)
  show ?case
  proof (cases "c \<in> set DUMMY_HASH")
    case True
    then have "escape_char c = [c]" using escape_cases [of c] by simp
    then show ?thesis
      using Cons prefix_escape [of DUMMY_HASH "c # a"] by (auto simp: sublist_Cons_right)
  next
    case False
    then have "sublist DUMMY_HASH (concat (map escape_char a))"
      using sublist_alien [of "escape_char c" DUMMY_HASH] escape_cases [of c] Cons.prems by (auto simp: DUMMY_HASH_def)
    then show ?thesis using Cons.IH by (simp add: sublist_Cons_right)
  qed
qed simp


lemma escape_lower:
  assumes "is_lower_hex c"
  shows "escape_char c = [c]"
proof -
  have "list_all (\<lambda>d. \<not> is_lower_hex d) [CHR 0x22, CHR 0x5C, CHR 0x08, CHR 0x0C, CHR 0x0A, CHR 0x0D, CHR 0x09,
      CHR ''<'', CHR ''>'', CHR 0x26]" by code_simp
  then have "\<forall>d \<in> set [CHR 0x22, CHR 0x5C, CHR 0x08, CHR 0x0C, CHR 0x0A, CHR 0x0D, CHR 0x09,
      CHR ''<'', CHR ''>'', CHR 0x26]. c \<noteq> d" using assms unfolding list_all_iff by blast
  moreover have "\<not> (of_char c :: nat) < 32" using assms unfolding is_lower_hex_def Let_def by linarith
  ultimately show ?thesis by (simp add: escape_char_def)
qed

lemma escape_plain:
  assumes "list_all (\<lambda>c. is_lower_hex c \<or> c \<in> set DUMMY_HASH) x"
  shows "quote x = CHR 0x22 # x @ [CHR 0x22]"
proof -
  have e: "escape_char c = [c]" if "is_lower_hex c \<or> c \<in> set DUMMY_HASH" for c
    using that escape_lower [of c] escape_cases [of c] by (metis (full_types))
  have "concat (map escape_char x) = x"
    using assms by (induction x) (simp_all add: e)
  then show ?thesis by (simp add: quote_def)
qed

text \<open>The canonical text of a block around its nonce.\<close>

lemma template_text:
  assumes "exact_int (blk_Created b)" "blk_T b = TARGET"
    and agent: "\<And>a. blk_Miner b = Some a \<Longrightarrow> \<not> sublist DUMMY_HASH a"
  obtains pre post where "\<And>x. Canonicalize (Block_json (b\<lparr>blk_Nonce := x\<rparr>)) = Some (pre @ quote x @ post)"
    "\<not> sublist DUMMY_HASH pre"
proof -
  let ?m = "\<lambda>(k, v). quote k @ CHR '':'' # print_json v"
  let ?xs = "map ?m ([(''T'', JStr (blk_T b)), (''created'', JInt (blk_Created b))] @ omit_nil ''miner'' JStr (blk_Miner b))"
  let ?ys = "map ?m (omit_nil ''note'' JStr (blk_Note b) @
     (''previd'', ptr_json JStr (blk_Previd b)) # omit_nil ''studentids'' (slice_json JStr) (blk_Studentids b) @
     [(''txids'', slice_json JStr (blk_Txids b)), (''type'', JStr (ObjectType_str (blk_Type b)))])"
  let ?pre = "CHR ''{'' # comma_sep ?xs @ CHR '','' # quote ''nonce'' @ [CHR '':'']"
  let ?post = "CHR '','' # comma_sep ?ys @ ''}''"
  have whole: "Canonicalize (Block_json (b\<lparr>blk_Nonce := x\<rparr>)) = Some (?pre @ quote x @ ?post)" for x
  proof -
    have "exact_json (Block_json (b\<lparr>blk_Nonce := x\<rparr>))"
      using exact_Object_json [of "BlockObj (b\<lparr>blk_Nonce := x\<rparr>)"] assms(1) by (simp add: exact_object_def)
    then show ?thesis
      using comma_sep_mid [of ?xs ?ys "quote ''nonce'' @ CHR '':'' # quote x"]
      by (simp add: Canonicalize_exact Block_members_sorted)
  qed
  have C: "\<not> sublist DUMMY_HASH xs" if "list_all (\<lambda>c. c \<noteq> CHR ''C'') xs" for xs
    using no_C [of xs] that by (auto simp: list_all_iff)
  have num: "list_all (\<lambda>c. c \<noteq> CHR ''C'') (string_of_int i)" for i
  proof -
    have "list_all (\<lambda>c. c \<noteq> CHR ''C'') (string_of_nat n)" for n
      using string_of_nat_digits [of n] by (auto simp: list_all_iff is_digit_def)
    then show ?thesis by (simp add: string_of_int_def)
  qed
  have front: "list_all (\<lambda>c. c \<noteq> CHR ''C'') (quote ''T'' @ CHR '':'' # quote TARGET)"
    by code_simp
  show thesis
  proof (rule that [OF whole])
    show "\<not> sublist DUMMY_HASH ?pre"
    proof (cases "blk_Miner b")
      case None
      then show ?thesis
        using front num assms(2) by (intro C) (simp add: omit_nil_def quote_def escape_char_def)
    next
      case (Some a)
      let ?p = "CHR ''{'' # quote ''T'' @ CHR '':'' # quote TARGET @ CHR '','' # quote ''created'' @ CHR '':'' #
        string_of_int (blk_Created b) @ CHR '','' # quote ''miner'' @ [CHR '':'']"
      let ?q = "CHR '','' # quote ''nonce'' @ [CHR '':'']"
      have "?pre = ?p @ CHR 0x22 # concat (map escape_char a) @ CHR 0x22 # ?q"
        using Some assms(2) by (simp add: omit_nil_def quote_def)
      moreover have "\<not> sublist DUMMY_HASH ?p" "\<not> sublist DUMMY_HASH ?q"
        using front num by (intro C; simp add: quote_def escape_char_def)+
      moreover have "\<not> sublist DUMMY_HASH (concat (map escape_char a))"
        using sublist_escape agent [OF Some] by blast
      moreover have "CHR 0x22 \<notin> set DUMMY_HASH" by code_simp
      ultimately show ?thesis
        using sublist_before [of "CHR 0x22" DUMMY_HASH ?p "concat (map escape_char a) @ CHR 0x22 # ?q"]
          sublist_before [of "CHR 0x22" DUMMY_HASH "concat (map escape_char a)" ?q] by metis
    qed
  qed
qed

section \<open>The search\<close>

lemma put_nonce_around:
  assumes "length x = 64"
  shows "put_nonce (pre @ x @ post) (length pre) s = Some (pre @ s @ post)"
  using assms by (simp add: put_nonce_def)

lemma mine_loop_found:
  assumes "mine_loop env stop off target i wb nonce k tracker = Some r"
    and "fst r = FoundNonce s" "wb = pre @ x @ post" "length x = 64" "off = length pre"
  shows "Nonce_ok s \<and> length s = 64 \<and> (\<exists>digest. blake2s env (pre @ s @ post) = Some digest \<and> SetBytes digest < target)"
  using assms
proof (induction env stop off target i wb nonce k tracker r arbitrary: x rule: mine_loop.raw_induct [rotated 1, consumes 1])
  case (1 it env stop off target i wb nonce k tracker r)
  show ?case
  proof (cases "stop i \<or> FillBytes 32 (nonce + 1) = None")
    case True
    then show ?thesis using 1(2,3) by (auto split: if_splits)
  next
    case False
    then obtain bs where bs: "FillBytes 32 (nonce + 1) = Some bs" by auto
    note t = nonce_text [OF bs]
    let ?wb = "pre @ hex64 (nonce + 1) @ post"
    have put: "put_nonce wb off (hex_EncodeToString bs) = Some ?wb"
      using put_nonce_around [OF 1(5)] 1(4,6) t(1) by simp
    show ?thesis
    proof (cases "blake2s env ?wb")
      case None
      then show ?thesis using 1(2,3) False bs put by auto
    next
      case (Some digest)
      show ?thesis
      proof (cases "SetBytes digest < target")
        case True
        then have "s = hex64 (nonce + 1)"
          using 1(2,3) False bs put Some by (auto simp: Let_def split: prod.splits)
        then show ?thesis using t Some True by simp
      next
        case less: False
        then obtain k' tracker' where "it env stop off target (Suc i) ?wb (nonce + 1) k' tracker' = Some r"
          using 1(2) False bs put Some by (simp add: Let_def split: prod.splits if_splits)
        then show ?thesis using 1(1) [OF _ 1(3) refl t(2) 1(6)] by blast
      qed
    qed
  qed
qed

text \<open>What a built block has in common with its header.\<close>

lemma BuildBlock_fields:
  assumes "BuildBlock env now m mn = Some (Inr (block, coinbase))"
  shows "blk_Created block = now" "blk_T block = TARGET"
    "blk_Miner block = (if cfg_AgentName (Config m) \<noteq> [] then Some (cfg_AgentName (Config m)) else None)"
    "blk_CachedID block = None" "blk_Type block = OBJ_BLOCK"
  using assms by (auto simp: BuildBlock_def block_body_def block_header_def Let_def
      split: sum.splits option.splits prod.splits if_splits Object.splits)

lemma built_job:
  assumes b: "BuildBlock env now m mn = Some (Inr (block, coinbase))" and "exact_int now"
    and agent: "\<not> sublist DUMMY_HASH (cfg_AgentName (Config m))"
  obtains pre post where "\<And>x. Canonicalize (Block_json (block\<lparr>blk_Nonce := x\<rparr>)) = Some (pre @ quote x @ post)"
    "Mine_job env now m mn = Some (Inr \<lparr>job_block = block\<lparr>blk_Nonce := DUMMY_HASH\<rparr>, job_coinbase = coinbase,
       job_template = pre @ CHR 0x22 # DUMMY_HASH @ CHR 0x22 # post, job_offset = Suc (length pre)\<rparr>)"
proof -
  note f = BuildBlock_fields [OF b]
  have "\<not> sublist DUMMY_HASH a" if "blk_Miner block = Some a" for a
    using f(3) that agent by (auto split: if_splits)
  then obtain pre post where whole: "\<And>x. Canonicalize (Block_json (block\<lparr>blk_Nonce := x\<rparr>)) = Some (pre @ quote x @ post)"
    and pre: "\<not> sublist DUMMY_HASH pre"
    using template_text [of block] f(1,2) assms(2) by metis
  have q: "CHR 0x22 \<notin> set DUMMY_HASH" "DUMMY_HASH \<noteq> []" by code_simp+
  have "quote DUMMY_HASH = CHR 0x22 # DUMMY_HASH @ [CHR 0x22]"
    by (rule escape_plain) (simp add: list_all_iff)
  then have "Canonicalize (Block_json (block\<lparr>blk_Nonce := DUMMY_HASH\<rparr>)) = Some (pre @ CHR 0x22 # DUMMY_HASH @ CHR 0x22 # post)"
    using whole [of DUMMY_HASH] by simp
  then show thesis
    using bytes_Index_first [OF pre q] by (intro that [OF whole]) (simp add: Mine_job_def b Let_def)
qed

text \<open>The nonce that a worker finds gives the block proof of work.\<close>

lemma found_nonce:
  assumes j: "Mine_job env now m mn = Some (Inr j)"
    and found: "mineWorker env stop random (job_template j) (job_offset j) (nat TARGET_BIGINT) = Some (FoundNonce s, hs)"
    and created: "exact_int now" and agent: "\<not> sublist DUMMY_HASH (cfg_AgentName (Config m))"
    and h: "hash_ok env"
  shows "Nonce_ok s \<and> (\<exists>oid. GetObjectID env (BlockObj ((job_block j)\<lparr>blk_Nonce := s\<rparr>)) =
      (BlockObj ((job_block j)\<lparr>blk_Nonce := s, blk_CachedID := Some oid\<rparr>), Inr oid) \<and> VerifyPoW oid = Inr True)"
proof -
  obtain block coinbase where b: "BuildBlock env now m mn = Some (Inr (block, coinbase))"
    using j by (auto simp: Mine_job_def Let_def split: option.splits sum.splits prod.splits)
  obtain pre post where whole: "\<And>x. Canonicalize (Block_json (block\<lparr>blk_Nonce := x\<rparr>)) = Some (pre @ quote x @ post)"
    and "Mine_job env now m mn = Some (Inr \<lparr>job_block = block\<lparr>blk_Nonce := DUMMY_HASH\<rparr>, job_coinbase = coinbase,
       job_template = pre @ CHR 0x22 # DUMMY_HASH @ CHR 0x22 # post, job_offset = Suc (length pre)\<rparr>)"
    using built_job [OF b created agent] by metis
  then have j': "j = \<lparr>job_block = block\<lparr>blk_Nonce := DUMMY_HASH\<rparr>, job_coinbase = coinbase,
       job_template = pre @ CHR 0x22 # DUMMY_HASH @ CHR 0x22 # post, job_offset = Suc (length pre)\<rparr>"
    using j by simp
  have "length DUMMY_HASH = 64" by code_simp
  then have s: "Nonce_ok s" "length s = 64"
    and "\<exists>digest. blake2s env ((pre @ [CHR 0x22]) @ s @ CHR 0x22 # post) = Some digest \<and> SetBytes digest < nat TARGET_BIGINT"
    using mine_loop_found [OF found [unfolded mineWorker_def], of s "pre @ [CHR 0x22]" DUMMY_HASH "CHR 0x22 # post"]
      by (simp_all add: j')
  then obtain digest where g: "blake2s env (pre @ CHR 0x22 # s @ CHR 0x22 # post) = Some digest" "SetBytes digest < nat TARGET_BIGINT"
    by auto
  have "quote s = CHR 0x22 # s @ [CHR 0x22]"
    using s(1) by (intro escape_plain) (auto simp: Nonce_ok_def list_all_iff)
  then have "HashObject env (BlockObj (block\<lparr>blk_Nonce := s\<rparr>)) = Inr (hex_EncodeToString digest)"
    using whole [of s] g(1) by (simp add: HashObject_def HashString_def Hash_def)
  then have "GetObjectID env (BlockObj ((job_block j)\<lparr>blk_Nonce := s\<rparr>)) =
      (BlockObj ((job_block j)\<lparr>blk_Nonce := s, blk_CachedID := Some (hex_EncodeToString digest)\<rparr>), Inr (hex_EncodeToString digest))"
    using BuildBlock_fields(4) [OF b] by (simp add: GetObjectID_def j')
  moreover have "VerifyPoW (hex_EncodeToString digest) = Inr True"
  proof -
    obtain h where "blake2s env (pre @ CHR 0x22 # s @ CHR 0x22 # post) = Some h" "length h = 32"
      using h unfolding hash_ok_def by blast
    then have "length (hex_EncodeToString digest) = 64" using g(1) by simp
    then have "hex_EncodeToString digest \<noteq> []" by (metis list.size(3) zero_neq_numeral)
    then have "big_SetString16 (hex_EncodeToString digest) = Some (int (SetBytes digest))"
      using big_SetString16_hex [OF hex_encode_lower] hex_digits_encode by simp
    then show ?thesis using g(2) by (simp add: VerifyPoW_def)
  qed
  ultimately show ?thesis using s(1) by blast
qed

end
