(* ===== verification/Mining.thy ===== *)
theory Mining
  imports Miner
begin

text \<open>
  The block that \<^verbatim>\<open>BuildBlock\<close> assembles is one that \<^verbatim>\<open>ValidateBlock\<close> accepts, once it has proof of
  work: its coinbase claims exactly the reward and the fees, at the right height, and the mempool's
  transactions apply one after the other to the UTXO set of the tip. That set must hold what the
  mempool spends, at the recorded fees: \<open>entry_fits\<close> is a hypothesis. That the spent outputs are there
  is what the sweep after each new tip provides (\<open>CleanMempool_exact\<close>). It does not hold of every
  mempool: a payment typed at the console to a text that is neither an alias nor a key is committed,
  and its transaction cannot be read back, so that no block with it is valid.
\<close>

section \<open>The mempool's transactions apply\<close>

text \<open>
  A hypothesis on the mempool, not a check of the code: the entry's transaction is the stored one, spends
  distinct outputs of the UTXO set, and the recorded fee is its inputs minus its outputs.
\<close>

definition entry_fits :: "'d env \<Rightarrow> 'd Manager \<Rightarrow> (OutpointKey, TxOutput) gomap \<Rightarrow> MempoolEntry \<Rightarrow> bool" where
  "entry_fits env m utxos e \<longleftrightarrow> (\<exists>t s ks. me_Tx e = Some t \<and> getObject env (m_db m) (me_TxID e) = Inr (TxObj s) \<and>
     tx_Inputs s = tx_Inputs t \<and> spent_keys (elems (tx_Inputs s)) = Some ks \<and> distinct ks \<and>
     (\<forall>k \<in> set ks. gm_has utxos k) \<and>
     me_Fee e = (\<Sum>k\<leftarrow>ks. out_Value (the (gm_get utxos k))) - (\<Sum>o'\<leftarrow>elems (tx_Outputs s). out_Value o'))"

lemma add_utxos_other:
  "add_utxos txid i outs u s = (u', s') \<Longrightarrow>
     s' = s + (\<Sum>o'\<leftarrow>outs. out_Value o') \<and> (\<forall>k. key_Txid k \<noteq> txid \<longrightarrow> gm_get u' k = gm_get u k)"
proof (induction outs arbitrary: i u s)
  case (Cons o' outs)
  then show ?case by (fastforce simp: gm_get_set)
qed simp

lemma gm_get_fold_del: "gm_get (fold gm_del ks u) k = (if k \<in> set ks then None else gm_get u k)"
  by (induction ks arbitrary: u) auto

lemma spent_key_input:
  "spent_keys ins = Some ks \<Longrightarrow> i \<in> set ins \<Longrightarrow> \<exists>k \<in> set ks. key_Txid k = op_Txid (in_Outpoint i)"
  by (induction ins arbitrary: ks) (auto simp: input_key_def split: option.splits)

text \<open>One transaction: what it leaves of the UTXO set, and its fee.\<close>

lemma block_tx_entry:
  assumes fit: "entry_fits env m u e"
    and same: "\<And>k. entry_spends e k \<Longrightarrow> gm_get (bs_utxos st) k = gm_get u k"
    and cb: "\<And>k. entry_spends e k \<Longrightarrow> key_Txid k \<noteq> bs_cbID st"
  obtains st' where "block_tx env m r height i (me_TxID e) st = Some (Inr st')"
    "bs_fees st' = bs_fees st + me_Fee e" "bs_hasCoinbase st' = bs_hasCoinbase st" "bs_cbTx st' = bs_cbTx st"
    "bs_cbID st' = bs_cbID st"
    "\<And>k. \<not> entry_spends e k \<Longrightarrow> key_Txid k \<noteq> me_TxID e \<Longrightarrow> gm_get (bs_utxos st') k = gm_get (bs_utxos st) k"
proof -
  obtain t s ks where t: "me_Tx e = Some t" "getObject env (m_db m) (me_TxID e) = Inr (TxObj s)"
    "tx_Inputs s = tx_Inputs t" "spent_keys (elems (tx_Inputs s)) = Some ks" "distinct ks" "\<forall>k \<in> set ks. gm_has u k"
    and fee: "me_Fee e = (\<Sum>k\<leftarrow>ks. out_Value (the (gm_get u k))) - (\<Sum>o'\<leftarrow>elems (tx_Outputs s). out_Value o')"
    using fit unfolding entry_fits_def by blast
  have es: "entry_spends e k \<longleftrightarrow> k \<in> set ks" for k using t(1,3,4) by (simp add: entry_spends_def)
  then have g: "gm_get (bs_utxos st) k = gm_get u k" if "k \<in> set ks" for k using same that by simp
  have has: "\<forall>k \<in> set ks. gm_has (bs_utxos st) k" using t(6) g by (simp add: gm_has_def)
  have ncb: "\<forall>i \<in> set (elems (tx_Inputs s)). \<not> (bs_hasCoinbase st \<and> op_Txid (in_Outpoint i) = bs_cbID st)"
    using spent_key_input [OF t(4)] cb es by metis
  let ?sum = "\<Sum>k\<leftarrow>ks. out_Value (the (gm_get (bs_utxos st) k))"
  have spend: "spend_utxos r (bs_hasCoinbase st) (bs_cbID st) (elems (tx_Inputs s)) (bs_utxos st) 0 =
      Some (Inr (fold gm_del ks (bs_utxos st), ?sum))"
    using t(4,5) has ncb by (simp add: spend_utxos_Inr)
  obtain u' o' where add: "add_utxos (me_TxID e) 0 (elems (tx_Outputs s)) (fold gm_del ks (bs_utxos st)) 0 = (u', o')"
    by fastforce
  note a = add_utxos_other [OF add]
  have sum: "?sum = (\<Sum>k\<leftarrow>ks. out_Value (the (gm_get u k)))"
    using g by (intro arg_cong [where f = sum_list] map_cong) simp_all
  have obj: "GetObject env m (me_TxID e) = Inr (TxObj s)" using t(2) by (simp add: GetObject_Inr)
  have "block_tx env m r height i (me_TxID e) st =
      Some (Inr (st\<lparr>bs_utxos := u', bs_fees := bs_fees st + (?sum - o')\<rparr>))"
    using obj spend add by (simp add: block_tx_def)
  then show thesis
    by (rule that) (use a fee sum es in \<open>simp_all add: gm_get_fold_del\<close>)
qed

lemma block_txs_entries:
  assumes "\<And>e. e \<in> set es \<Longrightarrow> entry_fits env m u e"
    and "\<And>e k. e \<in> set es \<Longrightarrow> entry_spends e k \<Longrightarrow> gm_get (bs_utxos st) k = gm_get u k"
    and "\<And>e k. e \<in> set es \<Longrightarrow> entry_spends e k \<Longrightarrow> key_Txid k \<noteq> bs_cbID st"
    and "\<And>e e' k. e \<in> set es \<Longrightarrow> e' \<in> set es \<Longrightarrow> entry_spends e k \<Longrightarrow> key_Txid k \<noteq> me_TxID e'"
    and "distinct es" "\<And>e e' k. e \<in> set es \<Longrightarrow> e' \<in> set es \<Longrightarrow> entry_spends e k \<Longrightarrow> entry_spends e' k \<Longrightarrow> e = e'"
  shows "\<exists>st'. block_txs env m r height i (map me_TxID es) st = Some (Inr st') \<and>
    bs_fees st' = bs_fees st + (\<Sum>e\<leftarrow>es. me_Fee e) \<and> bs_hasCoinbase st' = bs_hasCoinbase st \<and> bs_cbTx st' = bs_cbTx st"
  using assms
proof (induction es arbitrary: st i)
  case (Cons e es)
  obtain st1 where st1: "block_tx env m r height i (me_TxID e) st = Some (Inr st1)"
    "bs_fees st1 = bs_fees st + me_Fee e" "bs_hasCoinbase st1 = bs_hasCoinbase st" "bs_cbTx st1 = bs_cbTx st"
    "bs_cbID st1 = bs_cbID st"
    "\<And>k. \<not> entry_spends e k \<Longrightarrow> key_Txid k \<noteq> me_TxID e \<Longrightarrow> gm_get (bs_utxos st1) k = gm_get (bs_utxos st) k"
    using block_tx_entry [OF Cons.prems(1-3) [of e]] by (metis list.set_intros(1))
  have "\<exists>st'. block_txs env m r height (Suc i) (map me_TxID es) st1 = Some (Inr st') \<and>
      bs_fees st' = bs_fees st1 + (\<Sum>e\<leftarrow>es. me_Fee e) \<and> bs_hasCoinbase st' = bs_hasCoinbase st1 \<and>
      bs_cbTx st' = bs_cbTx st1"
  proof (rule Cons.IH)
    show "gm_get (bs_utxos st1) k = gm_get u k" if "f \<in> set es" "entry_spends f k" for f k
    proof -
      have "\<not> entry_spends e k" using Cons.prems(5) Cons.prems(6) [of e f k] that by auto
      moreover have "key_Txid k \<noteq> me_TxID e" using Cons.prems(4) [of f e k] that by simp
      ultimately show ?thesis using st1(6) Cons.prems(2) [of f k] that by simp
    qed
    show "f = f'" if "f \<in> set es" "f' \<in> set es" "entry_spends f k" "entry_spends f' k" for f f' k
      by (rule Cons.prems(6) [OF _ _ that(3,4)]) (simp_all add: that)
    show "key_Txid k \<noteq> bs_cbID st1" if "f \<in> set es" "entry_spends f k" for f k
      using Cons.prems(3) [of f k] that st1(5) by simp
    show "key_Txid k \<noteq> me_TxID f'" if "f \<in> set es" "f' \<in> set es" "entry_spends f k" for f f' k
      using Cons.prems(4) [of f f' k] that by simp
  qed (use Cons.prems(1,5) in simp_all)
  then show ?case using st1(1-4) by (auto simp: add.assoc)
qed simp


section \<open>The built block\<close>

lemma block_reward_sum: "block_reward es = BlockRewardBigInt + (\<Sum>e\<leftarrow>es. me_Fee e)"
proof -
  have "foldl (\<lambda>reward entry. Picabu_Add reward (me_Fee entry)) a es = a + (\<Sum>e\<leftarrow>es. me_Fee e)" for a
    by (induction es arbitrary: a) (simp_all add: Picabu_Add_def)
  then show ?thesis by (simp add: block_reward_def BlockReward_value)
qed

text \<open>The parts of what is built on a tip.\<close>

lemma BuildBlock_tip:
  assumes "BuildBlock env now m mn = Some (Inr (block, cb))" "GetChaintip env m = Inr (tip, h)"
  obtains oid where "blk_Previd block = Some tip" "blk_Txids block = Some (oid # map me_TxID (elems (GetMempoolEntries m)))"
    "HashObject env (CoinbaseObj cb) = Inr oid" "cb_Height cb = BuInt_of_uint64 (h + 1)" "cb_CachedID cb = Some oid"
    "cb_Outputs cb = Some [\<lparr>out_Pubkey = mn_Pubkey mn, out_Value = block_reward (elems (GetMempoolEntries m))\<rparr>]"
    "cb_Type cb = OBJ_TRANSACTION"
proof -
  let ?cb = "MakeCoinbaseTransaction (BuInt_of_uint64 (h + 1)) (Some [MakeTxOutput (mn_Pubkey mn) (block_reward (elems (GetMempoolEntries m)))])"
  have b: "block_body env now m mn (h + 1) (block_header now (Config m)\<lparr>blk_Previd := Some tip\<rparr>) = Some (Inr (block, cb))"
    using assms by (simp add: BuildBlock_def Let_def)
  show thesis
  proof (cases "HashObject env (CoinbaseObj ?cb)")
    case (Inl e)
    then have "GetObjectID env (CoinbaseObj ?cb) = (CoinbaseObj ?cb, Inl e)"
      by (simp add: GetObjectID_def MakeCoinbaseTransaction_def)
    then show thesis using b by (simp add: block_body_def Let_def ValidateObject_def)
  next
    case (Inr oid)
    let ?c = "?cb\<lparr>cb_CachedID := Some oid\<rparr>"
    have "GetObjectID env (CoinbaseObj ?cb) = (CoinbaseObj ?c, Inr oid)"
      "GetObjectID env (CoinbaseObj ?c) = (CoinbaseObj ?c, Inr oid)"
      using Inr by (simp_all add: GetObjectID_def MakeCoinbaseTransaction_def)
    then have e: "cb = ?c" "block = (block_header now (Config m))\<lparr>blk_Previd := Some tip,
        blk_Txids := Some (oid # map me_TxID (elems (GetMempoolEntries m))), blk_Note := Some (mn_Note mn)\<rparr>"
      using b by (auto simp: block_body_def Let_def ValidateObject_def ValidateCoinbase_def zero_result_def)
    have "HashObject env (CoinbaseObj cb) = Inr oid"
      using Inr e(1) by (simp add: HashObject_def CoinbaseTransaction_json_def MakeCoinbaseTransaction_def)
    then show thesis
      using e by (intro that) (simp_all add: MakeCoinbaseTransaction_def MakeTxOutput_def)
  qed
qed


text \<open>A block that is built on the tip, with proof of work and its coinbase stored, is a new tip.\<close>

lemma built_block_valid:
  assumes l: "ldb_ok env" and hk: "hash_ok env" and inv: "chain_inv env (m_db m)" and mem: "mempool_inv (m_db m)"
    and tip: "GetChaintip env m = Inr (tip, h)" and u: "getUTXO env (m_db m) tip = Inr u"
    and prev: "getObject env (m_db m) tip = Inr (BlockObj prev)" "blk_Created prev < now" "now < 2 ^ 63"
    and fits: "\<And>t e. gm_get (db_mempool (m_db m)) t = Some e \<Longrightarrow>
        me_TxID e = t \<and> 0 \<le> me_Fee e \<and> entry_fits env m (us_UTXOs u) e"
    and key: "HashID_ok (mn_Pubkey mn)" and b: "BuildBlock env now m mn = Some (Inr (block, cb))"
    and new: "\<And>k. gm_has (us_UTXOs u) k \<Longrightarrow> key_Txid k \<notin> set (elems (blk_Txids block))"
      "\<And>oid v. HashObject env (CoinbaseObj cb) = Inr oid \<Longrightarrow> ldb_get env (db_db (m_db m)) oid \<noteq> Inr v"
    and store: "StoreObject env m (CoinbaseObj cb) = (m', None)"
    and blk: "blk = block\<lparr>blk_Nonce := s, blk_CachedID := c\<rparr>"
      "snd (GetObjectID env (BlockObj blk)) = Inr bid" "VerifyPoW bid = Inr True" "now \<le> now'"
  shows "\<exists>r. ValidateBlock env now' m' blk = Some r \<and> vr_Error r = None \<and> vr_IsNewTip r \<and> vr_NewHeight r = h + 1"
proof -
  let ?es = "elems (GetMempoolEntries m)"
  obtain oid where f: "blk_Previd block = Some tip" "blk_Txids block = Some (oid # map me_TxID ?es)"
    "HashObject env (CoinbaseObj cb) = Inr oid" "cb_Height cb = BuInt_of_uint64 (h + 1)" "cb_CachedID cb = Some oid"
    "cb_Outputs cb = Some [\<lparr>out_Pubkey = mn_Pubkey mn, out_Value = block_reward ?es\<rparr>]" "cb_Type cb = OBJ_TRANSACTION"
    using BuildBlock_tip [OF b tip] .
  note created = BuildBlock_fields(1) [OF b]
  have h63: "uint h < 2 ^ 63 - 1"
  proof -
    obtain v where v: "HashID_ok tip" "getUTXO env (m_db m) tip = Inr v" "us_Height v = h"
      using chain_invD(3) [OF inv] tip by (metis GetChaintip_Inr)
    then have "uint h \<le> blk_Created prev"
      using chain_invD(2) [OF inv v(1,2)] prev(1) by (auto simp: entry_ok_def)
    then show ?thesis using prev(2,3) by linarith
  qed
  then have h1: "uint (h + 1) = uint h + 1" by (intro uint_succ) simp
  have uh: "us_Height u = h"
    using chain_invD(3) [OF inv] tip u by (metis GetChaintip_Inr Inr_inject)
  have "sint (h + 1) = uint h + 1"
    using h1 h63 by (simp add: sint_uint signed_take_bit_int_eq_self)
  then have height: "BuInt_ok (cb_Height cb)" "uint64_of_int (cb_Height cb) = h + 1"
    using h63 by (simp_all add: f(4) BuInt_of_uint64_def uint64_of_int_def BuInt_ok_def)
  have wf: "gm_wf (db_mempool (m_db m))" using mem by (simp add: mempool_inv_def)
  have es: "?es = map snd (db_mempool (m_db m))" by (simp add: GetMempoolEntries_def getMempoolEntries_def)
  have mapped: "gm_get (db_mempool (m_db m)) (me_TxID e) = Some e" if e: "e \<in> set ?es" for e
  proof -
    obtain t where "(t, e) \<in> set (db_mempool (m_db m))" using e by (auto simp: es)
    then have "gm_get (db_mempool (m_db m)) t = Some e" using wf by (simp add: gm_get_wf)
    then show ?thesis using fits by metis
  qed
  have dist: "distinct ?es"
  proof -
    have "inj_on snd (set (db_mempool (m_db m)))"
      using wf fits by (intro inj_onI) (metis gm_get_wf prod_eqI surjective_pairing)
    then show ?thesis using wf by (simp add: es distinct_map gm_wf_def)
  qed
  have "0 \<le> (\<Sum>e\<leftarrow>?es. me_Fee e)" using fits mapped by (intro sum_list_nonneg) auto
  then have reward: "0 \<le> block_reward ?es" by (simp add: block_reward_sum BlockRewardBigInt_def BLOCK_REWARD_UINT64_def)
  have ok: "Object_ok (uncached (CoinbaseObj cb))"
    using height reward key f(6,7) by (simp add: CoinbaseTransaction_ok_def TxOutputs_ok_def TxOutput_ok_def)
  obtain d where put: "putObject env (m_db m) (CoinbaseObj cb) = (d, Inr oid)" and m': "m' = upd_db d m"
  proof -
    obtain d r where p: "putObject env (m_db m) (CoinbaseObj cb) = (d, r)" by fastforce
    then obtain oid' where "r = Inr oid'" "m' = upd_db d m"
      using store by (cases r) (auto simp: StoreObject_def)
    then show thesis using that p putObject_get(1) [OF l _ ok] f(3) by auto
  qed
  note got = putObject_get(2,3) [OF l put ok]
  have oid: "HashID_ok oid" using HashObject_ok [OF hk f(3)] by simp
  have obj: "getObject env d k = getObject env (m_db m) k" if "getObject env (m_db m) k = Inr x" for k x
  proof (rule getObject_cong, rule got(2))
    show "k \<noteq> oid" using that new(2) [OF f(3)] by (auto simp: getObject_def split: sum.splits)
  qed
  have utxo: "getUTXO env d k = getUTXO env (m_db m) k" for k
    by (rule getUTXO_cong, rule got(2)) (use oid in \<open>metis HashID_keys(1)\<close>)
  have tip': "GetChaintip env m' = Inr (tip, h)"
  proof -
    have "getChaintip env d = getChaintip env (m_db m)"
      by (rule getChaintip_cong, rule got(2)) (use oid in \<open>metis HashID_keys(4)\<close>)
    then show ?thesis using tip by (simp add: GetChaintip_Inr m')
  qed
  text \<open>The coinbase comes first.\<close>
  let ?out = "\<lparr>out_Pubkey = mn_Pubkey mn, out_Value = block_reward ?es\<rparr>"
  let ?cb = "cb\<lparr>cb_CachedID := None\<rparr>"
  let ?st = "\<lparr>bs_utxos = gm_set \<lparr>key_Txid = oid, key_Index = 0\<rparr> ?out (us_UTXOs u), bs_hasCoinbase = True,
    bs_cbTx = Some ?cb, bs_cbID = oid, bs_fees = 0\<rparr>"
  have "GetObject env m' oid = Inr (CoinbaseObj ?cb)" using got(1) by (simp add: GetObject_Inr m')
  moreover have "snd (GetObjectID env (CoinbaseObj ?cb)) = Inr oid"
    using f(3) by (simp add: GetObjectID_def HashObject_def CoinbaseTransaction_json_def)
  ultimately have first: "block_tx env m' zero_result (h + 1) 0 oid (start_state (us_UTXOs u)) = Some (Inr ?st)"
    using height(2) f(6) by (simp add: block_tx_def id_value_def start_state_def Let_def)
  text \<open>Then the mempool.\<close>
  have new': "key_Txid k \<noteq> oid" "\<And>e. e \<in> set ?es \<Longrightarrow> key_Txid k \<noteq> me_TxID e" if "gm_has (us_UTXOs u) k" for k
    using new(1) [OF that] by (auto simp: f(2))
  have fit: "entry_fits env m' (us_UTXOs u) e" if "e \<in> set ?es" for e
  proof -
    have "entry_fits env m (us_UTXOs u) e" using fits mapped [OF that] by blast
    then show ?thesis unfolding entry_fits_def using obj by (metis m' m_db_upd_db)
  qed
  have has: "gm_has (us_UTXOs u) k" if "e \<in> set ?es" "entry_spends e k" for e k
    using fit [OF that(1)] that(2) by (auto simp: entry_fits_def entry_spends_def)
  have "\<exists>st'. block_txs env m' zero_result (h + 1) (Suc 0) (map me_TxID ?es) ?st = Some (Inr st') \<and>
      bs_fees st' = bs_fees ?st + (\<Sum>e\<leftarrow>?es. me_Fee e) \<and> bs_hasCoinbase st' = bs_hasCoinbase ?st \<and>
      bs_cbTx st' = bs_cbTx ?st"
  proof (rule block_txs_entries [OF fit])
    show "gm_get (bs_utxos ?st) k = gm_get (us_UTXOs u) k" if "e \<in> set ?es" "entry_spends e k" for e k
      using new'(1) [OF has [OF that]] by auto
    show "key_Txid k \<noteq> bs_cbID ?st" if "e \<in> set ?es" "entry_spends e k" for e k
      using new'(1) [OF has [OF that]] by simp
    show "key_Txid k \<noteq> me_TxID e'" if "e \<in> set ?es" "e' \<in> set ?es" "entry_spends e k" for e e' k
      using new'(2) [OF has [OF that(1,3)] that(2)] .
    show "e = e'" if "e \<in> set ?es" "e' \<in> set ?es" "entry_spends e k" "entry_spends e' k" for e e' k
    proof -
      have "me_TxID e = me_TxID e'"
        by (rule mempool_inv_unique [OF mem mapped [OF that(1)] mapped [OF that(2)] that(3,4)])
      then show ?thesis using mapped [OF that(1)] mapped [OF that(2)] by (metis option.inject)
    qed
  qed (use dist in simp_all)
  then obtain st where st: "block_txs env m' zero_result (h + 1) (Suc 0) (map me_TxID ?es) ?st = Some (Inr st)"
    "bs_fees st = (\<Sum>e\<leftarrow>?es. me_Fee e)" "bs_hasCoinbase st" "bs_cbTx st = Some ?cb" by auto
  text \<open>The block as a whole.\<close>
  have c: "check_parent env m' zero_result blk = Some None"
    using obj prev created by (simp add: check_parent_None blk(1) f(1) m')
  have b: "block_start env m' zero_result bid blk = Inr (us_UTXOs u, h + 1)"
    using utxo u by (simp add: block_start_Inr blk(1) f(1) m' uh)
  have t: "block_txs env m' zero_result (h + 1) 0 (elems (blk_Txids blk)) (start_state (us_UTXOs u)) = Some (Inr st)"
    using first st(1) by (simp add: blk(1) f(2))
  have "\<not> now' < blk_Created blk" using blk(1,4) created by simp
  then have v: "ValidateBlock env now' m' blk = block_finish env m' zero_result bid (h + 1) st"
    using blk(2,3) c b t by (simp add: ValidateBlock_def start_state_def Let_def)
  have "h < h + 1" using h1 by (simp add: word_less_def)
  moreover have "Picabu_Cmp (block_reward ?es) (BlockRewardBigInt + bs_fees st) = 0"
    using st(2) by (simp add: Picabu_Cmp_def block_reward_sum)
  ultimately show ?thesis
    unfolding v using st(3,4) tip' f(6) by (simp add: block_finish_def Let_def)
qed


text \<open>A round of mining from the job to the validation of what the worker found.\<close>

lemma mined_block_valid:
  assumes l: "ldb_ok env" and hk: "hash_ok env" and inv: "chain_inv env (m_db m)" and mem: "mempool_inv (m_db m)"
    and tip: "GetChaintip env m = Inr (tip, h)" and u: "getUTXO env (m_db m) tip = Inr u"
    and prev: "getObject env (m_db m) tip = Inr (BlockObj prev)" "blk_Created prev < now" "exact_int now"
    and fits: "\<And>t e. gm_get (db_mempool (m_db m)) t = Some e \<Longrightarrow>
        me_TxID e = t \<and> 0 \<le> me_Fee e \<and> entry_fits env m (us_UTXOs u) e"
    and key: "HashID_ok (mn_Pubkey mn)" and agent: "\<not> sublist DUMMY_HASH (cfg_AgentName (Config m))"
    and j: "Mine_job env now m mn = Some (Inr j)"
    and found: "mineWorker env stop random (job_template j) (job_offset j) (nat TARGET_BIGINT) = Some (FoundNonce s, hs)"
    and new: "\<And>k. gm_has (us_UTXOs u) k \<Longrightarrow> key_Txid k \<notin> set (elems (blk_Txids (job_block j)))"
      "\<And>oid v. HashObject env (CoinbaseObj (job_coinbase j)) = Inr oid \<Longrightarrow> ldb_get env (db_db (m_db m)) oid \<noteq> Inr v"
    and store: "StoreObject env m (CoinbaseObj (job_coinbase j)) = (m', None)" and now': "now \<le> now'"
  shows "\<exists>obj r. ValidateObject env now' m' (BlockObj ((job_block j)\<lparr>blk_Nonce := s\<rparr>)) = Some (obj, r) \<and>
    vr_Error r = None \<and> vr_IsNewTip r \<and> vr_NewHeight r = h + 1"
proof -
  obtain block where b: "BuildBlock env now m mn = Some (Inr (block, job_coinbase j))"
    and jb: "job_block j = block\<lparr>blk_Nonce := DUMMY_HASH\<rparr>"
    using j by (auto simp: Mine_job_def Let_def split: option.splits sum.splits prod.splits)
  let ?blk = "(job_block j)\<lparr>blk_Nonce := s\<rparr>"
  obtain oid where oid: "GetObjectID env (BlockObj ?blk) = (BlockObj (?blk\<lparr>blk_CachedID := Some oid\<rparr>), Inr oid)"
    "VerifyPoW oid = Inr True"
    using found_nonce [OF j found prev(3) agent hk] by auto
  have "snd (GetObjectID env (BlockObj (?blk\<lparr>blk_CachedID := Some oid\<rparr>))) = Inr oid"
    by (simp add: GetObjectID_def)
  moreover have "now < 2 ^ 63" using prev(3) by (simp add: exact_int_def)
  moreover have "\<And>k. gm_has (us_UTXOs u) k \<Longrightarrow> key_Txid k \<notin> set (elems (blk_Txids block))"
    using new(1) by (simp add: jb)
  ultimately have "\<exists>r. ValidateBlock env now' m' (?blk\<lparr>blk_CachedID := Some oid\<rparr>) = Some r \<and> vr_Error r = None \<and>
      vr_IsNewTip r \<and> vr_NewHeight r = h + 1"
    using built_block_valid [where blk = "?blk\<lparr>blk_CachedID := Some oid\<rparr>" and s = s and c = "Some oid",
        OF l hk inv mem tip u prev(1,2) _ fits key b _ new(2) store _ _ oid(2) now'] by (simp add: jb)
  then show ?thesis using oid(1) by (auto simp: ValidateObject_def)
qed

end
