(* ===== verification/MiningSample.thy ===== *)
theory MiningSample
  imports PaymentSample Mining
begin

text \<open>
  Rounds of mining: on the node that has the genesis block and an empty mempool, and on the node with
  a coin, with a transaction in the mempool that spends it.
\<close>

section \<open>A round on the genesis block\<close>

definition miner1 :: Miner where
  "miner1 = New manager1 pub1"

lemma mem_hash_small: "\<exists>digest. mem_hash m = Some digest \<and> SetBytes digest < nat TARGET_BIGINT"
proof -
  obtain b where b: "mem_hash m = Some b" "hex_EncodeToString b = table_id (Some m)"
    using mem_hash_table by blast
  have "table_id (Some m) \<in> {genesisHash, sample_id 1, sample_id 2, sample_id 3}"
    by (auto simp: table_id_def hash_table_def split: option.splits if_splits)
  moreover have "list_all (\<lambda>h. case hex_digits 0 h of None \<Rightarrow> False | Some n \<Rightarrow> n < TARGET_BIGINT)
      [genesisHash, sample_id 1, sample_id 2, sample_id 3]" by code_simp
  ultimately have "case hex_digits 0 (table_id (Some m)) of None \<Rightarrow> False | Some n \<Rightarrow> n < TARGET_BIGINT"
    by auto
  then show ?thesis using b hex_digits_encode [of b] by auto
qed

lemma coinbase1_built:
  "MakeCoinbaseTransaction (BuInt_of_uint64 1) (Some [MakeTxOutput pub1 (block_reward [])]) = coinbase1"
  "HashObject mem_env (CoinbaseObj coinbase1) = Inr (sample_id 1)"
  by (simp add: coinbase1_def BuInt_of_uint64_def block_reward_def BlockReward_value BlockRewardBigInt_def
      BLOCK_REWARD_UINT64_def) (rule sample_ids(2))

definition block2 :: Block where
  "block2 = (block_header t0 (Config manager1))\<lparr>blk_Previd := Some genesisHash, blk_Txids := Some [sample_id 1],
     blk_Note := Some (mn_Note miner1)\<rparr>"

definition coinbase2 :: CoinbaseTransaction where
  "coinbase2 = coinbase1\<lparr>cb_CachedID := Some (sample_id 1)\<rparr>"

lemma built2: "BuildBlock mem_env t0 manager1 miner1 = Some (Inr (block2, coinbase2))"
proof -
  have c: "cb_CachedID coinbase1 = None" by (simp add: coinbase1_def MakeCoinbaseTransaction_def)
  have "GetObjectID mem_env (CoinbaseObj coinbase1) = (CoinbaseObj coinbase2, Inr (sample_id 1))"
    "GetObjectID mem_env (CoinbaseObj coinbase2) = (CoinbaseObj coinbase2, Inr (sample_id 1))"
    using c coinbase1_built(2) by (simp_all add: GetObjectID_def coinbase2_def)
  moreover have "GetChaintip mem_env manager1 = Inr (genesisHash, 0)"
    using manager1_reads(3) by (simp add: GetChaintip_Inr)
  moreover have "elems (GetMempoolEntries manager1) = []"
    by (simp add: GetMempoolEntries_def getMempoolEntries_def manager1_def newDatabase_def)
  ultimately show ?thesis
    using coinbase1_built(1) by (simp add: BuildBlock_def block_body_def Let_def ValidateObject_def ValidateCoinbase_def
        zero_result_def miner1_def New_def block2_def)
qed

lemma agent_no_dummy: "\<not> sublist DUMMY_HASH (cfg_AgentName (Config manager1))"
proof (rule no_C)
  have "cfg_AgentName (Config manager1) = ''agent''"
    by (simp add: Config_def manager1_def manager0_def NewManager_def sample_config_def)
  then show "CHR ''C'' \<notin> set (cfg_AgentName (Config manager1))" by simp
qed

lemma t0_exact: "exact_int t0"
  by (simp add: exact_int_def t0_def)

text \<open>A round whose first nonce is good.\<close>

lemma first_nonce:
  assumes "BuildBlock env t0 m mn = Some (Inr (block, cb))" "\<not> sublist DUMMY_HASH (cfg_AgentName (Config m))"
    and small: "\<And>x. \<exists>digest. blake2s env x = Some digest \<and> SetBytes digest < nat TARGET_BIGINT"
  obtains j s hs where "Mine_job env t0 m mn = Some (Inr j)"
    "job_block j = block\<lparr>blk_Nonce := DUMMY_HASH\<rparr>" "job_coinbase j = cb"
    "mineWorker env (\<lambda>_. False) (replicate 32 CHR 0x00) (job_template j) (job_offset j) (nat TARGET_BIGINT) =
       Some (FoundNonce s, hs)"
proof -
  obtain pre post where j: "Mine_job env t0 m mn = Some (Inr \<lparr>job_block = block\<lparr>blk_Nonce := DUMMY_HASH\<rparr>,
       job_coinbase = cb, job_template = pre @ CHR 0x22 # DUMMY_HASH @ CHR 0x22 # post,
       job_offset = Suc (length pre)\<rparr>)"
    using built_job [OF assms(1) t0_exact assms(2)] by metis
  have n: "GenerateRandomNonce (replicate 32 CHR 0x00) = 0" "length DUMMY_HASH = 64" by code_simp+
  obtain bs where bs: "FillBytes 32 1 = Some bs" by (simp add: FillBytes_def)
  let ?wb = "(pre @ [CHR 0x22]) @ hex_EncodeToString bs @ CHR 0x22 # post"
  have put: "put_nonce (pre @ CHR 0x22 # DUMMY_HASH @ CHR 0x22 # post) (Suc (length pre)) (hex_EncodeToString bs) = Some ?wb"
    using put_nonce_around [of DUMMY_HASH "pre @ [CHR 0x22]" "CHR 0x22 # post"] n(2) by simp
  obtain digest where "blake2s env ?wb = Some digest" "SetBytes digest < nat TARGET_BIGINT"
    using small by blast
  then have "\<exists>hs. mineWorker env (\<lambda>_. False) (replicate 32 CHR 0x00)
      (pre @ CHR 0x22 # DUMMY_HASH @ CHR 0x22 # post) (Suc (length pre)) (nat TARGET_BIGINT) = Some (FoundNonce (hex64 1), hs)"
    unfolding mineWorker_def n(1) using bs put by (subst mine_loop.simps) (simp add: Let_def)
  then show thesis using that [OF j] by auto
qed

lemmas round2 = first_nonce [OF built2 agent_no_dummy, OF mem_hash_small [folded mem_env_simps(1)]]

lemma coinbase2_id: "HashObject mem_env (CoinbaseObj coinbase2) = Inr (sample_id 1)"
  using coinbase1_built(2) by (simp add: coinbase2_def HashObject_def CoinbaseTransaction_json_def)

lemma store2:
  obtains m where "StoreObject mem_env manager1 (CoinbaseObj coinbase2) = (m, None)"
  using that coinbase2_id
  by (auto simp: StoreObject_def putObject_def put_key_def HashObject_def split: option.splits)

lemma fresh2: "ldb_get mem_env (db_db (m_db manager1)) (sample_id 1) \<noteq> Inr v"
proof -
  have "sample_id 1 \<noteq> genesisHash" by code_simp
  moreover have "sample_id 1 \<noteq> chaintipKey" "sample_id 1 \<noteq> utxoKey genesisHash"
    using HashID_keys [OF sample_id_ok(3)] by metis+
  ultimately show ?thesis by (simp add: manager1_def newDatabase_def)
qed

section \<open>A round with a transaction\<close>

text \<open>
  On the sample block the mempool's transaction spends the block's coinbase. The table of the hash
  gets one more entry, for the coinbase of the next block.
\<close>

definition coinbase4 :: CoinbaseTransaction where
  "coinbase4 = MakeCoinbaseTransaction 2 (Some [MakeTxOutput pub1 (51 * 10 ^ 12)])"

definition mine_env :: "(bytes, bytes) gomap env" where
  "mine_env = mem_env\<lparr>blake2s := (\<lambda>m. if Canonicalize (CoinbaseTransaction_json coinbase4) = Some m
     then Some (replicate 31 CHR 0x00 @ [CHR 0x04]) else mem_hash m)\<rparr>"

lemma mine_env_store [simp]:
  "ldb_get mine_env = mem_get" "ldb_put mine_env d k v = (gm_set k v d, None)" "ldb_has mine_env d k = Inr (gm_has d k)"
  "ldb_delete mine_env d k = (gm_del k d, None)" "ldb_iter mine_env d = (d, None)"
  by (simp_all add: mine_env_def)

lemma mine_env_reads:
  "getObject mine_env d b = getObject mem_env d b" "getUTXO mine_env d b = getUTXO mem_env d b"
  "getChaintip mine_env d = getChaintip mem_env d"
  by (simp_all add: getObject_def getUTXO_def getChaintip_def)

lemma mine_env_chain: "chain_inv mine_env d = chain_inv mem_env d"
  unfolding chain_inv_def store_outputs_ok_def entry_ok_def parent_ok_def mine_env_reads ..

lemma mine_env_ok: "ldb_ok mine_env" "hash_ok mine_env" 
proof -
  show "ldb_ok mine_env" using mem_ldb_ok(1) by (simp add: ldb_ok_def)
  show "hash_ok mine_env" using mem_hash_ok by (auto simp: hash_ok_def mine_env_def)
qed

lemma mine_hash_small: "\<exists>digest. blake2s mine_env m = Some digest \<and> SetBytes digest < nat TARGET_BIGINT"
proof -
  have "hex_EncodeToString (replicate 31 CHR 0x00 @ [CHR 0x04]) = sample_id 4" by code_simp
  moreover have "case hex_digits 0 (sample_id 4) of None \<Rightarrow> False | Some n \<Rightarrow> n < TARGET_BIGINT" by code_simp
  ultimately have "SetBytes (replicate 31 CHR 0x00 @ [CHR 0x04]) < nat TARGET_BIGINT"
    using hex_digits_encode [of "replicate 31 CHR 0x00 @ [CHR 0x04]"] by (simp del: replicate.simps)
  then show ?thesis using mem_hash_small [of m] by (auto simp: mine_env_def)
qed

lemma coinbase4_ok: "exact_object (CoinbaseObj coinbase4)"
  by (simp add: coinbase4_def MakeCoinbaseTransaction_def exact_object_def exact_int_def exact_output_def MakeTxOutput_def)

lemma coinbase4_id: "HashObject mine_env (CoinbaseObj (coinbase4\<lparr>cb_CachedID := c\<rparr>)) = Inr (sample_id 4)"
proof -
  have "hex_EncodeToString (replicate 31 CHR 0x00 @ [CHR 0x04]) = sample_id 4" by code_simp
  moreover obtain t where "Canonicalize (CoinbaseTransaction_json coinbase4) = Some t"
    using Canonicalize_exact [OF exact_Object_json [OF coinbase4_ok]] by auto
  moreover have "CoinbaseTransaction_json (coinbase4\<lparr>cb_CachedID := c\<rparr>) = CoinbaseTransaction_json coinbase4"
    by (simp add: CoinbaseTransaction_json_def)
  ultimately show ?thesis by (simp add: HashObject_def HashString_def Hash_def mine_env_def)
qed

definition manager4 :: "(bytes, bytes) gomap Manager" where
  "manager4 = manager3\<lparr>m_db := (newDatabase (gm_set (sample_id 3) (print_json (Object_json (TxObj transaction1)))
     (db_db (m_db manager3))))\<lparr>db_mempool := [(sample_id 3, entry1)], db_mempoolSpentInputs := [(key1, sample_id 3)]\<rparr>\<rparr>"

lemma sample_id_3:
  "sample_id 3 \<noteq> sample_id 1" "sample_id 3 \<noteq> sample_id 2" "sample_id 3 \<noteq> genesisHash" "sample_id 3 \<noteq> chaintipKey"
  "sample_id 3 \<noteq> utxoKey b" "sample_id 4 \<noteq> sample_id 1" "sample_id 4 \<noteq> sample_id 2" "sample_id 4 \<noteq> sample_id 3"
  "sample_id 4 \<noteq> genesisHash" "sample_id 4 \<noteq> chaintipKey" "sample_id 4 \<noteq> utxoKey b"
proof -
  have "HashID_ok (sample_id 4)" by code_simp
  then show "sample_id 4 \<noteq> chaintipKey" "sample_id 4 \<noteq> utxoKey b" using HashID_keys by metis+
  show "sample_id 3 \<noteq> chaintipKey" "sample_id 3 \<noteq> utxoKey b" using HashID_keys [OF sample_id_ok(7)] by metis+
  show "sample_id 3 \<noteq> sample_id 1" "sample_id 3 \<noteq> sample_id 2" "sample_id 3 \<noteq> genesisHash"
    "sample_id 4 \<noteq> sample_id 1" "sample_id 4 \<noteq> sample_id 2" "sample_id 4 \<noteq> sample_id 3" "sample_id 4 \<noteq> genesisHash"
    by code_simp+
qed

lemma fresh4:
  "ldb_get mem_env (db_db (m_db manager3)) (sample_id 3) \<noteq> Inr v"
  "ldb_get mine_env (db_db (m_db manager4)) (sample_id 4) \<noteq> Inr v"
  using sample_id_3
  by (simp_all add: manager4_def manager3_def coin_manager_def manager1_def newDatabase_def)

lemma manager4_inv: "chain_inv mine_env (m_db manager4)" "mempool_inv (m_db manager4)"
proof -
  obtain d r where p: "putObject mem_env (m_db manager3) (TxObj transaction1) = (d, r)" by fastforce
  have id: "HashObject mem_env (TxObj transaction1) = Inr (sample_id 3)" by (rule sample_ids(4))
  then have d: "db_db d = gm_set (sample_id 3) (print_json (Object_json (TxObj transaction1))) (db_db (m_db manager3))"
    using p by (auto simp: putObject_def put_key_def HashObject_def split: option.splits sum.splits)
  have t: "typed (TxObj transaction1)" by (simp add: transaction1_def MakeTransaction_def)
  have "chain_inv mem_env d"
    by (rule putObject_chain(1) [OF mem_ldb_ok(1) mem_hash_ok p t _ id fresh4(1)])
      (use manager3_inv in \<open>simp add: mgr_inv_def\<close>)
  then have "chain_inv mem_env (m_db manager4)"
    by (rule chain_inv_eq [rotated]) (simp add: chain_eq_def d manager4_def newDatabase_def)
  then show "chain_inv mine_env (m_db manager4)" by (simp add: mine_env_chain)
  show "mempool_inv (m_db manager4)"
    by (auto simp: manager4_def mempool_inv_def entry_keys_ok_def entry1_def transaction1_def MakeTransaction_def
        input_key_def key1_def gm_wf_def gm_get_def split: if_splits)
qed

lemma manager4_reads:
  "getUTXO mine_env (m_db manager4) (sample_id 2) = Inr \<lparr>us_BlockID = sample_id 2, us_UTXOs = [coin1], us_Height = 1\<rparr>"
  "GetChaintip mine_env manager4 = Inr (sample_id 2, 1)"
  "getObject mine_env (m_db manager4) (sample_id 2) = Inr (BlockObj block1)"
  "getObject mine_env (m_db manager4) (sample_id 3) = Inr (TxObj transaction1)"
proof -
  have k: "utxoKey b \<noteq> sample_id 3" "chaintipKey \<noteq> sample_id 3" for b using sample_id_3 by metis+
  have get: "ldb_get mem_env (db_db (m_db manager4)) k =
      (if k = sample_id 3 then Inr (print_json (Object_json (TxObj transaction1))) else ldb_get mem_env (db_db (m_db manager3)) k)" for k
    by (simp add: manager4_def newDatabase_def)
  show "getUTXO mine_env (m_db manager4) (sample_id 2) = Inr \<lparr>us_BlockID = sample_id 2, us_UTXOs = [coin1], us_Height = 1\<rparr>"
    unfolding mine_env_reads using manager3_reads(1) k by (simp only: getUTXO_def get if_False)
  show "GetChaintip mine_env manager4 = Inr (sample_id 2, 1)"
    unfolding GetChaintip_Inr mine_env_reads using manager3_reads(2) k by (simp only: getChaintip_def get if_False)
  show "getObject mine_env (m_db manager4) (sample_id 2) = Inr (BlockObj block1)"
    unfolding mine_env_reads using manager3_reads(4) sample_id_3(2) [symmetric] by (simp only: getObject_def get if_False)
  have "decodeObject (print_json (Object_json (TxObj transaction1))) = Inr (TxObj transaction1)"
    using decodeObject_json [of "TxObj transaction1"] sample_objects(4)
    by (simp add: transaction1_def MakeTransaction_def)
  then show "getObject mine_env (m_db manager4) (sample_id 3) = Inr (TxObj transaction1)"
    unfolding mine_env_reads by (simp only: getObject_def get simp_thms if_True sum.case)
qed


lemma entry1_fits: "entry_fits mine_env manager4 [coin1] entry1"
proof -
  have "spent_keys (elems (tx_Inputs transaction1)) = Some [key1]"
    by (simp add: transaction1_def MakeTransaction_def input_key_def key1_def)
  moreover have "gm_get [coin1] key1 = Some (MakeTxOutput pub1 (50 * 10 ^ 12))"
    by (simp add: coin1_def gm_get_def)
  ultimately show ?thesis
    using manager4_reads(4) by (simp add: entry_fits_def entry1_def gm_has_def)
      (simp add: transaction1_def MakeTransaction_def MakeTxOutput_def)
qed

definition miner4 :: Miner where
  "miner4 = New manager4 pub1"

definition block4 :: Block where
  "block4 = (block_header t0 (Config manager4))\<lparr>blk_Previd := Some (sample_id 2),
     blk_Txids := Some [sample_id 4, sample_id 3], blk_Note := Some (mn_Note miner4)\<rparr>"

definition coinbase4' :: CoinbaseTransaction where
  "coinbase4' = coinbase4\<lparr>cb_CachedID := Some (sample_id 4)\<rparr>"

lemma manager4_entries: "elems (GetMempoolEntries manager4) = [entry1]"
  by (simp add: GetMempoolEntries_def getMempoolEntries_def manager4_def)

lemma built4: "BuildBlock mine_env t0 manager4 miner4 = Some (Inr (block4, coinbase4'))"
proof -
  have cb: "MakeCoinbaseTransaction (BuInt_of_uint64 (1 + 1)) (Some [MakeTxOutput (mn_Pubkey miner4) (block_reward [entry1])]) = coinbase4"
    by (simp add: coinbase4_def BuInt_of_uint64_def block_reward_def BlockReward_value BlockRewardBigInt_def
        BLOCK_REWARD_UINT64_def Picabu_Add_def entry1_def miner4_def New_def)
  have "GetObjectID mine_env (CoinbaseObj coinbase4) = (CoinbaseObj coinbase4', Inr (sample_id 4))"
    using coinbase4_id [of None] by (simp add: GetObjectID_def coinbase4'_def coinbase4_def MakeCoinbaseTransaction_def)
  moreover have "GetObjectID mine_env (CoinbaseObj coinbase4') = (CoinbaseObj coinbase4', Inr (sample_id 4))"
    by (simp add: GetObjectID_def coinbase4'_def)
  moreover have "me_TxID entry1 = sample_id 3" by (simp add: entry1_def)
  ultimately show ?thesis
    using manager4_reads(2) manager4_entries cb
    by (simp add: BuildBlock_def block_body_def Let_def ValidateObject_def ValidateCoinbase_def zero_result_def block4_def)
qed

lemma agent4: "\<not> sublist DUMMY_HASH (cfg_AgentName (Config manager4))"
proof (rule no_C)
  have "cfg_AgentName (Config manager4) = ''agent''"
    by (simp add: Config_def manager4_def manager3_def coin_manager_def manager1_def manager0_def NewManager_def sample_config_def)
  then show "CHR ''C'' \<notin> set (cfg_AgentName (Config manager4))" by simp
qed

lemma store4: obtains m where "StoreObject mine_env manager4 (CoinbaseObj coinbase4') = (m, None)"
  using that coinbase4_id [of "Some (sample_id 4)"]
  by (auto simp: coinbase4'_def StoreObject_def putObject_def put_key_def HashObject_def split: option.splits sum.splits)

lemmas round4 = first_nonce [OF built4 agent4 mine_hash_small]

end
