(* ===== verification/Amounts.thy ===== *)
theory Amounts
  imports Complex_Main Crypto PeerAddr
begin

text \<open>
  \<^verbatim>\<open>internal/utils/conversions.go\<close>: amounts between BU, which the user types and reads as
  floating-point numbers, and Picabu. A finite floating-point number is its rational value (the sign
  of a zero, which nothing here looks at, is left out), \<open>big_round\<close> is the rounding of \<^verbatim>\<open>math/big\<close>
  at a precision and \<open>f64\<close> the rounding to a \<^verbatim>\<open>float64\<close> with its limits; \<open>ParseFloat\<close> is the reader
  of \<^verbatim>\<open>strconv\<close>. A panic is \<open>None\<close>.

  Results: rounding is within half a unit of the last place; an amount with up to 12 decimals and below
  4503 BU arrives at most one Picabu below what was typed, never above, and exactly if it is whole
  (\<open>BuToPicabu_near\<close>, \<open>decimal_amount\<close>); 4.1 BU is an example that loses one (\<open>BuToPicabu_loses\<close>).
\<close>

section \<open>Floating-point numbers\<close>

definition round_even :: "rat \<Rightarrow> int" where
  "round_even r = (let f = \<lfloor>r\<rfloor>; d = r - of_int f
     in if d < 1 / 2 then f else if 1 / 2 < d then f + 1 else if even f then f else f + 1)"

definition two_to :: "int \<Rightarrow> rat" where
  "two_to e = (if 0 \<le> e then 2 ^ nat e else 1 / 2 ^ nat (- e))"

text \<open>The exponent of the last of \<open>p\<close> bits of a positive number.\<close>

definition ulp_exp :: "nat \<Rightarrow> rat \<Rightarrow> int" where
  "ulp_exp p r = (case quotient_of r of (a, b) \<Rightarrow>
     let e = int (bitlen (nat a)) - int (bitlen (nat b)) - int p
     in if two_to (e + int p) \<le> r then e + 1 else e)"

definition round_at :: "int \<Rightarrow> rat \<Rightarrow> rat" where
  "round_at e r = of_int (round_even (r / two_to e)) * two_to e"

definition big_round :: "nat \<Rightarrow> rat \<Rightarrow> rat" where
  "big_round p r = (if r = 0 then 0 else if 0 < r then round_at (ulp_exp p r) r
     else - round_at (ulp_exp p (- r)) (- r))"

datatype float64 = Fin rat | Infinite bool | NotANumber

text \<open>The nearest \<^verbatim>\<open>float64\<close>: 53 bits, no exponent below -1074, infinite from \<open>2 ^ 1024\<close> on.\<close>

definition f64_abs :: "bool \<Rightarrow> rat \<Rightarrow> float64" where
  "f64_abs neg r =
     (let v = round_at (max (ulp_exp 53 r) (- 1074)) r
      in if two_to 1024 \<le> v then Infinite neg else Fin (if neg then - v else v))"

definition f64 :: "rat \<Rightarrow> float64" where
  "f64 r = (if r = 0 then Fin 0 else if 0 < r then f64_abs False r else f64_abs True (- r))"

section \<open>Reading a number\<close>

definition is_base_digit :: "bool \<Rightarrow> char \<Rightarrow> bool" where
  "is_base_digit hex c \<longleftrightarrow> is_digit c \<or> (hex \<and> lower c \<in> set ''abcdef'')"

text \<open>An underscore stands between two digits, or after the base prefix.\<close>

fun underscores_ok :: "bool \<Rightarrow> char \<Rightarrow> string \<Rightarrow> bool" where
  "underscores_ok hex saw [] = (saw \<noteq> CHR ''_'')"
| "underscores_ok hex saw (c # s) =
     (if is_base_digit hex c then underscores_ok hex (CHR ''0'') s
      else if c = CHR ''_'' then saw = CHR ''0'' \<and> underscores_ok hex (CHR ''_'') s
      else saw \<noteq> CHR ''_'' \<and> underscores_ok hex (CHR ''!'') s)"

definition strip_sign :: "string \<Rightarrow> bool \<times> string" where
  "strip_sign s = (case s of c # t \<Rightarrow> if c = CHR ''+'' then (False, t) else if c = CHR ''-'' then (True, t) else (False, s)
     | [] \<Rightarrow> (False, s))"

definition underscoreOK :: "string \<Rightarrow> bool" where
  "underscoreOK s = (case snd (strip_sign s) of
     CHR ''0'' # c # t \<Rightarrow> if lower c \<in> set ''box'' then underscores_ok (lower c = CHR ''x'') (CHR ''0'') t
       else underscores_ok False (CHR ''^'') (CHR ''0'' # c # t)
   | t \<Rightarrow> underscores_ok False (CHR ''^'') t)"

text \<open>The digits before the exponent: their value, the digits after the dot, the text left.\<close>

fun mantissa :: "bool \<Rightarrow> string \<Rightarrow> bool \<Rightarrow> bool \<Rightarrow> nat \<Rightarrow> nat \<Rightarrow> bool \<times> nat \<times> nat \<times> string" where
  "mantissa hex [] sawdot sawdigits n places = (sawdigits, n, places, [])"
| "mantissa hex (c # s) sawdot sawdigits n places =
     (if c = CHR ''_'' then mantissa hex s sawdot sawdigits n places
      else if c = CHR ''.'' then
        (if sawdot then (sawdigits, n, places, c # s) else mantissa hex s True sawdigits n places)
      else (case (if is_base_digit hex c then hex_val c else None) of
        None \<Rightarrow> (sawdigits, n, places, c # s)
      | Some d \<Rightarrow> mantissa hex s sawdot True ((if hex then 16 else 10) * n + d) (if sawdot then Suc places else places)))"

text \<open>The exponent's digits; it stops growing at 10000.\<close>

fun exponent_digits :: "string \<Rightarrow> nat \<Rightarrow> nat \<times> string" where
  "exponent_digits [] e = (e, [])"
| "exponent_digits (c # s) e =
     (if c = CHR ''_'' then exponent_digits s e
      else (case (if is_digit c then hex_val c else None) of
        None \<Rightarrow> (e, c # s)
      | Some d \<Rightarrow> exponent_digits s (if e < 10000 then 10 * e + d else e)))"

definition exponent_part :: "bool \<Rightarrow> string \<Rightarrow> (int \<times> string) option" where
  "exponent_part hex s =
     (case s of
        c # t \<Rightarrow>
          if lower c = (if hex then CHR ''p'' else CHR ''e'') then
            (case strip_sign t of (neg, ds) \<Rightarrow>
              if ds = [] \<or> \<not> is_digit (hd ds) then None
              else case exponent_digits ds 0 of (e, rest) \<Rightarrow> Some (if neg then - int e else int e, rest))
          else if hex then None else Some (0, s)
      | [] \<Rightarrow> if hex then None else Some (0, s))"

text \<open>The number a text stands for, if it is all of one; the words for infinity and not-a-number.\<close>

definition readFloat :: "string \<Rightarrow> (bool \<times> rat) option" where
  "readFloat s =
     (case strip_sign s of (neg, t) \<Rightarrow>
        let hex = (2 < length t \<and> hd t = CHR ''0'' \<and> lower (t ! 1) = CHR ''x'')
        in case mantissa hex (if hex then drop 2 t else t) False False 0 0 of (sawdigits, n, places, rest) \<Rightarrow>
          if \<not> sawdigits then None
          else (case exponent_part hex rest of
            Some (e, []) \<Rightarrow>
              if CHR ''_'' \<in> set s \<and> \<not> underscoreOK s then None
              else Some (neg, of_nat n / of_nat ((if hex then 16 else 10) ^ places) *
                (if hex then two_to e else if 0 \<le> e then 10 ^ nat e else 1 / 10 ^ nat (- e)))
          | _ \<Rightarrow> None))"

definition special :: "string \<Rightarrow> float64 option" where
  "special s =
     (if map lower s = ''nan'' then Some NotANumber
      else case strip_sign s of (neg, t) \<Rightarrow>
        if map lower t \<in> {''inf'', ''infinity''} then Some (Infinite neg) else None)"

text \<open>\<^verbatim>\<open>strconv.ParseFloat(s, 64)\<close>; \<open>None\<close> is an error, of syntax or of range.\<close>

definition ParseFloat :: "string \<Rightarrow> float64 option" where
  "ParseFloat s =
     (case special s of
        Some v \<Rightarrow> Some v
      | None \<Rightarrow> (case readFloat s of
          None \<Rightarrow> None
        | Some (neg, r) \<Rightarrow> (case f64 (if neg then - r else r) of
            Fin v \<Rightarrow> Some (Fin v)
          | _ \<Rightarrow> None)))"

section \<open>The conversions\<close>

definition PicabuPerBu :: int where
  "PicabuPerBu = 10 ^ 12"

definition trunc :: "rat \<Rightarrow> int" where
  "trunc r = (if 0 \<le> r then \<lfloor>r\<rfloor> else - \<lfloor>- r\<rfloor>)"

text \<open>
  \<^verbatim>\<open>big.NewFloat\<close> panics on not-a-number; both factors have 53 bits, so has the product;
  \<^verbatim>\<open>Int\<close> leaves its argument alone when the number is infinite.
\<close>

definition BuToPicabu :: "float64 \<Rightarrow> Picabu option" where
  "BuToPicabu bu = (case bu of
     NotANumber \<Rightarrow> None
   | Infinite _ \<Rightarrow> Some 0
   | Fin r \<Rightarrow> Some (trunc (big_round 53 (r * of_int PicabuPerBu))))"

text \<open>\<^verbatim>\<open>SetInt\<close> takes as many bits as the number has, at least 64; so many has the quotient.\<close>

definition PicabuToBu :: "Picabu \<Rightarrow> float64" where
  "PicabuToBu p = f64 (big_round (max (bitlen (nat \<bar>p\<bar>)) 64) (of_int p / of_int PicabuPerBu))"

section \<open>Rounding is near\<close>

lemma round_even_near: "\<bar>of_int (round_even r) - r\<bar> \<le> 1 / 2"
  using of_int_floor_le [of r] floor_correct [of r] by (auto simp: round_even_def Let_def abs_le_iff)

lemma round_even_eq: "\<bar>r - of_int n\<bar> < 1 / 2 \<Longrightarrow> round_even r = n"
proof -
  assume "\<bar>r - of_int n\<bar> < 1 / 2"
  then have "\<bar>of_int (round_even r) - of_int n :: rat\<bar> < 1" using round_even_near [of r] by linarith
  then have "\<bar>round_even r - n\<bar> < 1" by (metis of_int_1 of_int_abs of_int_diff of_int_less_iff)
  then show ?thesis by simp
qed

lemma round_even_of_int: "round_even (of_int n) = n"
  by (simp add: round_even_def)

lemma two_to_pos [simp]: "0 < two_to e" "two_to e \<noteq> 0"
  by (simp_all add: two_to_def)

lemma two_to_powi: "two_to e = 2 powi e"
  by (simp add: two_to_def power_int_def field_simps)

lemma two_to_add: "two_to (a + b) = two_to a * two_to b"
  by (simp add: two_to_powi power_int_add)

lemma two_to_nat [simp]: "two_to (int n) = 2 ^ n"
  by (simp add: two_to_def)

lemma two_to_mono: "a \<le> b \<Longrightarrow> two_to a \<le> two_to b"
  by (simp add: two_to_powi power_int_increasing)

lemma two_to_less: "two_to a < two_to b \<longleftrightarrow> a < b"
  using two_to_mono [of b a] power_int_strict_increasing [of a b "2 :: rat"] by (auto simp: two_to_powi not_le [symmetric])

text \<open>The exponent leaves \<open>p\<close> bits before the point, and no other one does.\<close>

lemma ulp_exp_bounds:
  assumes r: "0 < r" and p: "0 < p"
  shows "two_to (ulp_exp p r + int p - 1) \<le> r \<and> r < two_to (ulp_exp p r + int p)"
proof -
  obtain a b where q: "quotient_of r = (a, b)" by fastforce
  have b: "0 < b" "r = of_int a / of_int b" using quotient_of_denom_pos [OF q] quotient_of_div [OF q] by simp_all
  then have a: "0 < a" using r by (simp add: zero_less_divide_iff)
  let ?la = "bitlen (nat a)" and ?lb = "bitlen (nat b)"
  have la: "2 ^ (?la - 1) \<le> nat a" "nat a < 2 ^ ?la" "?la \<noteq> 0"
    and lb: "2 ^ (?lb - 1) \<le> nat b" "nat b < 2 ^ ?lb" "?lb \<noteq> 0"
    using bitlen_ge [of "nat a"] bitlen_ge [of "nat b"] bitlen_gt [of "nat a"] bitlen_gt [of "nat b"] a b by simp_all
  have ra: "of_int a = (of_nat (nat a) :: rat)" "of_int b = (of_nat (nat b) :: rat)" using a b by simp_all
  have A: "(2 :: rat) ^ (?la - 1) \<le> of_int a" "of_int a < (2 :: rat) ^ ?la"
    and B: "(2 :: rat) ^ (?lb - 1) \<le> of_int b" "of_int b < (2 :: rat) ^ ?lb"
    unfolding ra using la lb by (metis of_nat_le_iff of_nat_less_iff of_nat_numeral of_nat_power)+
  have up: "r < two_to (int ?la - int ?lb + 1)"
  proof -
    have "r \<le> of_int a / 2 ^ (?lb - 1)" using B(1) a b by (simp add: frac_le)
    also have "\<dots> < 2 ^ ?la / 2 ^ (?lb - 1)" using A(2) by (simp add: divide_strict_right_mono)
    also have "\<dots> = two_to (int ?la - int (?lb - 1))" by (simp add: two_to_powi power_int_diff)
    finally show ?thesis using lb(3) by (simp add: of_nat_diff Suc_le_eq algebra_simps)
  qed
  have low: "two_to (int ?la - 1 - int ?lb) \<le> r"
  proof -
    have "two_to (int ?la - 1 - int ?lb) = 2 ^ (?la - 1) / 2 ^ ?lb"
      using la(3) by (simp add: two_to_powi power_int_diff power_diff)
    also have "\<dots> \<le> of_int a / 2 ^ ?lb" using A(1) by (simp add: divide_right_mono)
    also have "\<dots> \<le> r" using B(2) a b by (simp add: frac_le)
    finally show ?thesis .
  qed
  show ?thesis
    using up low q by (auto simp: ulp_exp_def Let_def algebra_simps)
qed

lemma ulp_exp_unique:
  assumes "two_to (e + int p - 1) \<le> r" "r < two_to (e + int p)" "0 < p"
  shows "ulp_exp p r = e"
proof -
  have r: "0 < r" using assms(1) two_to_pos(1) less_le_trans by blast
  note u = ulp_exp_bounds [OF r assms(3)]
  have "e + int p - 1 < ulp_exp p r + int p" "ulp_exp p r + int p - 1 < e + int p"
    using assms(1,2) u by (meson le_less_trans two_to_less)+
  then show ?thesis by simp
qed

lemma round_at_near: "\<bar>round_at e r - r\<bar> \<le> two_to e / 2"
proof -
  have "round_at e r - r = (of_int (round_even (r / two_to e)) - r / two_to e) * two_to e"
    using two_to_pos(1) [of e] by (simp add: round_at_def algebra_simps)
  then have "\<bar>round_at e r - r\<bar> = \<bar>of_int (round_even (r / two_to e)) - r / two_to e\<bar> * two_to e"
    using abs_of_pos [OF two_to_pos(1) [of e]] by (simp add: abs_mult)
  also have "\<dots> \<le> 1 / 2 * two_to e"
    using two_to_pos(1) [of e] by (intro mult_right_mono round_even_near less_imp_le) simp
  finally show ?thesis by simp
qed

lemma ulp_small:
  assumes "0 < r" "0 < p"
  shows "two_to (ulp_exp p r) / 2 \<le> r / 2 ^ p"
proof -
  have "two_to (ulp_exp p r + int p - 1) = two_to (ulp_exp p r) * 2 ^ p / 2"
    by (simp add: two_to_powi power_int_add power_int_diff)
  then have "two_to (ulp_exp p r) * 2 ^ p / 2 \<le> r" using ulp_exp_bounds [OF assms] by simp
  then show ?thesis by (simp add: field_simps)
qed

lemma big_round_near:
  assumes "0 < r" "0 < p"
  shows "\<bar>big_round p r - r\<bar> \<le> r / 2 ^ p"
  using order_trans [OF round_at_near [of "ulp_exp p r" r] ulp_small [OF assms]] assms by (simp add: big_round_def)

text \<open>What has at most \<open>p\<close> bits is kept.\<close>

lemma round_at_exact:
  assumes "r = of_int m * two_to j" "e \<le> j"
  shows "round_at e r = r"
proof -
  have "r / two_to e = of_int m * two_to (j - e)"
    using assms(1) by (simp add: two_to_powi power_int_diff)
  also have "\<dots> = of_int (m * 2 ^ nat (j - e))" using assms(2) by (simp add: two_to_def)
  finally have q: "r / two_to e = of_int (m * 2 ^ nat (j - e))" .
  have "round_at e r = r / two_to e * two_to e"
    unfolding round_at_def q round_even_of_int ..
  then show ?thesis by simp
qed

lemma big_round_exact:
  assumes "0 < m" "m < 2 ^ p" "r = of_int m * two_to j"
  shows "big_round p r = r" "ulp_exp p r \<le> j" "0 < r"
proof -
  show r: "0 < r" using assms by simp
  have p: "0 < p" using assms(1,2) by (cases p) auto
  have m: "(of_int m :: rat) < 2 ^ p" using assms(2) by (metis of_int_less_iff of_int_numeral of_int_power)
  then have "r < two_to (j + int p)" using assms(3) by (simp add: two_to_add)
  then have "ulp_exp p r + int p - 1 < j + int p"
    using ulp_exp_bounds [OF r p] by (meson le_less_trans two_to_less)
  then show e: "ulp_exp p r \<le> j" by simp
  show "big_round p r = r" using round_at_exact [OF assms(3) e] r by (simp add: big_round_def)
qed

section \<open>What a typed amount becomes\<close>

text \<open>A number of ordinary size has a float64 that is near.\<close>

lemma f64_near:
  assumes "1 / 2 ^ 1000 \<le> r" "r \<le> 2 ^ 1000"
  obtains v where "f64 r = Fin v" "\<bar>v - r\<bar> \<le> r / 2 ^ 53"
proof -
  have r: "0 < r" using assms(1) by (rule less_le_trans [rotated]) simp
  note u = ulp_exp_bounds [OF r, of 53]
  have "two_to (- 1000) \<le> r" using assms(1) by (simp add: two_to_def)
  then have "two_to (- 1000) < two_to (ulp_exp 53 r + 53)" using u by simp
  then have e: "max (ulp_exp 53 r) (- 1074) = ulp_exp 53 r" by (simp add: two_to_less)
  let ?v = "round_at (ulp_exp 53 r) r"
  have near: "\<bar>?v - r\<bar> \<le> r / 2 ^ 53"
    using order_trans [OF round_at_near [of "ulp_exp 53 r" r] ulp_small [OF r, of 53]] by simp
  then have "?v \<le> r + r / 2 ^ 53" by linarith
  also have "\<dots> \<le> 2 * r" using r by (simp add: field_simps)
  also have "\<dots> \<le> 2 * 2 ^ 1000" using assms(2) by simp
  also have "\<dots> < two_to 1024" by (simp add: two_to_def)
  finally have "f64 r = Fin ?v" using r e by (simp add: f64_def f64_abs_def Let_def)
  then show thesis using that near by blast
qed

lemma trunc_between: "of_int n - 1 < r \<Longrightarrow> r < of_int n + 1 \<Longrightarrow> 0 \<le> r \<Longrightarrow> trunc r = n - 1 \<or> trunc r = n"
proof -
  assume "of_int n - 1 < r" "r < of_int n + 1" "0 \<le> r"
  then have "n - 1 \<le> \<lfloor>r\<rfloor>" "\<lfloor>r\<rfloor> < n + 1" by linarith+
  then show ?thesis using \<open>0 \<le> r\<close> by (auto simp: trunc_def)
qed

lemma BuToPicabu_near:
  assumes "0 < n" "n < 2 ^ 52"
  obtains p where "BuToPicabu (f64 (of_int n / 10 ^ 12)) = Some p" "p = n - 1 \<or> p = n"
proof -
  have n: "1 \<le> (of_int n :: rat)" "(of_int n :: rat) \<le> 2 ^ 52 - 1"
  proof -
    show "1 \<le> (of_int n :: rat)" using assms(1) by simp
    have "n \<le> 2 ^ 52 - 1" using assms(2) by simp
    then have "(of_int n :: rat) \<le> of_int (2 ^ 52 - 1)" by (rule of_int_le_iff [THEN iffD2])
    then show "(of_int n :: rat) \<le> 2 ^ 52 - 1" by simp
  qed
  let ?x = "of_int n / 10 ^ 12 :: rat"
  have "1 / 2 ^ 1000 \<le> (1 / 10 ^ 12 :: rat)" by simp
  also have "\<dots> \<le> ?x" using n by simp
  finally have lo: "1 / 2 ^ 1000 \<le> ?x" .
  have "?x \<le> (2 ^ 52 - 1) / 10 ^ 12" using n by simp
  also have "\<dots> \<le> 2 ^ 1000" by simp
  finally have hi: "?x \<le> 2 ^ 1000" .
  obtain v where v: "f64 ?x = Fin v" "\<bar>v - ?x\<bar> \<le> ?x / 2 ^ 53" using f64_near [OF lo hi] .
  define u where "u = v * 10 ^ 12"
  have "u - of_int n = (v - ?x) * 10 ^ 12" by (simp add: algebra_simps u_def)
  then have "\<bar>u - of_int n\<bar> = \<bar>v - ?x\<bar> * 10 ^ 12" by (simp only: abs_mult) simp
  also have "\<dots> \<le> ?x / 2 ^ 53 * 10 ^ 12" by (rule mult_right_mono [OF v(2)]) simp
  finally have near: "\<bar>u - of_int n\<bar> \<le> of_int n / 2 ^ 53" by simp
  have half: "of_int n / 2 ^ 53 < (1 / 2 :: rat)" using n(2) by simp
  have pos: "0 < u" using near n(1) half by linarith
  have "u \<le> 2 ^ 52" using near n(2) half by linarith
  then have half': "u / 2 ^ 53 \<le> 1 / 2" by simp
  let ?w = "big_round 53 u"
  have w: "\<bar>?w - u\<bar> \<le> u / 2 ^ 53" by (rule big_round_near [OF pos]) simp
  have "of_int n - 1 < ?w" "?w < of_int n + 1" "0 \<le> ?w" using near w n(1) half half' by linarith+
  from trunc_between [OF this] show thesis
    using that v(1) by (auto simp: u_def BuToPicabu_def PicabuPerBu_def)
qed

text \<open>A whole number of BU arrives exactly, up to \<open>2 ^ 25\<close>.\<close>

lemma f64_whole:
  assumes "0 < k" "k < 2 ^ 53"
  shows "f64 (of_int k) = Fin (of_int k)"
proof -
  have k: "of_int k = of_int k * two_to 0" by (simp add: two_to_def)
  note b = big_round_exact [OF assms k]
  have p: "of_int k < (2 :: rat) ^ 53" using assms(2) by (metis of_int_less_iff of_int_numeral of_int_power)
  have "max (ulp_exp 53 (of_int k)) (- 1074) \<le> 0" using b(2) by simp
  then have "round_at (max (ulp_exp 53 (of_int k)) (- 1074)) (of_int k) = of_int k"
    by (rule round_at_exact [OF k])
  moreover have "\<not> two_to 1024 \<le> (of_int k :: rat)"
    using less_trans [OF p, of "2 ^ 1024"] by (simp add: two_to_def not_le del: of_int_less_numeral_power_cancel_iff of_int_less_numeral_iff)
  ultimately show ?thesis using b(3) by (simp add: f64_def f64_abs_def Let_def)
qed

lemma BuToPicabu_whole:
  assumes "0 < k" "k < 2 ^ 25"
  shows "BuToPicabu (f64 (of_int k)) = Some (k * 10 ^ 12)"
proof -
  have k: "k * 5 ^ 12 < 2 ^ 53" "0 < k * 5 ^ 12" "k < 2 ^ 53" using assms by simp_all
  have r: "of_int k * of_int PicabuPerBu = (of_int (k * 5 ^ 12) * two_to 12 :: rat)"
    by (simp add: PicabuPerBu_def two_to_def)
  have "big_round 53 (of_int k * of_int PicabuPerBu) = of_int (k * PicabuPerBu)"
    using big_round_exact(1) [OF k(2,1) r] by simp
  moreover have "trunc (of_int (k * PicabuPerBu)) = k * PicabuPerBu"
    using assms(1) by (simp add: trunc_def PicabuPerBu_def del: of_int_mult)
  ultimately show ?thesis
    using f64_whole [OF assms(1) k(3)] by (simp add: BuToPicabu_def) (simp add: PicabuPerBu_def)
qed

text \<open>4.1 BU lose one Picabu on the way.\<close>

lemma float_4_1: "ParseFloat ''4.1'' = Some (Fin (2308094809027379 / 2 ^ 49))"
proof -
  have u: "ulp_exp 53 (41 / 10) = - 50"
    by (rule ulp_exp_unique) (simp_all add: two_to_def)
  have "round_even (41 / 10 / two_to (- 50)) = 4616189618054758"
    by (rule round_even_eq) (simp add: two_to_def)
  then have "f64 (41 / 10) = Fin (2308094809027379 / 2 ^ 49)"
    by (simp add: f64_def f64_abs_def u round_at_def two_to_def Let_def)
  moreover have "special ''4.1'' = None" by code_simp
  moreover have "readFloat ''4.1'' = Some (False, 41 / 10)"
    by (simp add: readFloat_def strip_sign_def Let_def is_base_digit_def is_digit_def lower_def hex_val_def exponent_part_def)
  ultimately show ?thesis by (simp add: ParseFloat_def)
qed

lemma BuToPicabu_loses: "BuToPicabu (Fin (2308094809027379 / 2 ^ 49)) = Some 4099999999999"
proof -
  let ?r = "2308094809027379 / 2 ^ 49 * 10 ^ 12 :: rat"
  have u: "ulp_exp 53 ?r = - 11"
    by (rule ulp_exp_unique) (simp_all add: two_to_def)
  have "round_even (?r / two_to (- 11)) = 8396799999999999"
    by (rule round_even_eq) (simp add: two_to_def)
  then have "big_round 53 ?r = 8396799999999999 / 2 ^ 11"
    using u by (simp add: big_round_def round_at_def two_to_def)
  moreover have "\<lfloor>8396799999999999 / 2 ^ 11 :: rat\<rfloor> = 4099999999999" by (simp add: floor_eq_iff)
  moreover have "trunc (8396799999999999 / 2 ^ 11) = \<lfloor>8396799999999999 / 2 ^ 11 :: rat\<rfloor>"
    unfolding trunc_def by (rule if_P) simp
  ultimately show ?thesis
    unfolding BuToPicabu_def PicabuPerBu_def by (simp only: float64.case of_int_power of_int_numeral)
qed

lemma f64_amount:
  assumes "0 < n" "n < 2 ^ 52"
  obtains v where "f64 (of_int n / 10 ^ 12) = Fin v" "0 < v"
proof -
  let ?x = "of_int n / 10 ^ 12 :: rat"
  have n: "1 \<le> (of_int n :: rat)" "(of_int n :: rat) \<le> 2 ^ 52"
    using assms of_int_le_iff [of n "2 ^ 52", where ?'a = rat] by simp_all
  have "1 / 2 ^ 1000 \<le> (1 / 10 ^ 12 :: rat)" by simp
  also have "\<dots> \<le> ?x" using n by simp
  finally have lo: "1 / 2 ^ 1000 \<le> ?x" .
  have "?x \<le> 2 ^ 52 / 10 ^ 12" using n by simp
  also have "\<dots> \<le> 2 ^ 1000" by simp
  finally have hi: "?x \<le> 2 ^ 1000" .
  obtain v where v: "f64 ?x = Fin v" "\<bar>v - ?x\<bar> \<le> ?x / 2 ^ 53" using f64_near [OF lo hi] .
  define y where "y = ?x / 2 ^ 53"
  have "y < ?x" using n by (simp add: y_def)
  moreover have "\<bar>v - ?x\<bar> \<le> y" using v(2) by (simp add: y_def)
  ultimately have "0 < v" by linarith
  then show thesis using that v(1) by blast
qed

section \<open>Decimal numbers\<close>

text \<open>A plain decimal number is read as what it says.\<close>

definition decimal_text :: "string \<Rightarrow> string \<Rightarrow> string" where
  "decimal_text ds fs = ds @ (if fs = [] then [] else CHR ''.'' # fs)"

lemma digit_value: "is_digit c \<Longrightarrow> hex_val c = Some (digit_val c)"
  by (auto simp: is_digit_def hex_val_def digit_val_def Let_def)

lemma mantissa_digits:
  "list_all is_digit ds \<Longrightarrow> mantissa False (ds @ t) dot any n places =
     mantissa False t dot (any \<or> ds \<noteq> []) (foldl (\<lambda>n c. 10 * n + digit_val c) n ds)
       (if dot then places + length ds else places)"
proof (induction ds arbitrary: any n places)
  case (Cons c ds)
  then have c: "is_digit c" "c \<noteq> CHR ''_''" "c \<noteq> CHR ''.''" by (auto simp: is_digit_def)
  then show ?case using Cons by (simp add: digit_value is_base_digit_def)
qed simp

lemma decimal_hd:
  assumes "list_all is_digit ds" "ds \<noteq> []"
  obtains c t where "decimal_text ds fs = c # t" "is_digit c" "strip_sign (decimal_text ds fs) = (False, decimal_text ds fs)"
proof -
  obtain c t where ds: "ds = c # t" using assms(2) by (cases ds) auto
  then have c: "is_digit c" "c \<noteq> CHR ''+''" "c \<noteq> CHR ''-''" using assms(1) by (auto simp: is_digit_def)
  show thesis by (rule that [of c "t @ (if fs = [] then [] else CHR ''.'' # fs)"])
    (simp_all add: decimal_text_def ds c strip_sign_def)
qed

lemma decimal_chars: "list_all is_digit ds \<Longrightarrow> list_all is_digit fs \<Longrightarrow> c \<in> set (decimal_text ds fs) \<Longrightarrow> is_digit c \<or> c = CHR ''.''"
  by (auto simp: decimal_text_def list_all_iff split: if_splits)

lemma special_decimal:
  assumes "list_all is_digit ds" "ds \<noteq> []"
  shows "special (decimal_text ds fs) = None"
proof -
  obtain c t where c: "decimal_text ds fs = c # t" "is_digit c" "strip_sign (decimal_text ds fs) = (False, decimal_text ds fs)"
    using decimal_hd [OF assms] .
  then have "lower c = c" "c \<noteq> CHR ''n''" "c \<noteq> CHR ''i''" by (auto simp: lower_def is_digit_def)
  then show ?thesis using c by (simp add: special_def)
qed

lemma readFloat_decimal:
  assumes ds: "list_all is_digit ds" "ds \<noteq> []" and fs: "list_all is_digit fs"
  shows "readFloat (decimal_text ds fs) = Some (False, of_nat (nat_of_string (ds @ fs)) / 10 ^ length fs)"
proof -
  obtain c t where c: "decimal_text ds fs = c # t" "is_digit c" "strip_sign (decimal_text ds fs) = (False, decimal_text ds fs)"
    using decimal_hd [OF ds] .
  have no_hex: "\<not> (2 < length (decimal_text ds fs) \<and> hd (decimal_text ds fs) = CHR ''0'' \<and> lower (decimal_text ds fs ! 1) = CHR ''x'')"
  proof
    assume h: "2 < length (decimal_text ds fs) \<and> hd (decimal_text ds fs) = CHR ''0'' \<and> lower (decimal_text ds fs ! 1) = CHR ''x''"
    then have "decimal_text ds fs ! 1 \<in> set (decimal_text ds fs)" by simp
    then have "is_digit (decimal_text ds fs ! 1) \<or> decimal_text ds fs ! 1 = CHR ''.''" by (rule decimal_chars [OF ds(1) fs])
    then have "lower (decimal_text ds fs ! 1) = decimal_text ds fs ! 1" "decimal_text ds fs ! 1 \<noteq> CHR ''x''"
      by (auto simp: lower_def is_digit_def)
    then show False using h by simp
  qed
  then have hex: "(2 < length (decimal_text ds fs) \<and> hd (decimal_text ds fs) = CHR ''0'' \<and> lower (decimal_text ds fs ! 1) = CHR ''x'') = False"
    by blast
  have "mantissa False (ds @ (if fs = [] then [] else CHR ''.'' # fs)) False False 0 0 =
      (True, foldl (\<lambda>n c. 10 * n + digit_val c) 0 (ds @ fs), length fs, [])"
    using mantissa_digits [OF fs, of "[]" True] mantissa_digits [OF ds(1), of "if fs = [] then [] else CHR ''.'' # fs"] ds(2)
    by (cases "fs = []") simp_all
  then have m: "mantissa False (decimal_text ds fs) False False 0 0 = (True, nat_of_string (ds @ fs), length fs, [])"
    by (simp add: decimal_text_def nat_of_string_def)
  have "CHR ''_'' \<notin> set (decimal_text ds fs)" using decimal_chars [OF ds(1) fs, of "CHR ''_''"] by (auto simp: is_digit_def)
  then show ?thesis
    by (simp only: readFloat_def c(3) prod.case Let_def hex if_False m) (simp add: exponent_part_def)
qed

text \<open>The number of Picabu that is written with at most 12 decimals.\<close>

definition decimal_picabu :: "string \<Rightarrow> string \<Rightarrow> int" where
  "decimal_picabu ds fs = int (nat_of_string (ds @ fs)) * 10 ^ (12 - length fs)"

lemma read_picabu:
  assumes "list_all is_digit ds" "ds \<noteq> []" "list_all is_digit fs" "length fs \<le> 12"
  shows "readFloat (decimal_text ds fs) = Some (False, of_int (decimal_picabu ds fs) / 10 ^ 12)"
proof -
  have p: "(10 :: rat) ^ 12 = 10 ^ (12 - length fs) * 10 ^ length fs" using assms(4) by (simp add: power_add [symmetric])
  have "of_int (decimal_picabu ds fs) / 10 ^ 12 = (of_nat (nat_of_string (ds @ fs)) / 10 ^ length fs :: rat)"
    unfolding p by (simp add: decimal_picabu_def)
  then show ?thesis using readFloat_decimal [OF assms(1-3)] by simp
qed

lemma decimal_amount:
  assumes "list_all is_digit ds" "ds \<noteq> []" "list_all is_digit fs" "length fs \<le> 12"
    and k: "0 < decimal_picabu ds fs" "decimal_picabu ds fs < 2 ^ 52"
  shows "\<exists>v p. ParseFloat (decimal_text ds fs) = Some (Fin v) \<and> 0 < v \<and> BuToPicabu (Fin v) = Some p \<and>
    (p = decimal_picabu ds fs \<or> p = decimal_picabu ds fs - 1) \<and> (10 ^ 12 dvd decimal_picabu ds fs \<longrightarrow> p = decimal_picabu ds fs)"
proof -
  let ?k = "decimal_picabu ds fs"
  obtain v where v: "f64 (of_int ?k / 10 ^ 12) = Fin v" "0 < v" using f64_amount [OF k] .
  have parse: "ParseFloat (decimal_text ds fs) = Some (Fin v)"
    using v(1) special_decimal [OF assms(1,2)] read_picabu [OF assms(1-4)] by (simp add: ParseFloat_def)
  obtain p where p: "BuToPicabu (Fin v) = Some p" "p = ?k - 1 \<or> p = ?k" using BuToPicabu_near [OF k] v(1) by metis
  have "p = ?k" if d: "10 ^ 12 dvd ?k"
  proof -
    obtain j where j: "?k = 10 ^ 12 * j" using d by (elim dvdE)
    have "of_int ?k / 10 ^ 12 = (of_int j :: rat)" unfolding j by simp
    moreover have "0 < j" "j < 2 ^ 25" using k unfolding j by simp_all
    ultimately have "BuToPicabu (Fin v) = Some (j * 10 ^ 12)" using BuToPicabu_whole [of j] v(1) by simp
    then show ?thesis using p(1) j by simp
  qed
  then show ?thesis using parse v(2) p by blast
qed

end
