(* ===== verification/Logging.thy ===== *)
theory Logging
  imports Connections
begin

text \<open>
  \<^verbatim>\<open>internal/logs/fancy.go\<close> and \<^verbatim>\<open>internal/peer/log.go\<close>: the lines the node logs. A function gives the
  texts it hands to \<^verbatim>\<open>log.Print\<close>, none or one. The handlers' own log calls are left out of the handlers.

  Results: a muted peer logs nothing (\<open>muted_silent\<close>), and only a sent message gets its arrow
  (\<open>direction_marks\<close>).
\<close>

section \<open>Entries\<close>

definition nl :: string where "nl = [CHR 0x0A]"

definition ansi :: "string \<Rightarrow> string" where
  "ansi code = CHR 0x1B # CHR ''['' # code @ ''m''"

definition RED :: string where "RED = ansi ''31''"
definition GREEN :: string where "GREEN = ansi ''32''"
definition YELLOW :: string where "YELLOW = ansi ''33''"
definition BLUE :: string where "BLUE = ansi ''34''"
definition MAGENTA :: string where "MAGENTA = ansi ''35''"
definition CYAN :: string where "CYAN = ansi ''36''"
definition WHITE :: string where "WHITE = ansi ''37''"
definition BOLD :: string where "BOLD = ansi ''1''"
definition RESET :: string where "RESET = ansi ''0''"

text \<open>No direction and no origin are the empty strings.\<close>

record LogEntry =
  le_MessageType :: MessageType
  le_ErrorCode :: ErrorCode
  le_ID :: int
  le_Direction :: "Direction option"
  le_Addr :: string
  le_IsError :: bool
  le_Message :: string
  le_Origin :: "Origin option"

fun MessageTypeColor :: "MessageType \<Rightarrow> string" where
  "MessageTypeColor MSG_HELLO = GREEN"
| "MessageTypeColor MSG_ERROR = RED"
| "MessageTypeColor MSG_GETPEERS = CYAN"
| "MessageTypeColor MSG_PEERS = CYAN"
| "MessageTypeColor MSG_GETOBJECT = YELLOW"
| "MessageTypeColor MSG_IHAVEOBJECT = YELLOW"
| "MessageTypeColor MSG_OBJECT = YELLOW"
| "MessageTypeColor MSG_GETMEMPOOL = BLUE"
| "MessageTypeColor MSG_MEMPOOL = BLUE"
| "MessageTypeColor MSG_GETCHAINTIP = MAGENTA"
| "MessageTypeColor MSG_CHAINTIP = MAGENTA"
| "MessageTypeColor MSG_NONE = RESET"

definition OriginColor :: "Origin option \<Rightarrow> string" where
  "OriginColor origin = (case origin of Some Outbound \<Rightarrow> BLUE | Some Inbound \<Rightarrow> MAGENTA | None \<Rightarrow> RESET)"

definition Direction_text :: "Direction \<Rightarrow> string" where
  "Direction_text d = (case d of Sent \<Rightarrow> ''sent'' | Recv \<Rightarrow> ''recv'')"

text \<open>The cases of the switch are the texts \<^verbatim>\<open>sent\<close> and \<^verbatim>\<open>received\<close>.\<close>

definition direction_mark :: "string \<Rightarrow> string" where
  "direction_mark d =
     (if d = ''sent'' then CYAN @ ''[-->]'' else if d = ''received'' then YELLOW @ ''[<--]'' else [])"

definition Log :: "LogEntry \<Rightarrow> string" where
  "Log m =
     (let ident = (if le_ID m = 0 then ''[*]'' else concat [''['', string_of_int (le_ID m), '']'']);
          msg = concat [BOLD, OriginColor (le_Origin m), ident];
          label = (if le_MessageType m = MSG_ERROR \<and> le_ErrorCode m \<noteq> E_NONE then ErrorCode_str (le_ErrorCode m)
            else MessageType_str (le_MessageType m));
          msg = (if le_MessageType m \<noteq> MSG_NONE then concat [msg, MessageTypeColor (le_MessageType m), ''['', label, '']''] else msg);
          msg = (case le_Direction m of
              Some d \<Rightarrow> if le_MessageType m \<noteq> MSG_NONE
                then concat [msg, direction_mark (Direction_text d), WHITE, ''['', le_Addr m, '']''] else msg
            | None \<Rightarrow> msg)
      in if le_IsError m then concat [msg, '' '', RESET, RED, ''Error: '', le_Message m, RESET, nl]
         else concat [msg, '' '', RESET, le_Message m, nl])"

definition global_entry :: "bool \<Rightarrow> string \<Rightarrow> LogEntry" where
  "global_entry is_error msg = \<lparr>le_MessageType = MSG_NONE, le_ErrorCode = E_NONE, le_ID = 0, le_Direction = None,
     le_Addr = [], le_IsError = is_error, le_Message = msg, le_Origin = None\<rparr>"

definition GlobalLog :: "string \<Rightarrow> string" where
  "GlobalLog msg = Log (global_entry False msg)"

definition GlobalError :: "string \<Rightarrow> string" where
  "GlobalError msg = Log (global_entry True msg)"

section \<open>What a peer logs\<close>

definition isMuted :: "ConnectionManager \<Rightarrow> PeerState \<Rightarrow> bool" where
  "isMuted cm p \<longleftrightarrow> IsMuted cm (p_host p) \<or> IsMuted cm (p_agent p) \<or> IsMuted cm (p_addr p)"

text \<open>The entry of a peer: it is named by its agent if it has one (\<^verbatim>\<open>cmp.Or\<close>), else by its address.\<close>

definition peer_entry ::
  "PeerState \<Rightarrow> MessageType \<Rightarrow> ErrorCode \<Rightarrow> Direction option \<Rightarrow> bool \<Rightarrow> string \<Rightarrow> LogEntry" where
  "peer_entry p mtype code dir is_error message = \<lparr>le_MessageType = mtype, le_ErrorCode = code, le_ID = p_ID p,
     le_Direction = dir, le_Addr = (if p_agent p \<noteq> [] then p_agent p else p_addr p), le_IsError = is_error,
     le_Message = message, le_Origin = Some (p_origin p)\<rparr>"

definition logInfo :: "ConnectionManager \<Rightarrow> PeerState \<Rightarrow> string \<Rightarrow> string list" where
  "logInfo cm p message =
     (if isMuted cm p then [] else [Log (peer_entry p MSG_NONE E_NONE None False message)])"

definition errInfo :: "ConnectionManager \<Rightarrow> PeerState \<Rightarrow> string \<Rightarrow> string list" where
  "errInfo cm p message =
     (if isMuted cm p then [] else [Log (peer_entry p MSG_NONE E_NONE None True message)])"

definition peer_log :: "ConnectionManager \<Rightarrow> PeerState \<Rightarrow> MessageType \<Rightarrow> ErrorCode \<Rightarrow> string \<Rightarrow> string list" where
  "peer_log cm p mtype code message =
     (if isMuted cm p then [] else [Log (peer_entry p mtype code None False message)])"

definition peer_err :: "ConnectionManager \<Rightarrow> PeerState \<Rightarrow> MessageType \<Rightarrow> ErrorCode \<Rightarrow> string \<Rightarrow> string list" where
  "peer_err cm p mtype code message =
     (if isMuted cm p then [] else [Log (peer_entry p mtype code None True message)])"

definition logMessage ::
  "ConnectionManager \<Rightarrow> PeerState \<Rightarrow> MessageType \<Rightarrow> ErrorCode \<Rightarrow> bool \<Rightarrow> string \<Rightarrow> string list" where
  "logMessage cm p mtype code sends message =
     (if isMuted cm p then []
      else [Log (peer_entry p mtype code (Some (if sends then Sent else Recv)) False message)])"

definition errMessage ::
  "ConnectionManager \<Rightarrow> PeerState \<Rightarrow> MessageType \<Rightarrow> ErrorCode \<Rightarrow> string \<Rightarrow> bool \<Rightarrow> string list" where
  "errMessage cm p mtype code message sends =
     (if isMuted cm p then []
      else [Log (peer_entry p mtype code (Some (if sends then Sent else Recv)) True message)])"

section \<open>Facts\<close>

text \<open>Muting the host, the agent or the address of a peer silences it, and unmuting that name undoes it.\<close>

lemma muted_silent:
  assumes "target = p_host p \<or> target = p_agent p \<or> target = p_addr p"
  shows "logInfo (MutePeer target cm) p s = []" "errInfo (MutePeer target cm) p s = []"
    "peer_log (MutePeer target cm) p mt c s = []" "peer_err (MutePeer target cm) p mt c s = []"
    "logMessage (MutePeer target cm) p mt c b s = []" "errMessage (MutePeer target cm) p mt c s b = []"
  using assms
  by (auto simp: logInfo_def errInfo_def peer_log_def peer_err_def logMessage_def errMessage_def isMuted_def
      IsMuted_def MutePeer_def)

lemma mute_elsewhere:
  "target \<notin> {p_host p, p_agent p, p_addr p} \<Longrightarrow> isMuted (MutePeer target cm) p = isMuted cm p"
  "target \<notin> {p_host p, p_agent p, p_addr p} \<Longrightarrow> isMuted (UnmutePeer target cm) p = isMuted cm p"
  by (auto simp: isMuted_def IsMuted_def MutePeer_def UnmutePeer_def)

lemma direction_marks:
  "direction_mark (Direction_text Sent) = CYAN @ ''[-->]''" "direction_mark (Direction_text Recv) = []"
  by (simp_all add: direction_mark_def Direction_text_def)

end
