(* ===== verification/Console.thy ===== *)
theory Console
  imports Wallet Amounts Logging
begin

text \<open>
  \<^verbatim>\<open>internal/ui/commands.go\<close> and the reading loop of \<^verbatim>\<open>internal/ui/console.go\<close>: the commands of the
  console, what each changes and the text it writes. A handler that only reads gives its text; the
  others give the new state and the text. The writer \<^verbatim>\<open>out\<close> is that text. \<open>cpus\<close> is
  \<^verbatim>\<open>runtime.NumCPU()\<close>; the text of an error value is the world's \<open>w_text\<close>.

  Results: only six kinds of change come from a command, and none changes the wallet's keys
  (\<open>command_effects\<close>); \<^verbatim>\<open>NaN\<close> as an amount stops the program (\<open>cmdSend_NaN\<close>).
\<close>

section \<open>Text\<close>

definition apos :: string where "apos = [CHR 0x27]"

definition reset_c :: string where "reset_c = ansi ''0''"
definition bold_c :: string where "bold_c = ansi ''1''"
definition red_c :: string where "red_c = ansi ''31''"
definition green_c :: string where "green_c = ansi ''32''"
definition yellow_c :: string where "yellow_c = ansi ''33''"
definition blue_c :: string where "blue_c = ansi ''34''"
definition magenta_c :: string where "magenta_c = ansi ''35''"
definition cyan_c :: string where "cyan_c = ansi ''36''"
definition white_c :: string where "white_c = ansi ''37''"

text \<open>Padding to a width in runes, and the digits of a fixed-point number (\<^verbatim>\<open>%-20s\<close>, \<^verbatim>\<open>%.6f\<close>).
  A byte that starts no UTF-8 sequence counts as a rune.\<close>

definition rune_size :: "char \<Rightarrow> string \<Rightarrow> nat" where
  "rune_size c t =
     (let b = of_char c :: nat;
          follows = (\<lambda>i lo hi. i < length t \<and> lo \<le> (of_char (t ! i) :: nat) \<and> (of_char (t ! i) :: nat) \<le> hi)
      in if 194 \<le> b \<and> b \<le> 223 \<and> follows 0 128 191 then 2
         else if 224 \<le> b \<and> b \<le> 239 \<and> follows 0 (if b = 224 then 160 else 128) (if b = 237 then 159 else 191) \<and>
            follows 1 128 191 then 3
         else if 240 \<le> b \<and> b \<le> 244 \<and> follows 0 (if b = 240 then 144 else 128) (if b = 244 then 143 else 191) \<and>
            follows 1 128 191 \<and> follows 2 128 191 then 4
         else 1)"

fun rune_count :: "string \<Rightarrow> nat" where
  "rune_count [] = 0"
| "rune_count (c # t) = Suc (rune_count (drop (rune_size c t - 1) t))"

definition pad :: "nat \<Rightarrow> string \<Rightarrow> string" where
  "pad w s = s @ replicate (w - rune_count s) CHR 0x20"

definition Fixed :: "nat \<Rightarrow> float64 \<Rightarrow> string" where
  "Fixed k x = (case x of
     NotANumber \<Rightarrow> ''NaN''
   | Infinite neg \<Rightarrow> if neg then ''-Inf'' else ''+Inf''
   | Fin r \<Rightarrow>
       let n = nat (round_even (\<bar>r\<bar> * 10 ^ k)); places = string_of_nat (n mod 10 ^ k)
       in (if r < 0 then ''-'' else []) @ string_of_nat (n div 10 ^ k) @ ''.'' @
          replicate (k - length places) CHR ''0'' @ places)"

definition join :: "string \<Rightarrow> string list \<Rightarrow> string" where
  "join sep xs = (case xs of [] \<Rightarrow> [] | x # ys \<Rightarrow> x @ concat (map (\<lambda>y. sep @ y) ys))"

definition shorten :: "nat \<Rightarrow> nat \<Rightarrow> string \<Rightarrow> string" where
  "shorten limit keep s = (if limit < length s then take keep s @ ''...'' else s)"

text \<open>\<^verbatim>\<open>json.MarshalIndent(obj, "", "  ")\<close>.\<close>

fun indent_json :: "string \<Rightarrow> json \<Rightarrow> string" where
  "indent_json ind (JArr (x # xs)) = CHR ''['' # nl @ ind @ ''  '' @
     join (CHR '','' # nl @ ind @ ''  '') (map (indent_json (ind @ ''  '')) (x # xs)) @ nl @ ind @ '']''"
| "indent_json ind (JObj (m # ms)) = CHR ''{'' # nl @ ind @ ''  '' @
     join (CHR '','' # nl @ ind @ ''  '')
       (map (\<lambda>(k, v). quote k @ '': '' @ indent_json (ind @ ''  '') v) (m # ms)) @ nl @ ind @ ''}''"
| "indent_json ind j = print_json j"

section \<open>Mining statistics\<close>

text \<open>
  \<^verbatim>\<open>Manager.GetMiningStats\<close>. The durations are far from the limits of \<^verbatim>\<open>time.Duration\<close>, so all
  floating-point values here are finite; \<open>finite\<close> is the value of one.
\<close>

definition float_value :: "float64 \<Rightarrow> rat" where
  "float_value x = (case x of Fin r \<Rightarrow> r | _ \<Rightarrow> 0)"

definition Seconds :: "int \<Rightarrow> rat" where
  "Seconds d =
     (let s = \<bar>d\<bar> div 10 ^ 9; ns = \<bar>d\<bar> mod 10 ^ 9;
          v = float_value (f64 (of_int s + float_value (f64 (of_int ns / 10 ^ 9))))
      in if d < 0 then - v else v)"

definition GetMiningStats :: "int \<Rightarrow> 'd Manager \<Rightarrow> bool \<times> int \<times> rat" where
  "GetMiningStats now m =
     (if \<not> m_miningActive m then (False, 0, 0)
      else let elapsed = now - m_miningStart m; secs = Seconds elapsed
           in (True, elapsed,
               if 0 < secs then float_value (f64 (float_value (f64 (of_int (uint (m_miningHashes m)))) / secs)) else 0))"

definition formatHashrate :: "rat \<Rightarrow> string" where
  "formatHashrate h =
     (if 1000000 \<le> h then concat [Fixed 2 (f64 (h / 1000000)), '' MH/s'']
      else if 1000 \<le> h then concat [Fixed 2 (f64 (h / 1000)), '' kH/s'']
      else concat [Fixed 1 (Fin h), '' H/s''])"

text \<open>\<^verbatim>\<open>elapsed.Round(time.Second)\<close>, in words.\<close>

definition round_second :: "int \<Rightarrow> int" where
  "round_second d = (let s = (\<bar>d\<bar> + 5 * 10 ^ 8) div 10 ^ 9 in if d < 0 then - s else s)"

definition seconds_text :: "int \<Rightarrow> string" where
  "seconds_text s =
     (let u = \<bar>s\<bar>; t = string_of_int (u mod 60) @ ''s'';
          t = (if u < 60 then t else string_of_int (u div 60 mod 60) @ ''m'' @ t);
          t = (if u < 3600 then t else string_of_int (u div 3600) @ ''h'' @ t)
      in if s < 0 then ''-'' @ t else t)"

definition miner_state :: "int \<Rightarrow> string" where
  "miner_state cores = (if cores = 0 then ''Paused (0 cores)'' else ''Idle'')"

section \<open>The node and its hardware\<close>

definition help_line :: "string \<Rightarrow> string \<Rightarrow> string" where
  "help_line usage about = concat [''  '', cyan_c, usage, reset_c, about, nl]"

definition help_head :: "string \<Rightarrow> string" where
  "help_head title = concat [nl, bold_c @ magenta_c, ''[ '', title, '' ]'', reset_c, nl]"

definition cmdHelp :: string where
  "cmdHelp = concat [
     concat [nl, bold_c @ yellow_c, ''=== Marabu CLI Commands ==='', reset_c, nl],
     help_head ''Node & Hardware'',
     help_line ''info, i, status'' ''         - Show node diagnostics and chaintip'',
     help_line ''id, identity, miner'' ''     - Show node identity, agent, and student IDs'',
     help_line ''cores, c <num>'' ''          - Adjust the number of CPU cores used for mining'',
     help_line ''note'' ''                    - Show current miner note'',
     help_line ''note set <msg>'' ''          - Set a custom miner note'',
     help_line ''stats [target]'' ''          - Show total historical blocks mined by a pubkey/alias'',
     help_head ''Wallet & Transactions'',
     help_line ''balance'' ''                 - Show wallet balance and UTXOs'',
     help_line ''send <target> <BU>'' ''      - Send funds to a pubkey or alias'',
     help_line ''alias add <name> <key>'' ''  - Save a public key to your address book'',
     help_line ''alias list'' ''              - View your address book'',
     help_line ''sweep'' ''                   - Auto-alias all unknown public keys in the UTXO set'',
     help_head ''Networking & Peers'',
     help_line ''peers, p'' ''                - List detailed connected peers'',
     help_line ''connect <ip:port>'' ''       - Manually connect to a node'',
     help_line ''disconnect <ip:port>'' ''    - Disconnect from a node (alias: drop)'',
     help_line ''sync'' ''                    - Force broadcast GetPeers and GetChainTip'',
     help_head ''Moderation'',
     help_line ''muted'' ''                   - List all muted targets'',
     help_line ''mute <target>'' ''           - Mute logs from a spammy IP or Agent'',
     help_line ''unmute <target> | *'' ''     - Unmute a target (use * for all)'',
     help_line ''banned'' ''                  - List all currently banned targets'',
     help_line ''ban <target>'' ''            - Ban and kick an IP or Agent'',
     help_line ''unban <target> | *'' ''      - Unban a target (use * for all)'',
     help_head ''Database'',
     help_line ''objects, o'' ''              - List all objects in the database'',
     help_line ''get <hash>'' ''              - Fetch and display a specific object'',
     help_head ''System'',
     help_line ''help, ?, h'' ''              - Show this menu'',
     help_line ''exit, quit, q'' ''           - Exit the CLI'', nl]"

definition cmdInfo :: "'d env \<Rightarrow> world \<Rightarrow> 'd node \<Rightarrow> string" where
  "cmdInfo env wd n = (case GetCounts (nd_net n) of (icnt, ocnt, pcnt, _) \<Rightarrow>
     case GetMiningStats (w_now wd) (nd_mgr n) of (active, elapsed, hashrate) \<Rightarrow>
     let cores = GetMiningCores (nd_mgr n) in concat [
     concat [nl, bold_c @ cyan_c, ''--- Node Status ---'', reset_c, nl],
     concat [bold_c, ''Peers:'', reset_c, ''     '', string_of_int (icnt + ocnt), '' Total ('',
       green_c, string_of_int icnt, '' Inbound'', reset_c, '' | '', blue_c,
       string_of_int ocnt, '' Outbound'', reset_c, '' | '', magenta_c, string_of_int pcnt,
       '' VIP'', reset_c, '')'', nl],
     (case GetChaintip env (nd_mgr n) of
        Inl _ \<Rightarrow> concat [bold_c, ''Chaintip:'', reset_c, ''  [None / Genesis]'', nl]
      | Inr (tip, height) \<Rightarrow>
          concat [bold_c, ''Chaintip:'', reset_c, ''  '', magenta_c, tip, reset_c, nl] @
          concat [bold_c, ''Height:'', reset_c, ''    '', yellow_c, string_of_int (uint height), reset_c,
       nl]),
     (if active then
        concat [bold_c, ''Miner:'', reset_c, ''     '', green_c, ''Active'', reset_c, '' ('',
       formatHashrate hashrate, '' over '', seconds_text (round_second elapsed), '' using '',
       string_of_int cores, '' cores)'', nl]
      else concat [bold_c, ''Miner:'', reset_c, ''     '', red_c, miner_state cores, reset_c, nl]),
     concat [bold_c @ cyan_c, ''-------------------'', reset_c, nl, nl]])"

text \<open>
  The student IDs are themselves used as formats, without operands; what \<^verbatim>\<open>fmt\<close> makes of a percent
  sign in one is the world's.
\<close>

definition print_format :: "world \<Rightarrow> string \<Rightarrow> string" where
  "print_format wd s = (if CHR ''%'' \<in> set s then w_text wd (Errorf s) else s)"

definition cmdIdentity :: "world \<Rightarrow> 'd Manager \<Rightarrow> string" where
  "cmdIdentity wd m = (case GetMiningStats (w_now wd) m of (active, _, hashrate) \<Rightarrow>
     let cores = GetMiningCores m; studentIDs = elems (cfg_StudentIDs (Config m)) in concat [
     concat [nl, bold_c @ cyan_c, ''=== Node Identity ==='', reset_c, nl],
     concat [bold_c, ''Agent Name:'', reset_c, ''  '', magenta_c, cfg_AgentName (Config m), reset_c,
       nl],
     concat [bold_c, ''Public Key:'', reset_c, ''  '', yellow_c, cfg_PubKey (Config m), reset_c, nl],
     (if studentIDs \<noteq> [] then
        concat [bold_c, ''Student IDs:'', reset_c, '' '', green_c] @ join '', '' (map (print_format wd) studentIDs) @ concat [reset_c, nl]
      else concat [bold_c, ''Student IDs:'', reset_c, '' '', yellow_c, ''[None configured]'', reset_c, nl]),
     concat [nl, bold_c @ cyan_c, ''--- Mining Hardware ---'', reset_c, nl],
     concat [bold_c, ''Allocated Cores:'', reset_c, '' '', string_of_int cores, nl],
     (if active then concat [bold_c, ''Current Hashrate:'', reset_c, '' '', green_c, formatHashrate hashrate,
       reset_c, nl]
      else concat [bold_c, ''Current Hashrate:'', reset_c, '' '', red_c, miner_state cores, reset_c, nl]),
     concat [bold_c @ cyan_c, ''====================='', reset_c, nl, nl]])"

text \<open>\<open>None\<close> is the panic on \<^verbatim>\<open>args[1]\<close> when \<open>args\<close> is empty, which the reading loop excludes.\<close>

definition cmdCores :: "int \<Rightarrow> string list \<Rightarrow> 'd Manager \<Rightarrow> ('d Manager \<times> string) option" where
  "cmdCores cpus args m =
     (if length args = 1 then
        Some (m, concat [yellow_c, ''Currently using '', string_of_int (GetMiningCores m),
       '' cores for mining.'', nl, ''To change, enter: cores <number>'', reset_c, nl])
      else if 2 < length args then Some (m, concat [red_c, ''Usage: cores <number>'', reset_c, nl])
      else if args = [] then None
      else (case Atoi (args ! 1) of
        None \<Rightarrow> Some (m, concat [red_c, ''Error: Cores must be a positive integer.'', reset_c, nl])
      | Some cores \<Rightarrow>
          if cores < 0 then Some (m, concat [red_c, ''Error: Cores must be a positive integer.'', reset_c, nl])
          else
            let warning = (if cpus < cores then
                  concat [yellow_c, ''Warning: Requested '', string_of_int cores,
       '' cores, but system only has '', string_of_int cpus, ''. Capping at '',
       string_of_int cpus, ''.'', reset_c, nl]
                else []);
                cores = (if cpus < cores then cpus else cores)
            in Some (SetMiningCores cores m,
              warning @ (if cores = 0 then concat [yellow_c, ''Miner paused. Using 0 cores.'', reset_c, nl]
                else concat [green_c, ''Miner restarted with '', string_of_int cores, '' cores.'', reset_c, nl]))))"

definition cmdNote :: "string list \<Rightarrow> 'd Manager \<Rightarrow> 'd Manager \<times> string" where
  "cmdNote args m =
     (if 2 \<le> length args \<and> (args ! 1 = ''new'' \<or> args ! 1 = ''set'') then
        if length args < 3 then (m, concat [red_c, ''Usage: note set <your message>'', reset_c, nl])
        else
          let newNote = join '' '' (drop 2 args)
          in if 256 < length newNote then (m, concat [red_c, ''Error: Note cannot exceed 256 characters.'', reset_c, nl])
             else (SetNote newNote m, concat [green_c, ''Note updated successfully.'', reset_c, nl])
      else
        let note = cfg_Note (Config m)
        in if note = '''' then (m, concat [yellow_c, ''No note set.'', reset_c, nl])
           else (m, concat [cyan_c, ''Current note:'', reset_c, '' '', note, nl]))"

definition cmdStats :: "'d env \<Rightarrow> world \<Rightarrow> string list \<Rightarrow> 'd Manager \<Rightarrow> Wallet \<Rightarrow> string outcome" where
  "cmdStats env wd args m w =
     (let (targetPubkey, targetName) =
        (if 2 \<le> length args then (ResolveAddress (args ! 1) w, args ! 1) else (cfg_PubKey (Config m), ''You''));
          start = concat [nl, yellow_c, ''Scanning the blockchain history for '', apos, targetName, apos,
       ''...'', reset_c, nl]
      in case GetMiningHistory env m targetPubkey of
           None \<Rightarrow> Loops
         | Some (_, Some err) \<Rightarrow> Returns (start @ concat [red_c, ''Error scanning chain: '', w_text wd err, reset_c, nl])
         | Some (stats, None) \<Rightarrow> Returns (concat [start,
             concat [nl, bold_c @ magenta_c, ''=== Total Mining Stats ==='', reset_c, nl],
             concat [''Target:       '', targetPubkey, nl],
             concat [''Blocks Mined: '', string_of_int (int (ms_BlocksMined stats)), nl],
             concat [''Total Earned: '', Fixed 6 (PicabuToBu (ms_TotalReward stats)), '' BU'', nl],
             concat [bold_c @ magenta_c, ''============================='', reset_c, nl, nl]]))"

section \<open>Connections\<close>

definition Origin_text :: "Origin \<Rightarrow> string" where
  "Origin_text origin = (case origin of Inbound \<Rightarrow> ''inbound'' | Outbound \<Rightarrow> ''outbound'')"

definition peer_line :: "PeerState \<Rightarrow> string" where
  "peer_line p =
     (let vipStatus = (if p_isPersistent p then magenta_c @ ''*'' @ reset_c else []);
          agent = shorten 20 17 (if p_agent p = '''' then ''Unknown'' else p_agent p);
          originColor = (if p_origin p = Inbound then magenta_c else blue_c)
      in concat [pad 20 agent, '' | '', white_c, pad 22 (p_addr p), reset_c, '' | '', originColor,
       pad 10 (Origin_text (p_origin p)), reset_c, '' | '', pad 10 vipStatus, '' '', nl])"

definition cmdPeers :: "net \<Rightarrow> string" where
  "cmdPeers n =
     (let allPeers = GetAll n
      in if allPeers = [] then concat [nl, yellow_c, ''No connected peers.'', reset_c, nl, nl]
      else concat [
        concat [nl, bold_c @ yellow_c, pad 20 ''AGENT'', '' | '', pad 22 ''ADDRESS'', '' | '',
       pad 10 ''ORIGIN'', '' | '', pad 10 ''PERSISTENT'', reset_c, '' '', nl],
        concat [cyan_c, replicate 70 CHR ''-'', reset_c, nl],
        concat (map (\<lambda>p. peer_line (net_heap n ! p)) allPeers), nl])"

text \<open>What \<^verbatim>\<open>StartClient\<close> reports; the text of a failed dial is the world's.\<close>

definition client_text :: "world \<Rightarrow> string \<Rightarrow> client_error \<Rightarrow> string" where
  "client_text wd host e = (case e of
     ErrBanned \<Rightarrow> concat [''peer IP '', host, '' is banned, aborting dial'']
   | ErrDial \<Rightarrow> w_text wd (Errorf ''dial'')
   | ErrNewPeer ErrOutboundFull \<Rightarrow> ''Error starting client: outbound connections capped''
   | ErrNewPeer ErrOutboundDuplicate \<Rightarrow> ''Error starting client: outbound connection already exists'')"

definition cmdConnect :: "world \<Rightarrow> string list \<Rightarrow> 'd node \<Rightarrow> 'd node \<times> string" where
  "cmdConnect wd args n =
     (if length args = 2 then (case SplitHostPort (args ! 1) of
        None \<Rightarrow> (n, concat [red_c, ''Error: Invalid address format. Use <ip>:<port>'', reset_c, nl])
      | Some (host, portStr) \<Rightarrow> (case Atoi portStr of
          None \<Rightarrow> (n, concat [red_c, ''Error: Port must be a number.'', reset_c, nl])
        | Some port \<Rightarrow>
            let dial = concat [yellow_c, ''Dialing '', host, '':'', string_of_int port, ''...'', reset_c, nl]
            in case StartClient wd host port False n of
                 (n, Some err) \<Rightarrow> (n, dial @ concat [red_c, ''Failed to connect: '', client_text wd host err, reset_c, nl])
               | (n, None) \<Rightarrow> (n, dial @ concat [green_c, ''Connection initiated successfully.'', reset_c, nl])))
      else (n, concat [red_c, ''Usage: connect <ip:port>'', reset_c, nl]))"

definition cmdDisconnect :: "string list \<Rightarrow> net \<Rightarrow> net \<times> string" where
  "cmdDisconnect args n =
     (if length args = 2 then
        let addr = args ! 1
        in case Exists n addr of
             None \<Rightarrow> (n, concat [red_c, ''Error: No active connection found for '', apos, addr, apos, reset_c, nl])
           | Some p \<Rightarrow> (Disconnect p n, concat [yellow_c, ''Dropped connection to '', addr, reset_c, nl])
      else (n, concat [red_c, ''Usage: disconnect <ip:port>'', reset_c, nl]))"

definition cmdSync :: "world \<Rightarrow> 'd node \<Rightarrow> 'd node \<times> string" where
  "cmdSync wd n = (BroadcastGetChainTip wd (BroadcastGetPeers wd n),
     concat [yellow_c, ''Forcing network sync...'', reset_c, nl] @ concat [green_c, ''Sync requests broadcasted.'', reset_c, nl])"

section \<open>Moderation\<close>

text \<open>The table of records, which \<^verbatim>\<open>cmdMuted\<close> and \<^verbatim>\<open>cmdBanned\<close> both print.\<close>

definition record_table :: "PeerRecord list \<Rightarrow> string" where
  "record_table records = concat [
     concat [bold_c @ yellow_c, pad 20 (''RULE / TARGET''), '' | '', pad 20 (''KNOWN AGENT''),
       '' | '', pad 15 (''KNOWN IP''), reset_c, nl],
     concat [cyan_c, replicate 61 CHR ''-'', reset_c, nl],
     concat (map (\<lambda>r. concat [red_c, pad 20 (shorten 17 14 (pr_Target r)), reset_c, '' | '',
       pad 20 (shorten 17 14 (pr_Agent r)), '' | '', pad 15 (pr_IP r), nl]) records)]"

definition cmdMuted :: "net \<Rightarrow> string" where
  "cmdMuted n =
     (let records = GetMuted n in concat [
      concat [nl, bold_c @ cyan_c, ''=== Muted Targets ==='', reset_c, nl],
      (if records = [] then concat [yellow_c, ''No peers are currently muted.'', reset_c, nl] else record_table records),
      concat [bold_c @ cyan_c, ''====================='', reset_c, nl, nl]])"

definition cmdMute :: "string list \<Rightarrow> net \<Rightarrow> net \<times> string" where
  "cmdMute args n =
     (if length args = 2 \<and> args ! 1 = ''list'' then (n, cmdMuted n)
      else if 2 \<le> length args then
        let val = join '' '' (tl args)
        in (upd_cm (MutePeer val) n, concat [yellow_c, ''Muted logs matching:'', reset_c, '' '', val, nl])
      else (n, concat [red_c, ''Usage: mute <ip or agent> OR mute list'', reset_c, nl]))"

definition cmdUnmute :: "string list \<Rightarrow> net \<Rightarrow> net \<times> string" where
  "cmdUnmute args n =
     (if 2 \<le> length args then
        let val = join '' '' (tl args)
        in if val = ''*'' then (case UnmuteAll (net_cm n) of (cm, cleared) \<Rightarrow>
             (n\<lparr>net_cm := cm\<rparr>, concat [green_c, ''Cleared '', string_of_int (int cleared),
       '' mute rules. All peers unmuted.'', reset_c, nl]))
           else (upd_cm (UnmutePeer val) n, concat [green_c, ''Unmuted logs matching:'', reset_c, '' '', val, nl])
      else (n, concat [red_c, ''Usage: unmute <ip or agent> OR unmute *'', reset_c, nl]))"

definition cmdBanned :: "net \<Rightarrow> string" where
  "cmdBanned n =
     (let records = GetBanned n in concat [
      concat [nl, bold_c @ cyan_c, ''=== Banned Targets ==='', reset_c, nl],
      (if records = [] then concat [yellow_c, ''No peers are currently banned.'', reset_c, nl] else record_table records),
      concat [bold_c @ cyan_c, ''======================'', reset_c, nl, nl]])"

definition cmdBan :: "string list \<Rightarrow> net \<Rightarrow> net \<times> string" where
  "cmdBan args n =
     (if length args = 2 \<and> args ! 1 = ''list'' then (n, cmdBanned n)
      else if 2 \<le> length args then
        let val = join '' '' (tl args)
        in (BanPeer val n, concat [red_c, ''Banned and kicked target matching:'', reset_c, '' '', val, nl])
      else (n, concat [red_c, ''Usage: ban <ip or agent> OR ban list'', reset_c, nl]))"

definition cmdUnban :: "string list \<Rightarrow> net \<Rightarrow> net \<times> string" where
  "cmdUnban args n =
     (if 2 \<le> length args then
        let val = join '' '' (tl args)
        in if val = ''*'' then (case UnbanAll (net_cm n) of (cm, cleared) \<Rightarrow>
             (n\<lparr>net_cm := cm\<rparr>, concat [green_c, ''Cleared '', string_of_int (int cleared),
       '' ban rules. All peers unbanned.'', reset_c, nl]))
           else (upd_cm (UnbanPeer val) n, concat [green_c, ''Unbanned target matching:'', reset_c, '' '', val, nl])
      else (n, concat [red_c, ''Usage: unban <ip or agent> OR unban *'', reset_c, nl]))"

section \<open>The wallet\<close>

definition cmdAlias :: "string list \<Rightarrow> Wallet \<Rightarrow> Wallet \<times> string" where
  "cmdAlias args w =
     (if length args < 2 then (w, concat [''Usage:'', nl, ''  alias add <name> <pubkey>'', nl, ''  alias list'', nl])
      else if args ! 1 = ''add'' then
        if length args \<noteq> 4 then (w, concat [''Usage: alias add <name> <pubkey>'', nl])
        else (AddAlias (args ! 2) (args ! 3) w, concat [''Alias saved: '', args ! 2, '' -> '', args ! 3, nl])
      else if args ! 1 = ''list'' then
        let aliases = GetAliases w
        in if aliases = [] then (w, concat [''Address book is empty.'', nl])
           else (w, concat [concat [nl, ''=== Address Book ==='', nl],
             concat (map (\<lambda>(name, pubkey). concat [pad 10 name, '' : '', pubkey, nl]) aliases),
             concat [''===================='', nl]])
      else (w, []))"

definition cmdSweep :: "'d env \<Rightarrow> 'd Manager \<Rightarrow> Wallet \<Rightarrow> Wallet \<times> string" where
  "cmdSweep env m w = (case AutoAliasUTXOs env m w of (w, found) \<Rightarrow> (w, concat [
     concat [''Scanning the blockchain for unknown public keys...'', nl],
     concat [''Sweep complete. Found and aliased '', string_of_int (int found),
       '' new unique public keys.'', nl],
     concat [''Type '', apos, ''alias list'', apos, '' to see them!'', nl]]))"

definition cmdBalance :: "'d env \<Rightarrow> 'd Manager \<Rightarrow> Wallet \<Rightarrow> string" where
  "cmdBalance env m w = (case GetBalance env m w of (bal, utxos) \<Rightarrow> concat [
     concat [nl, ''=== Wallet Balance ==='', nl],
     concat [''Confirmed UTXOs: '', string_of_int (int (length utxos)), nl],
     concat [''Total Balance:   '', Fixed 6 (PicabuToBu bal), '' BU ('', Picabu_String bal,
       '' Picabus)'', nl],
     concat [''======================'', nl, nl]])"

text \<open>A comparison with not-a-number is false.\<close>

definition not_positive :: "float64 \<Rightarrow> bool" where
  "not_positive x = (case x of Fin r \<Rightarrow> r \<le> 0 | Infinite neg \<Rightarrow> neg | NotANumber \<Rightarrow> False)"

definition console_fee :: Picabu where
  "console_fee = NewPicabu 1000000000"

definition cmdSend ::
  "'d env \<Rightarrow> world \<Rightarrow> string list \<Rightarrow> Wallet \<Rightarrow> 'd node \<Rightarrow> ('d node \<times> string) outcome" where
  "cmdSend env wd args w n =
     (if length args \<noteq> 3 then Returns (n, concat [''Usage: send <target_pubkey> <amount_in_BU>'', nl])
      else (case ParseFloat (args ! 2) of
        None \<Rightarrow> Returns (n, concat [''Error: Amount must be a positive number.'', nl])
      | Some amountBU \<Rightarrow>
          if not_positive amountBU then Returns (n, concat [''Error: Amount must be a positive number.'', nl])
          else (case BuToPicabu amountBU of
            None \<Rightarrow> Panics
          | Some amountPicabu \<Rightarrow>
              and_then (SendPicabus env wd w (ResolveAddress (args ! 1) w) amountPicabu console_fee n) (\<lambda>(n, r).
                let start = concat [''Building transaction...'', nl]
                in case r of
                     Inl err \<Rightarrow> Returns (n, start @ concat [''Transaction Failed: '', w_text wd err, nl])
                   | Inr tx \<Rightarrow> Returns (n, concat [start, concat [''Transaction broadcasted successfully!'', nl],
                       concat [''TXID: '', id_value (snd (GetObjectID env tx)), nl]])))))"

section \<open>The database\<close>

definition id_kind :: "'d env \<Rightarrow> 'd Manager \<Rightarrow> HashID \<Rightarrow> ObjectType option" where
  "id_kind env m oid = (case GetObject env m oid of Inl _ \<Rightarrow> None | Inr obj \<Rightarrow> Some (Object_ObjectType obj))"

definition cmdObjects :: "'d env \<Rightarrow> world \<Rightarrow> 'd Manager \<Rightarrow> string" where
  "cmdObjects env wd m = (case GetAllObjectIDs env m of
     (_, Some err) \<Rightarrow> concat [red_c, ''Error scanning database: '', w_text wd err, reset_c, nl]
   | (ids, None) \<Rightarrow>
       if ids = [] then concat [nl, yellow_c, ''No objects found in the database.'', reset_c, nl, nl]
       else
         let blocks = filter (\<lambda>h. id_kind env m h = Some OBJ_BLOCK) ids;
             txs = filter (\<lambda>h. id_kind env m h = Some OBJ_TRANSACTION) ids;
             unknown = filter (\<lambda>h. id_kind env m h \<noteq> Some OBJ_BLOCK \<and> id_kind env m h \<noteq> Some OBJ_TRANSACTION) ids
         in concat [
           concat [yellow_c, ''Scanning database...'', reset_c, nl],
           concat [nl, bold_c @ cyan_c, ''=== Stored Objects ==='', reset_c, nl],
           concat [bold_c, ''Total: '', string_of_int (int (length ids)), reset_c, nl, nl],
           concat [bold_c @ magenta_c, ''Blocks ('', string_of_int (int (length blocks)), ''):'', reset_c,
       nl],
           concat (map (\<lambda>b. concat [''  | '', magenta_c, b, reset_c, nl]) blocks),
           concat [nl, bold_c @ green_c, ''Transactions ('', string_of_int (int (length txs)), ''):'',
       reset_c, nl],
           concat (map (\<lambda>t. concat [''  | '', green_c, t, reset_c, nl]) txs),
           (if unknown \<noteq> [] then
              concat [nl, bold_c @ red_c, ''Unknown/Corrupted ('', string_of_int (int (length unknown)),
       ''):'', reset_c, nl] @
              concat (map (\<lambda>u. concat [''    '', red_c, u, reset_c, nl]) unknown)
            else []),
           concat [bold_c @ cyan_c, ''======================'', reset_c, nl, nl]])"

definition cmdGet :: "'d env \<Rightarrow> string list \<Rightarrow> 'd Manager \<Rightarrow> string" where
  "cmdGet env args m =
     (if length args = 2 then (case GetObject env m (args ! 1) of
        Inl _ \<Rightarrow> concat [red_c, ''Error: Could not find object '', args ! 1, '' in database.'', reset_c, nl]
      | Inr obj \<Rightarrow> concat [
          concat [nl, bold_c @ cyan_c, ''--- Object '', args ! 1, '' ---'', reset_c, nl],
          concat [green_c, indent_json [] (Object_json obj), reset_c, nl],
          concat [bold_c @ cyan_c, ''----------------------------------------------------------------'',
       reset_c, nl, nl]])
      else concat [red_c, ''Usage: get <hash>'', reset_c, nl])"

section \<open>The dispatch\<close>

text \<open>The answers: whether to exit, the node, the wallet, the text.\<close>

type_synonym 'd answer = "bool \<times> 'd node \<times> Wallet \<times> string"

definition executeCommand ::
  "'d env \<Rightarrow> world \<Rightarrow> int \<Rightarrow> string \<Rightarrow> string list \<Rightarrow> 'd node \<Rightarrow> Wallet \<Rightarrow> 'd answer outcome" where
  "executeCommand env wd cpus cmd args n w =
     (let m = nd_mgr n;
          say = (\<lambda>t. Returns (False, n, w, t));
          on_net = (\<lambda>(nt, t). Returns (False, n\<lparr>nd_net := nt\<rparr>, w, t))
      in if cmd \<in> {''help'', ''?'', ''h''} then say cmdHelp
      else if cmd \<in> {''exit'', ''quit'', ''q''} then Returns (True, n, w, [])
      else if cmd \<in> {''info'', ''i'', ''status''} then say (cmdInfo env wd n)
      else if cmd \<in> {''id'', ''identity'', ''miner''} then say (cmdIdentity wd m)
      else if cmd \<in> {''cores'', ''c'', ''miners'', ''m''} then
        (case cmdCores cpus args m of None \<Rightarrow> Panics | Some (m, t) \<Rightarrow> Returns (False, upd_mgr m n, w, t))
      else if cmd = ''note'' then (case cmdNote args m of (m, t) \<Rightarrow> Returns (False, upd_mgr m n, w, t))
      else if cmd = ''stats'' then and_then (cmdStats env wd args m w) say
      else if cmd \<in> {''peers'', ''p''} then say (cmdPeers (nd_net n))
      else if cmd = ''connect'' then (case cmdConnect wd args n of (n, t) \<Rightarrow> Returns (False, n, w, t))
      else if cmd \<in> {''disconnect'', ''drop''} then on_net (cmdDisconnect args (nd_net n))
      else if cmd = ''sync'' then (case cmdSync wd n of (n, t) \<Rightarrow> Returns (False, n, w, t))
      else if cmd = ''muted'' then say (cmdMuted (nd_net n))
      else if cmd = ''mute'' then on_net (cmdMute args (nd_net n))
      else if cmd = ''unmute'' then on_net (cmdUnmute args (nd_net n))
      else if cmd = ''banned'' then say (cmdBanned (nd_net n))
      else if cmd = ''ban'' then on_net (cmdBan args (nd_net n))
      else if cmd = ''unban'' then on_net (cmdUnban args (nd_net n))
      else if cmd = ''alias'' then (case cmdAlias args w of (w, t) \<Rightarrow> Returns (False, n, w, t))
      else if cmd = ''sweep'' then (case cmdSweep env m w of (w, t) \<Rightarrow> Returns (False, n, w, t))
      else if cmd = ''balance'' then say (cmdBalance env m w)
      else if cmd = ''send'' then and_then (cmdSend env wd args w n) (\<lambda>(n, t). Returns (False, n, w, t))
      else if cmd \<in> {''objects'', ''o''} then say (cmdObjects env wd m)
      else if cmd = ''get'' then say (cmdGet env args m)
      else say (concat [red_c, ''Unknown command: '', cmd, reset_c, nl]))"

text \<open>\<^verbatim>\<open>strings.Fields\<close>, and one turn of the loop of \<^verbatim>\<open>Start\<close>: a line that was read.\<close>

fun take_word :: "string \<Rightarrow> string \<times> string" where
  "take_word [] = ([], [])"
| "take_word (c # s) = (if \<exists>r \<in> set space_runes. take (length r) (c # s) = r then ([], c # s)
     else case take_word s of (w, t) \<Rightarrow> (c # w, t))"

lemma take_word_length: "take_word s = (w, t) \<Longrightarrow> length t \<le> length s"
  by (induction s arbitrary: w) (auto split: if_splits prod.splits intro: le_SucI)

function Fields :: "string \<Rightarrow> string list" where
  "Fields [] = []"
| "Fields (c # s) = (case find (\<lambda>r. take (length r) (c # s) = r) space_runes of
     Some r \<Rightarrow> Fields (drop (length r - 1) s)
   | None \<Rightarrow> (c # fst (take_word s)) # Fields (snd (take_word s)))"
  by pat_completeness auto
termination
  by (relation "measure length") (auto simp: le_imp_less_Suc take_word_length [OF prod.collapse [symmetric]])

text \<open>
  \<^verbatim>\<open>strings.ToLower\<close>: besides the ASCII letters the two characters that it turns into one, the dotted
  capital I and the Kelvin sign. Other letters, which no command's name has, are left as they are.
\<close>

fun ToLower :: "string \<Rightarrow> string" where
  "ToLower [] = []"
| "ToLower (c # s) =
     (if c = CHR 0xC4 \<and> take 1 s = [CHR 0xB0] then CHR ''i'' # ToLower (drop 1 s)
      else if c = CHR 0xE2 \<and> take 2 s = [CHR 0x84, CHR 0xAA] then CHR ''k'' # ToLower (drop 2 s)
      else lower c # ToLower s)"

definition Start :: "'d env \<Rightarrow> world \<Rightarrow> int \<Rightarrow> string \<Rightarrow> 'd node \<Rightarrow> Wallet \<Rightarrow> 'd answer outcome" where
  "Start env wd cpus input n w = (case Fields input of
     [] \<Rightarrow> Returns (False, n, w, [])
   | cmd # args \<Rightarrow>
       and_then (executeCommand env wd cpus (ToLower cmd) (cmd # args) n w) (\<lambda>(shouldExit, n, w, t).
         Returns (shouldExit, n, w,
           t @ (if shouldExit then concat [cyan_c, ''Exiting CLI...'', reset_c, nl] else []))))"

section \<open>What the commands change\<close>

text \<open>The commands on connections are single operations of the connection table.\<close>

lemma cmdDisconnect_step:
  assumes "cmdDisconnect args n = (n', t)" "table_ok n"
  shows "n' = n \<or> (\<exists>x. n' = conn_step n x)"
proof (cases "length args = 2 \<and> Exists n (args ! 1) \<noteq> None")
  case True
  then obtain p where p: "Exists n (args ! 1) = Some p" by auto
  then have "served n p" by (intro table_served assms(2)) (force simp: Exists_def gm_get_def dest: map_of_SomeD)
  then have "n' = conn_step n (OpDisconnect p)" using assms(1) True p by (simp add: cmdDisconnect_def Let_def)
  then show ?thesis by blast
next
  case False
  then show ?thesis using assms(1) by (auto simp: cmdDisconnect_def Let_def split: if_splits)
qed

lemma cmdMute_step: "cmdMute args n = (n', t) \<Longrightarrow> n' = n \<or> (\<exists>x. n' = conn_step n x)"
  by (auto simp: cmdMute_def Let_def intro: exI [of _ "OpMute x" for x] split: if_splits)

lemma cmdBan_step: "cmdBan args n = (n', t) \<Longrightarrow> n' = n \<or> (\<exists>x. n' = conn_step n x)"
  by (auto simp: cmdBan_def Let_def intro: exI [of _ "OpBan x" for x] split: if_splits)

lemma cmdUnmute_step: "cmdUnmute args n = (n', t) \<Longrightarrow> n' = n \<or> (\<exists>x. n' = conn_step n x)"
  by (auto simp: cmdUnmute_def Let_def UnmuteAll_def upd_cm_def
      intro: exI [of _ "OpUnmute x" for x] exI [of _ OpUnmuteAll] split: if_splits)

lemma cmdUnban_step: "cmdUnban args n = (n', t) \<Longrightarrow> n' = n \<or> (\<exists>x. n' = conn_step n x)"
  by (auto simp: cmdUnban_def Let_def UnbanAll_def upd_cm_def
      intro: exI [of _ "OpUnban x" for x] exI [of _ OpUnbanAll] split: if_splits)

lemmas net_commands = cmdDisconnect_step cmdMute_step cmdBan_step cmdUnmute_step cmdUnban_step

lemma cmdConnect_client: "cmdConnect wd args n = (n', t) \<Longrightarrow> n' = n \<or> (\<exists>host port. n' = fst (StartClient wd host port False n))"
  unfolding cmdConnect_def Let_def
  by (simp split: if_splits option.splits prod.splits) (metis fst_conv)+

lemma cmdCores_db: "cmdCores cpus args m = Some (m', t) \<Longrightarrow> m_db m' = m_db m"
  by (auto simp: cmdCores_def Let_def SetMiningCores_def call_minerCancel_def split: if_splits option.splits)

lemma cmdNote_db: "cmdNote args m = (m', t) \<Longrightarrow> m_db m' = m_db m"
  by (auto simp: cmdNote_def Let_def SetNote_def split: if_splits)

lemma AddAlias_keys [simp]: "wl_privKey (AddAlias name pk w) = wl_privKey w" "wl_pubKey (AddAlias name pk w) = wl_pubKey w"
  by (simp_all add: AddAlias_def)

lemma auto_alias_keys:
  "wl_privKey (fst (auto_alias pk s)) = wl_privKey (fst s)" "wl_pubKey (fst (auto_alias pk s)) = wl_pubKey (fst s)"
  by (simp_all add: auto_alias_def Let_def split: prod.split)

lemma AutoAliasUTXOs_keys:
  "wl_privKey (fst (AutoAliasUTXOs env m w)) = wl_privKey w" "wl_pubKey (fst (AutoAliasUTXOs env m w)) = wl_pubKey w"
proof -
  let ?f = "fold (\<lambda>(key, output). auto_alias (out_Pubkey output))"
  have f: "wl_privKey (fst (?f us s)) = wl_privKey (fst s)" "wl_pubKey (fst (?f us s)) = wl_pubKey (fst s)" for us s
    by (induction us arbitrary: s) (auto simp: auto_alias_keys)
  show "wl_privKey (fst (AutoAliasUTXOs env m w)) = wl_privKey w" "wl_pubKey (fst (AutoAliasUTXOs env m w)) = wl_pubKey w"
    by (cases "active_utxos env m"; simp add: AutoAliasUTXOs_def f)+
qed

lemma cmdAlias_keys: "cmdAlias args w = (w', t) \<Longrightarrow> wl_privKey w' = wl_privKey w \<and> wl_pubKey w' = wl_pubKey w"
  by (auto simp: cmdAlias_def Let_def split: if_splits)

lemma cmdSweep_keys: "cmdSweep env m w = (w', t) \<Longrightarrow> wl_privKey w' = wl_privKey w \<and> wl_pubKey w' = wl_pubKey w"
  using AutoAliasUTXOs_keys [of env m w] by (auto simp: cmdSweep_def split: prod.splits)

text \<open>The six ways in which a command can change the node.\<close>

definition command_effect ::
  "'d env \<Rightarrow> world \<Rightarrow> string list \<Rightarrow> Wallet \<Rightarrow> string \<Rightarrow> 'd node \<Rightarrow> 'd node \<Rightarrow> bool" where
  "command_effect env wd args w cmd n n' \<longleftrightarrow> n' = n \<or>
     (\<exists>m. n' = upd_mgr m n \<and> m_db m = m_db (nd_mgr n)) \<or>
     (\<exists>x. n' = n\<lparr>nd_net := conn_step (nd_net n) x\<rparr>) \<or>
     (cmd = ''connect'' \<and> (\<exists>host port. n' = fst (StartClient wd host port False n))) \<or>
     (cmd = ''sync'' \<and> n' = BroadcastGetChainTip wd (BroadcastGetPeers wd n)) \<or>
     (cmd = ''send'' \<and> (\<exists>t. cmdSend env wd args w n = Returns (n', t)))"

definition command_ok ::
  "'d env \<Rightarrow> world \<Rightarrow> string list \<Rightarrow> Wallet \<Rightarrow> string \<Rightarrow> 'd node \<Rightarrow> 'd answer outcome \<Rightarrow> bool" where
  "command_ok env wd args w cmd n r \<longleftrightarrow> (\<forall>ex n' w' t. r = Returns (ex, n', w', t) \<longrightarrow>
     command_effect env wd args w cmd n n' \<and> wl_privKey w' = wl_privKey w \<and> wl_pubKey w' = wl_pubKey w)"

lemma command_ok_if:
  "(c \<Longrightarrow> command_ok env wd args w cmd n a) \<Longrightarrow> (\<not> c \<Longrightarrow> command_ok env wd args w cmd n b) \<Longrightarrow>
     command_ok env wd args w cmd n (if c then a else b)"
  by simp

lemma command_ok_Returns:
  "command_ok env wd args w cmd n (Returns (ex, n', w', t)) \<longleftrightarrow>
     command_effect env wd args w cmd n n' \<and> wl_privKey w' = wl_privKey w \<and> wl_pubKey w' = wl_pubKey w"
  by (auto simp: command_ok_def)

lemma command_ok_net:
  assumes "nt = nd_net n \<or> (\<exists>x. nt = conn_step (nd_net n) x)"
  shows "command_ok env wd args w cmd n (Returns (ex, n\<lparr>nd_net := nt\<rparr>, w, t))"
  using assms by (auto simp: command_ok_Returns command_effect_def)

lemma command_ok_mgr:
  "m_db m = m_db (nd_mgr n) \<Longrightarrow> command_ok env wd args w cmd n (Returns (ex, upd_mgr m n, w, t))"
  by (auto simp: command_ok_Returns command_effect_def)

lemma executeCommand_ok:
  assumes inv: "table_ok (nd_net n)"
  shows "command_ok env wd args w cmd n (executeCommand env wd cpus cmd args n w)"
proof -
  let ?ok = "command_ok env wd args w cmd n"
  have same: "?ok (Returns (ex, n, w, t))" for ex t by (simp add: command_ok_Returns command_effect_def)
  have net: "?ok (case c of (nt, t) \<Rightarrow> Returns (False, n\<lparr>nd_net := nt\<rparr>, w, t))"
    if "\<And>n' t. c = (n', t) \<Longrightarrow> n' = nd_net n \<or> (\<exists>x. n' = conn_step (nd_net n) x)" for c
    using that by (cases c) (auto intro: command_ok_net)
  have wallet: "?ok (case c of (w, t) \<Rightarrow> Returns (False, n, w, t))"
    if "\<And>w' t. c = (w', t) \<Longrightarrow> wl_privKey w' = wl_privKey w \<and> wl_pubKey w' = wl_pubKey w" for c
    using that by (cases c) (simp add: command_ok_Returns command_effect_def)
  have cores: "?ok (case cmdCores cpus args (nd_mgr n) of None \<Rightarrow> Panics | Some (m, t) \<Rightarrow> Returns (False, upd_mgr m n, w, t))"
    by (auto intro!: command_ok_mgr dest: cmdCores_db split: option.split) (simp add: command_ok_def)
  have note': "?ok (case cmdNote args (nd_mgr n) of (m, t) \<Rightarrow> Returns (False, upd_mgr m n, w, t))"
    by (auto dest: cmdNote_db intro: command_ok_mgr split: prod.splits)
  have stats: "?ok (and_then (cmdStats env wd args (nd_mgr n) w) (\<lambda>t. Returns (False, n, w, t)))"
    by (cases "cmdStats env wd args (nd_mgr n) w") (simp_all add: same, simp_all add: command_ok_def)
  have connect: "?ok (case cmdConnect wd args n of (n, t) \<Rightarrow> Returns (False, n, w, t))" if "cmd = ''connect''"
    using that by (auto simp: command_ok_Returns command_effect_def dest: cmdConnect_client split: prod.splits)
  have sync: "?ok (case cmdSync wd n of (n, t) \<Rightarrow> Returns (False, n, w, t))" if "cmd = ''sync''"
    using that by (simp add: command_ok_Returns command_effect_def cmdSync_def)
  have send: "?ok (and_then (cmdSend env wd args w n) (\<lambda>(n, t). Returns (False, n, w, t)))" if "cmd = ''send''"
    using that by (cases "cmdSend env wd args w n") (auto simp: command_ok_Returns command_effect_def, simp_all add: command_ok_def)
  show ?thesis
    unfolding executeCommand_def Let_def
    by (intro command_ok_if same net wallet cores note' stats connect sync send cmdDisconnect_step cmdMute_step cmdBan_step
        cmdUnmute_step cmdUnban_step inv cmdAlias_keys cmdSweep_keys)
qed

lemmas command_effects = executeCommand_ok [unfolded command_ok_def, rule_format]

text \<open>Not-a-number passes the check of the amount.\<close>

lemma ParseFloat_NaN: "ParseFloat ''NaN'' = Some NotANumber"
proof -
  have "special ''NaN'' = Some NotANumber" by code_simp
  then show ?thesis by (simp add: ParseFloat_def)
qed

lemma cmdSend_NaN: "cmdSend env wd [cmd, target, ''NaN''] w n = Panics"
  by (simp add: cmdSend_def ParseFloat_NaN not_positive_def BuToPicabu_def)

end
