(* ===== verification/System.thy ===== *)
theory System
  imports NodeRules Mining Payment Console
begin

text \<open>
  The whole program: the events of the network, the commands typed at the console and the rounds of
  the miner change one node and one wallet. \<open>system_reachable\<close> are the states after any interleaving of
  them in which nothing panicked. A round of the miner is not one step: the template is built in one
  step and kept (\<open>job\<close>), the block is stored, validated and committed in a later one, and anything
  may happen in between. Each event, each command and each commit is one step, though.

  The network's handlers ask whether an object is stored already; the wallet and the miner do not,
  so the steps that store a payment or a mined block carry premises that the code does not check: no
  other text is stored under the ID of the payment or the coinbase (an ID is a hash), and the mined
  block is new and one that the decoder reads (\<open>round_fresh\<close>). The last is a real condition: the
  miner takes the whole mempool, the decoder at most 1000 transactions.

  Results: every step keeps the invariant of the node (\<open>system_inv\<close>); a round without interruptions,
  as \<open>StartMining\<close> computes it, is a sequence of these steps (\<open>StartMining_steps\<close>); what a typed payment
  does (\<open>typed_payment\<close>); a note set at the console is not in the next block (\<open>note_not_mined\<close>).
\<close>

section \<open>Steps\<close>

definition text_agrees :: "'d env \<Rightarrow> 'd Manager \<Rightarrow> Object \<Rightarrow> bool" where
  "text_agrees env m obj \<longleftrightarrow> (\<forall>oid v. HashObject env obj = Inr oid \<longrightarrow>
     ldb_get env (db_db (m_db m)) oid = Inr v \<longrightarrow> v = print_json (Object_json obj))"

definition text_absent :: "'d env \<Rightarrow> 'd Manager \<Rightarrow> Object \<Rightarrow> bool" where
  "text_absent env m obj \<longleftrightarrow> (\<forall>oid v. HashObject env obj = Inr oid \<longrightarrow> ldb_get env (db_db (m_db m)) oid \<noteq> Inr v)"

definition payment_fresh :: "'d env \<Rightarrow> 'd node \<Rightarrow> Wallet \<Rightarrow> bool" where
  "payment_fresh env n w \<longleftrightarrow> (\<forall>target amount fee tx.
     build_payment env w target amount (Picabu_Add amount fee) (snd (GetBalance env (nd_mgr n) w)) = Some (Inr tx) \<longrightarrow>
     text_agrees env (nd_mgr n) (TxObj tx))"

text \<open>A premise of the step, at the time of the commit: the mined block is one the node would decode, and
  new; its coinbase does not collide.\<close>

definition round_fresh :: "'d env \<Rightarrow> 'd Manager \<Rightarrow> job \<Rightarrow> string \<Rightarrow> bool" where
  "round_fresh env m j nonce \<longleftrightarrow>
     (let block = BlockObj ((job_block j)\<lparr>blk_Nonce := nonce\<rparr>) in object_in env block \<and>
        text_agrees env m (CoinbaseObj (job_coinbase j)) \<and>
        text_absent env (fst (StoreObject env m (CoinbaseObj (job_coinbase j)))) block)"

definition round_ok ::
  "'d env \<Rightarrow> world \<Rightarrow> nat \<Rightarrow> Miner \<Rightarrow> (string \<Rightarrow> nat \<Rightarrow> string option \<times> uint64 list) \<Rightarrow> 'd node \<Rightarrow> bool" where
  "round_ok env wd ctx mn race n \<longleftrightarrow>
     (let m = SetMiningState (w_now wd) True (SetMiningCancel ctx (nd_mgr n)) in \<forall>j nonce hashes.
        Mine_job env (unix wd) m mn = Some (Inr j) \<longrightarrow>
        race (job_template j) (job_offset j) = (Some nonce, hashes) \<longrightarrow> round_fresh env m j nonce)"

text \<open>
  The last argument is the round of mining under way. \<open>wake\<close>: a turn of \<open>StartMining\<close> begins; \<open>build\<close>: its
  template is ready; \<open>hashes\<close>: the telemetry counts, at any time; \<open>found\<close>: a worker's nonce arrives, on a
  node that may have changed since; \<open>idle\<close>: the turn ends, also when it was interrupted or failed.
\<close>

inductive system_reachable ::
  "'d env \<Rightarrow> 'd node \<Rightarrow> Wallet \<Rightarrow> 'd node \<Rightarrow> Wallet \<Rightarrow> job option \<Rightarrow> bool" for env n0 w0 where
  start: "system_reachable env n0 w0 n0 w0 None"
| event: "system_reachable env n0 w0 n w r \<Longrightarrow> handle_event env wd e n = Returns n' \<Longrightarrow>
     system_reachable env n0 w0 n' w r"
| line: "system_reachable env n0 w0 n w r \<Longrightarrow> payment_fresh env n w \<Longrightarrow>
     Start env wd cpus input n w = Returns (shouldExit, n', w', t) \<Longrightarrow> system_reachable env n0 w0 n' w' r"
| wake: "system_reachable env n0 w0 n w None \<Longrightarrow>
     system_reachable env n0 w0 (upd_mgr (SetMiningState now True (SetMiningCancel ctx (nd_mgr n))) n) w None"
| build: "system_reachable env n0 w0 n w None \<Longrightarrow> Mine_job env (unix wd) (nd_mgr n) mn = Some (Inr j) \<Longrightarrow>
     system_reachable env n0 w0 n w (Some j)"
| hashes: "system_reachable env n0 w0 n w r \<Longrightarrow>
     system_reachable env n0 w0 (upd_mgr (AddMiningHashes x (nd_mgr n)) n) w r"
| found: "system_reachable env n0 w0 n w (Some j) \<Longrightarrow> round_fresh env (nd_mgr n) j nonce \<Longrightarrow>
     Mine_commit env wd j nonce n = Returns (n', e) \<Longrightarrow> system_reachable env n0 w0 n' w None"
| idle: "system_reachable env n0 w0 n w r \<Longrightarrow>
     system_reachable env n0 w0 (upd_mgr (SetMiningState now False (nd_mgr n)) n) w None"

section \<open>Storing what is there already\<close>

lemma putObject_same:
  assumes l: "ldb_ok env" and put: "putObject env d obj = (d', r)" and oid: "HashObject env obj = Inr oid"
    and there: "ldb_get env (db_db d) oid = Inr (print_json (Object_json obj))"
  shows "chain_eq env d d'" "db_pendingBlocks d' = db_pendingBlocks d"
proof -
  have "ldb_get env (db_db d') k = ldb_get env (db_db d) k" for k
    using putObject_effect(2,3) [OF l put] oid there by (cases "k = oid") (metis)+
  then show "chain_eq env d d'" by (simp add: chain_eq_def)
qed (rule putObject_pending [OF put])

lemma mgr_inv_chain_eq:
  assumes "mgr_inv env m" "chain_eq env (m_db m) (m_db m')" "mempool_inv (m_db m')"
    "db_pendingBlocks (m_db m') = db_pendingBlocks (m_db m)"
  shows "mgr_inv env m'"
  using assms chain_inv_eq backing_eq pending_ok_same unfolding mgr_inv_def by metis

text \<open>A transaction that validation accepted may be committed again.\<close>

lemma commit_tx_inv:
  assumes l: "ldb_ok env" and h: "hash_ok env" and inv: "mgr_inv env m"
    and obj0: "object_in env (TxObj tx0)" and val: "ValidateObject env now m (TxObj tx0) = Some (TxObj tx, result)"
    and ok: "vr_Error result = None" and agrees: "text_agrees env m (TxObj tx0)"
    and com: "CommitObject env now' m (TxObj tx) result = Returns (m', gossip, code, err)"
  shows "mgr_inv env m'"
proof -
  have c: "chain_inv env (m_db m)" "mempool_inv (m_db m)" "pending_ok env (m_db m)" "backing_inv env (m_db m)"
    using inv by (auto simp: mgr_inv_def)
  have mem: "mempool_inv (m_db m')" using CommitObject_mempool [OF com c(2)] by simp
  have id: "HashObject env (TxObj tx) = Inr (vr_ObjID result)" "Object_json (TxObj tx) = Object_json (TxObj tx0)"
    using ValidateObject_facts [OF val obj0] ok by (metis, metis Object_json_uncached)
  show ?thesis
  proof (cases "\<exists>v. ldb_get env (db_db (m_db m)) (vr_ObjID result) = Inr v")
    case True
    then have there: "ldb_get env (db_db (m_db m)) (vr_ObjID result) = Inr (print_json (Object_json (TxObj tx)))"
      using agrees id by (auto simp: text_agrees_def HashObject_def)
    obtain d r where p: "putObject env (m_db m) (TxObj tx) = (d, r)" by fastforce
    note same = putObject_same [OF l p id(1) there]
    have "m' = upd_db d m \<or> same_chain env (upd_db d m) m'"
      using com p by (cases r) (auto simp: CommitObject_def Let_def intro: commitTransaction_same [OF l])
    then have "chain_eq env (m_db m) (m_db m') \<and> db_pendingBlocks (m_db m') = db_pendingBlocks (m_db m)"
      using same by (auto simp: same_chain_def intro: chain_eq_trans)
    then show ?thesis using mgr_inv_chain_eq [OF inv _ mem] by blast
  next
    case False
    then have new: "ldb_get env (db_db (m_db m)) (vr_ObjID result) \<noteq> Inr v" for v by blast
    note k = CommitObject_chain [OF l h c(1) obj0 val ok new com]
    have "backing_inv env (m_db m')"
      by (rule CommitObject_backing [OF l h c(1,4) obj0 val ok _ com]) (simp add: new)
    then show ?thesis
      unfolding mgr_inv_def using k(1) mem c(3) pending_ok_same [OF k(2)] by blast
  qed
qed

section \<open>The wallet keeps the invariant\<close>

lemma validated_tx:
  assumes "ValidateObject env now m (TxObj tx) = Some (obj, result)"
  obtains tx' where "obj = TxObj tx'"
proof -
  have "obj = fst (GetObjectID env (TxObj tx))"
    using assms by (auto simp: ValidateObject_def split: prod.splits sum.splits option.splits)
  then show thesis using that by (auto simp: GetObjectID_def split: option.splits sum.splits)
qed

lemma built_payment_in:
  assumes "build_payment env w target amount needed coins = Some (Inr tx)"
  shows "object_in env (TxObj tx)"
  using assms
  by (auto simp: build_payment_def Let_def object_in_def cache_ok_def MakeTransaction_def split: prod.splits option.splits sum.splits)

lemma SendPicabus_node:
  assumes l: "ldb_ok env" and h: "hash_ok env" and inv: "node_inv env n" and fresh: "payment_fresh env n w"
    and s: "SendPicabus env wd w target amount fee n = Returns (n', r)"
  shows "node_inv env n'"
proof -
  obtain bal coins where gb: "GetBalance env (nd_mgr n) w = (bal, coins)" by fastforce
  let ?needed = "Picabu_Add amount fee"
  show ?thesis
  proof (cases "Picabu_Cmp bal ?needed < 0 \<or> (\<forall>tx. build_payment env w target amount ?needed coins \<noteq> Some (Inr tx))")
    case True
    then have "n' = n" using s gb by (auto simp: SendPicabus_def Let_def split: if_splits option.splits sum.splits)
    then show ?thesis using inv by simp
  next
    case False
    then obtain tx where tx: "build_payment env w target amount ?needed coins = Some (Inr tx)" by blast
    have agrees: "text_agrees env (nd_mgr n) (TxObj tx)" using fresh tx gb unfolding payment_fresh_def by (metis snd_conv)
    obtain obj res where val: "ValidateObject env (unix wd) (nd_mgr n) (TxObj tx) = Some (obj, res)"
      using s gb tx False by (auto simp: SendPicabus_def Let_def split: option.splits)
    obtain tx' where obj: "obj = TxObj tx'" using val by (rule validated_tx)
    show ?thesis
    proof (cases "vr_Error res = None")
      case False
      then show ?thesis using s gb tx val inv by (auto simp: SendPicabus_def Let_def split: if_splits)
    next
      case ok: True
      obtain m gossip code err where c: "CommitObject env (w_now wd) (nd_mgr n) obj res = Returns (m, gossip, code, err)"
        and n': "n' = upd_mgr m n \<or> n' = BroadcastObject wd obj (upd_mgr m n)"
        using s gb tx val ok False
        by (cases "CommitObject env (w_now wd) (nd_mgr n) obj res") (auto simp: SendPicabus_def Let_def split: if_splits)
      have "mgr_inv env m"
        using commit_tx_inv [OF l h node_invD(1) [OF inv] built_payment_in [OF tx] _ ok agrees] val c obj by blast
      then have "node_inv env (upd_mgr m n)" by (rule upd_mgr_node [OF inv])
      then show ?thesis using n' wrote_node Broadcasts_wrote(2) by blast
    qed
  qed
qed

lemma cmdSend_node:
  assumes l: "ldb_ok env" "hash_ok env" and inv: "node_inv env n" and fresh: "payment_fresh env n w"
    and s: "cmdSend env wd args w n = Returns (n', t)"
  shows "node_inv env n'"
proof -
  have "n' = n \<or> (\<exists>target amount r. SendPicabus env wd w target amount console_fee n = Returns (n', r))"
    using s by (auto simp: cmdSend_def Let_def and_then_Returns split: if_splits option.splits sum.splits) (metis sum.exhaust)
  then show ?thesis using SendPicabus_node [OF l inv fresh] inv by blast
qed

lemma command_node:
  assumes l: "ldb_ok env" "hash_ok env" and inv: "node_inv env n" and fresh: "payment_fresh env n w"
    and r: "Start env wd cpus input n w = Returns (ex, n', w', t)"
  shows "node_inv env n'"
proof (cases "Fields input")
  case Nil
  then show ?thesis using r inv by (simp add: Start_def)
next
  case (Cons c args)
  then obtain ex' t' where e: "executeCommand env wd cpus (ToLower c) (c # args) n w = Returns (ex', n', w', t')"
    using r by (auto simp: Start_def and_then_Returns)
  have net: "net_inv (nd_net n)" using inv by (rule node_invD)
  then have "command_effect env wd (c # args) w (ToLower c) n n'" using command_effects(1) [OF _ e] by (simp add: net_inv_def)
  then show ?thesis unfolding command_effect_def
  proof (elim disjE exE conjE)
    fix m assume "n' = upd_mgr m n" "m_db m = m_db (nd_mgr n)"
    then show ?thesis using inv mgr_inv_db node_invD(1) upd_mgr_node by metis
  next
    fix x assume "n' = n\<lparr>nd_net := conn_step (nd_net n) x\<rparr>"
    then show ?thesis using conn_step_inv [OF net] inv by (simp add: node_inv_def)
  next
    assume n': "n' = BroadcastGetChainTip wd (BroadcastGetPeers wd n)"
    have "node_inv env (BroadcastGetPeers wd n)" by (rule wrote_node [OF inv Broadcasts_wrote(3)])
    then show ?thesis unfolding n' by (rule wrote_node) (rule Broadcasts_wrote(4))
  qed (use inv StartClient_node cmdSend_node [OF l inv fresh] in auto)
qed

section \<open>The miner keeps the invariant\<close>

lemma coinbase_typed:
  assumes "Mine_job env now m mn = Some (Inr j)"
  shows "typed (CoinbaseObj (job_coinbase j))"
proof -
  have body: "typed (CoinbaseObj cb)" if body: "block_body env now m mn height blk = Some (Inr (b, cb))" for height blk b cb
  proof -
    let ?cb = "MakeCoinbaseTransaction (BuInt_of_uint64 height)
      (Some [MakeTxOutput (mn_Pubkey mn) (block_reward (elems (GetMempoolEntries m)))])"
    have t: "typed (fst (GetObjectID env obj)) = typed obj" for obj
      by (cases obj) (auto simp: GetObjectID_def split: option.splits sum.splits)
    obtain obj res where v: "ValidateObject env now m (CoinbaseObj ?cb) = Some (obj, res)"
      "\<exists>h. GetObjectID env obj = (CoinbaseObj cb, Inr h)"
      using body by (auto simp: block_body_def Let_def split: option.splits prod.splits if_splits sum.splits Object.splits)
    have "typed obj" using v(1) t [of "CoinbaseObj ?cb"]
      by (auto simp: ValidateObject_def MakeCoinbaseTransaction_def split: prod.splits sum.splits option.splits)
    then show ?thesis using v(2) t [of obj] by auto
  qed
  then show ?thesis
    using assms by (auto simp: Mine_job_def BuildBlock_def Let_def split: option.splits sum.splits prod.splits if_splits)
qed

lemma StoreObject_inv:
  assumes l: "ldb_ok env" and h: "hash_ok env" and inv: "mgr_inv env m" and t: "typed (CoinbaseObj cb)"
    and agrees: "text_agrees env m (CoinbaseObj cb)"
  shows "mgr_inv env (fst (StoreObject env m (CoinbaseObj cb)))"
proof -
  let ?o = "CoinbaseObj cb"
  obtain d r where p: "putObject env (m_db m) ?o = (d, r)" by fastforce
  have e: "fst (StoreObject env m ?o) = upd_db d m" using p by (simp add: StoreObject_def split: sum.splits)
  have c: "chain_inv env (m_db m)" "mempool_inv (m_db m)" "pending_ok env (m_db m)" "backing_inv env (m_db m)"
    using inv by (auto simp: mgr_inv_def)
  have mem: "mempool_inv d"
    using p c(2) by (auto simp: putObject_def dest: put_key_mempool split: option.splits sum.splits prod.splits)
  show ?thesis
  proof (cases "\<exists>oid. HashObject env ?o = Inr oid")
    case False
    then have "d = m_db m" using p by (auto simp: putObject_def HashObject_def split: option.splits sum.splits prod.splits)
    then show ?thesis using inv e mgr_inv_db [of "upd_db d m" m env] by simp
  next
    case True
    then obtain oid where oid: "HashObject env ?o = Inr oid" by blast
    have pend: "pending_ok env d" using c(3) pending_ok_same [OF putObject_pending [OF p]] by blast
    have bk: "backing_inv env d"
      by (rule putObject_backing [OF l h p oid t _ _ c(4)]) (use agrees oid in \<open>auto simp: text_agrees_def\<close>)
    show ?thesis
    proof (cases "\<exists>v. ldb_get env (db_db (m_db m)) oid = Inr v")
      case True
      then have "ldb_get env (db_db (m_db m)) oid = Inr (print_json (Object_json ?o))"
        using agrees oid by (auto simp: text_agrees_def)
      then have "chain_inv env d" using chain_inv_eq [OF putObject_same(1) [OF l p oid] c(1)] by blast
      then show ?thesis using mem pend bk by (simp add: e mgr_inv_def)
    next
      case False
      then have "chain_inv env d" using putObject_chain(1) [OF l h p t c(1) oid] by blast
      then show ?thesis using mem pend bk by (simp add: e mgr_inv_def)
    qed
  qed
qed

lemma commit_block_inv:
  assumes l: "ldb_ok env" and h: "hash_ok env" and inv: "mgr_inv env m"
    and obj0: "object_in env obj0" and val: "ValidateObject env now m obj0 = Some (obj, result)"
    and ok: "vr_Error result = None" and new: "text_absent env m obj0"
    and com: "CommitObject env now' m obj result = Returns (m', gossip, code, err)"
  shows "mgr_inv env m'"
proof -
  have c: "chain_inv env (m_db m)" "mempool_inv (m_db m)" "pending_ok env (m_db m)" "backing_inv env (m_db m)"
    using inv by (auto simp: mgr_inv_def)
  have "HashObject env obj0 = Inr (vr_ObjID result)"
    using ValidateObject_facts [OF val obj0] ok by (metis HashObject_def Object_json_uncached)
  then have new': "ldb_get env (db_db (m_db m)) (vr_ObjID result) \<noteq> Inr v" for v
    using new by (simp add: text_absent_def)
  note k = CommitObject_chain [OF l h c(1) obj0 val ok new' com]
  have "backing_inv env (m_db m')"
    by (rule CommitObject_backing [OF l h c(1,4) obj0 val ok _ com]) (simp add: new')
  then show ?thesis
    unfolding mgr_inv_def using k(1) CommitObject_mempool [OF com c(2)] c(3) pending_ok_same [OF k(2)] by blast
qed

lemma upd_mgr_twice [simp]: "upd_mgr m' (upd_mgr m n) = upd_mgr m' n"
  by (simp add: upd_mgr_def)

lemma Mine_commit_node:
  assumes l: "ldb_ok env" and h: "hash_ok env" and inv: "node_inv env n"
    and j: "typed (CoinbaseObj (job_coinbase j))" and fresh: "round_fresh env (nd_mgr n) j nonce"
    and r: "Mine_commit env wd j nonce n = Returns (n', e)"
  shows "node_inv env n'"
proof -
  let ?b = "BlockObj ((job_block j)\<lparr>blk_Nonce := nonce\<rparr>)" and ?cb = "CoinbaseObj (job_coinbase j)"
  define m1 where "m1 = fst (StoreObject env (nd_mgr n) ?cb)"
  have f: "object_in env ?b" "text_agrees env (nd_mgr n) ?cb" "text_absent env m1 ?b"
    using fresh by (simp_all add: round_fresh_def Let_def m1_def)
  have m1: "mgr_inv env m1" unfolding m1_def by (rule StoreObject_inv [OF l h node_invD(1) [OF inv] j f(2)])
  obtain block final where g: "GetObjectID env ?b = (block, final)" by fastforce
  have cache: "cache_ok env ?b" using f(1) by (simp add: object_in_def)
  have u: "uncached block = uncached ?b" "cache_ok env block"
    using GetObjectID_cache [OF cache] g by simp_all
  have b: "object_in env block"
  proof -
    obtain b' where b': "block = BlockObj b'" using g by (auto simp: GetObjectID_def split: option.splits sum.splits)
    then show ?thesis using u f(1) by (auto simp: object_in_def dest: arg_cong [where f = blk_Type])
  qed
  have absent: "text_absent env m1 block"
    using f(3) u(1) unfolding text_absent_def HashObject_def by (metis Object_json_uncached)
  have n1: "node_inv env (upd_mgr m1 n)" by (rule upd_mgr_node [OF inv m1])
  show ?thesis
  proof (cases "ValidateObject env (unix wd) m1 block")
    case None
    then show ?thesis using r g by (simp add: Mine_commit_def m1_def Let_def)
  next
    case (Some v)
    then obtain obj res where v: "ValidateObject env (unix wd) m1 block = Some (obj, res)" by (cases v) auto
    show ?thesis
    proof (cases "vr_Error res = None")
      case False
      then show ?thesis using r g v n1 by (auto simp: Mine_commit_def m1_def [symmetric] Let_def)
    next
      case True
      then obtain m gossip code err where c: "CommitObject env (w_now wd) m1 obj res = Returns (m, gossip, code, err)"
        using r g v by (cases "CommitObject env (w_now wd) m1 obj res") (auto simp: Mine_commit_def m1_def [symmetric] Let_def)
      have "mgr_inv env m" by (rule commit_block_inv [OF l h m1 b v True absent c])
      then have good: "node_inv env (upd_mgr m n)" "node_inv env (upd_mgr (AddMinedBlock st m) n)" for st
        using upd_mgr_node [OF inv] mgr_inv_db [of "AddMinedBlock st m" m env] by (simp_all add: AddMinedBlock_def)
      have "node_inv env (BroadcastObject wd obj (upd_mgr (AddMinedBlock st m) n))" for st
        by (rule wrote_node [OF good(2) Broadcasts_wrote(2)])
      then show ?thesis
        using r g v True c good
        by (auto simp: Mine_commit_def m1_def [symmetric] Let_def split: if_splits list.splits)
    qed
  qed
qed

lemma round_fresh_db:
  assumes "m_db m' = m_db m"
  shows "round_fresh env m' j nonce = round_fresh env m j nonce"
proof -
  have "m_db (fst (StoreObject env m' obj)) = m_db (fst (StoreObject env m obj))" for obj
    using assms by (simp add: StoreObject_def split: prod.split sum.split)
  then show ?thesis using assms by (simp add: round_fresh_def text_agrees_def text_absent_def)
qed

lemma system_inv:
  assumes l: "ldb_ok env" "hash_ok env" and n0: "node_inv env n0" and r: "system_reachable env n0 w0 n w r"
  shows "node_inv env n \<and> (\<forall>j. r = Some j \<longrightarrow> typed (CoinbaseObj (job_coinbase j)))"
proof -
  have db: "m_db (SetMiningState now b m) = m_db m" "m_db (SetMiningCancel ctx m) = m_db m" "m_db (AddMiningHashes x m) = m_db m"
    for now b m x ctx by (simp_all add: SetMiningState_def SetMiningCancel_def AddMiningHashes_def Let_def)
  have same: "node_inv env (upd_mgr m k)" if "node_inv env k" "m_db m = m_db (nd_mgr k)" for m k
    using that upd_mgr_node mgr_inv_db node_invD(1) by metis
  show ?thesis
    using r
  proof induction
    case (event n w r wd e n')
    then show ?case using handle_event_node [OF l] by blast
  next
    case (line n w r wd cpus input ex n' w' t)
    then show ?case using command_node [OF l] by blast
  next
    case (wake n w now ctx)
    then show ?case by (simp add: same db)
  next
    case (build n w wd mn j)
    then show ?case using coinbase_typed by blast
  next
    case (hashes n w r x)
    then show ?case by (simp add: same db)
  next
    case (found n w j nonce wd n' e)
    then show ?case using Mine_commit_node [OF l] by blast
  next
    case (idle n w r now)
    then show ?case by (simp add: same db)
  qed (simp add: n0)
qed

text \<open>A round in which nothing else happens, as \<open>StartMining\<close> computes it, is a sequence of steps.\<close>

lemma StartMining_steps:
  assumes n: "system_reachable env n0 w0 n w None" and ok: "round_ok env wd ctx mn race n"
    and r: "StartMining env wd ctx mn race n = Returns n'"
  shows "system_reachable env n0 w0 n' w None"
proof -
  let ?m = "SetMiningState (w_now wd) True (SetMiningCancel ctx (nd_mgr n))"
  have hashes: "m_db (fold AddMiningHashes xs m) = m_db m" for xs m
    by (induction xs arbitrary: m) (simp_all add: AddMiningHashes_def)
  have counted: "system_reachable env n0 w0 (upd_mgr (fold AddMiningHashes xs m) n) w q"
    if "system_reachable env n0 w0 (upd_mgr m n) w q" for xs m q
    using that
  proof (induction xs arbitrary: m)
    case (Cons x xs)
    have "system_reachable env n0 w0 (upd_mgr (AddMiningHashes x m) n) w q"
      using system_reachable.hashes [OF Cons.prems, of x] by simp
    then show ?case using Cons.IH by simp
  qed simp
  note n1 = system_reachable.wake [OF n, of "w_now wd" ctx]
  obtain e where mine: "Mine env wd mn race (upd_mgr (SetMiningCancel ctx (nd_mgr n)) n) = Returns (n', e)"
    using r by (auto simp: StartMining_def and_then_Returns)
  obtain jr where jr: "Mine_job env (unix wd) ?m mn = Some jr"
    using mine by (cases "Mine_job env (unix wd) ?m mn") (auto simp: Mine_def Let_def)
  show ?thesis
  proof (cases jr)
    case (Inl err)
    then show ?thesis using mine jr system_reachable.idle [OF n1, of "w_now wd"] by (auto simp: Mine_def Let_def)
  next
    case (Inr j)
    obtain winner xs where w: "race (job_template j) (job_offset j) = (winner, xs)" by fastforce
    have "system_reachable env n0 w0 (upd_mgr ?m n) w (Some j)"
      by (rule system_reachable.build [OF n1]) (use jr Inr in simp)
    note n2 = counted [OF this, of xs]
    show ?thesis
    proof (cases winner)
      case None
      then show ?thesis using mine jr Inr w system_reachable.idle [OF n2, of "w_now wd"] by (auto simp: Mine_def Let_def)
    next
      case (Some nonce)
      then obtain n3 where n3: "Mine_commit env wd j nonce (upd_mgr (fold AddMiningHashes xs ?m) n) = Returns (n3, e)"
          "n' = upd_mgr (SetMiningState (w_now wd) False (nd_mgr n3)) n3"
        using mine jr Inr w by (auto simp: Mine_def Let_def and_then_Returns)
      have "round_fresh env ?m j nonce" using ok jr Inr w Some by (auto simp: round_ok_def Let_def)
      then have "round_fresh env (nd_mgr (upd_mgr (fold AddMiningHashes xs ?m) n)) j nonce"
        by (simp add: round_fresh_db [OF hashes])
      from system_reachable.found [OF n2 this n3(1)] show ?thesis unfolding n3(2) by (rule system_reachable.idle)
    qed
  qed
qed

section \<open>A payment typed at the console\<close>

lemma typed_payment:
  assumes env: "ldb_ok env" "ldb_total env" "hash_ok env" "sign_ok env pub" and inv: "node_inv env n"
    and key: "length (wl_privKey w) = 64" "wl_pubKey w = hex_EncodeToString (pub (wl_privKey w))"
    and dec: "list_all is_digit ds" "ds \<noteq> []" "list_all is_digit fs" "length fs \<le> 12"
    and amt: "k = decimal_picabu ds fs" "0 < k" "k < 2 ^ 52"
    and funds: "k + console_fee \<le> fst (GetBalance env (nd_mgr n) w)"
  shows "\<exists>n' t p tx oid e. cmdSend env wd [cmd, target, decimal_text ds fs] w n = Returns (n', t) \<and> (p = k \<or> p = k - 1) \<and>
    hd (elems (tx_Outputs tx)) = MakeTxOutput (ResolveAddress target w) p \<and>
    gm_get (db_mempool (m_db (nd_mgr n'))) oid = Some e \<and> me_Tx e = Some tx \<and> me_Fee e = console_fee"
proof -
  obtain v p where parse: "ParseFloat (decimal_text ds fs) = Some (Fin v)" and v: "0 < v"
    and p: "BuToPicabu (Fin v) = Some p" "p = k \<or> p = k - 1"
    using decimal_amount [OF dec] amt by blast
  have fee: "0 \<le> p" "0 \<le> console_fee" "0 < p + console_fee" "p + console_fee \<le> fst (GetBalance env (nd_mgr n) w)"
    using p(2) amt(2) funds by (auto simp: console_fee_def NewPicabu_def)
  obtain n' tx oid e where s: "SendPicabus env wd w (ResolveAddress target w) p console_fee n = Returns (n', Inr (TxObj tx))"
    "hd (elems (tx_Outputs tx)) = MakeTxOutput (ResolveAddress target w) p"
    "gm_get (db_mempool (m_db (nd_mgr n'))) oid = Some e" "me_Tx e = Some tx" "me_Fee e = console_fee"
    using node_payment_succeeds [OF env inv key fee, of wd "ResolveAddress target w"] by blast
  have "\<exists>t. cmdSend env wd [cmd, target, decimal_text ds fs] w n = Returns (n', t)"
    using parse p(1) v s(1) by (simp add: cmdSend_def not_positive_def)
  then show ?thesis using s p(2) by blast
qed

text \<open>A coin of the tip is an output of a stored transaction.\<close>

lemma tip_backed:
  assumes "mgr_inv env m" "GetChaintip env m = Inr (tip, h)" "GetUTXO env m tip = Inr u"
  shows "\<forall>coin \<in> set (us_UTXOs u). backed_coin env (m_db m) coin"
proof
  fix coin assume coin: "coin \<in> set (us_UTXOs u)"
  have "active_utxos env m = Some (us_UTXOs u)" using assms(2,3) by (simp add: active_utxos_def)
  from active_utxos_ok [OF _ this] have "utxos_ok (us_UTXOs u)" using assms(1) by (metis mgr_inv_def)
  then have "gm_get (us_UTXOs u) (fst coin) = Some (snd coin)"
    using coin by (simp add: utxos_ok_def gm_get_def gm_wf_def)
  moreover have "getUTXO env (m_db m) tip = Inr u" using assms(3) by (simp add: GetUTXO_Inr)
  ultimately show "backed_coin env (m_db m) coin"
    using assms(1) by (cases coin) (auto simp: mgr_inv_def backing_inv_def utxos_backed_def outs_backed_def)
qed

section \<open>The note\<close>

text \<open>The miner writes the note it was created with; what the console sets reaches no block.\<close>

lemma note_not_mined: "BuildBlock env now (SetNote s m) mn = BuildBlock env now m mn"
proof -
  have db: "m_db (SetNote s m) = m_db m" by (simp add: SetNote_def)
  have v: "ValidateObject env now (SetNote s m) (CoinbaseObj cb) = ValidateObject env now m (CoinbaseObj cb)" for cb
    by (auto simp: ValidateObject_def ValidateCoinbase_def GetObjectID_def split: option.splits sum.splits)
  have e: "GetMempoolEntries (SetNote s m) = GetMempoolEntries m" "GetChaintip env (SetNote s m) = GetChaintip env m"
    by (simp_all add: GetMempoolEntries_def GetChaintip_def db)
  have h: "\<exists>x. block_header now (Config (SetNote s m)) = (block_header now (Config m))\<lparr>blk_Note := x\<rparr>"
    by (simp add: block_header_def SetNote_def Config_def)
  have b: "block_body env now (SetNote s m) mn height (blk\<lparr>blk_Note := x\<rparr>) = block_body env now m mn height blk"
    for height blk x
  proof -
    have twice: "blk\<lparr>blk_Note := x, blk_Txids := t, blk_Note := y\<rparr> = blk\<lparr>blk_Txids := t, blk_Note := y\<rparr>" for t y
      by (cases blk) simp
    show ?thesis unfolding block_body_def e v Let_def twice ..
  qed
  obtain x where x: "block_header now (Config (SetNote s m)) = (block_header now (Config m))\<lparr>blk_Note := x\<rparr>" using h ..
  have swap: "blk\<lparr>blk_Note := x, blk_Previd := p\<rparr> = blk\<lparr>blk_Previd := p, blk_Note := x\<rparr>" for blk :: Block and p
    by (cases blk) simp
  show ?thesis unfolding BuildBlock_def e Let_def x swap b ..
qed

section \<open>The address book\<close>

abbreviation anon :: "int \<Rightarrow> string" where
  "anon i \<equiv> ''Anon-'' @ string_of_int i"

text \<open>After a sweep every key has a name, old names stay, and a new name stands for its key alone.\<close>

lemma fold_auto_alias:
  assumes "fold auto_alias pks (w, c) = (w', c')"
  shows "(\<forall>pk \<in> set pks. gm_has (wl_reverseLookup w') pk) \<and>
    (\<forall>pk name. gm_get (wl_reverseLookup w) pk = Some name \<longrightarrow> gm_get (wl_reverseLookup w') pk = Some name) \<and>
    c' = c + card {pk \<in> set pks. \<not> gm_has (wl_reverseLookup w) pk} \<and>
    wl_anonCounter w \<le> wl_anonCounter w' \<and>
    (\<forall>pk \<in> set pks. \<not> gm_has (wl_reverseLookup w) pk \<longrightarrow>
       (\<exists>i. wl_anonCounter w \<le> i \<and> gm_get (wl_reverseLookup w') pk = Some (anon i) \<and> gm_get (wl_aliases w') (anon i) = Some pk)) \<and>
    (\<forall>name. (\<forall>i. wl_anonCounter w \<le> i \<longrightarrow> name \<noteq> anon i) \<longrightarrow> gm_get (wl_aliases w') name = gm_get (wl_aliases w) name)"
  using assms
proof (induction pks arbitrary: w c)
  case (Cons pk pks)
  show ?case
  proof (cases "gm_has (wl_reverseLookup w) pk")
    case True
    then have "auto_alias pk (w, c) = (w, c)" by (simp add: auto_alias_def)
    then have "fold auto_alias pks (w, c) = (w', c')" using Cons.prems by simp
    note ih = Cons.IH [OF this]
    have "{x \<in> set (pk # pks). \<not> gm_has (wl_reverseLookup w) x} = {x \<in> set pks. \<not> gm_has (wl_reverseLookup w) x}"
      using True by auto
    moreover have "gm_has (wl_reverseLookup w') pk" using ih True by (auto simp: gm_has_def)
    ultimately show ?thesis using ih True by simp
  next
    case False
    define w1 where "w1 = (AddAlias (anon (wl_anonCounter w)) pk w)\<lparr>wl_anonCounter := wl_anonCounter w + 1\<rparr>"
    have w1: "wl_reverseLookup w1 = gm_set pk (anon (wl_anonCounter w)) (wl_reverseLookup w)"
      "wl_aliases w1 = gm_set (anon (wl_anonCounter w)) pk (wl_aliases w)" "wl_anonCounter w1 = wl_anonCounter w + 1"
      by (simp_all add: w1_def AddAlias_def)
    have "auto_alias pk (w, c) = (w1, c + 1)"
      using False by (simp add: auto_alias_def Let_def w1_def AddAlias_def)
    then have "fold auto_alias pks (w1, c + 1) = (w', c')" using Cons.prems by simp
    note ih = Cons.IH [OF this]
    have new: "anon (wl_anonCounter w) \<noteq> anon i" if "wl_anonCounter w1 \<le> i" for i
      using that string_of_int_inj [of "wl_anonCounter w" i] w1(3) by auto
    have rl: "gm_get (wl_reverseLookup w') pk = Some (anon (wl_anonCounter w))" using ih w1(1) by auto
    have al: "gm_get (wl_aliases w') (anon (wl_anonCounter w)) = Some pk" using ih new w1(2) by auto
    have "{x \<in> set (pk # pks). \<not> gm_has (wl_reverseLookup w) x} = insert pk {x \<in> set pks. \<not> gm_has (wl_reverseLookup w1) x}"
      using False w1(1) by auto
    moreover have "card (insert pk {x \<in> set pks. \<not> gm_has (wl_reverseLookup w1) x}) =
        Suc (card {x \<in> set pks. \<not> gm_has (wl_reverseLookup w1) x})"
      using w1(1) by (subst card_insert_disjoint) auto
    ultimately have "c' = c + card {x \<in> set (pk # pks). \<not> gm_has (wl_reverseLookup w) x}" using ih by simp
    moreover have "gm_get (wl_reverseLookup w') x = Some name" if "gm_get (wl_reverseLookup w) x = Some name" for x name
    proof -
      have "gm_get (wl_reverseLookup w1) x = Some name" using that False w1(1) by (auto simp: gm_has_def)
      then show ?thesis using ih by blast
    qed
    moreover have "\<exists>i. wl_anonCounter w \<le> i \<and> gm_get (wl_reverseLookup w') x = Some (anon i) \<and> gm_get (wl_aliases w') (anon i) = Some x"
      if "x \<in> set (pk # pks)" "\<not> gm_has (wl_reverseLookup w) x" for x
    proof (cases "x = pk")
      case True
      then show ?thesis using rl al by blast
    next
      case False
      then have "x \<in> set pks" "\<not> gm_has (wl_reverseLookup w1) x" using that w1(1) by auto
      then obtain i where "wl_anonCounter w1 \<le> i" "gm_get (wl_reverseLookup w') x = Some (anon i)"
        "gm_get (wl_aliases w') (anon i) = Some x" using ih by blast
      then show ?thesis using w1(3) by (intro exI [of _ i]) simp
    qed
    moreover have "gm_get (wl_aliases w') name = gm_get (wl_aliases w) name"
      if "\<forall>i. wl_anonCounter w \<le> i \<longrightarrow> name \<noteq> anon i" for name
    proof -
      have "gm_get (wl_aliases w') name = gm_get (wl_aliases w1) name" using ih that w1(3) by auto
      then show ?thesis using that w1(2) by auto
    qed
    moreover have "wl_anonCounter w \<le> wl_anonCounter w'" using ih w1(3) by simp
    moreover have "\<forall>x \<in> set (pk # pks). gm_has (wl_reverseLookup w') x" using ih rl by (auto simp: gm_has_def)
    ultimately show ?thesis by blast
  qed
qed simp

lemma sweep_names:
  assumes tip: "GetChaintip env m = Inr (tip, h)" and u: "GetUTXO env m tip = Inr u"
    and s: "AutoAliasUTXOs env m w = (w', found)"
  shows "(\<forall>(key, output) \<in> set (us_UTXOs u). \<exists>name. gm_get (wl_reverseLookup w') (out_Pubkey output) = Some name \<and>
      (\<not> gm_has (wl_reverseLookup w) (out_Pubkey output) \<longrightarrow> ResolveAddress name w' = out_Pubkey output)) \<and>
    (\<forall>pk name. gm_get (wl_reverseLookup w) pk = Some name \<longrightarrow> gm_get (wl_reverseLookup w') pk = Some name) \<and>
    found = card {pk \<in> (out_Pubkey \<circ> snd) ` set (us_UTXOs u). \<not> gm_has (wl_reverseLookup w) pk}"
proof -
  have f: "(\<lambda>(key, output). auto_alias (out_Pubkey output)) = auto_alias \<circ> (out_Pubkey \<circ> snd)" by (auto simp: fun_eq_iff)
  have "fold (\<lambda>(key, output). auto_alias (out_Pubkey output)) (us_UTXOs u) (w, 0) = (w', found)"
    using s tip u by (simp add: AutoAliasUTXOs_def active_utxos_def)
  then have "fold auto_alias (map (out_Pubkey \<circ> snd) (us_UTXOs u)) (w, 0) = (w', found)"
    unfolding f fold_map .
  note f = fold_auto_alias [OF this]
  have "\<exists>name. gm_get (wl_reverseLookup w') pk = Some name \<and>
      (\<not> gm_has (wl_reverseLookup w) pk \<longrightarrow> ResolveAddress name w' = pk)"
    if "pk \<in> (out_Pubkey \<circ> snd) ` set (us_UTXOs u)" for pk
  proof (cases "gm_has (wl_reverseLookup w) pk")
    case True
    then show ?thesis using f by (auto simp: gm_has_def)
  next
    case False
    then obtain i where "gm_get (wl_reverseLookup w') pk = Some (anon i)" "gm_get (wl_aliases w') (anon i) = Some pk"
      using f \<open>pk \<in> _\<close> by fastforce
    then show ?thesis by (intro exI [of _ "anon i"]) (simp add: ResolveAddress_def)
  qed
  then have "\<forall>(key, output) \<in> set (us_UTXOs u). \<exists>name. gm_get (wl_reverseLookup w') (out_Pubkey output) = Some name \<and>
      (\<not> gm_has (wl_reverseLookup w) (out_Pubkey output) \<longrightarrow> ResolveAddress name w' = out_Pubkey output)"
    by force
  then show ?thesis using f by simp
qed

section \<open>What a command leaves alone\<close>

lemma StartClient_same:
  "nd_mgr (fst (StartClient wd host port pers n)) = nd_mgr n"
  using wrote_same(1) [OF Greet_wrote]
  by (auto simp: StartClient_def split: option.splits prod.splits sum.splits)

lemma command_scope:
  assumes net: "net_inv (nd_net n)" and r: "executeCommand env wd cpus cmd args n w = Returns (ex, n', w', t)"
  shows "(cmd \<noteq> ''send'' \<longrightarrow> m_db (nd_mgr n') = m_db (nd_mgr n)) \<and>
    (cmd \<notin> {''send'', ''connect'', ''sync''} \<longrightarrow> nd_out n' = nd_out n) \<and>
    wl_privKey w' = wl_privKey w \<and> wl_pubKey w' = wl_pubKey w"
proof -
  have "table_ok (nd_net n)" using net by (simp add: net_inv_def)
  note e = command_effects [OF this r]
  have "(cmd \<noteq> ''send'' \<longrightarrow> m_db (nd_mgr n') = m_db (nd_mgr n)) \<and>
    (cmd \<notin> {''send'', ''connect'', ''sync''} \<longrightarrow> nd_out n' = nd_out n)"
    using e unfolding command_effect_def
  proof (elim disjE exE conjE)
    assume "cmd = ''sync''" "n' = BroadcastGetChainTip wd (BroadcastGetPeers wd n)"
    then show ?thesis by (simp add: wrote_same(1) [OF Broadcasts_wrote(3)] wrote_same(1) [OF Broadcasts_wrote(4)])
  qed (auto simp: StartClient_same)
  then show ?thesis using e by blast
qed

end
