(* ===== verification/Startup.thy ===== *)
theory Startup
  imports System
begin

text \<open>
  \<^verbatim>\<open>cmd/marabu/main.go\<close> and \<^verbatim>\<open>internal/bootstrap\<close>: the configuration from the environment and the
  command line, and the start of the node, its miner and its wallet. What the operating system
  gives (variables, the key file, the opened store, the peers file) is an argument; a failure that
  ends the program is \<open>None\<close>. \<^verbatim>\<open>flag.Parse\<close> has turned the command line into settings.

  Results: the server port comes from the command line or is in range (\<open>ParseConfig_port\<close>); a node
  that starts on an empty store keeps its invariant from the first step (\<open>start_inv\<close>).
\<close>

section \<open>Configuration\<close>

datatype flag_setting = PortFlag int | CoresFlag int | AgentFlag string | StudentIDsFlag string

definition default_port :: "string \<Rightarrow> int" where
  "default_port portStr =
     (if portStr \<noteq> '''' then (case Atoi portStr of
        Some parsedPort \<Rightarrow> if 0 < parsedPort \<and> parsedPort \<le> 65535 then parsedPort else 18018
      | None \<Rightarrow> 18018)
      else 18018)"

record settings =
  set_port :: int
  set_cores :: int
  set_agent :: string
  set_studentIDs :: string

fun apply_flag :: "flag_setting \<Rightarrow> settings \<Rightarrow> settings" where
  "apply_flag (PortFlag n) s = s\<lparr>set_port := n\<rparr>"
| "apply_flag (CoresFlag n) s = s\<lparr>set_cores := n\<rparr>"
| "apply_flag (AgentFlag a) s = s\<lparr>set_agent := a\<rparr>"
| "apply_flag (StudentIDsFlag i) s = s\<lparr>set_studentIDs := i\<rparr>"

definition student_ids :: "string \<Rightarrow> BuString slice" where
  "student_ids studentIDsStr =
     (if studentIDsStr \<noteq> ''''
      then appended (filter (\<lambda>i. i \<noteq> '''') (map TrimSpace (split_on CHR '','' studentIDsStr)))
      else None)"

text \<open>\<open>getenv\<close> gives the empty string for a variable that is not set; the later of two settings counts.\<close>

definition ParseConfig :: "(string \<Rightarrow> string) \<Rightarrow> int \<Rightarrow> flag_setting list \<Rightarrow> NodeConfig" where
  "ParseConfig getenv cpus flags =
     (let defaultAgent = (if getenv ''AGENT'' = '''' then ''marabobos'' else getenv ''AGENT'');
          s = fold apply_flag flags \<lparr>set_port = default_port (getenv ''PORT''), set_cores = max 1 (cpus - 1),
            set_agent = defaultAgent, set_studentIDs = getenv ''STUDENT_IDS''\<rparr>
      in \<lparr>cfg_DBPath = ''db'', cfg_ServerPort = set_port s, cfg_AgentName = set_agent s, cfg_Note = [],
          cfg_StudentIDs = student_ids (set_studentIDs s), cfg_MiningCores = set_cores s, cfg_PubKey = []\<rparr>)"

section \<open>Start\<close>

text \<open>The build tags of \<^verbatim>\<open>internal/bootstrap\<close>; the dials end in the order of the list.\<close>

datatype bootstrap = Standard | BootstrapOnly | NoBootstrap

definition bootstrap_dial :: "world \<Rightarrow> Peer \<Rightarrow> 'd node \<Rightarrow> 'd node" where
  "bootstrap_dial wd p n =
     (let (host, portStr) = (case SplitHostPort p of None \<Rightarrow> ([], []) | Some hp \<Rightarrow> hp)
      in fst (StartClient wd host (ParseInt_value portStr) True n))"

definition StartNode :: "bootstrap \<Rightarrow> world \<Rightarrow> 'd node \<Rightarrow> 'd node" where
  "StartNode tag wd n = (case tag of NoBootstrap \<Rightarrow> n | _ \<Rightarrow> fold (bootstrap_dial wd) BOOTSTRAP_PEERS n)"

text \<open>\<^verbatim>\<open>secretKey.Public()\<close>: the bytes from the 32nd on, copied into 32 bytes.\<close>

definition Public :: "bytes \<Rightarrow> bytes option" where
  "Public priv = (if length priv < 32 then None
     else Some (take 32 (drop 32 priv @ replicate 32 CHR 0x00)))"

text \<open>\<open>known\<close> is what \<open>discovery_init\<close> has read.\<close>

definition main ::
  "'d env \<Rightarrow> bootstrap \<Rightarrow> world \<Rightarrow> NodeConfig \<Rightarrow> discovery \<Rightarrow> bytes result \<Rightarrow> bytes result \<Rightarrow> error option \<Rightarrow>
     'd option \<Rightarrow> ('d node \<times> Miner \<times> Wallet) option" where
  "main env tag wd config known keyFile newKey write store =
     (case fst (LoadOrGenerateKey keyFile newKey write) of
        Inl _ \<Rightarrow> None
      | Inr secretKey \<Rightarrow> (case Public secretKey of
          None \<Rightarrow> None
        | Some pubKeyBytes \<Rightarrow>
            let config = config\<lparr>cfg_PubKey := hex_EncodeToString pubKeyBytes\<rparr>
            in (case NewManager store config of
                None \<Rightarrow> None
              | Some m \<Rightarrow> (case InitializeMempool env m of
                  None \<Rightarrow> None
                | Some m \<Rightarrow>
                    Some (StartNode tag wd (start_node m known), New m (cfg_PubKey config),
                      New_Wallet secretKey (cfg_PubKey config))))))"

section \<open>What the start establishes\<close>

lemma ParseConfig_port:
  "(\<forall>n. PortFlag n \<notin> set flags) \<Longrightarrow> 0 < cfg_ServerPort (ParseConfig getenv cpus flags) \<and>
     cfg_ServerPort (ParseConfig getenv cpus flags) \<le> 65535"
proof -
  assume f: "\<forall>n. PortFlag n \<notin> set flags"
  have "set_port (fold apply_flag flags s) = set_port s" for s
    using f
  proof (induction flags arbitrary: s)
    case (Cons x flags)
    then show ?case by (cases x) auto
  qed simp
  then show ?thesis by (auto simp: ParseConfig_def Let_def default_port_def split: option.split)
qed

lemma hex_length: "length (hex_EncodeToString bs) = 2 * length bs"
  by (induction bs) (simp_all add: hex_EncodeToString_def)

lemma bootstrap_dial_node: "node_inv env n \<Longrightarrow> node_inv env (bootstrap_dial wd p n)"
  unfolding bootstrap_dial_def Let_def by (auto intro: StartClient_node split: prod.split)

lemma StartNode_node: "node_inv env n \<Longrightarrow> node_inv env (StartNode tag wd n)"
proof -
  have "node_inv env n \<Longrightarrow> node_inv env (fold (bootstrap_dial wd) ps n)" for ps
    by (induction ps arbitrary: n) (simp_all add: bootstrap_dial_node)
  then show "node_inv env n \<Longrightarrow> node_inv env (StartNode tag wd n)" by (simp add: StartNode_def split: bootstrap.split)
qed

lemma start_inv:
  assumes l: "ldb_ok env" and fresh: "\<And>k. ldb_get env d k = Inl LdbNotFound"
    and m: "main env tag wd config known keyFile newKey write (Some d) = Some (n, mn, w)"
  shows "node_inv env n" "length (wl_pubKey w) = 64" "mn_Pubkey mn = wl_pubKey w"
proof -
  obtain priv pub m0 m1 where s: "Public priv = Some pub"
    "NewManager (Some d) (config\<lparr>cfg_PubKey := hex_EncodeToString pub\<rparr>) = Some m0" "InitializeMempool env m0 = Some m1"
    "n = StartNode tag wd (start_node m1 known)" "mn = New m1 (hex_EncodeToString pub)"
    "w = New_Wallet priv (hex_EncodeToString pub)"
    using m by (auto simp: main_def Let_def split: sum.splits option.splits)
  have "mgr_inv env m1" using InitializeMempool_mgr_inv [OF l _ s(3)] NewManager_inv [OF fresh s(2)] by blast
  then show "node_inv env n" unfolding s(4) by (intro StartNode_node start_node_inv)
  show "length (wl_pubKey w) = 64" "mn_Pubkey mn = wl_pubKey w"
    using s(1,5,6) by (auto simp: New_Wallet_def AddAlias_def New_def hex_length Public_def split: if_splits)
qed

lemma node_system: "node_reachable env n0 n \<Longrightarrow> system_reachable env n0 w n w None"
  by (induction rule: node_reachable.induct) (auto intro: system_reachable.intros)

end
