(* ===== verification/Screen.thy ===== *)
theory Screen
  imports System
begin

text \<open>
  \<^verbatim>\<open>internal/ui/panel.go\<close> and \<^verbatim>\<open>internal/ui/tui.go\<close>: the status panels, and what the keys do to the
  input line, its history, the output view and the node. The widgets of \<^verbatim>\<open>tview\<close> are its own:
  drawing, layout and scrolling are left out, and \<open>ansi_writer\<close> is its translation of ANSI codes.

  Results: the index into the history is in range after any keys, so that no key panics on it
  (\<open>tui_key_safe\<close>); the arrow keys walk through the history and back (\<open>up_down\<close>).
\<close>

section \<open>The panels\<close>

definition esc :: "string \<Rightarrow> string" where
  "esc s = CHR 0x1B # CHR ''['' # s"

text \<open>The tip and the height as both panels show them.\<close>

definition panel_tip :: "'d env \<Rightarrow> 'd Manager \<Rightarrow> string \<times> int" where
  "panel_tip env m = (case GetChaintip env m of
     Inl _ \<Rightarrow> (''[None / Genesis]'', 0)
   | Inr (tip, height) \<Rightarrow>
       ((if 20 < length tip then take 10 tip @ ''...'' @ drop (length tip - 10) tip else tip), uint height))"

definition cli_mining :: "world \<Rightarrow> 'd Manager \<Rightarrow> string" where
  "cli_mining wd m = (case GetMiningStats (w_now wd) m of (active, elapsed, hashrate) \<Rightarrow>
     let cores = GetMiningCores m
     in if cores = 0 then concat [red_c, ''Paused (0 Cores)'', reset_c]
        else if active then
          concat [green_c, ''Active ['', string_of_int cores, '' Cores] ('',
       seconds_text (round_second elapsed), '') - '', formatHashrate hashrate, reset_c]
        else concat [yellow_c, ''Idle (Waiting for network...)'', reset_c])"

definition cli_panel :: "'d env \<Rightarrow> world \<Rightarrow> 'd node \<Rightarrow> string" where
  "cli_panel env wd n = (case GetCounts (nd_net n) of (icnt, ocnt, pcnt, bcnt) \<Rightarrow>
     case panel_tip env (nd_mgr n) of (tipStr, height) \<Rightarrow> concat [
     esc ''s'', esc ''?25l'', esc ''1;1H'',
     esc ''K'', concat ['' '', bold_c @ cyan_c, ''=== MARABU NODE STATUS ==='', reset_c, nl],
     esc ''K'', concat ['' '', bold_c, ''Peers:'', reset_c, '' '', string_of_int (icnt + ocnt), '' Total ('',
       green_c, string_of_int icnt, '' In'', reset_c, '' | '', blue_c, string_of_int ocnt,
       '' Out'', reset_c, '' | '', magenta_c, string_of_int pcnt, '' VIP'', reset_c, '' | '',
       red_c, string_of_int (int bcnt), '' Ban'', reset_c, '')'', nl],
     esc ''K'', concat ['' '', bold_c, ''Tip:'', reset_c, ''   '', magenta_c, tipStr, reset_c, '' (Height: '',
       yellow_c, string_of_int height, reset_c, '')'', nl],
     esc ''K'', concat ['' '', bold_c, ''Miner:'', reset_c, '' '', cli_mining wd (nd_mgr n), nl],
     esc ''K'', concat ['' '', bold_c, ''Mined:'', reset_c, '' '', green_c,
       string_of_int (int (length (GetSessionBlocks (nd_mgr n)))), '' blocks this session'',
       reset_c, nl],
     esc ''K'', concat ['' '', bold_c @ cyan_c, ''=========================='', reset_c, nl],
     esc ''?25h'', esc ''u''])"

definition tui_mining :: "world \<Rightarrow> 'd Manager \<Rightarrow> string" where
  "tui_mining wd m = (case GetMiningStats (w_now wd) m of (active, elapsed, hashrate) \<Rightarrow>
     let cores = GetMiningCores m
     in if cores = 0 then ''[red]Paused (0 Cores)''
        else if active then
          concat [''[green]Active ['', string_of_int cores, '' Cores] ('',
       seconds_text (round_second elapsed), '') - '', formatHashrate hashrate]
        else ''[yellow]Idle (Waiting for network...)'')"

text \<open>The panel keeps its old text while the screen is frozen.\<close>

definition tui_panel :: "'d env \<Rightarrow> world \<Rightarrow> bool \<Rightarrow> 'd node \<Rightarrow> string \<Rightarrow> string" where
  "tui_panel env wd uiPaused n old =
     (if uiPaused then old
      else case GetCounts (nd_net n) of (icnt, ocnt, pcnt, bcnt) \<Rightarrow>
        case panel_tip env (nd_mgr n) of (tipStr, height) \<Rightarrow> concat [
        concat [''[cyan][bold]Marabu Node Status[white]'', nl],
        concat [''[cyan][bold]Peers:[white] '', string_of_int (icnt + ocnt), '' Total ([green]'',
       string_of_int icnt, '' In[white] | [blue]'', string_of_int ocnt,
       '' Out[white] | [magenta]'', string_of_int pcnt, '' VIP[white] | [red]'',
       string_of_int (int bcnt), '' Ban[white])'', nl],
        concat [''[cyan][bold]Tip:[white]   [magenta]'', tipStr, ''[white] (Height: [yellow]'',
       string_of_int height, ''[white])'', nl],
        concat [''[cyan][bold]Miner:[white] '', tui_mining wd (nd_mgr n), ''[white]'', nl],
        concat [''[cyan][bold]Mined:[white] [green]'',
       string_of_int (int (length (GetSessionBlocks (nd_mgr n)))),
       '' blocks this session[white]'']])"

section \<open>The keys\<close>

record tui =
  ui_history :: "string list"
  ui_index :: int
  ui_input :: string
  ui_paused :: bool
  ui_output :: string

definition tui_start :: tui where
  "tui_start = \<lparr>ui_history = [], ui_index = 0, ui_input = [], ui_paused = False,
     ui_output = concat [''[cyan][bold]Marabu TUI started. Type '', apos, ''help'', apos,
       '' for commands.[white]'', nl]\<rparr>"

text \<open>\<open>KeyText\<close> stands for the keys that edit the line; \<open>None\<close> is a slice index out of range.\<close>

datatype ui_key = KeyEnter | KeyUp | KeyDown | KeyCtrlF | KeyText string

definition history_at :: "string list \<Rightarrow> int \<Rightarrow> string option" where
  "history_at h i = (if 0 \<le> i \<and> i < int (length h) then Some (h ! nat i) else None)"

definition remember :: "string \<Rightarrow> tui \<Rightarrow> tui" where
  "remember input t =
     (let h = (if ui_history t = [] \<or> last (ui_history t) \<noteq> input then ui_history t @ [input] else ui_history t)
      in t\<lparr>ui_history := h, ui_index := int (length h)\<rparr>)"

definition recall :: "int \<Rightarrow> tui \<Rightarrow> tui option" where
  "recall i t = map_option (\<lambda>s. t\<lparr>ui_index := i, ui_input := s\<rparr>) (history_at (ui_history t) i)"

definition key_up :: "tui \<Rightarrow> tui option" where
  "key_up t =
     (if ui_history t = [] then Some t
      else if 0 < ui_index t then recall (ui_index t - 1) t else Some t)"

definition key_down :: "tui \<Rightarrow> tui option" where
  "key_down t =
     (if ui_history t = [] then Some t
      else if ui_index t < int (length (ui_history t)) - 1 then recall (ui_index t + 1) t
      else if ui_index t = int (length (ui_history t)) - 1 then Some (t\<lparr>ui_index := ui_index t + 1, ui_input := []\<rparr>)
      else Some t)"

definition key_freeze :: "tui \<Rightarrow> tui" where
  "key_freeze t =
     (let newState = \<not> ui_paused t
      in t\<lparr>ui_paused := newState, ui_output := ui_output t @
           (if newState then concat [nl,
       ''[bg:red][white][bold]--- UI FROZEN FOR COPYING (Press Ctrl+F to unfreeze) ---[-:-:-]'',
       nl]
            else concat [nl, ''[bg:green][white][bold]--- UI UNFROZEN ---[-:-:-]'', nl])\<rparr>)"

definition key_enter ::
  "'d env \<Rightarrow> world \<Rightarrow> int \<Rightarrow> (string \<Rightarrow> string) \<Rightarrow> tui \<Rightarrow> 'd node \<Rightarrow> Wallet \<Rightarrow> (bool \<times> tui \<times> 'd node \<times> Wallet) outcome" where
  "key_enter env wd cpus ansi_writer t n w =
     (let input = ui_input t
      in case Fields input of
           [] \<Rightarrow> Returns (False, t, n, w)
         | cmd # args \<Rightarrow>
             let t = remember input t;
                 t = t\<lparr>ui_output := ui_output t @ concat [nl, ''[yellow]> '', input, ''[white]'', nl]\<rparr>
             in and_then (executeCommand env wd cpus (ToLower cmd) (cmd # args) n w) (\<lambda>(shouldExit, n, w, text).
                  Returns (shouldExit, t\<lparr>ui_output := ui_output t @ ansi_writer text, ui_input := (if shouldExit then ui_input t else [])\<rparr>, n, w)))"

definition tui_key ::
  "'d env \<Rightarrow> world \<Rightarrow> int \<Rightarrow> (string \<Rightarrow> string) \<Rightarrow> ui_key \<Rightarrow> tui \<Rightarrow> 'd node \<Rightarrow> Wallet \<Rightarrow> (bool \<times> tui \<times> 'd node \<times> Wallet) outcome" where
  "tui_key env wd cpus ansi_writer k t n w = (case k of
     KeyEnter \<Rightarrow> key_enter env wd cpus ansi_writer t n w
   | KeyUp \<Rightarrow> of_panic (map_option (\<lambda>t. (False, t, n, w)) (key_up t))
   | KeyDown \<Rightarrow> of_panic (map_option (\<lambda>t. (False, t, n, w)) (key_down t))
   | KeyCtrlF \<Rightarrow> Returns (False, key_freeze t, n, w)
   | KeyText s \<Rightarrow> Returns (False, t\<lparr>ui_input := s\<rparr>, n, w))"

section \<open>The index stays in range\<close>

definition tui_ok :: "tui \<Rightarrow> bool" where
  "tui_ok t \<longleftrightarrow> 0 \<le> ui_index t \<and> ui_index t \<le> int (length (ui_history t))"

lemma tui_start_ok: "tui_ok tui_start"
  by (simp add: tui_ok_def tui_start_def)

lemma recall_ok:
  assumes "0 \<le> i" "i < int (length (ui_history t))"
  obtains t' where "recall i t = Some t'" "tui_ok t'" "ui_index t' = i" "ui_input t' = ui_history t ! nat i"
    "ui_history t' = ui_history t"
  using assms that by (simp add: recall_def history_at_def tui_ok_def)

lemma key_up_ok:
  assumes "tui_ok t"
  obtains t' where "key_up t = Some t'" "tui_ok t'"
proof (cases "ui_history t \<noteq> [] \<and> 0 < ui_index t")
  case True
  then have i: "0 \<le> ui_index t - 1" "ui_index t - 1 < int (length (ui_history t))" using assms by (simp_all add: tui_ok_def)
  obtain t' where "recall (ui_index t - 1) t = Some t'" "tui_ok t'" using recall_ok [OF i] .
  then show ?thesis using that True by (simp add: key_up_def)
next
  case False
  then show ?thesis using that [of t] assms by (auto simp: key_up_def)
qed

lemma key_down_ok:
  assumes "tui_ok t"
  obtains t' where "key_down t = Some t'" "tui_ok t'"
proof (cases "ui_history t \<noteq> [] \<and> ui_index t < int (length (ui_history t)) - 1")
  case True
  then have i: "0 \<le> ui_index t + 1" "ui_index t + 1 < int (length (ui_history t))" using assms by (simp_all add: tui_ok_def)
  obtain t' where "recall (ui_index t + 1) t = Some t'" "tui_ok t'" using recall_ok [OF i] .
  then show ?thesis using that True by (simp add: key_down_def)
next
  case False
  then have "\<exists>t'. key_down t = Some t' \<and> tui_ok t'" using assms by (auto simp: key_down_def tui_ok_def)
  then show ?thesis using that by blast
qed

text \<open>Whatever the key: the index stays in range, and only a command can panic.\<close>

lemma tui_key_safe:
  assumes "tui_ok t"
  shows "tui_key env wd cpus writer k t n w = Returns (ex, t', n', w') \<Longrightarrow> tui_ok t'"
    and "tui_key env wd cpus writer k t n w = Panics \<Longrightarrow>
      \<exists>cmd args. Fields (ui_input t) = cmd # args \<and> executeCommand env wd cpus (ToLower cmd) (cmd # args) n w = Panics"
proof -
  obtain u where u: "key_up t = Some u" "tui_ok u" using assms by (rule key_up_ok)
  obtain d where d: "key_down t = Some d" "tui_ok d" using assms by (rule key_down_ok)
  show "tui_ok t'" if "tui_key env wd cpus writer k t n w = Returns (ex, t', n', w')"
    using that assms u d
    by (cases k) (auto simp: tui_key_def of_panic_def key_enter_def Let_def remember_def tui_ok_def key_freeze_def
        and_then_Returns split: list.splits)
  show "\<exists>cmd args. Fields (ui_input t) = cmd # args \<and> executeCommand env wd cpus (ToLower cmd) (cmd # args) n w = Panics"
    if "tui_key env wd cpus writer k t n w = Panics"
    using that u d
    by (cases k) (auto simp: tui_key_def of_panic_def key_enter_def Let_def elim!: and_then.elims split: list.splits)
qed

text \<open>Down undoes up inside the history.\<close>

lemma up_down:
  assumes "tui_ok t" "0 < ui_index t" "ui_index t < int (length (ui_history t))" "key_up t = Some t'" "key_down t' = Some t''"
  shows "ui_index t'' = ui_index t" "ui_input t'' = ui_history t ! nat (ui_index t)" "ui_history t'' = ui_history t"
  using assms by (auto simp: key_up_def key_down_def recall_def history_at_def split: if_splits)

text \<open>The line entered last is the first one that up brings back.\<close>

lemma enter_up: "\<exists>t'. key_up (remember input t) = Some t' \<and> ui_input t' = input"
proof -
  have n: "nat (int k - 1) = k - Suc 0" for k by linarith
  show ?thesis
    by (auto simp: remember_def key_up_def recall_def history_at_def Let_def last_conv_nth nth_append n split: if_splits)
qed

end
