(* ===== verification/SystemSample.thy ===== *)
theory SystemSample
  imports PaymentSample Startup Screen
begin

text \<open>The sample node as the program starts it, from a key file and an empty store.\<close>

lemma sample_start:
  "main mem_env NoBootstrap world0 sample_config sample_discovery (Inr (hex_EncodeToString (replicate 64 CHR 0xAA)))
     (Inl ErrNotFound) None (Some []) = Some (start_node manager0 sample_discovery, New manager0 pub1, wallet1)"
proof -
  have pub: "hex_EncodeToString (replicate 32 CHR 0xAA) = pub1" by code_simp
  have key: "LoadOrGenerateKey (Inr (hex_EncodeToString (replicate 64 CHR 0xAA))) (Inl ErrNotFound) None = (Inr (replicate 64 CHR 0xAA), None)"
    by (simp add: LoadOrGenerateKey_def hex_encode_decode)
  have p: "Public (replicate 64 CHR 0xAA) = Some (replicate 32 CHR 0xAA)"
    by (simp add: Public_def take_append del: replicate.simps)
  have c: "sample_config\<lparr>cfg_PubKey := pub1\<rparr> = sample_config" "cfg_PubKey sample_config = pub1" by (simp_all add: sample_config_def)
  have m: "NewManager (Some []) sample_config = Some manager0" by (simp add: manager0_def NewManager_def)
  have i: "InitializeMempool mem_env manager0 = Some manager0"
    by (simp add: InitializeMempool_def loadMempool_def newDatabase_def)
  show ?thesis by (simp add: main_def key p pub c m i StartNode_def wallet1_def Let_def)
qed

end
