(* ===== verification/Spec2Isabelle.thy ===== *)
theory Spec2Isabelle
  imports AddrText NodeSample MiningSample SystemSample
begin

text \<open>
  Marabu: a full node of a blockchain, written in Go. The node keeps objects (transactions,
  coinbase transactions, blocks) and the UTXO set of every block in a key-value store, exchanges
  JSON messages with its peers over TCP, validates what it receives and gossips what it accepts.
  This development models its packages and proves what makes them correct.

  The theories, in the order of the program's layers; paths are under \<^verbatim>\<open>src/internal\<close>:

  \<^item> \<open>Prelude\<close>: Go maps as association lists, monadic lists, the locales \<open>go_map\<close>, \<open>machine\<close>, \<open>codec\<close>.
  \<^item> \<open>Json\<close>: \<^verbatim>\<open>encoding/json\<close> as far as the node relies on it: printer, parser, field matching.
  \<^item> \<open>Types\<close>, \<open>Unmarshal\<close>: \<^verbatim>\<open>types\<close>: the data of the protocol, their encoders and checked decoders.
  \<^item> \<open>Serialization\<close>: \<^verbatim>\<open>serialization/canonicalize.go\<close>: canonical texts, with numbers as float64.
  \<^item> \<open>Crypto\<close>: \<^verbatim>\<open>crypto\<close>: object IDs, proof of work, signatures.
  \<^item> \<open>Database\<close>: \<^verbatim>\<open>core/db.go\<close>: the store, the mempool and the waiting blocks.
  \<^item> \<open>NodeState\<close>, \<open>Validation\<close>, \<open>Commit\<close>, \<open>Chain\<close>, \<open>Mempool\<close>: \<^verbatim>\<open>core/manager.go\<close> and
    \<^verbatim>\<open>core/validation.go\<close>: the Manager, validation, commits and reorganisations, the invariant of
    the chain, the invariant of the mempool.
  \<^item> \<open>PeerAddr\<close>, \<open>AddrText\<close>, \<open>Discovery\<close>: \<^verbatim>\<open>sanitizePeer\<close> and \<^verbatim>\<open>discovery\<close>: addresses, their texts, known peers.
  \<^item> \<open>Protocol\<close>: \<^verbatim>\<open>protocol\<close>: the messages and the decoder of received text.
  \<^item> \<open>Connections\<close>: \<^verbatim>\<open>peer/connections.go\<close>: the table of open connections, bans.
  \<^item> \<open>Sending\<close>: \<^verbatim>\<open>peer/sendMessages.go\<close>: the state of the whole node, what it writes to its peers.
  \<^item> \<open>Handlers\<close>: \<^verbatim>\<open>peer/objects.go\<close>, \<^verbatim>\<open>peer/handlers.go\<close>, \<^verbatim>\<open>handleMessage\<close>: what a received text does.
  \<^item> \<open>Topology\<close>: \<^verbatim>\<open>peer/topology.go\<close> and the rest of \<^verbatim>\<open>peer/peer.go\<close>: connections in and out, tickers.
  \<^item> \<open>Node\<close>: the node as a state machine with one event per step; its invariant and reachable states.
  \<^item> \<open>Progress\<close>: no event loops for ever on a node that keeps the invariant.
  \<^item> \<open>NodeRules\<close>: what single events do: handshake, ban, waiting block, reply, gossip.
  \<^item> \<open>Miner\<close>, \<open>Mining\<close>: \<^verbatim>\<open>miner\<close>: the block template, the search for a nonce, a round of mining; what is
    mined is valid.
  \<^item> \<open>Ledger\<close>: the abstract ledger of unspent outputs that block validation implements.
  \<^item> \<open>Backing\<close>: every unspent output is an output of a stored transaction.
  \<^item> \<open>Wallet\<close>, \<open>Payment\<close>: \<^verbatim>\<open>wallet\<close>: address book, balance, payments; what a payment spends, when it succeeds.
  \<^item> \<open>Amounts\<close>: \<^verbatim>\<open>utils/conversions.go\<close>: amounts typed as decimal numbers, through float64 to Picabu.
  \<^item> \<open>Logging\<close>: \<^verbatim>\<open>logs/fancy.go\<close>, \<^verbatim>\<open>peer/log.go\<close>: the lines of the log, muted peers.
  \<^item> \<open>Console\<close>: \<^verbatim>\<open>ui/commands.go\<close>, \<^verbatim>\<open>ui/console.go\<close>: the commands, what they change and print.
  \<^item> \<open>System\<close>: the whole program: network events, typed lines and the stages of mining, interleaved.
  \<^item> \<open>Startup\<close>: \<^verbatim>\<open>cmd/marabu/main.go\<close>, \<^verbatim>\<open>bootstrap\<close>: configuration and the state the program starts in.
  \<^item> \<open>Screen\<close>: \<^verbatim>\<open>ui/panel.go\<close>, \<^verbatim>\<open>ui/tui.go\<close>: the status panels, the keys and the history of the input line.
  \<^item> \<open>Sample\<close>, \<open>NodeSample\<close>, \<open>MiningSample\<close>, \<open>PaymentSample\<close>, \<open>SystemSample\<close>: a concrete store, hash and node, on
    which the hypotheses of the theorems hold.

  How the parts meet. A socket event gives a text to \<open>handleMessage\<close>, which decodes it with
  \<open>UnmarshalMessage\<close>, checks the handshake and calls a handler. The object handler validates against
  the store (\<open>ValidateObject\<close>), and either commits (\<open>CommitObject\<close>), gossips and retries the blocks that
  waited, or lets the block wait and asks for what is missing, or bans the sender. The console and the
  miner work on the same Manager: a payment and a mined block pass the same validation and commit, but
  not the question whether the object is stored already, and a mined block is not decoded. So their
  steps in \<open>system_reachable\<close> carry premises: no other text under the ID of what is stored, and a mined
  block that is new and that the decoder can read (at most 1000 transactions; the miner does not
  check this). A round of mining is split: between its template and its commit the node may take any
  other steps. \<open>system_supply\<close> joins the invariants of chain, mempool and connections over all
  interleavings of steps from the start of the program on.

  Conventions. A struct is a record, a pointer that may be nil an \<open>option\<close>, a slice an optional list
  (nil is \<open>None\<close>), a Go map an association list whose order stands for the unspecified order of
  iteration. A \<^verbatim>\<open>big.Int\<close> is an \<open>int\<close>, a \<^verbatim>\<open>uint64\<close> a 64 bit word. An error result is \<open>Inl\<close>; a panic
  is \<open>None\<close>, or \<open>Panics\<close> where a call may also loop. What happens around one event (the clock, which
  writes and dials succeed) is an argument \<open>world\<close>; random permutations and the
  environment \<open>env\<close> (BLAKE2s, Ed25519, LevelDB) are arguments; \<open>hash_ok\<close>, \<open>sign_ok\<close> and \<open>ldb_ok\<close> state
  what their documentation promises.

  No fuel is used for the loops of the chain: \<open>reorg_walk\<close> and \<open>history_walk\<close> are partial functions
  whose \<open>None\<close> means that they do not return, and the properties on them show that they do. The
  parser of JSON takes the length of its input as fuel; \<open>parse_json_print\<close> shows that it is enough
  for every printed value. \<open>acceptObject\<close> and \<open>resolvePendingBlocks\<close>, which call each other, take as
  fuel one more than the number of waiting blocks; \<open>event_ends\<close> shows that it never runs out.

  Not modelled: the widgets of the terminal library (drawing, scrolling, mouse), the files and links
  of the log, the handlers' own calls of the logger, the manual test programs (stand-alone clients
  that send fixed messages), sockets, locks and goroutine scheduling: one event, one command and the
  commit of one mined block are a step each, though goroutines of the program may overlap there.

  Hypotheses on data that some properties have and the code does not check are definitions of their
  own: \<open>object_in\<close> and \<open>sendable\<close> (what the decoder gives; numbers below 2^53), \<open>entry_fits\<close> (the fee of a
  mempool entry), \<open>round_fresh\<close> and \<open>payment_fresh\<close> (no collision of IDs). The text of each property
  names those it needs.
\<close>

text \<open>
  C1. Whatever the program does after it has started on an empty store - messages, connections, ticks
  and bans, lines typed at the console, rounds of mining, interleaved in any order, also between
  the template of a mined block and its commit - as long as no step panics, no text other than its
  own is stored under the ID of a payment or a coinbase when the wallet or the miner stores it (an
  ID is a hash), and every block the miner commits is new to the store and one the decoder can
  read (at most 1000 transactions): if it has a chain tip, the tip has a UTXO set of the tip's
  height whose outputs total at most one block reward for each block up to that height and are
  outputs of stored transactions, every mempool entry owns the outpoints it spends, so that no two
  entries spend the same one, and the connection counters agree with the table. One event, one
  command and the commit of one mined block count as one step each.
\<close>

theorem system_supply:
  assumes "ldb_ok env" "hash_ok env" "\<And>k. ldb_get env d k = Inl LdbNotFound"
    and "main env tag wd config known keyFile newKey write (Some d) = Some (n0, mn, w0)"
    and "system_reachable env n0 w0 n w r"
  shows "(\<forall>tip h. GetChaintip env (nd_mgr n) = Inr (tip, h) \<longrightarrow>
      (\<exists>u. GetUTXO env (nd_mgr n) tip = Inr u \<and> us_Height u = h \<and>
        utxo_total (us_UTXOs u) \<le> (uint h + 1) * BlockRewardBigInt \<and>
        (\<forall>coin \<in> set (us_UTXOs u). backed_coin env (m_db (nd_mgr n)) coin))) \<and>
    (\<forall>t t' e e' k. gm_get (db_mempool (m_db (nd_mgr n))) t = Some e \<longrightarrow>
      gm_get (db_mempool (m_db (nd_mgr n))) t' = Some e' \<longrightarrow> entry_spends e k \<longrightarrow> entry_spends e' k \<longrightarrow> t = t') \<and>
    counts_ok (nd_net n)"
proof -
  have inv: "node_inv env n" using system_inv [OF assms(1,2) start_inv(1) [OF assms(1,3,4)] assms(5)] ..
  then have m: "mempool_inv (m_db (nd_mgr n))" "counts_ok (nd_net n)" "mgr_inv env (nd_mgr n)"
    by (simp_all add: node_inv_def mgr_inv_def net_inv_def)
  have "\<exists>u. GetUTXO env (nd_mgr n) tip = Inr u \<and> us_Height u = h \<and>
      utxo_total (us_UTXOs u) \<le> (uint h + 1) * BlockRewardBigInt \<and>
      (\<forall>coin \<in> set (us_UTXOs u). backed_coin env (m_db (nd_mgr n)) coin)"
    if "GetChaintip env (nd_mgr n) = Inr (tip, h)" for tip h
    using tip_supply [OF inv that] tip_backed [OF m(3) that] by metis
  then show ?thesis using m(1,2) mempool_inv_unique by metis
qed

theorem system_supply_witness:
  "\<exists>n0 mn w0 n u. main mem_env NoBootstrap world0 sample_config sample_discovery (Inr (hex_EncodeToString (replicate 64 CHR 0xAA)))
       (Inl ErrNotFound) None (Some ([] :: (bytes, bytes) gomap)) = Some (n0, mn, w0) \<and>
     system_reachable mem_env n0 w0 n w0 None \<and>
     GetChaintip mem_env (nd_mgr n) = Inr (genesisHash, 0) \<and> GetUTXO mem_env (nd_mgr n) genesisHash = Inr u \<and>
     utxo_total (us_UTXOs u) \<le> BlockRewardBigInt \<and> counts_ok (nd_net n)"
proof -
  obtain n where r: "node_reachable mem_env (start_node manager0 sample_discovery) n"
    and tip: "GetChaintip mem_env (nd_mgr n) = Inr (genesisHash, 0)" using genesis_reached .
  note s = node_system [OF r, of wallet1]
  from system_supply [OF mem_ldb_ok(1) mem_hash_ok _ sample_start s]
  have "\<exists>u. GetUTXO mem_env (nd_mgr n) genesisHash = Inr u \<and> utxo_total (us_UTXOs u) \<le> BlockRewardBigInt" "counts_ok (nd_net n)"
    using tip by auto
  then show ?thesis using sample_start s tip by metis
qed

text \<open>
  C2. Committing an object as the decoder gives it - of its own type, with a cached ID that is right,
  a block with well-formed fields and at most 1000 transactions - that validation accepted and
  that the store did not have keeps the chain invariant: every UTXO set belongs to a stored block,
  its height is its parent's plus one, its outputs total at most the block reward per block, and
  the tip has a UTXO set. When no write fails the tip stays a block of greatest height.
\<close>

theorem commit_keeps_chain:
  assumes "ldb_ok env" "hash_ok env" "chain_inv env (m_db m)" "object_in env obj0"
    and "ValidateObject env now m obj0 = Some (obj, result)" "vr_Error result = None"
    and "\<And>v. ldb_get env (db_db (m_db m)) (vr_ObjID result) \<noteq> Inr v"
    and "CommitObject env now' m obj result = Returns (m', gossip, code, err)"
  shows "chain_inv env (m_db m') \<and> (err = None \<longrightarrow> tip_max env (m_db m) \<longrightarrow> tip_max env (m_db m'))"
  using CommitObject_chain [OF assms] by simp

theorem commit_keeps_chain_witness:
  "chain_inv mem_env (m_db manager1) \<and> tip_max mem_env (m_db manager1)"
  using commit_keeps_chain [OF mem_ldb_ok(1) mem_hash_ok manager0_inv(1) genesis_in sample_validate _ _ sample_commit]
    manager0_inv(2) by (simp add: genesis_result_def zero_result_def newDatabase_def)

text \<open>
  C3. ValidateTransaction accepts a transaction with a fee exactly when every input names an existing
  output, no outpoint occurs twice or is spent in the mempool, every input is signed by the owner
  of its output, and the fee, inputs minus outputs, is not negative.
\<close>

theorem transaction_accepted_iff:
  "(\<exists>r. ValidateTransaction env m tx = Some r \<and> vr_Error r = None \<and> vr_Fee r = fee) = tx_accepts env m tx fee"
  by (rule ValidateTransaction_iff)

text \<open>
  C4. Block validation implements an abstract ledger. When the block's header is good (not from the
  future, its ID has proof of work, it is the genesis block or its stored parent is a block and
  older) and the current tip is readable or absent, ValidateBlock accepts exactly when the parent
  has a UTXO set and the ledger accepts the transactions on its outputs, and the UTXO set it
  proposes is, read as a partial function, the one of the ledger: each transaction removes the set
  of outpoints it names and adds its outputs, all or nothing, only the first transaction may be a
  coinbase, which takes at most the reward and the fees and is not spent in its own block. When
  the header is not good or the tip cannot be read, it accepts nothing (a panic counts as not
  accepting). Cursors, maps updated in place and the order of Go's maps have no influence.
\<close>

theorem block_refines_ledger:
  "new_outs (ValidateBlock env now m blk) =
    (if tip_readable env m \<and> (\<exists>blockid. header_ok env now m blk blockid)
     then Option.bind (parent_outs env m blk) (\<lambda>(outs, height). ledger_block env m height (elems (blk_Txids blk)) outs)
     else None)"
  by (rule ValidateBlock_ledger)

theorem block_refines_ledger_witness:
  "ledger_block mem_env coin_manager 1 [sample_id 1] Map.empty = Some [key1 \<mapsto> MakeTxOutput pub1 (50 * 10 ^ 12)]"
proof -
  let ?b = "block1\<lparr>blk_CachedID := Some (sample_id 2)\<rparr>"
  have tip: "tip_readable mem_env coin_manager"
    using coin_reads(4) by (simp add: tip_readable_def GetChaintip_Inr [THEN iffD2])
  have "new_outs (ValidateBlock mem_env t0 coin_manager ?b) = Some (gm_get [coin1])"
    using block_validated by (simp add: new_outs_def block_result_def zero_result_def)
  moreover have "parent_outs mem_env coin_manager ?b = Some (Map.empty, 1)"
    using coin_reads(3) by (simp add: parent_outs_def block1_def MakeBlock_def gm_get_def)
  ultimately have "ledger_block mem_env coin_manager 1 (elems (blk_Txids ?b)) Map.empty = Some (gm_get [coin1])"
    using block_refines_ledger [of mem_env t0 coin_manager ?b] tip by (auto split: if_splits)
  moreover have "gm_get [coin1] = [key1 \<mapsto> MakeTxOutput pub1 (50 * 10 ^ 12)]"
    by (auto simp: coin1_def gm_get_def)
  ultimately show ?thesis by (simp add: block1_def MakeBlock_def)
qed

text \<open>
  C5. A block that ValidateBlock accepts is not from the future, its ID meets the proof of work, it is
  the genesis block or its stored parent is older and has a UTXO set, its transactions apply in
  order to that set, its coinbase is at most reward plus fees, and the result proposes the
  resulting set at the parent's height plus one and a new tip exactly when it is higher than the
  current one.
\<close>

theorem block_accepted_rules:
  assumes "ValidateBlock env now m blk = Some r" "vr_Error r = None"
  shows "blk_Created blk \<le> now \<and> (\<exists>blockid utxos height st.
    snd (GetObjectID env (BlockObj blk)) = Inr blockid \<and> VerifyPoW blockid = Inr True \<and>
    (case blk_Previd blk of
       None \<Rightarrow> blockid = genesisHash \<and> utxos = [] \<and> height = 0
     | Some p \<Rightarrow> (\<exists>prev u. getObject env (m_db m) p = Inr (BlockObj prev) \<and> blk_Created prev < blk_Created blk \<and>
         getUTXO env (m_db m) p = Inr u \<and> utxos = us_UTXOs u \<and> height = us_Height u + 1)) \<and>
    block_txs env m zero_result height 0 (elems (blk_Txids blk)) (start_state utxos) = Some (Inr st) \<and>
    cb_value st \<le> BlockRewardBigInt + bs_fees st \<and>
    r = zero_result\<lparr>
       vr_NewUTXOSet := Some \<lparr>us_BlockID = blockid, us_UTXOs = bs_utxos st, us_Height = height\<rparr>,
       vr_NewHeight := height,
       vr_IsNewTip := (case GetChaintip env m of Inl _ \<Rightarrow> True | Inr (_, h) \<Rightarrow> h < height)\<rparr>)"
proof -
  obtain blockid height utxos st where p: "block_passes env now m blk blockid height utxos st"
    and r: "r = zero_result\<lparr>
       vr_NewUTXOSet := Some \<lparr>us_BlockID = blockid, us_UTXOs = bs_utxos st, us_Height = height\<rparr>,
       vr_NewHeight := height,
       vr_IsNewTip := (case GetChaintip env m of Inl _ \<Rightarrow> True | Inr (_, h) \<Rightarrow> h < height)\<rparr>"
    using ValidateBlock_accept [OF assms] .
  have "(case blk_Previd blk of
       None \<Rightarrow> blockid = genesisHash \<and> utxos = [] \<and> height = 0
     | Some p \<Rightarrow> (\<exists>prev u. getObject env (m_db m) p = Inr (BlockObj prev) \<and> blk_Created prev < blk_Created blk \<and>
         getUTXO env (m_db m) p = Inr u \<and> utxos = us_UTXOs u \<and> height = us_Height u + 1))"
    using p by (auto simp: block_passes_def check_parent_None block_start_Inr split: option.splits)
  with p r show ?thesis unfolding block_passes_def by blast
qed

theorem block_accepted_rules_witness:
  "\<exists>r. ValidateBlock mem_env t0 manager0 (genesis\<lparr>blk_CachedID := Some genesisHash\<rparr>) = Some r \<and>
     vr_Error r = None \<and> blk_Created genesis \<le> t0"
proof -
  let ?g = "genesis\<lparr>blk_CachedID := Some genesisHash\<rparr>"
  obtain r where r: "ValidateBlock mem_env t0 manager0 ?g = Some r" "vr_Error r = None"
    using ValidateObject_block [of mem_env t0 manager0 "BlockObj genesis" ?g genesis_result] sample_validate
    by (auto simp: genesis_object_def genesis_result_def zero_result_def)
  then show ?thesis using block_accepted_rules [OF r] by auto
qed

text \<open>
  C6. On a node that keeps the invariant no event loops for ever: neither the mutual recursion of
  acceptObject and resolvePendingBlocks nor the search of a common ancestor, neither of which has
  a bound in the code. The fuel that handleObject passes, one more than the number of waiting
  blocks, is enough.
\<close>

theorem event_ends:
  assumes "ldb_ok env" "hash_ok env" "node_inv env n"
  shows "handle_event env w e n = Panics \<or> (\<exists>n'. handle_event env w e n = Returns n' \<and> node_inv env n')"
  using handle_event_no_loop [OF assms] handle_event_node [OF assms(1,2) _ assms(3)]
  by (cases "handle_event env w e n") blast+

theorem event_ends_witness:
  "\<exists>n'. handle_event mem_env world0 (SocketEvent 0 (Some hello1_text)) node0 = Returns n' \<and> node_inv mem_env n'"
  using event_ends [OF mem_ldb_ok(1) mem_hash_ok node0_inv, of world0 "SocketEvent 0 (Some hello1_text)"] hello_event
  by auto

text \<open>
  C7. What the wallet has sent: the transaction it returns spends outputs of the tip's UTXO set that
  belong to its own key, that no mempool transaction spends and that a stored transaction created,
  each once; its first output is the payment; and the coins it spends are worth exactly its
  outputs and the fee, so that the change is not lost.
\<close>

theorem payment_pays:
  assumes "node_inv env n" "0 \<le> fee" "SendPicabus env wd w target amount fee n = Returns (n', Inr obj)"
  shows "\<exists>tx coins. obj = TxObj tx \<and> spent_keys (elems (tx_Inputs tx)) = Some (map fst coins) \<and> distinct (map fst coins) \<and>
    (\<forall>(key, output) \<in> set coins. (key, output) \<in> set (snd (GetBalance env (nd_mgr n) w)) \<and>
       out_Pubkey output = wl_pubKey w \<and> \<not> IsInputSpent (nd_mgr n) key \<and>
       backed_coin env (m_db (nd_mgr n)) (key, output)) \<and>
    hd (elems (tx_Outputs tx)) = MakeTxOutput target amount \<and>
    (\<Sum>(key, output)\<leftarrow>coins. out_Value output) = (\<Sum>output\<leftarrow>elems (tx_Outputs tx). out_Value output) + fee"
  using assms by (rule node_payment)

theorem payment_pays_witness:
  "\<exists>n' tx coins. SendPicabus mem_env world0 wallet1 pub2 (10 ^ 12) 1000 node3 = Returns (n', Inr (TxObj tx)) \<and>
     spent_keys (elems (tx_Inputs tx)) = Some (map fst coins) \<and> set coins \<subseteq> {coin1} \<and>
     (\<Sum>(key, output)\<leftarrow>coins. out_Value output) = (\<Sum>output\<leftarrow>elems (tx_Outputs tx). out_Value output) + 1000"
proof -
  have "10 ^ 12 + 1000 \<le> fst (GetBalance mem_env (nd_mgr node3) wallet1)"
    by (simp add: node3_inv(2) wallet1_balance)
  from node_payment_succeeds [OF mem_ldb_ok mem_hash_ok wallet1_key(1) node3_inv(1) wallet1_key(2,3) _ _ _ this]
  obtain n' tx where s: "SendPicabus mem_env world0 wallet1 pub2 (10 ^ 12) 1000 node3 = Returns (n', Inr (TxObj tx))"
    by (simp; blast)
  have c: "set (snd (GetBalance mem_env (nd_mgr node3) wallet1)) = {coin1}"
    by (simp add: node3_inv(2) wallet1_balance)
  show ?thesis using payment_pays [OF node3_inv(1) _ s, unfolded c] s by fastforce
qed

text \<open>
  C8. The wallet can spend what it shows: on a node that keeps its invariant, with a store whose
  writes succeed and a key pair that signs, a payment of an amount and a fee that the displayed
  balance covers always returns a transaction, which the node's own validation and commit
  accepted: it is in the mempool with that fee, and the coins it spends count as spent.
\<close>

theorem payment_succeeds:
  assumes "ldb_ok env" "ldb_total env" "hash_ok env" "sign_ok env pub" "node_inv env n"
    and "length (wl_privKey w) = 64" "wl_pubKey w = hex_EncodeToString (pub (wl_privKey w))"
    and "0 \<le> amount" "0 \<le> fee" "0 < amount + fee" "amount + fee \<le> fst (GetBalance env (nd_mgr n) w)"
  shows "\<exists>n' tx oid e. SendPicabus env wd w target amount fee n = Returns (n', Inr (TxObj tx)) \<and>
    hd (elems (tx_Outputs tx)) = MakeTxOutput target amount \<and> tx_CachedID tx = Some oid \<and>
    gm_get (db_mempool (m_db (nd_mgr n'))) oid = Some e \<and> me_Tx e = Some tx \<and> me_Fee e = fee \<and>
    (\<forall>k. entry_spends e k \<longrightarrow> IsInputSpent (nd_mgr n') k)"
  using assms by (rule node_payment_succeeds)

theorem payment_succeeds_witness:
  "\<exists>n' tx. SendPicabus mem_env world0 wallet1 pub2 (10 ^ 12) 1000 node3 = Returns (n', Inr (TxObj tx)) \<and>
     hd (elems (tx_Outputs tx)) = MakeTxOutput pub2 (10 ^ 12)"
proof -
  have "10 ^ 12 + 1000 \<le> fst (GetBalance mem_env (nd_mgr node3) wallet1)"
    by (simp add: node3_inv(2) wallet1_balance)
  from payment_succeeds [OF mem_ldb_ok mem_hash_ok wallet1_key(1) node3_inv(1) wallet1_key(2,3) _ _ _ this]
  show ?thesis by (simp; blast)
qed

text \<open>
  C9. What the user types is paid: on a node that keeps its invariant, with a store whose writes
  succeed and a key pair that signs, the command "send" with a positive amount below 2^52 Picabu
  (about 4503 BU), written with at most 12 decimals, that the shown balance covers together with
  the fee of 0.001 BU, puts a transaction into the mempool that pays the address the alias stands
  for the typed amount, or one Picabu less because of the float64 in between, with that fee.
\<close>

theorem console_payment:
  assumes "ldb_ok env" "ldb_total env" "hash_ok env" "sign_ok env pub" "node_inv env n"
    and "length (wl_privKey w) = 64" "wl_pubKey w = hex_EncodeToString (pub (wl_privKey w))"
    and "list_all is_digit ds" "ds \<noteq> []" "list_all is_digit fs" "length fs \<le> 12"
    and "k = decimal_picabu ds fs" "0 < k" "k < 2 ^ 52"
    and "k + console_fee \<le> fst (GetBalance env (nd_mgr n) w)"
  shows "\<exists>n' t p tx oid e. cmdSend env wd [cmd, target, decimal_text ds fs] w n = Returns (n', t) \<and> (p = k \<or> p = k - 1) \<and>
    hd (elems (tx_Outputs tx)) = MakeTxOutput (ResolveAddress target w) p \<and>
    gm_get (db_mempool (m_db (nd_mgr n'))) oid = Some e \<and> me_Tx e = Some tx \<and> me_Fee e = console_fee"
  using assms by (rule typed_payment)

theorem console_payment_witness:
  "\<exists>n' t p tx oid e. cmdSend mem_env world0 [''send'', pub2, ''4.1''] wallet1 node3 = Returns (n', t) \<and>
     (p = 4100000000000 \<or> p = 4099999999999) \<and> hd (elems (tx_Outputs tx)) = MakeTxOutput pub2 p \<and>
     gm_get (db_mempool (m_db (nd_mgr n'))) oid = Some e \<and> me_Tx e = Some tx"
proof -
  have d: "decimal_text ''4'' ''1'' = ''4.1''" "decimal_picabu ''4'' ''1'' = 4100000000000" by code_simp+
  have t: "ResolveAddress pub2 wallet1 = pub2" by code_simp
  have "4100000000000 + console_fee \<le> fst (GetBalance mem_env (nd_mgr node3) wallet1)"
    by (simp add: node3_inv(2) wallet1_balance console_fee_def NewPicabu_def)
  from console_payment [OF mem_ldb_ok mem_hash_ok wallet1_key(1) node3_inv(1) wallet1_key(2,3) _ _ _ _ d(2) [symmetric] _ _ this,
      of world0 "''send''" pub2, unfolded d t]
  show ?thesis by (simp add: is_digit_def) blast
qed

text \<open>
  C10. An amount typed as a decimal number with up to 12 decimals, positive and below 4503 BU, is read
  and arrives as that many Picabu or as one less, never more; a whole number of BU arrives
  exactly. The detour through float64 costs at most one Picabu.
\<close>

theorem typed_amount:
  assumes "list_all is_digit ds" "ds \<noteq> []" "list_all is_digit fs" "length fs \<le> 12"
    and "0 < decimal_picabu ds fs" "decimal_picabu ds fs < 2 ^ 52"
  shows "\<exists>v p. ParseFloat (decimal_text ds fs) = Some (Fin v) \<and> 0 < v \<and> BuToPicabu (Fin v) = Some p \<and>
    (p = decimal_picabu ds fs \<or> p = decimal_picabu ds fs - 1) \<and> (10 ^ 12 dvd decimal_picabu ds fs \<longrightarrow> p = decimal_picabu ds fs)"
  using assms by (rule decimal_amount)

theorem typed_amount_witness: "\<exists>v. ParseFloat ''25'' = Some (Fin v) \<and> BuToPicabu (Fin v) = Some 25000000000000"
proof -
  have d: "decimal_text ''25'' [] = ''25''" "decimal_picabu ''25'' [] = 25000000000000" by code_simp+
  from typed_amount [of "''25''" "[]", unfolded d] show ?thesis by (auto simp: is_digit_def)
qed

text \<open>
  C11. The text the node sends for a well-formed message other than an object is decoded by
  UnmarshalMessage to exactly that message.
\<close>

theorem message_text_roundtrip:
  assumes "Message_ok msg" "CanonicalizeMessage (Message_json msg) = Some raw"
  shows "UnmarshalMessage raw = Some msg"
  using assms by (rule message_roundtrip)

theorem message_text_roundtrip_witness:
  "\<exists>raw. CanonicalizeMessage (Message_json (GetObjectMsg MSG_GETOBJECT genesisHash)) = Some raw \<and>
     UnmarshalMessage raw = Some (GetObjectMsg MSG_GETOBJECT genesisHash)"
proof -
  let ?m = "GetObjectMsg MSG_GETOBJECT genesisHash"
  have "CanonicalizeMessage (Message_json ?m) \<noteq> None"
    by (simp add: CanonicalizeMessage_def Canonicalize_exact)
  then obtain raw where raw: "CanonicalizeMessage (Message_json ?m) = Some raw" by auto
  moreover have "Message_ok ?m" by (simp add: sample_id_ok)
  ultimately show ?thesis using message_text_roundtrip by blast
qed

text \<open>
  C12. An object message built for an object whose fields are well-formed and whose numbers are all
  below 2^53 (and whose target, in a block, is that of the protocol) is decoded by the receiver to
  the same object without its cached ID, with the canonical text of the object kept. Larger
  numbers are written as float64 and may arrive as others.
\<close>

theorem object_text_roundtrip:
  assumes "sendable obj" "MakeObject obj = Some raw"
  shows "UnmarshalMessage raw = Some (ObjectMsg MSG_OBJECT (Some (sort_members (Object_json obj))) (Some (uncached obj)))"
  using assms by (rule object_roundtrip)

theorem object_text_roundtrip_witness:
  "\<exists>raw. MakeObject (TxObj transaction1) = Some raw \<and>
     UnmarshalMessage raw = Some (ObjectMsg MSG_OBJECT (Some (sort_members (Transaction_json transaction1))) (Some (TxObj transaction1)))"
proof -
  have s: "sendable (TxObj transaction1)"
    using sample_objects by (simp add: transaction1_def MakeTransaction_def)
  then have "MakeObject (TxObj transaction1) \<noteq> None" by (rule MakeObject_total)
  then obtain raw where raw: "MakeObject (TxObj transaction1) = Some raw" by auto
  then show ?thesis
    using object_text_roundtrip [OF s raw] by (simp add: transaction1_def MakeTransaction_def)
qed

text \<open>
  C13. For objects whose numbers are below 2^53 in absolute value, the canonical text, from which the
  ID is hashed, is the same exactly when the objects are equal up to the cached ID.
\<close>

theorem canonical_text_iff:
  assumes "exact_object a" "exact_object b"
  shows "Canonicalize (Object_json a) = Canonicalize (Object_json b) \<longleftrightarrow> uncached a = uncached b"
  using assms by (rule Canonicalize_object_iff)

theorem canonical_text_iff_witness:
  "Canonicalize (Object_json (CoinbaseObj coinbase1)) \<noteq> Canonicalize (Object_json (TxObj transaction1))"
  using canonical_text_iff [OF sample_objects(7,8)] by simp

text \<open>
  C14. Two transactions have the same message for signing exactly when they are equal apart from their
  signatures and cached IDs (numbers below 2^53): the signature covers every input outpoint and
  every output.
\<close>

theorem signed_text_iff:
  assumes "exact_tx a" "exact_tx b"
  shows "TxMessageForSignature a = TxMessageForSignature b \<longleftrightarrow> unsigned a = unsigned b"
  using assms by (rule TxMessage_iff)

theorem signed_text_iff_witness:
  "TxMessageForSignature transaction1 =
     TxMessageForSignature (transaction1\<lparr>tx_CachedID := Some (sample_id 3)\<rparr>)"
  using signed_text_iff [of transaction1 "transaction1\<lparr>tx_CachedID := Some (sample_id 3)\<rparr>"] sample_objects(8)
  by (simp add: exact_object_def exact_tx_def unsigned_def)

text \<open>
  C15. The mempool sweep after a block never panics on a consistent mempool and keeps exactly the
  transactions all of whose inputs are in the UTXO set of the tip; exactly the outpoints that an
  evicted transaction spends no longer count as spent, all others are recorded as before.
\<close>

theorem sweep_exact:
  assumes "mempool_inv (m_db m)" "getChaintip env (m_db m) = Inr (tip, h)" "getUTXO env (m_db m) tip = Inr u"
  shows "\<exists>m'. CleanMempool env m = Some m' \<and> mempool_inv (m_db m') \<and>
    (\<forall>t. gm_get (db_mempool (m_db m')) t = (case gm_get (db_mempool (m_db m)) t of
       None \<Rightarrow> None
     | Some e \<Rightarrow> if \<forall>k. entry_spends e k \<longrightarrow> gm_has (us_UTXOs u) k then Some e else None)) \<and>
    (\<forall>k. gm_get (db_mempoolSpentInputs (m_db m')) k =
       (if \<exists>t e. gm_get (db_mempool (m_db m)) t = Some e \<and> entry_spends e k \<and>
           (\<exists>k'. entry_spends e k' \<and> \<not> gm_has (us_UTXOs u) k') then None
        else gm_get (db_mempoolSpentInputs (m_db m)) k))"
  by (rule CleanMempool_exact [OF assms], rule exI, intro conjI allI)

theorem sweep_exact_witness:
  "\<exists>m'. CleanMempool mem_env manager2 = Some m' \<and> gm_get (db_mempool (m_db m')) (sample_id 3) = None \<and>
     IsInputSpent manager2 key1 \<and> \<not> IsInputSpent m' key1"
proof -
  have u: "getUTXO mem_env (m_db manager2) genesisHash = Inr \<lparr>us_BlockID = genesisHash, us_UTXOs = [], us_Height = 0\<rparr>"
    "getChaintip mem_env (m_db manager2) = Inr (genesisHash, 0)"
    by (simp_all add: manager2_reads manager1_reads)
  have e: "Ex (entry_spends entry1)" using entry1_spends by auto
  from sweep_exact [OF manager2_inv u(2,1)] show ?thesis
    by (auto simp: entry1_spends gm_get_def gm_has_def IsInputSpent_def e)
qed

text \<open>
  C16. After any sequence of new connections, disconnections, bans and mutes the counters of inbound,
  outbound and persistent peers equal the numbers of such peers in the table, every registered
  peer is open and registered under its own address, and at most 15 outbound peers are not
  persistent.
\<close>

theorem conn_counts: "net_inv (run_ops conn_step empty_net es)"
  by (rule conn.inv_reachable)

text \<open>
  C17. For an object ID as Hash produces it, 64 lower case hexadecimal digits, VerifyPoW succeeds and
  its answer is the lexicographic comparison with the target.
\<close>

theorem pow_is_order:
  assumes "list_all is_lower_hex h" "length h = 64"
  shows "VerifyPoW h = Inr (h \<le> TARGET)"
  using assms by (rule VerifyPoW_text)

theorem pow_is_order_witness: "VerifyPoW genesisHash = Inr (genesisHash \<le> TARGET)"
  using pow_is_order [OF sample_id_ok(2)] sample_id_ok(1) by (simp add: HashID_ok_def)

text \<open>
  C18. Whatever object is committed, and however validation judged it, afterwards no two transactions
  of the mempool spend the same outpoint, and the map of spent outpoints names the spending
  transaction for each of them.
\<close>

theorem commit_no_double_spend:
  assumes "mempool_inv (m_db m)" "CommitObject env now m obj result = Returns (m', r)"
  shows "mempool_inv (m_db m') \<and> (\<forall>t t' e e' k. gm_get (db_mempool (m_db m')) t = Some e \<longrightarrow>
    gm_get (db_mempool (m_db m')) t' = Some e' \<longrightarrow> entry_spends e k \<longrightarrow> entry_spends e' k \<longrightarrow> t = t')"
proof -
  have inv: "mempool_inv (m_db m')" by (rule CommitObject_mempool [OF assms(2,1)])
  then show ?thesis using mempool_inv_unique [OF inv] by blast
qed

theorem commit_no_double_spend_witness:
  "\<exists>m' r. CommitObject mem_env t0 manager2 (CoinbaseObj coinbase1) zero_result = Returns (m', r) \<and>
     gm_get (db_mempool (m_db m')) (sample_id 3) = Some entry1 \<and> mempool_inv (m_db m')"
proof -
  obtain d oid where d: "putObject mem_env (m_db manager2) (CoinbaseObj coinbase1) = (d, Inr oid)"
    "db_mempool d = db_mempool (m_db manager2)"
    using sample_ids(2) by (auto simp: putObject_def HashObject_def put_key_def split: option.splits)
  then have c: "CommitObject mem_env t0 manager2 (CoinbaseObj coinbase1) zero_result =
      Returns (upd_db d manager2, False, E_NONE, None)"
    by (simp add: CommitObject_def)
  have "mempool_inv (m_db (upd_db d manager2))"
    using commit_no_double_spend [OF manager2_inv c] by blast
  moreover have "gm_get (db_mempool (m_db (upd_db d manager2))) (sample_id 3) = Some entry1"
    using d(2) by (simp add: gm_get_def)
  ultimately show ?thesis using c by blast
qed

text \<open>
  C19. Before its hello a peer gets nothing done: a text that is not white space and does not decode to
  a hello leaves the Manager, the known peers and every other connection as they are, ends the
  connection, and makes the node write at most one error message, to that peer.
\<close>

theorem handshake_first:
  assumes "net_inv (nd_net n)" "served (nd_net n) p" "\<not> p_handshakeComplete (peer_of n p)" "TrimSpace raw \<noteq> []"
    and "\<And>msg. UnmarshalMessage raw = Some msg \<Longrightarrow> Message_MessageType msg \<noteq> MSG_HELLO"
  shows "\<exists>n' ms. handle_event env w (SocketEvent p (Some raw)) n = Returns n' \<and> nd_mgr n' = nd_mgr n \<and>
    nd_disc n' = nd_disc n \<and> nd_net n' = Disconnect p (nd_net n) \<and> p \<notin> set (GetAll (nd_net n')) \<and>
    nd_out n' = nd_out n @ ms \<and> (ms = [] \<or> (\<exists>c s text. MakeError c s = Some text \<and> ms = [(p, text)]))"
proof -
  obtain ms where ms: "handleMessage env w p raw n = Returns (upd_net (Disconnect p) (n\<lparr>nd_out := nd_out n @ ms\<rparr>))"
    "ms = [] \<or> (\<exists>c s text. MakeError c s = Some text \<and> ms = [(p, text)])"
    using handleMessage_no_hello [OF assms(3-5)] by blast
  have "p \<notin> set (GetAll (Disconnect p (nd_net n)))"
    using Disconnect_closes(1) [OF assms(1,2)] GetAll_iff [OF Disconnect_inv [OF assms(1,2)]] by simp
  with ms assms(2) show ?thesis by (auto simp: initializeSocket_def)
qed

theorem handshake_first_witness:
  "\<exists>n'. handle_event mem_env world0 (SocketEvent 0 (Some getpeers_text)) node0 = Returns n' \<and> 0 \<notin> set (GetAll (nd_net n'))"
  using handshake_first [OF node_invD(2) [OF node0_inv] node_peers(1) _ received_texts(1)]
  by (fastforce simp: node_peers(2) peer0_def received_texts(3))

text \<open>
  C20. A peer that has completed the handshake and sends a block that is not dated in the future and
  whose ID misses the proof of work is disconnected and its host banned, whatever else is wrong
  with the block; the Manager does not change, and a later connection from that host is turned
  away without effect. (A block dated in the future is refused with another error, before its
  proof of work is looked at, and its sender is not banned.)
\<close>

theorem pow_ban:
  assumes "net_inv (nd_net n)" "served (nd_net n) p" "p_handshakeComplete (peer_of n p)"
    and "UnmarshalMessage raw = Some (ObjectMsg t r (Some (BlockObj blk)))"
    and "blk_Created blk \<le> unix w"
    and "snd (GetObjectID env (BlockObj blk)) = Inr blockid" "VerifyPoW blockid = Inr False"
  shows "\<exists>n'. handle_event env w (SocketEvent p (Some raw)) n = Returns n' \<and> nd_mgr n' = nd_mgr n \<and>
    p \<notin> set (GetAll (nd_net n')) \<and>
    (\<forall>w' addr. host_of addr = p_host (peer_of n p) \<longrightarrow> handle_event env w' (Incoming addr) n' = Returns n')"
proof -
  obtain obj result where v: "ValidateObject env (unix w) (nd_mgr n) (fst (GetObjectID env (BlockObj blk))) = Some (obj, result)"
    "vr_ErrorCode result = E_INVALID_BLOCK_POW" by (rule ValidateObject_no_pow [OF assms(5-7)])
  obtain n' where "handleObject env w p (Some (fst (GetObjectID env (BlockObj blk)))) n = Returns n'" "nd_mgr n' = nd_mgr n"
    "IsBanned (net_cm (nd_net n')) (p_host (peer_of n p))" "p \<notin> set (GetAll (nd_net n'))"
    using handleObject_pow [OF assms(1,2) v] .
  moreover from this(3) have "StartServer w' addr n' = n'" if "host_of addr = p_host (peer_of n p)" for w' addr
    using that by (simp add: StartServer_banned)
  ultimately show ?thesis
    using assms(2) handleMessage_object [OF assms(3,4)] by (auto simp: initializeSocket_def)
qed

theorem pow_ban_witness:
  "\<exists>n'. handle_event bad_env world0 (SocketEvent 0 (Some genesis_text)) node2 = Returns n' \<and> 0 \<notin> set (GetAll (nd_net n'))"
proof -
  have "blk_Created genesis \<le> unix world0" by (simp add: t0_def)
  from pow_ban [OF node2_parts(4,2,3) genesis_received this bad_genesis bad_id(2)] show ?thesis by blast
qed

text \<open>
  C21. A received block that misses an object joins, after those that wait already, the blocks that
  wait for that object, with the address of its sender and the time, and the node asks the sender
  for the object, and for nothing else.
\<close>

theorem block_waits:
  assumes "served (nd_net n) p" "p_handshakeComplete (peer_of n p)"
    and "UnmarshalMessage raw = Some (ObjectMsg t r (Some obj))"
    and "ValidateObject env (unix w) (nd_mgr n) (fst (GetObjectID env obj)) = Some (BlockObj blk, result)"
    and "vr_ErrorCode result = E_UNKNOWN_OBJECT" "vr_Error result \<noteq> None"
    and "vr_MissingID result \<noteq> DUMMY_HASH" "HashID_ok (vr_MissingID result)"
    and "w_writes w p" "\<not> p_connClosed (peer_of n p)"
  shows "\<exists>n' reply. handle_event env w (SocketEvent p (Some raw)) n = Returns n' \<and> nd_net n' = nd_net n \<and>
    nd_out n' = nd_out n @ [(p, reply)] \<and>
    UnmarshalMessage reply = Some (GetObjectMsg MSG_GETOBJECT (vr_MissingID result)) \<and>
    gm_get (db_pendingBlocks (m_db (nd_mgr n'))) (vr_MissingID result) =
      Some ((case gm_get (db_pendingBlocks (m_db (nd_mgr n))) (vr_MissingID result) of None \<Rightarrow> [] | Some bs \<Rightarrow> bs) @
        [\<lparr>pb_Block = blk, pb_Timestamp = w_now w, pb_Peer = p_addr (peer_of n p)\<rparr>])"
proof -
  obtain reply where reply: "MakeGetObject (vr_MissingID result) = Some reply"
    "UnmarshalMessage reply = Some (GetObjectMsg MSG_GETOBJECT (vr_MissingID result))"
    using MakeGetObject_reads [OF assms(8)] .
  have "handle_event env w (SocketEvent p (Some raw)) n = handleObject env w p (Some (fst (GetObjectID env obj))) n"
    using handleMessage_object [OF assms(2,3)] assms(1) by (simp add: initializeSocket_def)
  then show ?thesis
    using handleObject_waits [OF assms(4-7,9,10) reply(1)] reply(2) by metis
qed

theorem block_waits_witness:
  "\<exists>n' reply. handle_event mem_env world0 (SocketEvent 0 (Some block1_text)) node2 = Returns n' \<and>
     nd_out n' = nd_out node2 @ [(0, reply)] \<and> gm_get (db_pendingBlocks (m_db (nd_mgr n'))) genesisHash \<noteq> None"
proof -
  obtain blk result where b:
    "ValidateObject mem_env t0 manager0 (fst (GetObjectID mem_env (BlockObj block1))) = Some (BlockObj blk, result)"
    "vr_ErrorCode result = E_UNKNOWN_OBJECT" "vr_Error result \<noteq> None" "vr_MissingID result = genesisHash"
    "genesisHash \<noteq> DUMMY_HASH" using block1_missing .
  then have "ValidateObject mem_env (unix world0) (nd_mgr node2) (fst (GetObjectID mem_env (BlockObj block1))) =
      Some (BlockObj blk, result)" by (simp add: node2_parts(1))
  from block_waits [OF node2_parts(2,3) block1_received this b(2,3), unfolded b(4),
      OF b(5) sample_id_ok(1) world0_simps(1) node2_parts(5)]
  show ?thesis by (auto simp del: handle_event.simps)
qed

text \<open>
  C22. A request, from a peer that has completed the handshake, for an object that the node has and
  whose numbers are all below 2^53 (well-formed, and in a block with the target of the protocol)
  is answered, when the write to the peer succeeds, with one message to the peer that asked that
  decodes to that object; nothing else changes.
\<close>

theorem getobject_reply:
  assumes "served (nd_net n) p" "p_handshakeComplete (peer_of n p)"
    and "UnmarshalMessage raw = Some (GetObjectMsg t oid)"
    and "GetObject env (nd_mgr n) oid = Inr obj" "sendable obj"
    and "w_writes w p" "\<not> p_connClosed (peer_of n p)"
  shows "\<exists>reply. handle_event env w (SocketEvent p (Some raw)) n = Returns (n\<lparr>nd_out := nd_out n @ [(p, reply)]\<rparr>) \<and>
    UnmarshalMessage reply = Some (ObjectMsg MSG_OBJECT (Some (sort_members (Object_json obj))) (Some (uncached obj)))"
proof -
  have "handle_event env w (SocketEvent p (Some raw)) n = Returns (handleGetObject env w p oid n)"
    using handleMessage_getobject [OF assms(2,3)] assms(1) by (simp add: initializeSocket_def)
  then show ?thesis using handleGetObject_found [OF assms(4-7)] by metis
qed

theorem getobject_reply_witness:
  "\<exists>raw reply. handle_event mem_env world0 (SocketEvent 0 (Some raw)) node1 =
      Returns (node1\<lparr>nd_out := nd_out node1 @ [(0, reply)]\<rparr>) \<and>
     UnmarshalMessage reply = Some (ObjectMsg MSG_OBJECT (Some (sort_members (Block_json genesis))) (Some (BlockObj genesis)))"
proof -
  obtain raw where raw: "UnmarshalMessage raw = Some (GetObjectMsg MSG_GETOBJECT genesisHash)"
    using MakeGetObject_reads [OF sample_id_ok(1)] by metis
  have "GetObject mem_env (nd_mgr node1) genesisHash = Inr (BlockObj genesis)"
    by (simp add: GetObject_Inr node_peers(5) manager1_reads(1))
  from getobject_reply [OF node_peers(3) _ raw this genesis_sendable, of world0] show ?thesis
    using raw by (simp add: node_peers(4) peer0_def del: handle_event.simps) blast
qed

text \<open>
  C23. While writes succeed, announcing an object writes one message to every connected peer, no peer
  twice, and the message decodes to the announcement of that object.
\<close>

theorem gossip_everyone:
  assumes "net_inv (nd_net n)" "HashID_ok h" "\<And>p. w_writes w p"
    and "\<And>p. p \<in> set (GetAll (nd_net n)) \<Longrightarrow> \<not> p_connClosed (peer_of n p)"
  shows "\<exists>msg. nd_out (BroadcastIHaveObject w h n) = nd_out n @ map (\<lambda>p. (p, msg)) (GetAll (nd_net n)) \<and>
    distinct (GetAll (nd_net n)) \<and> UnmarshalMessage msg = Some (IHaveObjectMsg MSG_IHAVEOBJECT h)"
  using gossip_all [OF assms] by metis

theorem gossip_everyone_witness:
  "\<exists>msg. nd_out (BroadcastIHaveObject world0 genesisHash node0) = nd_out node0 @ [(0, msg)]"
  using gossip_everyone [OF node_invD(2) [OF node0_inv] sample_id_ok(1) world0_simps(1)]
  by (auto simp: node0_net(1) GetAll_def node_peers(2) peer0_def)

text \<open>
  C24. A well-formed object that putObject stored without error under an ID reads back under that ID,
  which is the hash of its canonical text, without its cached ID; no other key of the store
  changes.
\<close>

theorem stored_object_reads:
  assumes "ldb_ok env" "putObject env d obj = (d', Inr oid)" "Object_ok (uncached obj)"
  shows "HashObject env obj = Inr oid \<and> getObject env d' oid = Inr (uncached obj) \<and>
    (\<forall>k. k \<noteq> oid \<longrightarrow> ldb_get env (db_db d') k = ldb_get env (db_db d) k)"
  using putObject_get [OF assms] by simp

theorem stored_object_reads_witness:
  "\<exists>d'. putObject mem_env (m_db manager1) (TxObj transaction1) = (d', Inr (sample_id 3)) \<and>
     getObject mem_env d' (sample_id 3) = Inr (TxObj transaction1)"
proof -
  obtain d where d: "putObject mem_env (m_db manager1) (TxObj transaction1) = (d, Inr (sample_id 3))"
    using sample_ids(4) by (auto simp: putObject_def HashObject_def put_key_def split: option.splits)
  moreover have "uncached (TxObj transaction1) = TxObj transaction1"
    by (simp add: transaction1_def MakeTransaction_def)
  ultimately show ?thesis
    using stored_object_reads [OF mem_ldb_ok(1) d] sample_objects(4) by simp
qed

text \<open>
  C25. After the UTXO set of a block, the chain tip and a fee were written in this order without error,
  all three read back with the same contents, although they share one store.
\<close>

theorem stored_state_reads:
  assumes "ldb_ok env" "UTXOSet_ok u" "HashID_ok t"
    and "putUTXO env d b u = (d1, None)" "putChaintip env d1 t h = (d2, None)" "putFee env d2 x fee = (d3, None)"
  shows "getUTXO env d3 b = Inr (u\<lparr>us_UTXOs := rev (us_UTXOs u)\<rparr>) \<and> getChaintip env d3 = Inr (t, h) \<and>
    getFee env d3 x = Inr fee"
proof -
  note u = putUTXO_get [OF assms(1,4,2)] and c = putChaintip_get [OF assms(1,5,3)] and f = putFee_get [OF assms(1,6)]
  have "getUTXO env d3 b = getUTXO env d1 b" by (rule getUTXO_cong) (simp add: c(2) f(2))
  moreover have "getChaintip env d3 = getChaintip env d2" by (rule getChaintip_cong) (simp add: f(2))
  ultimately show ?thesis using u c(1) f(1) by simp
qed

theorem stored_state_reads_witness:
  "\<exists>d1 d2 d3. putUTXO mem_env (newDatabase []) genesisHash \<lparr>us_BlockID = genesisHash, us_UTXOs = [], us_Height = 0\<rparr> = (d1, None) \<and>
     putChaintip mem_env d1 genesisHash 0 = (d2, None) \<and> putFee mem_env d2 genesisHash 7 = (d3, None) \<and>
     getFee mem_env d3 genesisHash = Inr 7"
proof -
  let ?u = "\<lparr>us_BlockID = genesisHash, us_UTXOs = [], us_Height = 0\<rparr>"
  have u: "UTXOSet_ok ?u" by (simp add: UTXOSet_ok_def sample_id_ok)
  obtain d1 where d1: "putUTXO mem_env (newDatabase []) genesisHash ?u = (d1, None)"
    by (simp add: putUTXO_def put_key_def)
  obtain d2 where d2: "putChaintip mem_env d1 genesisHash 0 = (d2, None)"
    by (simp add: putChaintip_def put_key_def)
  obtain d3 where d3: "putFee mem_env d2 genesisHash 7 = (d3, None)"
    by (simp add: putFee_def put_key_def)
  show ?thesis
    using stored_state_reads [OF mem_ldb_ok(1) u sample_id_ok(1) d1 d2 d3] d1 d2 d3 by blast
qed

text \<open>
  C26. Banning a name closes and removes every connected peer whose host or agent is that name, leaves
  every other connection as it was, and marks the name as banned; the counters stay right.
\<close>

theorem ban_effect:
  assumes "net_inv n"
  shows "net_inv (BanPeer target n) \<and> IsBanned (net_cm (BanPeer target n)) target \<and>
    (\<forall>a p. gm_get (cm_peers (net_cm (BanPeer target n))) a = Some p \<longleftrightarrow>
       gm_get (cm_peers (net_cm n)) a = Some p \<and> p_host (net_heap n ! p) \<noteq> target \<and> p_agent (net_heap n ! p) \<noteq> target) \<and>
    (\<forall>a p. gm_get (cm_peers (net_cm (BanPeer target n))) a = Some p \<longrightarrow>
       net_heap (BanPeer target n) ! p = net_heap n ! p)"
  using BanPeer_effect [OF assms] by blast

theorem ban_effect_witness:
  "IsBanned (net_cm (BanPeer ''evil'' (run_ops conn_step empty_net [OpNewPeer ''1.2.3.4:18018'' Inbound False]))) ''evil''"
  using ban_effect [OF conn.inv_reachable] by blast

text \<open>
  C27. What sanitizePeer keeps of a received peer address is the text of a public IP address of either
  family, or a dotted name that is not localhost, with a port from 1 to 65535; and sanitizing it
  again does not change it. So an address that a node has kept and passes on is kept unchanged by
  its peers.
\<close>

theorem sanitize_idempotent:
  "sanitizePeer (sanitizePeer p) = sanitizePeer p \<and>
   (sanitizePeer p = PEER_INVALID \<or>
     (\<exists>host port n. sanitizePeer p = JoinHostPort host port \<and> Atoi port = Some n \<and> 0 < n \<and> n \<le> 65535 \<and>
       ((\<exists>a. ip_ok a \<and> public_ip a \<and> host = IP_String a) \<or>
        (domainRegex host \<and> fold_runes host \<noteq> ''localhost'' \<and> ParseIP host = None))))"
  using sanitizePeer_idem sanitizePeer_kept [of p] unfolding kept_host_def by metis

text \<open>
  C28. What a console command can touch: only "send" changes the database (objects, UTXO sets, mempool,
  chain tip), only "send", "connect" and "sync" write to a peer, and no command changes the
  wallet's keys.
\<close>

theorem console_scope:
  assumes "net_inv (nd_net n)" "executeCommand env wd cpus cmd args n w = Returns (ex, n', w', t)"
  shows "(cmd \<noteq> ''send'' \<longrightarrow> m_db (nd_mgr n') = m_db (nd_mgr n)) \<and>
    (cmd \<notin> {''send'', ''connect'', ''sync''} \<longrightarrow> nd_out n' = nd_out n) \<and>
    wl_privKey w' = wl_privKey w \<and> wl_pubKey w' = wl_pubKey w"
  using assms by (rule command_scope)

theorem console_scope_witness:
  "\<exists>n' t. executeCommand mem_env world0 8 ''ban'' [''ban'', ''5.6.7.8''] node3 wallet1 = Returns (False, n', wallet1, t) \<and>
     m_db (nd_mgr n') = m_db (nd_mgr node3) \<and> nd_out n' = nd_out node3"
proof -
  obtain n' t where e: "executeCommand mem_env world0 8 ''ban'' [''ban'', ''5.6.7.8''] node3 wallet1 = Returns (False, n', wallet1, t)"
    by (simp add: executeCommand_def cmdBan_def Let_def)
  have "net_inv (nd_net node3)" using node3_inv(1) by (simp add: node_inv_def)
  from console_scope [OF this e] show ?thesis using e by simp
qed

text \<open>
  C29. After a sweep every owner of an unspent output of the tip has a name, a name that was given
  keeps standing in the display, every new name resolves to the key it was made for, and the sweep
  counts exactly the owners that had none.
\<close>

theorem sweep_gives_names:
  assumes "GetChaintip env m = Inr (tip, h)" "GetUTXO env m tip = Inr u" "AutoAliasUTXOs env m w = (w', found)"
  shows "(\<forall>(key, output) \<in> set (us_UTXOs u). \<exists>name. gm_get (wl_reverseLookup w') (out_Pubkey output) = Some name \<and>
      (\<not> gm_has (wl_reverseLookup w) (out_Pubkey output) \<longrightarrow> ResolveAddress name w' = out_Pubkey output)) \<and>
    (\<forall>pk name. gm_get (wl_reverseLookup w) pk = Some name \<longrightarrow> gm_get (wl_reverseLookup w') pk = Some name) \<and>
    found = card {pk \<in> (out_Pubkey \<circ> snd) ` set (us_UTXOs u). \<not> gm_has (wl_reverseLookup w) pk}"
  using assms by (rule sweep_names)

theorem sweep_gives_names_witness:
  "\<exists>w' name. AutoAliasUTXOs mem_env manager3 (New_Wallet [] pub2) = (w', 1) \<and>
     gm_get (wl_reverseLookup w') pub1 = Some name \<and> ResolveAddress name w' = pub1"
proof -
  let ?w = "New_Wallet [] pub2"
  obtain tip h u where t: "GetChaintip mem_env manager3 = Inr (tip, h)" "GetUTXO mem_env manager3 tip = Inr u"
    "us_UTXOs u = [coin1]"
    using manager3_utxos by (auto simp: active_utxos_def split: sum.splits)
  obtain w' found where s: "AutoAliasUTXOs mem_env manager3 ?w = (w', found)" by fastforce
  have new: "\<not> gm_has (wl_reverseLookup ?w) pub1"
    by (simp add: New_Wallet_def AddAlias_def gm_has_def pub1_def pub2_def)
  have c: "{pk. pk = pub1 \<and> \<not> gm_has (wl_reverseLookup ?w) pk} = {pub1}" using new by auto
  have u: "us_UTXOs u = [(key1, MakeTxOutput pub1 (50 * 10 ^ 12))]" using t(3) by (simp add: coin1_def)
  from sweep_gives_names [OF t(1,2) s] show ?thesis using s new c by (auto simp: u MakeTxOutput_def)
qed

text \<open>
  C30. The terminal interface never indexes its history out of range: every key keeps the index between
  0 and the length of the history, and the program can only panic on a key when the command on the
  entered line panics.
\<close>

theorem keys_safe:
  assumes "tui_ok t"
  shows "(\<forall>ex t' n' w'. tui_key env wd cpus writer k t n w = Returns (ex, t', n', w') \<longrightarrow> tui_ok t') \<and>
    (tui_key env wd cpus writer k t n w = Panics \<longrightarrow>
      (\<exists>cmd args. Fields (ui_input t) = cmd # args \<and> executeCommand env wd cpus (ToLower cmd) (cmd # args) n w = Panics))"
  using tui_key_safe [OF assms] by metis

theorem keys_safe_witness:
  "\<exists>t'. tui_key mem_env world0 8 (\<lambda>s. s) KeyUp (remember ''help'' tui_start) node3 wallet1 = Returns (False, t', node3, wallet1) \<and>
     tui_ok t' \<and> ui_input t' = ''help''"
proof -
  let ?t = "remember ''help'' tui_start"
  have "tui_ok ?t" by (simp add: tui_ok_def remember_def tui_start_def Let_def)
  note k = keys_safe [OF this, of mem_env world0 8 "\<lambda>s. s" KeyUp node3 wallet1]
  obtain t' where "key_up ?t = Some t'" "ui_input t' = ''help''" using enter_up by metis
  then have e: "tui_key mem_env world0 8 (\<lambda>s. s) KeyUp ?t node3 wallet1 = Returns (False, t', node3, wallet1)"
    by (simp add: tui_key_def of_panic_def)
  show ?thesis using k [THEN conjunct1, rule_format, OF e] e \<open>ui_input t' = ''help''\<close> by blast
qed

text \<open>
  C31. In a store that keeps the chain invariant, the walk of GetMiningHistory from the tip returns
  without error, although its loop has no bound, and counts at most one block per height.
\<close>

theorem history_ends:
  assumes "chain_inv env (m_db m)" "getChaintip env (m_db m) = Inr (tip, h)"
  shows "\<exists>s. GetMiningHistory env m k = Some (s, None) \<and> ms_BlocksMined s \<le> unat h + 1"
proof -
  obtain u where u: "HashID_ok tip" "getUTXO env (m_db m) tip = Inr u" "us_Height u = h"
    using chain_invD(3) [OF assms] by blast
  have "GetChaintip env m = Inr (tip, h)" using assms(2) by (simp add: GetChaintip_Inr)
  then show ?thesis
    using history_walk_ends [OF assms(1) u(1,2), of k "\<lparr>ms_BlocksMined = 0, ms_TotalReward = NewPicabu 0\<rparr>"] u(3)
    by (auto simp: GetMiningHistory_def Let_def)
qed

theorem history_ends_witness: "\<exists>s. GetMiningHistory mem_env manager1 pub1 = Some (s, None) \<and> ms_BlocksMined s \<le> 1"
  using history_ends [OF manager1_inv(1) manager1_reads(3)] by simp

text \<open>
  C32. In a store that keeps the chain invariant, the search of HandleReorg for the common ancestor of
  two blocks with UTXO sets ends without a panic and yields the two branches: the first list holds
  the blocks from the old tip down, each followed by its parent, to the last one before a common
  ancestor, the second the same from the new tip to the same ancestor; no block is in both lists
  or twice in one, and the ancestor is in neither, so that it is the nearest common one.
\<close>

theorem ancestor_found:
  assumes "chain_inv env (m_db m)" "HashID_ok a" "HashID_ok b"
    and "getUTXO env (m_db m) a = Inr u" "getUTXO env (m_db m) b = Inr v"
  shows "\<exists>dead new c. reorg_walk env m a b [] [] = Some (WalkDone dead new) \<and>
    branch env m a dead c \<and> branch env m b new c \<and> distinct (dead @ new @ [c])"
  using reorg_walk_branches [OF assms, of "[]" "[]"] by auto

theorem ancestor_found_witness:
  "reorg_walk mem_env manager3 (sample_id 2) genesisHash [] [] = Some (WalkDone [sample_id 2] [])"
proof -
  have "chain_inv mem_env (m_db manager3)" using manager3_inv by (simp add: mgr_inv_def)
  from ancestor_found [OF this sample_id_ok(5,1) manager3_reads(1,3)] obtain dead new c where
    w: "reorg_walk mem_env manager3 (sample_id 2) genesisHash [] [] = Some (WalkDone dead new)"
    "branch mem_env manager3 (sample_id 2) dead c" "branch mem_env manager3 genesisHash new c" by blast
  have root: "branch mem_env manager3 genesisHash xs x \<longleftrightarrow> xs = [] \<and> x = genesisHash" for xs x
    by (cases xs) (auto simp: manager3_parents)
  have "new = []" "c = genesisHash" using w(3) by (simp_all add: root)
  moreover from this have "dead = [sample_id 2]"
    using w(2) by (cases dead) (simp_all add: manager3_parents root)
  ultimately show ?thesis using w(1) by simp
qed

text \<open>
  C33. When a block that does not extend the current tip becomes the new tip, commitBlock leaves the
  mempool and its spent outpoints exactly as they were: the reorganisation is handled with an
  empty old tip and does nothing.
\<close>

theorem reorg_skipped:
  assumes "ldb_ok env" "\<And>u. getUTXO env (m_db m) [] \<noteq> Inr u" "vr_ObjID result \<noteq> []"
    and "vr_IsNewTip result" "blk_Previd blk = Some p" "GetChaintip env m = Inr (old, h)" "old \<noteq> p"
    and "commitBlock env now m blk result = Returns (m', r)"
  shows "db_mempool (m_db m') = db_mempool (m_db m) \<and> db_mempoolSpentInputs (m_db m') = db_mempoolSpentInputs (m_db m)"
  using assms by (rule commitBlock_reorg)

theorem reorg_skipped_witness:
  "\<exists>m' r. commitBlock mem_env t0 manager2 (block1\<lparr>blk_Previd := Some (sample_id 9)\<rparr>)
       (zero_result\<lparr>vr_ObjID := sample_id 2, vr_IsNewTip := True, vr_NewHeight := 1\<rparr>) = Returns (m', r) \<and>
     gm_get (db_mempool (m_db m')) (sample_id 3) = Some entry1"
proof -
  let ?blk = "block1\<lparr>blk_Previd := Some (sample_id 9)\<rparr>"
    and ?r = "zero_result\<lparr>vr_ObjID := sample_id 2, vr_IsNewTip := True, vr_NewHeight := 1\<rparr>"
  have no: "getUTXO mem_env (m_db m) [] \<noteq> Inr u" if "m = manager2" for m u
    using that chain_invD(4) [OF manager1_inv(1), of "[]" u] by (auto simp: manager2_reads HashID_ok_def)
  have tip: "GetChaintip mem_env manager2 = Inr (genesisHash, 0)"
    by (simp add: GetChaintip_Inr manager2_reads manager1_reads)
  have differ: "genesisHash \<noteq> sample_id 9" "sample_id 2 \<noteq> []" by code_simp+
  obtain d e where d: "putChaintip mem_env (m_db manager2) (sample_id 2) 1 = (d, e)" by fastforce
  have e: "e = None" using d by (auto simp: putChaintip_def put_key_def)
  have same: "getUTXO mem_env d [] = getUTXO mem_env (m_db manager2) []"
    by (rule getUTXO_cong) (use d in \<open>auto simp: putChaintip_def put_key_def\<close>)
  have "HandleReorg mem_env t0 (call_minerCancel (upd_db d manager2)) [] (sample_id 2) =
      Returns (call_minerCancel (upd_db d manager2))"
    by (rule HandleReorg_empty) (use same no [OF refl] differ(2) in simp_all)
  then have c: "commitBlock mem_env t0 manager2 ?blk ?r =
      Returns (call_minerCancel (upd_db d manager2), True, E_NONE, None)"
    using tip differ(1) d e
    by (simp add: commitBlock_def update_tip_def zero_result_def upd_db_def Let_def)
  have "db_mempool (m_db (call_minerCancel (upd_db d manager2))) = db_mempool (m_db manager2)"
    using reorg_skipped [OF mem_ldb_ok(1) no [OF refl] _ _ _ tip differ(1) c] differ(2) by simp
  then have "gm_get (db_mempool (m_db (call_minerCancel (upd_db d manager2)))) (sample_id 3) = Some entry1"
    by (simp add: gm_get_def)
  then show ?thesis using c by blast
qed

text \<open>
  C34. Removing a transaction from the mempool never frees an outpoint: the map of spent outpoints is
  unchanged, because the entry is deleted before it is looked up. Its outpoints stay unspendable
  for new transactions.
\<close>

theorem remove_keeps_spent:
  assumes "removeMempoolEntry env d txid = Some (d', e)"
  shows "db_mempoolSpentInputs d' = db_mempoolSpentInputs d"
  using assms by (rule removeMempoolEntry_spent)

theorem remove_keeps_spent_witness:
  "\<exists>d' e. removeMempoolEntry mem_env (m_db manager2) (sample_id 3) = Some (d', e) \<and>
     gm_get (db_mempool d') (sample_id 3) = None \<and> gm_get (db_mempoolSpentInputs d') key1 = Some (sample_id 3)"
proof -
  obtain d' e where r: "removeMempoolEntry mem_env (m_db manager2) (sample_id 3) = Some (d', e)"
    "gm_get (db_mempool d') (sample_id 3) = None"
    by (simp add: removeMempoolEntry_def delete_key_def)
  then show ?thesis using remove_keeps_spent [OF r(1)] by (auto simp: gm_get_def)
qed

text \<open>
  C35. When every mempool key of the store holds a text that the node wrote for some entry, loadMempool
  returns no entry at all: the fee is written as an empty object, which does not decode. The
  mempool does not survive a restart.
\<close>

theorem saved_entry_unreadable:
  assumes "\<And>k v. (k, v) \<in> set (fst (ldb_iter env (db_db d))) \<Longrightarrow> take 8 k = ''mempool-'' \<Longrightarrow>
    \<exists>e. v = print_json (MempoolEntry_json env e)"
  shows "elems (fst (loadMempool env d)) = []"
  using assms by (rule loadMempool_saved)

theorem saved_entry_unreadable_witness:
  "elems (fst (loadMempool mem_env (newDatabase [(mempoolKey (sample_id 3), print_json (MempoolEntry_json mem_env entry1))]))) = []"
  by (rule saved_entry_unreadable) (auto simp: newDatabase_def)

text \<open>
  C36. A hello without an agent, which the decoder accepts, makes the node panic unless the peer is
  banned: handleHello dereferences the missing agent for its log line.
\<close>

theorem hello_without_agent:
  assumes "served (nd_net n) p" "UnmarshalMessage raw = Some (HelloMsg t v None)"
    and "\<not> IsBanned (net_cm (nd_net n)) (p_host (peer_of n p))" "\<not> IsBanned (net_cm (nd_net n)) (p_addr (peer_of n p))"
    and "\<not> IsBanned (net_cm (nd_net n)) ''unknown''"
  shows "handle_event env w (SocketEvent p (Some raw)) n = Panics"
  using assms received_nonempty [OF assms(2)]
  by (simp add: initializeSocket_def handleMessage_def log_detail_def handleHello_def Let_def)

theorem hello_without_agent_witness:
  "handle_event mem_env world0 (SocketEvent 0 (Some hello_text)) node0 = Panics"
  by (rule hello_without_agent [OF node_peers(1) received_texts(4)])
    (simp_all add: node0_net(1) IsBanned_def NewConnectionManager_def gm_get_def)

text \<open>
  C37. Above 2^53 the canonical text does not tell all values apart: for every odd output value between
  2^53 and 2^1023 there is an even one, the float64 it is rounded to, so that two transactions
  that differ only in one output, which has the odd value in one and the even value in the other,
  have the same message for signing and the same object ID. For 2^53+1 picabu the other value is
  2^53.
\<close>

theorem canonical_collision:
  assumes "odd v" "2 ^ 53 < v" "v < 2 ^ 1023"
  shows "\<exists>w. even w \<and> f64_of_int v = Some w \<and>
    (\<forall>ins pre pk post. let tx = \<lambda>value. MakeTransaction ins (Some (pre @ MakeTxOutput pk value # post)) in
       TxMessageForSignature (tx v) = TxMessageForSignature (tx w) \<and>
       HashObject env (TxObj (tx v)) = HashObject env (TxObj (tx w)))"
proof -
  obtain w where w: "even w" "f64_of_int v = Some w" "f64_of_int w = Some w" by (rule f64_of_int_odd [OF assms])
  then have f: "f64_of_int v = f64_of_int w" by simp
  show ?thesis
    by (rule exI [of _ w], intro conjI allI)
      (simp_all only: w Let_def simp_thms TxMessage_value_cong [OF f] HashObject_def Object_json.simps Canonicalize_value_cong [OF f])
qed

theorem canonical_collision_witness:
  "TxMessageForSignature (MakeTransaction None (Some [MakeTxOutput pub1 (2 ^ 53 + 1)])) =
     TxMessageForSignature (MakeTransaction None (Some [MakeTxOutput pub1 (2 ^ 53)]))"
proof -
  have f: "f64_of_int (2 ^ 53 + 1) = Some (2 ^ 53)" by (simp add: f64_of_int_def f64_round_def bitlen.simps)
  have v: "odd (2 ^ 53 + 1 :: int)" "(2 ^ 53 :: int) < 2 ^ 53 + 1" "(2 ^ 53 + 1 :: int) < 2 ^ 1023" by simp_all
  from canonical_collision [OF v, of mem_env, unfolded f Let_def] obtain w where "Some (2 ^ 53) = Some (w :: int)"
    "\<forall>ins pre pk post. TxMessageForSignature (MakeTransaction ins (Some (pre @ MakeTxOutput pk (2 ^ 53 + 1) # post))) =
       TxMessageForSignature (MakeTransaction ins (Some (pre @ MakeTxOutput pk w # post)))" by blast
  then show ?thesis by (metis append_Nil option.inject)
qed

text \<open>
  C38. SelectRecentPeers returns distinct known addresses that are not ignored, as many as asked for or
  all there are, whatever the random permutation.
\<close>

theorem recent_selection:
  assumes "gm_wf (ds_KnownPeers s)" "is_perm (length (valid_peers ignoreIPs s) - recent_count n) perm"
  shows "distinct (SelectRecentPeers perm n ignoreIPs s) \<and>
    length (SelectRecentPeers perm n ignoreIPs s) = min n (length (valid_peers ignoreIPs s)) \<and>
    (\<forall>p \<in> set (SelectRecentPeers perm n ignoreIPs s).
       gm_has (ds_KnownPeers s) p \<and> p \<noteq> PEER_INVALID \<and> gm_get ignoreIPs p \<noteq> Some True)"
  using SelectRecentPeers_props [OF assms] by blast

theorem recent_selection_witness: "length (SelectRecentPeers [1, 0] 2 [] sample_discovery) = 2"
  using recent_selection [of sample_discovery "[]" 2 "[1, 0]"]
  by (simp add: sample_discovery_def valid_peers_def gm_wf_def recent_count_def is_perm_def PEER_INVALID_def gm_get_def)

text \<open>
  C39. A whole round of mining on the tip, with no message in between: the block of the job with the
  nonce a worker found, its coinbase stored without error, is accepted by the node's own
  validation as a new tip one higher. The conditions: chain and mempool keep their invariants;
  every mempool entry is kept under its own ID, its transaction is the stored one and spends
  distinct outputs of the tip's UTXO set, and its recorded fee is not negative and is its inputs
  minus its outputs; the tip is older than the block and the clock does not go back and is below
  2^53; the coinbase's ID is not in the store yet, and the UTXO set has no outputs of the block's
  own transactions; the miner's key is well-formed, and the agent's name does not contain the 64
  letters that stand for the nonce in the template.
\<close>

theorem mined_block_accepted:
  assumes "ldb_ok env" "hash_ok env" "chain_inv env (m_db m)" "mempool_inv (m_db m)"
    and "GetChaintip env m = Inr (tip, h)" "getUTXO env (m_db m) tip = Inr u"
    and "getObject env (m_db m) tip = Inr (BlockObj prev)" "blk_Created prev < now" "exact_int now"
    and "\<And>t e. gm_get (db_mempool (m_db m)) t = Some e \<Longrightarrow>
        me_TxID e = t \<and> 0 \<le> me_Fee e \<and> entry_fits env m (us_UTXOs u) e"
    and "HashID_ok (mn_Pubkey mn)" "\<not> sublist DUMMY_HASH (cfg_AgentName (Config m))"
    and "Mine_job env now m mn = Some (Inr j)"
    and "mineWorker env stop random (job_template j) (job_offset j) (nat TARGET_BIGINT) = Some (FoundNonce s, hs)"
    and "\<And>k. gm_has (us_UTXOs u) k \<Longrightarrow> key_Txid k \<notin> set (elems (blk_Txids (job_block j)))"
      "\<And>oid v. HashObject env (CoinbaseObj (job_coinbase j)) = Inr oid \<Longrightarrow> ldb_get env (db_db (m_db m)) oid \<noteq> Inr v"
    and "StoreObject env m (CoinbaseObj (job_coinbase j)) = (m', None)" "now \<le> now'"
  shows "\<exists>obj r. ValidateObject env now' m' (BlockObj ((job_block j)\<lparr>blk_Nonce := s\<rparr>)) = Some (obj, r) \<and>
    vr_Error r = None \<and> vr_IsNewTip r \<and> vr_NewHeight r = h + 1"
  using assms by (rule mined_block_valid)

theorem mined_block_accepted_witness:
  "\<exists>j s m obj r. Mine_job mine_env t0 manager4 miner4 = Some (Inr j) \<and>
     blk_Txids (job_block j) = Some [sample_id 4, sample_id 3] \<and>
     ValidateObject mine_env t0 m (BlockObj ((job_block j)\<lparr>blk_Nonce := s\<rparr>)) = Some (obj, r) \<and>
     vr_Error r = None \<and> vr_IsNewTip r \<and> vr_NewHeight r = 2"
proof -
  obtain j s hs where j: "Mine_job mine_env t0 manager4 miner4 = Some (Inr j)"
    "job_block j = block4\<lparr>blk_Nonce := DUMMY_HASH\<rparr>" "job_coinbase j = coinbase4'"
    "mineWorker mine_env (\<lambda>_. False) (replicate 32 CHR 0x00) (job_template j) (job_offset j) (nat TARGET_BIGINT) =
       Some (FoundNonce s, hs)" by (rule round4)
  have ids: "blk_Txids (job_block j) = Some [sample_id 4, sample_id 3]" by (simp add: j(2) block4_def)
  obtain m where m: "StoreObject mine_env manager4 (CoinbaseObj coinbase4') = (m, None)" by (rule store4)
  have "\<exists>obj r. ValidateObject mine_env t0 m (BlockObj ((job_block j)\<lparr>blk_Nonce := s\<rparr>)) = Some (obj, r) \<and>
      vr_Error r = None \<and> vr_IsNewTip r \<and> vr_NewHeight r = 1 + 1"
  proof (rule mined_block_accepted [OF mine_env_ok manager4_inv manager4_reads(2,1,3) _ t0_exact _ _ agent4 j(1,4)])
    show "blk_Created block1 < t0" by (simp add: block1_def MakeBlock_def t0_def)
    show "StoreObject mine_env manager4 (CoinbaseObj (job_coinbase j)) = (m, None)" using m j(3) by simp
    show "me_TxID e = t \<and> 0 \<le> me_Fee e \<and>
        entry_fits mine_env manager4 (us_UTXOs \<lparr>us_BlockID = sample_id 2, us_UTXOs = [coin1], us_Height = 1\<rparr>) e"
      if "gm_get (db_mempool (m_db manager4)) t = Some e" for t e
      using that entry1_fits by (auto simp: manager4_def gm_get_def entry1_def split: if_splits)
    show "ldb_get mine_env (db_db (m_db manager4)) oid \<noteq> Inr v"
      if "HashObject mine_env (CoinbaseObj (job_coinbase j)) = Inr oid" for oid v
      using that j(3) coinbase4_id [of "Some (sample_id 4)"] fresh4(2) by (simp add: coinbase4'_def)
    show "key_Txid k \<notin> set (elems (blk_Txids (job_block j)))"
      if "gm_has (us_UTXOs \<lparr>us_BlockID = sample_id 2, us_UTXOs = [coin1], us_Height = 1\<rparr>) k" for k
      using that sample_id_3(1,6) [symmetric]
      by (auto simp: ids gm_has_def gm_get_def coin1_def key1_def split: if_splits)
  qed (simp_all add: miner4_def New_def sample_texts)
  then show ?thesis using j(1) ids by auto
qed

text \<open>
  C40. The nonce text a worker reports is a well-formed nonce, and the block with this nonce has
  exactly the hash the worker compared with the target, though the worker only patched bytes of
  the canonical text: the block's ID has proof of work.
\<close>

theorem nonce_has_pow:
  assumes "Mine_job env now m mn = Some (Inr j)"
    and "mineWorker env stop random (job_template j) (job_offset j) (nat TARGET_BIGINT) = Some (FoundNonce s, hs)"
    and "exact_int now" "\<not> sublist DUMMY_HASH (cfg_AgentName (Config m))" "hash_ok env"
  shows "Nonce_ok s \<and> (\<exists>oid. GetObjectID env (BlockObj ((job_block j)\<lparr>blk_Nonce := s\<rparr>)) =
      (BlockObj ((job_block j)\<lparr>blk_Nonce := s, blk_CachedID := Some oid\<rparr>), Inr oid) \<and> VerifyPoW oid = Inr True)"
  using assms by (rule found_nonce)

theorem nonce_has_pow_witness:
  "\<exists>j s oid. Mine_job mem_env t0 manager1 miner1 = Some (Inr j) \<and> Nonce_ok s \<and>
     snd (GetObjectID mem_env (BlockObj ((job_block j)\<lparr>blk_Nonce := s\<rparr>))) = Inr oid \<and> VerifyPoW oid = Inr True"
proof -
  obtain j s hs where j: "Mine_job mem_env t0 manager1 miner1 = Some (Inr j)"
    "mineWorker mem_env (\<lambda>_. False) (replicate 32 CHR 0x00) (job_template j) (job_offset j) (nat TARGET_BIGINT) =
       Some (FoundNonce s, hs)" by (rule round2)
  from nonce_has_pow [OF j t0_exact agent_no_dummy mem_hash_ok] show ?thesis using j(1) by auto
qed

end
